(* ===== verification/Kaizen_Prelude.thy ===== *)
theory Kaizen_Prelude imports
  Main
  "HOL-Library.AList"
  "HOL-Library.Char_ord"
  "HOL-Library.List_Lexorder"
  "HOL-Library.Product_Lexorder"
begin

text \<open>
  Shared vocabulary of the development: ordered strings and tuples (Python compares
  \<open>str\<close> and \<open>tuple\<close> lexicographically, and so do the imported list and product
  orders), association lists as Python dictionaries (insertion ordered, updated in place by
  \<^const>\<open>AList.update\<close>), and the three loop shapes the code uses again and again: keep
  the element with the greatest key, keep it per group, and keep the first occurrence per key.
\<close>

section \<open>Collections of rewrite rules\<close>

named_theorems kz_defs "definitions of the model that evaluation unfolds"
named_theorems kz_dict "lookups in updated dictionaries"

section \<open>Options and dictionaries\<close>

definition opt_str :: "string option \<Rightarrow> string" where
  "opt_str x = (case x of None \<Rightarrow> [] | Some s \<Rightarrow> s)"

lemma opt_str_simps [simp]: "opt_str None = []" "opt_str (Some s) = s"
  by (simp_all add: opt_str_def)

lemma map_of_update [kz_dict, simp]:
  "map_of (AList.update k v d) x = (if x = k then Some v else map_of d x)"
  by (simp add: update_conv')

lemma keys_update: "fst ` set (AList.update k v d) = insert k (fst ` set d)"
  using dom_update [of k v d] by (simp add: dom_map_of_conv_image_fst)

lemma distinct_keys_update: "distinct (map fst d) \<Longrightarrow> distinct (map fst (AList.update k v d))"
  by (rule distinct_update)

text \<open>A stable sort does not change what a dictionary maps its keys to.\<close>

lemma map_of_filter_fst: "map_of d k = map_of (filter (\<lambda>p. fst p = k) d) k"
  by (induction d) auto

lemma map_of_sort_key_fst [kz_dict]:
  fixes d :: "('k::linorder \<times> 'v) list"
  shows "map_of (sort_key fst d) k = map_of d k"
  using map_of_filter_fst [of "sort_key fst d" k] map_of_filter_fst [of d k]
  by (simp add: sort_key_stable)

section \<open>The element with the greatest key\<close>

text \<open>
  \<open>fold_best k xs\<close> is the loop \<open>for x in xs: if best is None or k(x) > k(best): best = x\<close>.
\<close>

definition fold_best :: "('a \<Rightarrow> 'k::linorder) \<Rightarrow> 'a list \<Rightarrow> 'a option" where
  "fold_best k xs =
     fold (\<lambda>x best. case best of None \<Rightarrow> Some x | Some y \<Rightarrow> if k y < k x then Some x else best) xs None"

lemma fold_best_Nil [simp]: "fold_best k [] = None"
  by (simp add: fold_best_def)

lemma fold_best_snoc [simp]:
  "fold_best k (xs @ [x]) =
     (case fold_best k xs of None \<Rightarrow> Some x | Some y \<Rightarrow> if k y < k x then Some x else Some y)"
  by (auto simp: fold_best_def split: option.splits)

lemma fold_best_None_iff [simp]: "fold_best k xs = None \<longleftrightarrow> xs = []"
  by (induction xs rule: rev_induct) (auto split: option.splits)

lemma fold_best_SomeD:
  "fold_best k xs = Some m \<Longrightarrow> m \<in> set xs \<and> (\<forall>x \<in> set xs. k x \<le> k m)"
  by (induction xs arbitrary: m rule: rev_induct)
    (fastforce split: option.splits if_splits)+

lemma fold_best_single [simp]: "fold_best k [x] = Some x"
  by (simp add: fold_best_def)

lemma fold_best_ex: "xs \<noteq> [] \<Longrightarrow> \<exists>m. fold_best k xs = Some m"
  by (cases "fold_best k xs") auto

lemma fold_best_eqI:
  assumes "m \<in> set xs" and "\<And>x. x \<in> set xs \<Longrightarrow> x \<noteq> m \<Longrightarrow> k x < k m"
  shows "fold_best k xs = Some m"
proof -
  from assms(1) obtain m' where m': "fold_best k xs = Some m'"
    using fold_best_ex [of xs k] by (cases xs) auto
  then have "m' \<in> set xs" and "k m \<le> k m'"
    using fold_best_SomeD [OF m'] assms(1) by auto
  with assms(2) have "m' = m" by force
  with m' show ?thesis by simp
qed

text \<open>Appending an element with a strictly greater key makes it the winner.\<close>

lemma fold_best_append_max:
  assumes "\<And>x. x \<in> set xs \<Longrightarrow> k x < k m" shows "fold_best k (xs @ [m]) = Some m"
  using assms by (intro fold_best_eqI) auto

section \<open>The element with the greatest key, per group\<close>

text \<open>
  \<open>group_best g k xs\<close> is the loop that keeps, in a dictionary keyed by \<open>g x\<close>, the element
  with the greatest key; elements with no group are skipped.
\<close>

definition group_step ::
    "('a \<Rightarrow> 's option) \<Rightarrow> ('a \<Rightarrow> 'k::linorder) \<Rightarrow> 'a \<Rightarrow> ('s \<times> 'a) list \<Rightarrow> ('s \<times> 'a) list" where
  "group_step g k x m =
     (case g x of None \<Rightarrow> m
      | Some s \<Rightarrow>
          (case map_of m s of None \<Rightarrow> AList.update s x m
           | Some y \<Rightarrow> if k y < k x then AList.update s x m else m))"

definition group_best ::
    "('a \<Rightarrow> 's option) \<Rightarrow> ('a \<Rightarrow> 'k::linorder) \<Rightarrow> 'a list \<Rightarrow> ('s \<times> 'a) list" where
  "group_best g k xs = fold (group_step g k) xs []"

lemma group_best_Nil [simp]: "group_best g k [] = []"
  by (simp add: group_best_def)

lemma group_best_snoc: "group_best g k (xs @ [x]) = group_step g k x (group_best g k xs)"
  by (simp add: group_best_def)

lemma map_of_group_best:
  "map_of (group_best g k xs) s = fold_best k (filter (\<lambda>x. g x = Some s) xs)"
proof (induction xs rule: rev_induct)
  case Nil
  then show ?case by simp
next
  case (snoc x xs)
  then show ?case
    by (cases "g x = Some s") (auto simp: group_best_snoc group_step_def split: option.splits)
qed

lemma distinct_group_best: "distinct (map fst (group_best g k xs))"
  by (induction xs rule: rev_induct)
    (auto simp: group_best_snoc group_step_def distinct_keys_update split: option.splits)

section \<open>Sorting by an injective key is canonical\<close>

lemma sorted_key_unique:
  assumes "set xs = set ys" "distinct xs" "distinct ys" "inj_on k (set xs)"
    and "sorted (map k xs)" "sorted (map k ys)"
  shows "xs = ys"
proof -
  have "map k xs = map k ys"
    using assms by (intro sorted_distinct_set_unique) (auto simp: distinct_map)
  then show ?thesis
    using assms(1,4) by (simp add: inj_on_map_eq_map)
qed

lemma sort_key_cong_set:
  assumes "set xs = set ys" "distinct xs" "distinct ys" "inj_on k (set xs)"
  shows "sort_key k xs = sort_key k ys"
  using assms by (intro sorted_key_unique [of _ _ k]) auto

end
