(* ===== verification/Py_Value.thy ===== *)
theory Py_Value imports Kaizen_Prelude begin

text \<open>
  The Python values the program passes around in payload dictionaries, with the built-in
  operations it applies to them: truth testing, \<open>==\<close>, \<open>str\<close>, \<open>repr\<close>,
  \<open>int\<close>, \<open>dict.get\<close>. Strings are lists of UTF-8 bytes. A finite float is the pair
  \<open>(m, e)\<close> of its exact value \<open>m * 2 ^ e\<close> with \<open>m\<close> odd (or \<open>m = e = 0\<close>);
  infinities and NaN, which no modelled code creates, are not values of the model.
\<close>

datatype pyval =
    PNone
  | PBool bool
  | PInt int
  | PFloat int int
  | PStr string
  | PList "pyval list"
  | PDict "(string \<times> pyval) list"

type_synonym pydict = "(string \<times> pyval) list"

fun py_truthy :: "pyval \<Rightarrow> bool" where
  "py_truthy PNone = False"
| "py_truthy (PBool b) = b"
| "py_truthy (PInt i) = (i \<noteq> 0)"
| "py_truthy (PFloat m e) = (m \<noteq> 0)"
| "py_truthy (PStr s) = (s \<noteq> [])"
| "py_truthy (PList xs) = (xs \<noteq> [])"
| "py_truthy (PDict d) = (d \<noteq> [])"

text \<open>\<open>a or b\<close>\<close>

definition py_or :: "pyval \<Rightarrow> pyval \<Rightarrow> pyval" where
  "py_or a b = (if py_truthy a then a else b)"

text \<open>\<open>d.get(k)\<close>, \<open>d.get(k, default)\<close> and \<open>v if isinstance(v, dict) else {}\<close>\<close>

definition dget :: "pydict \<Rightarrow> string \<Rightarrow> pyval" where
  "dget d k = (case map_of d k of None \<Rightarrow> PNone | Some v \<Rightarrow> v)"

definition dget_default :: "pydict \<Rightarrow> string \<Rightarrow> pyval \<Rightarrow> pyval" where
  "dget_default d k v0 = (case map_of d k of None \<Rightarrow> v0 | Some v \<Rightarrow> v)"

fun dict_or_empty :: "pyval \<Rightarrow> pydict" where
  "dict_or_empty (PDict d) = d"
| "dict_or_empty _ = []"

definition of_opt_str :: "string option \<Rightarrow> pyval" where
  "of_opt_str x = (case x of None \<Rightarrow> PNone | Some s \<Rightarrow> PStr s)"

lemma of_opt_str_simps [simp]: "of_opt_str None = PNone" "of_opt_str (Some s) = PStr s"
  by (simp_all add: of_opt_str_def)

lemma of_opt_str_inj [simp]: "of_opt_str x = of_opt_str y \<longleftrightarrow> x = y"
  by (cases x; cases y) simp_all

lemma of_opt_str_eq [simp]:
  "of_opt_str x = PNone \<longleftrightarrow> x = None" "of_opt_str x = PStr s \<longleftrightarrow> x = Some s"
  by (cases x; simp)+

section \<open>Floats\<close>

text \<open>Dyadic numbers in lowest terms, and the double nearest to a fraction (ties to even).\<close>

function dyadic :: "int \<Rightarrow> int \<Rightarrow> int \<times> int" where
  "dyadic m e = (if m = 0 then (0, 0) else if even m then dyadic (m div 2) (e + 1) else (m, e))"
  by pat_completeness auto
termination
  by (relation "measure (\<lambda>(m, e). nat \<bar>m\<bar>)") auto

declare dyadic.simps [simp del]

function bit_length :: "int \<Rightarrow> int" where
  "bit_length n = (if n \<le> 0 then 0 else 1 + bit_length (n div 2))"
  by pat_completeness auto
termination
  by (relation "measure nat") auto

declare bit_length.simps [simp del]

definition round_half_even :: "int \<Rightarrow> int \<Rightarrow> int" where
  "round_half_even n d =
     (let q = n div d; r2 = 2 * (n mod d)
      in if r2 < d then q else if d < r2 then q + 1 else if even q then q else q + 1)"

definition scale2 :: "int \<Rightarrow> int \<Rightarrow> int \<Rightarrow> int \<times> int" where
  "scale2 n d e = (if 0 \<le> e then (n, d * 2 ^ nat e) else (n * 2 ^ nat (- e), d))"

definition double_of_frac :: "int \<Rightarrow> int \<Rightarrow> int \<times> int" where
  "double_of_frac n d =
     (if n = 0 then (0, 0)
      else let a = \<bar>n\<bar>;
               e0 = bit_length a - bit_length d - 53;
               (a1, d1) = scale2 a d e0;
               e1 = (if 2 ^ 53 * d1 \<le> a1 then e0 + 1 else e0);
               e = max e1 (- 1074);
               (a2, d2) = scale2 a d e
           in dyadic (sgn n * round_half_even a2 d2) e)"

definition float_trunc :: "int \<Rightarrow> int \<Rightarrow> int" where
  "float_trunc m e = (if 0 \<le> e then m * 2 ^ nat e else sgn m * (\<bar>m\<bar> div 2 ^ nat (- e)))"

text \<open>Cross-type comparison of numbers as fractions (Python compares them exactly).\<close>

definition frac_of :: "int \<Rightarrow> int \<Rightarrow> int \<times> int" where
  "frac_of m e = (if 0 \<le> e then (m * 2 ^ nat e, 1) else (m, 2 ^ nat (- e)))"

fun py_num :: "pyval \<Rightarrow> (int \<times> int) option" where
  "py_num (PBool b) = Some (if b then 1 else 0, 1)"
| "py_num (PInt i) = Some (i, 1)"
| "py_num (PFloat m e) = Some (frac_of m e)"
| "py_num _ = None"

definition frac_less :: "int \<times> int \<Rightarrow> int \<times> int \<Rightarrow> bool" where
  "frac_less a b = (fst a * snd b < fst b * snd a)"

text \<open>\<open>==\<close>: numbers compare by value across \<open>bool\<close>, \<open>int\<close> and \<open>float\<close>.\<close>

fun py_eq :: "pyval \<Rightarrow> pyval \<Rightarrow> bool" where
  "py_eq (PStr a) (PStr b) = (a = b)"
| "py_eq PNone PNone = True"
| "py_eq (PList xs) (PList ys) = list_all2 py_eq xs ys"
| "py_eq (PDict d) (PDict d') =
     (length d = length d' \<and>
      list_all (\<lambda>(k, v). case map_of d' k of None \<Rightarrow> False | Some w \<Rightarrow> py_eq v w) d)"
| "py_eq a b =
     (case (py_num a, py_num b) of
        (Some x, Some y) \<Rightarrow> fst x * snd y = fst y * snd x
      | _ \<Rightarrow> False)"

section \<open>Decimal numerals\<close>

definition digit_char :: "int \<Rightarrow> char" where
  "digit_char d = char_of (48 + nat d)"

text \<open>The decimal numeral of a non-negative number.\<close>

function pos_str :: "int \<Rightarrow> string" where
  "pos_str n = (if n < 10 then [digit_char n] else pos_str (n div 10) @ [digit_char (n mod 10)])"
  by pat_completeness auto
termination
  by (relation "measure nat") auto

declare pos_str.simps [simp del]

definition int_str :: "int \<Rightarrow> string" where
  "int_str i = (if i < 0 then CHR ''-'' # pos_str (- i) else pos_str i)"

definition is_digit :: "char \<Rightarrow> bool" where
  "is_digit c = (48 \<le> (of_char c :: nat) \<and> (of_char c :: nat) \<le> 57)"

definition digit_val :: "char \<Rightarrow> int" where
  "digit_val c = int (of_char c) - 48"

lemma is_digit_digit_char [simp]: "0 \<le> d \<Longrightarrow> d < 10 \<Longrightarrow> is_digit (digit_char d)"
  by (simp add: is_digit_def digit_char_def of_char_of)

lemma digit_val_digit_char [simp]: "0 \<le> d \<Longrightarrow> d < 10 \<Longrightarrow> digit_val (digit_char d) = d"
  by (simp add: digit_val_def digit_char_def of_char_of)

text \<open>The value of a string of digits, most significant first.\<close>

definition digits_val :: "string \<Rightarrow> int" where
  "digits_val s = foldl (\<lambda>n c. 10 * n + digit_val c) 0 s"

lemma digits_val_Nil [simp]: "digits_val [] = 0"
  by (simp add: digits_val_def)

lemma digits_val_snoc [simp]: "digits_val (s @ [c]) = 10 * digits_val s + digit_val c"
  by (simp add: digits_val_def)

lemma pos_str_not_Nil [simp]: "pos_str n \<noteq> []"
  by (subst pos_str.simps) simp

lemma pos_str_digits: "0 \<le> n \<Longrightarrow> list_all is_digit (pos_str n)"
proof (induction n rule: pos_str.induct)
  case (1 n)
  then show ?case by (subst pos_str.simps) auto
qed

lemma digits_val_pos_str [simp]: "0 \<le> n \<Longrightarrow> digits_val (pos_str n) = n"
proof (induction n rule: pos_str.induct)
  case (1 n)
  show ?case
  proof (cases "n < 10")
    case True
    with 1 show ?thesis
      using digits_val_snoc [of "[]" "digit_char n"] by (simp add: pos_str.simps [of n])
  next
    case False
    with 1 show ?thesis by (simp add: pos_str.simps [of n])
  qed
qed

lemma pos_str_inj: "0 \<le> m \<Longrightarrow> 0 \<le> n \<Longrightarrow> pos_str m = pos_str n \<longleftrightarrow> m = n"
  by (metis digits_val_pos_str)

section \<open>\<open>int\<close>\<close>

text \<open>White space of \<open>str.strip\<close> and \<open>str.split\<close> in ASCII.\<close>

definition is_space :: "char \<Rightarrow> bool" where
  "is_space c =
     (let n = (of_char c :: nat) in (9 \<le> n \<and> n \<le> 13) \<or> (28 \<le> n \<and> n \<le> 32))"

definition py_strip :: "string \<Rightarrow> string" where
  "py_strip s = rev (dropWhile is_space (rev (dropWhile is_space s)))"

fun digits_us :: "bool \<Rightarrow> string \<Rightarrow> int \<Rightarrow> int option" where
  "digits_us after_digit [] n = (if after_digit then Some n else None)"
| "digits_us after_digit (c # cs) n =
     (if is_digit c then digits_us True cs (10 * n + digit_val c)
      else if c = CHR ''_'' \<and> after_digit then digits_us False cs n
      else None)"

definition int_of_str :: "string \<Rightarrow> int option" where
  "int_of_str s =
     (case py_strip s of
        [] \<Rightarrow> None
      | c # cs \<Rightarrow>
          if c = CHR ''-'' then map_option uminus (digits_us False cs 0)
          else if c = CHR ''+'' then digits_us False cs 0
          else digits_us False (c # cs) 0)"

text \<open>
  \<open>int(v)\<close>: \<open>None\<close> stands for the \<open>TypeError\<close> or \<open>ValueError\<close> it raises;
  every caller that does not let it propagate catches both alike.
\<close>

fun py_int :: "pyval \<Rightarrow> int option" where
  "py_int (PBool b) = Some (if b then 1 else 0)"
| "py_int (PInt i) = Some i"
| "py_int (PFloat m e) = Some (float_trunc m e)"
| "py_int (PStr s) = int_of_str s"
| "py_int _ = None"

section \<open>\<open>str\<close> and \<open>repr\<close>\<close>

text \<open>
  The shortest decimal that rounds to the float: at most 17 significant digits, the first
  count for which the correctly rounded decimal reads back as the same double.
\<close>

definition dec_exponent :: "int \<Rightarrow> int \<Rightarrow> int" where
  "dec_exponent n d =
     (let e0 = (int (length (pos_str n)) - int (length (pos_str d)));
          le = (\<lambda>p. if 0 \<le> p then d * 10 ^ nat p \<le> n else d \<le> n * 10 ^ nat (- p))
      in if le e0 then e0 else e0 - 1)"

definition dec_round :: "int \<Rightarrow> int \<Rightarrow> int \<Rightarrow> nat \<Rightarrow> int \<times> int" where
  "dec_round n d p k =
     (let s = int k - 1 - p;
          q = (if 0 \<le> s then round_half_even (n * 10 ^ nat s) d
               else round_half_even n (d * 10 ^ nat (- s)))
      in if q = 10 ^ k then (q div 10, p + 1) else (q, p))"

definition dec_to_double :: "int \<Rightarrow> int \<Rightarrow> nat \<Rightarrow> int \<times> int" where
  "dec_to_double q p k =
     (let s = p + 1 - int k
      in if 0 \<le> s then double_of_frac (q * 10 ^ nat s) 1 else double_of_frac q (10 ^ nat (- s)))"

fun shortest_dec :: "int \<Rightarrow> int \<Rightarrow> nat \<Rightarrow> nat list \<Rightarrow> int \<times> int \<times> nat" where
  "shortest_dec m e k [] = (let (n, d) = frac_of m e; (q, p) = dec_round n d (dec_exponent n d) k in (q, p, k))"
| "shortest_dec m e k (k' # ks) =
     (let (n, d) = frac_of m e; (q, p) = dec_round n d (dec_exponent n d) k
      in if dec_to_double q p k = (m, e) then (q, p, k) else shortest_dec m e k' ks)"

definition strip_zeros :: "string \<Rightarrow> string" where
  "strip_zeros s = rev (dropWhile (\<lambda>c. c = CHR ''0'') (rev s))"

definition float_digits :: "string \<Rightarrow> int \<Rightarrow> string" where
  "float_digits ds p =
     (if - 4 \<le> p \<and> p < 16 then
        (if p < 0 then ''0.'' @ replicate (nat (- p - 1)) (CHR ''0'') @ ds
         else let k = Suc (nat p);
                  whole = take k ds @ replicate (k - length ds) (CHR ''0'');
                  frac = drop k ds
              in whole @ ''.'' @ (if frac = [] then ''0'' else frac))
      else take 1 ds @ (if drop 1 ds = [] then [] else CHR ''.'' # drop 1 ds) @ ''e''
           @ (if p < 0 then ''-'' else ''+'')
           @ (let x = pos_str \<bar>p\<bar> in if length x < 2 then CHR ''0'' # x else x))"

definition float_repr :: "int \<Rightarrow> int \<Rightarrow> string" where
  "float_repr m e =
     (if m = 0 then ''0.0''
      else let (q, p, k) = shortest_dec \<bar>m\<bar> e 1 [2 ..< 18]
           in (if m < 0 then ''-'' else []) @ float_digits (strip_zeros (pos_str q)) p)"

definition hex_char :: "nat \<Rightarrow> char" where
  "hex_char d = (if d < 10 then char_of (48 + d) else char_of (87 + d))"

definition repr_char :: "char \<Rightarrow> char \<Rightarrow> string" where
  "repr_char quote c =
     (let n = (of_char c :: nat) in
      if c = quote \<or> n = 92 then [CHR 0x5C, c]
      else if n = 10 then [CHR 0x5C, CHR ''n'']
      else if n = 13 then [CHR 0x5C, CHR ''r'']
      else if n = 9 then [CHR 0x5C, CHR ''t'']
      else if n < 32 \<or> n = 127 then [CHR 0x5C, CHR ''x'', hex_char (n div 16), hex_char (n mod 16)]
      else [c])"

definition str_repr :: "string \<Rightarrow> string" where
  "str_repr s =
     (let quote = (if CHR 0x27 \<in> set s \<and> CHR 0x22 \<notin> set s then CHR 0x22 else CHR 0x27)
      in quote # concat (map (repr_char quote) s) @ [quote])"

fun join :: "string \<Rightarrow> string list \<Rightarrow> string" where
  "join sep [] = []"
| "join sep [x] = x"
| "join sep (x # y # xs) = x @ sep @ join sep (y # xs)"

lemma join_Cons: "ys \<noteq> [] \<Longrightarrow> join sep (x # ys) = x @ sep @ join sep ys"
  by (cases ys) auto

definition ends_with :: "string \<Rightarrow> string \<Rightarrow> bool" where
  "ends_with suf s = (drop (length s - length suf) s = suf)"

text \<open>\<open>str.lower\<close> in ASCII\<close>

definition lower_char :: "char \<Rightarrow> char" where
  "lower_char c = (let n = (of_char c :: nat) in if 65 \<le> n \<and> n \<le> 90 then char_of (n + 32) else c)"

definition lower :: "string \<Rightarrow> string" where
  "lower s = map lower_char s"

fun py_repr :: "pyval \<Rightarrow> string" where
  "py_repr PNone = ''None''"
| "py_repr (PBool b) = (if b then ''True'' else ''False'')"
| "py_repr (PInt i) = int_str i"
| "py_repr (PFloat m e) = float_repr m e"
| "py_repr (PStr s) = str_repr s"
| "py_repr (PList xs) = ''['' @ join '', '' (map py_repr xs) @ '']''"
| "py_repr (PDict d) = ''{'' @ join '', '' (map (\<lambda>(k, v). str_repr k @ '': '' @ py_repr v) d) @ ''}''"

fun py_str :: "pyval \<Rightarrow> string" where
  "py_str (PStr s) = s"
| "py_str v = py_repr v"

text \<open>\<open>str(v or "")\<close>\<close>

definition str_or_empty :: "pyval \<Rightarrow> string" where
  "str_or_empty v = (if py_truthy v then py_str v else [])"

lemma str_or_empty_of_opt_str [simp]: "str_or_empty (of_opt_str x) = opt_str x"
  by (cases x) (auto simp: str_or_empty_def)

end
