(* ===== verification/Denials.thy ===== *)
theory Denials imports Py_Value begin

text \<open>
  Structured denials (\<open>kaizen_components/denials.py\<close>) and the shape of every fallible,
  stateful operation of the model. An operation takes the state and returns an error value or a
  result together with the state it leaves behind: a raise does not undo what was written before
  it, which is what the record-then-refuse gates of the coordination engine rely on.
\<close>

section \<open>Denials and other exceptions\<close>

record denial =
  dn_code :: string
  dn_fields :: pydict
  dn_exit :: int

text \<open>A raised exception: a \<open>KaizenDenied\<close>, or another one by its type name and message.\<close>

datatype exn = Denied denial | PyError string string

definition denied2 :: "string \<Rightarrow> pydict \<Rightarrow> exn" where
  "denied2 code fs = Denied \<lparr>dn_code = code, dn_fields = fs, dn_exit = 2\<rparr>"

definition denied1 :: "string \<Rightarrow> pydict \<Rightarrow> exn" where
  "denied1 code fs = Denied \<lparr>dn_code = code, dn_fields = fs, dn_exit = 1\<rparr>"

text \<open>\<open>str(error)\<close>: the message of a denial is its code.\<close>

fun exn_str :: "exn \<Rightarrow> string" where
  "exn_str (Denied d) = dn_code d"
| "exn_str (PyError ty msg) = msg"

fun is_denied :: "exn \<Rightarrow> bool" where
  "is_denied (Denied d) = True"
| "is_denied (PyError ty msg) = False"

fun exn_code :: "exn \<Rightarrow> string" where
  "exn_code (Denied d) = dn_code d"
| "exn_code (PyError ty msg) = ty"

text \<open>The exit code an exception ends the command with; an unhandled one exits with 1.\<close>

fun exn_exit :: "exn \<Rightarrow> int" where
  "exn_exit (Denied d) = dn_exit d"
| "exn_exit (PyError ty msg) = 1"

lemma denied2_simps [simp]:
  "exn_code (denied2 code fs) = code" "is_denied (denied2 code fs)"
  "exn_str (denied2 code fs) = code" "denied2 code fs \<noteq> PyError ty msg"
  by (simp_all add: denied2_def)

lemma exn_exit_denied2 [simp]: "exn_exit (denied2 code fs) = 2"
  by (simp add: denied2_def)

lemma denied1_simps [simp]:
  "exn_code (denied1 code fs) = code" "is_denied (denied1 code fs)"
  "exn_str (denied1 code fs) = code" "denied1 code fs \<noteq> PyError ty msg"
  by (simp_all add: denied1_def)

text \<open>\<open>{**a, **b}\<close>\<close>

definition dict_merge :: "pydict \<Rightarrow> pydict \<Rightarrow> pydict" where
  "dict_merge a b = fold (\<lambda>(k, v) d. AList.update k v d) b a"

definition denial_payload :: "denial \<Rightarrow> pydict" where
  "denial_payload d =
     dict_merge [(''status'', PStr ''DENIED''), (''code'', PStr (dn_code d))] (dn_fields d)"

text \<open>The keyword arguments of \<open>usage_denial\<close> come as a dictionary.\<close>

definition usage_denial :: "string \<Rightarrow> pydict \<Rightarrow> denial" where
  "usage_denial message fs =
     \<lparr>dn_code = ''DENIED_USAGE'',
      dn_fields = dict_merge
        [(''message'', PStr message),
         (''required_action'', dget_default fs ''required_action'' (PStr ''run --help and resubmit''))]
        (AList.delete ''required_action'' fs),
      dn_exit = 2\<rparr>"

lemma map_of_dict_merge [kz_dict]:
  "distinct (map fst b) \<Longrightarrow>
     map_of (dict_merge a b) k = (case map_of b k of None \<Rightarrow> map_of a k | Some v \<Rightarrow> Some v)"
proof (induction b arbitrary: a)
  case (Cons p b)
  then have "map_of b (fst p) = None" by (simp add: map_of_eq_None_iff)
  with Cons show ?case
    by (cases p; cases "fst p = k") (auto simp: dict_merge_def split: option.split)
qed (simp add: dict_merge_def)

section \<open>Remedies\<close>

definition remedy_examples :: "(string \<times> string) list" where
  "remedy_examples =
     [(''DENIED_TITLE_REQUIRED'', ''python kaizen.py {op} --title \"Short title\" --summary \"One sentence.\" --json''),
      (''DENIED_SUMMARY_REQUIRED'', ''python kaizen.py {op} --summary \"One sentence.\" --json''),
      (''DENIED_SUMMARY_TOO_LONG'', ''python kaizen.py {op} --summary \"One or two sentences only.\" --body \"Move the detail here.\" --json''),
      (''DENIED_ID_REQUIRED'', ''python kaizen.py {op} --id RECORD_ID --json''),
      (''DENIED_QUERY_REQUIRED'', ''python kaizen.py {op} --query \"topic text\" --json''),
      (''DENIED_JSON_INVALID'', ''python kaizen.py {op} --payload-json-file path/to/payload.json --json  (PowerShell 5.1 strips inline JSON quotes; every JSON flag has a *-file twin)''),
      (''DENIED_PAYLOAD_TYPE'', ''python kaizen.py {op} --payload-json \"{'' @ [CHR 0x5C] @ ''\"key'' @ [CHR 0x5C] @ ''\":'' @ [CHR 0x5C] @ ''\"value'' @ [CHR 0x5C] @ ''\"}\" --json  (must be a JSON object)''),
      (''DENIED_PATH_REQUIRED'', ''python kaizen.py {op} --path path/inside/repo --json''),
      (''DENIED_FILE_NOT_FOUND'', ''python kaizen.py {op} --path an/existing/file --json''),
      (''DENIED_CONTRACT_REQUIRED'', ''python kaizen.py {op} --contract \"contract-name\" --json''),
      (''DENIED_REVIEW_ID_REQUIRED'', ''python kaizen.py {op} --review-id IRL_REVIEW_ID --summary \"One sentence.\" --json''),
      (''DENIED_FIELD_WORD_LIMIT'', ''python kaizen.py {op} --summary \"One sentence.\" --body-file path/to/longer-text.md --json'')]"

text \<open>\<open>s.replace(old, new)\<close> for a non-empty \<open>old\<close>, and the prefix test it uses.\<close>

fun strip_prefix :: "string \<Rightarrow> string \<Rightarrow> string option" where
  "strip_prefix [] s = Some s"
| "strip_prefix (p # ps) [] = None"
| "strip_prefix (p # ps) (c # cs) = (if p = c then strip_prefix ps cs else None)"

lemma strip_prefix_iff: "strip_prefix p s = Some r \<longleftrightarrow> s = p @ r"
  by (induction p s rule: strip_prefix.induct) auto

lemma strip_prefix_length: "strip_prefix p s = Some r \<Longrightarrow> length r \<le> length s"
  by (simp add: strip_prefix_iff)

function replace_all :: "char \<Rightarrow> string \<Rightarrow> string \<Rightarrow> string \<Rightarrow> string" where
  "replace_all p ps new [] = []"
| "replace_all p ps new (c # cs) =
     (case strip_prefix (p # ps) (c # cs) of
        Some rest \<Rightarrow> new @ replace_all p ps new rest
      | None \<Rightarrow> c # replace_all p ps new cs)"
  by pat_completeness auto
termination
  by (relation "measure (\<lambda>(p, ps, new, s). length s)")
    (auto split: if_splits dest: strip_prefix_length)

fun py_replace :: "string \<Rightarrow> string \<Rightarrow> string \<Rightarrow> string" where
  "py_replace [] new s = new @ concat (map (\<lambda>c. c # new) s)"
| "py_replace (p # ps) new s = replace_all p ps new s"

definition remedy_example :: "string \<Rightarrow> string option \<Rightarrow> string option" where
  "remedy_example code operation =
     (case map_of remedy_examples code of
        None \<Rightarrow> None
      | Some template \<Rightarrow>
          Some (py_replace ''{op}'' (if opt_str operation = [] then ''<operation>'' else opt_str operation) template))"

section \<open>Operations with state and errors\<close>

type_synonym ('s, 'a) prog = "'s \<Rightarrow> (exn + 'a) \<times> 's"

definition ret :: "'a \<Rightarrow> ('s, 'a) prog" where
  "ret x = (\<lambda>s. (Inr x, s))"

definition raise :: "exn \<Rightarrow> ('s, 'a) prog" where
  "raise e = (\<lambda>s. (Inl e, s))"

definition seq :: "('s, 'a) prog \<Rightarrow> ('a \<Rightarrow> ('s, 'b) prog) \<Rightarrow> ('s, 'b) prog" where
  "seq m f = (\<lambda>s. case m s of (Inl e, s') \<Rightarrow> (Inl e, s') | (Inr x, s') \<Rightarrow> f x s')"

definition handle :: "('s, 'a) prog \<Rightarrow> (exn \<Rightarrow> ('s, 'a) prog) \<Rightarrow> ('s, 'a) prog" where
  "handle m h = (\<lambda>s. case m s of (Inl e, s') \<Rightarrow> h e s' | (Inr x, s') \<Rightarrow> (Inr x, s'))"

definition gets :: "('s \<Rightarrow> 'a) \<Rightarrow> ('s, 'a) prog" where
  "gets f = (\<lambda>s. (Inr (f s), s))"

definition modify :: "('s \<Rightarrow> 's) \<Rightarrow> ('s, unit) prog" where
  "modify f = (\<lambda>s. (Inr (), f s))"

text \<open>A pure check that may raise; \<open>guard b e\<close> raises \<open>e\<close> unless \<open>b\<close>.\<close>

definition lift_result :: "exn + 'a \<Rightarrow> ('s, 'a) prog" where
  "lift_result r = (\<lambda>s. (r, s))"

definition guard :: "bool \<Rightarrow> exn \<Rightarrow> ('s, unit) prog" where
  "guard b e = (if b then ret () else raise e)"

fun for_each :: "('a \<Rightarrow> ('s, 'b) prog) \<Rightarrow> 'a list \<Rightarrow> ('s, 'b list) prog" where
  "for_each f [] = ret []"
| "for_each f (x # xs) = seq (f x) (\<lambda>y. seq (for_each f xs) (\<lambda>ys. ret (y # ys)))"

definition result_of :: "(exn + 'a) \<times> 's \<Rightarrow> exn + 'a" where
  "result_of = fst"

definition state_after :: "(exn + 'a) \<times> 's \<Rightarrow> 's" where
  "state_after = snd"

lemma ret_simps [simp]: "ret x s = (Inr x, s)"
  by (simp add: ret_def)

lemma raise_simps [simp]: "raise e s = (Inl e, s)"
  by (simp add: raise_def)

lemma gets_simps [simp]: "gets f s = (Inr (f s), s)"
  by (simp add: gets_def)

lemma modify_simps [simp]: "modify f s = (Inr (), f s)"
  by (simp add: modify_def)

lemma lift_result_simps [simp]: "lift_result r s = (r, s)"
  by (simp add: lift_result_def)

lemma guard_simps [simp]: "guard b e s = (if b then (Inr (), s) else (Inl e, s))"
  by (simp add: guard_def)

lemma seq_simps: "seq m f s = (case m s of (Inl e, s') \<Rightarrow> (Inl e, s') | (Inr x, s') \<Rightarrow> f x s')"
  by (simp add: seq_def)

lemma seq_ok [simp]: "m s = (Inr x, s') \<Longrightarrow> seq m f s = f x s'"
  by (simp add: seq_def)

lemma seq_fail [simp]: "m s = (Inl e, s') \<Longrightarrow> seq m f s = (Inl e, s')"
  by (simp add: seq_def)

lemma seq_InrE:
  assumes "seq m f s = (Inr y, s'')"
  obtains x s' where "m s = (Inr x, s')" "f x s' = (Inr y, s'')"
  using assms by (auto simp: seq_def split: prod.splits sum.splits)

lemma seq_InlE:
  assumes "seq m f s = (Inl e, s'')"
  obtains (first) "m s = (Inl e, s'')" | (second) x s' where "m s = (Inr x, s')" "f x s' = (Inl e, s'')"
  using assms by (auto simp: seq_def split: prod.splits sum.splits)

lemma seq_assoc: "seq (seq m f) g = seq m (\<lambda>x. seq (f x) g)"
  by (rule ext) (auto simp: seq_def split: prod.splits sum.splits)

lemma seq_ret [simp]: "seq (ret x) f = f x"
  by (rule ext) (simp add: seq_def)

lemma seq_raise [simp]: "seq (raise e) f = raise e"
  by (rule ext) (simp add: seq_def)

section \<open>What every operation keeps\<close>

text \<open>
  The interface of an operation that keeps a relation between the states before and after it,
  whether it returns or raises. The relation is a preorder, so the combinators keep it too.
\<close>

definition keeps :: "('s \<Rightarrow> 's \<Rightarrow> bool) \<Rightarrow> ('s, 'a) prog \<Rightarrow> bool" where
  "keeps R m \<longleftrightarrow> (\<forall>s. R s (snd (m s)))"

lemma keepsD: "keeps R m \<Longrightarrow> m s = (r, s') \<Longrightarrow> R s s'"
  unfolding keeps_def by (metis snd_conv)

lemma keepsI: "(\<And>s. R s (snd (m s))) \<Longrightarrow> keeps R m"
  by (simp add: keeps_def)

lemma keeps_at: "keeps R m \<Longrightarrow> R s (snd (m s))"
  by (simp add: keeps_def)

locale state_preorder =
  fixes R :: "'s \<Rightarrow> 's \<Rightarrow> bool"
  assumes refl: "R s s" and trans: "R s t \<Longrightarrow> R t u \<Longrightarrow> R s u"
begin

lemma keeps_pure:
  "keeps R (ret x)" "keeps R (raise e)" "keeps R (gets f)" "keeps R (lift_result r)" "keeps R (guard b e)"
  by (simp_all add: keeps_def refl)

lemma keeps_seq: "keeps R m \<Longrightarrow> (\<And>x. keeps R (f x)) \<Longrightarrow> keeps R (seq m f)"
  unfolding keeps_def seq_def by (auto split: prod.splits sum.splits) (metis snd_conv trans)+

lemma keeps_handle: "keeps R m \<Longrightarrow> (\<And>e. keeps R (h e)) \<Longrightarrow> keeps R (handle m h)"
  unfolding keeps_def handle_def by (auto split: prod.splits sum.splits) (metis snd_conv trans)+

lemma keeps_for_each: "(\<And>x. keeps R (f x)) \<Longrightarrow> keeps R (for_each f xs)"
  by (induction xs) (auto intro!: keeps_seq keeps_pure)

lemma keeps_if: "keeps R m \<Longrightarrow> keeps R m' \<Longrightarrow> keeps R (if b then m else m')"
  by simp

lemmas keeps_intros = keeps_pure keeps_seq keeps_handle keeps_for_each keeps_if

end

end
