(* ===== verification/Json.thy ===== *)
theory Json imports Denials begin

text \<open>
  The JSON text of payloads: \<open>json.dumps(v, ensure_ascii=False, sort_keys=True)\<close> with the two
  separator conventions the program uses, and \<open>json.loads\<close>. Strings are UTF-8 bytes. The
  reader rejects \<open>NaN\<close>, \<open>Infinity\<close> and numerals beyond the double range, which
  have no value in the model. Reading back what was written returns the payload with the keys of
  every object sorted.
\<close>

section \<open>Printing\<close>

text \<open>\<open>sort_keys=True\<close>, at every level\<close>

fun canon :: "pyval \<Rightarrow> pyval" where
  "canon (PList xs) = PList (map canon xs)"
| "canon (PDict d) = PDict (sort_key fst (map (\<lambda>(k, v). (k, canon v)) d))"
| "canon v = v"

definition json_escape :: "char \<Rightarrow> string" where
  "json_escape c =
     (let n = (of_char c :: nat) in
      if n = 34 \<or> n = 92 then [CHR 0x5C, c]
      else if n = 8 then [CHR 0x5C, CHR ''b'']
      else if n = 12 then [CHR 0x5C, CHR ''f'']
      else if n = 10 then [CHR 0x5C, CHR ''n'']
      else if n = 13 then [CHR 0x5C, CHR ''r'']
      else if n = 9 then [CHR 0x5C, CHR ''t'']
      else if n < 32 then [CHR 0x5C, CHR ''u'', CHR ''0'', CHR ''0'', hex_char (n div 16), hex_char (n mod 16)]
      else [c])"

definition json_string :: "string \<Rightarrow> string" where
  "json_string s = CHR 0x22 # concat (map json_escape s) @ [CHR 0x22]"

fun json_print :: "string \<Rightarrow> string \<Rightarrow> pyval \<Rightarrow> string" where
  "json_print sep ks PNone = ''null''"
| "json_print sep ks (PBool b) = (if b then ''true'' else ''false'')"
| "json_print sep ks (PInt i) = int_str i"
| "json_print sep ks (PFloat m e) = float_repr m e"
| "json_print sep ks (PStr s) = json_string s"
| "json_print sep ks (PList xs) = ''['' @ join sep (map (json_print sep ks) xs) @ '']''"
| "json_print sep ks (PDict d) =
     ''{'' @ join sep (map (\<lambda>(k, v). json_string k @ ks @ json_print sep ks v) d) @ ''}''"

text \<open>\<open>json.dumps(v, ensure_ascii=False, sort_keys=True)\<close>, and with the compact separators\<close>

definition json_dumps :: "pyval \<Rightarrow> string" where
  "json_dumps v = json_print '', '' '': '' (canon v)"

definition json_compact :: "pyval \<Rightarrow> string" where
  "json_compact v = json_print '','' '':'' (canon v)"

section \<open>Reading\<close>

definition json_ws :: "char \<Rightarrow> bool" where
  "json_ws c = (c \<in> {CHR '' '', CHR 0x09, CHR 0x0A, CHR 0x0D})"

definition skip_ws :: "string \<Rightarrow> string" where
  "skip_ws s = dropWhile json_ws s"

definition hex_val :: "char \<Rightarrow> nat option" where
  "hex_val c =
     (let n = (of_char c :: nat) in
      if 48 \<le> n \<and> n \<le> 57 then Some (n - 48)
      else if 65 \<le> n \<and> n \<le> 70 then Some (n - 55)
      else if 97 \<le> n \<and> n \<le> 102 then Some (n - 87) else None)"

fun hex4 :: "string \<Rightarrow> (nat \<times> string) option" where
  "hex4 (a # b # c # d # s) =
     (case (hex_val a, hex_val b, hex_val c, hex_val d) of
        (Some x, Some y, Some z, Some w) \<Rightarrow> Some (((x * 16 + y) * 16 + z) * 16 + w, s)
      | _ \<Rightarrow> None)"
| "hex4 _ = None"

definition utf8 :: "nat \<Rightarrow> string" where
  "utf8 n =
     (if n < 128 then [char_of n]
      else if n < 2048 then [char_of (192 + n div 64), char_of (128 + n mod 64)]
      else if n < 65536 then
        [char_of (224 + n div 4096), char_of (128 + n div 64 mod 64), char_of (128 + n mod 64)]
      else [char_of (240 + n div 262144), char_of (128 + n div 4096 mod 64),
            char_of (128 + n div 64 mod 64), char_of (128 + n mod 64)])"

text \<open>The code point after \<open>\u\<close>, with the second half of a surrogate pair when there is one.\<close>

definition read_unicode :: "string \<Rightarrow> (nat \<times> string) option" where
  "read_unicode s =
     (case hex4 s of
        None \<Rightarrow> None
      | Some (n, r) \<Rightarrow>
          if 0xD800 \<le> n \<and> n \<le> 0xDBFF \<and> take 2 r = [CHR 0x5C, CHR ''u''] then
            (case hex4 (drop 2 r) of
               None \<Rightarrow> None
             | Some (m, r') \<Rightarrow>
                 if 0xDC00 \<le> m \<and> m \<le> 0xDFFF
                 then Some (0x10000 + (n - 0xD800) * 1024 + (m - 0xDC00), r') else Some (n, r))
          else Some (n, r))"

definition simple_escapes :: "(char \<times> char) list" where
  "simple_escapes = [(CHR 0x22, CHR 0x22), (CHR 0x5C, CHR 0x5C), (CHR ''/'', CHR ''/''),
     (CHR ''b'', CHR 0x08), (CHR ''f'', CHR 0x0C), (CHR ''n'', CHR 0x0A), (CHR ''r'', CHR 0x0D),
     (CHR ''t'', CHR 0x09)]"

definition before :: "string \<Rightarrow> (string \<times> string) option \<Rightarrow> (string \<times> string) option" where
  "before x r = map_option (\<lambda>(s, rest). (x @ s, rest)) r"

lemma hex4_length: "hex4 s = Some (n, r) \<Longrightarrow> length r < length s"
  by (cases s rule: hex4.cases) (auto split: option.splits)

lemma read_unicode_length: "read_unicode s = Some (n, r) \<Longrightarrow> length r < length s"
  by (auto simp: read_unicode_def split: option.splits if_splits dest!: hex4_length)

function read_string :: "string \<Rightarrow> (string \<times> string) option" where
  "read_string [] = None"
| "read_string (c # cs) =
     (if c = CHR 0x22 then Some ([], cs)
      else if c = CHR 0x5C then
        (case cs of
           [] \<Rightarrow> None
         | e # cs' \<Rightarrow>
             if e = CHR ''u'' then
               (case read_unicode cs' of None \<Rightarrow> None | Some (n, r) \<Rightarrow> before (utf8 n) (read_string r))
             else (case map_of simple_escapes e of None \<Rightarrow> None | Some x \<Rightarrow> before [x] (read_string cs')))
      else if (of_char c :: nat) < 32 then None
      else before [c] (read_string cs))"
  by pat_completeness auto
termination
  by (relation "measure length") (auto dest: read_unicode_length)

text \<open>A numeral: sign, integer part without leading zeros, fraction, exponent.\<close>

definition read_int_part :: "string \<Rightarrow> (string \<times> string) option" where
  "read_int_part s =
     (let ds = takeWhile is_digit s in
      if ds = [] then None
      else if hd ds = CHR ''0'' then Some (''0'', tl s)
      else Some (ds, dropWhile is_digit s))"

definition read_frac :: "string \<Rightarrow> string \<times> string" where
  "read_frac s =
     (if s \<noteq> [] \<and> hd s = CHR ''.'' \<and> takeWhile is_digit (tl s) \<noteq> []
      then (takeWhile is_digit (tl s), dropWhile is_digit (tl s)) else ([], s))"

definition read_exp :: "string \<Rightarrow> int option \<times> string" where
  "read_exp s =
     (if s \<noteq> [] \<and> (hd s = CHR ''e'' \<or> hd s = CHR ''E'') then
        (let r = tl s; signed = (r \<noteq> [] \<and> (hd r = CHR ''+'' \<or> hd r = CHR ''-''));
             ds = (if signed then tl r else r)
         in if takeWhile is_digit ds = [] then (None, s)
            else (Some (if signed \<and> hd r = CHR ''-'' then - digits_val (takeWhile is_digit ds)
                        else digits_val (takeWhile is_digit ds)), dropWhile is_digit ds))
      else (None, s))"

definition json_float :: "bool \<Rightarrow> string \<Rightarrow> string \<Rightarrow> int \<Rightarrow> pyval option" where
  "json_float neg ds fs x =
     (let q = digits_val (ds @ fs); p = x - int (length fs);
          (m, e) = (if 0 \<le> p then double_of_frac (q * 10 ^ nat p) 1 else double_of_frac q (10 ^ nat (- p)))
      in if bit_length m + e > 1024 then None else Some (PFloat (if neg then - m else m) e))"

definition read_number :: "string \<Rightarrow> (pyval \<times> string) option" where
  "read_number s =
     (let neg = (s \<noteq> [] \<and> hd s = CHR ''-'') in
      case read_int_part (if neg then tl s else s) of
        None \<Rightarrow> None
      | Some (ds, r) \<Rightarrow>
          (let (fs, r1) = read_frac r; (x, r2) = read_exp r1 in
           if fs = [] \<and> x = None then Some (PInt (if neg then - digits_val ds else digits_val ds), r2)
           else map_option (\<lambda>v. (v, r2)) (json_float neg ds fs (case x of None \<Rightarrow> 0 | Some k \<Rightarrow> k))))"

definition read_word :: "string \<Rightarrow> pyval \<Rightarrow> string \<Rightarrow> (pyval \<times> string) option" where
  "read_word w v s = map_option (Pair v) (strip_prefix w s)"

definition dict_of :: "(string \<times> pyval) list \<Rightarrow> pydict" where
  "dict_of kvs = fold (\<lambda>(k, v) d. AList.update k v d) kvs []"

fun read_value :: "nat \<Rightarrow> string \<Rightarrow> (pyval \<times> string) option"
  and read_elements :: "nat \<Rightarrow> string \<Rightarrow> (pyval list \<times> string) option"
  and read_members :: "nat \<Rightarrow> string \<Rightarrow> ((string \<times> pyval) list \<times> string) option" where
  "read_value 0 s = None"
| "read_value (Suc n) s =
     (case s of
        [] \<Rightarrow> None
      | c # cs \<Rightarrow>
          if c = CHR 0x22 then map_option (\<lambda>(x, r). (PStr x, r)) (read_string cs)
          else if c = CHR ''{'' then
            (let r = skip_ws cs in
             if r \<noteq> [] \<and> hd r = CHR ''}'' then Some (PDict [], tl r)
             else map_option (\<lambda>(kvs, r'). (PDict (dict_of kvs), r')) (read_members n r))
          else if c = CHR ''['' then
            (let r = skip_ws cs in
             if r \<noteq> [] \<and> hd r = CHR '']'' then Some (PList [], tl r)
             else map_option (\<lambda>(xs, r'). (PList xs, r')) (read_elements n r))
          else if c = CHR ''n'' then read_word ''null'' PNone s
          else if c = CHR ''t'' then read_word ''true'' (PBool True) s
          else if c = CHR ''f'' then read_word ''false'' (PBool False) s
          else read_number s)"
| "read_elements 0 s = None"
| "read_elements (Suc n) s =
     (case read_value n s of
        None \<Rightarrow> None
      | Some (v, r) \<Rightarrow>
          (case skip_ws r of
             [] \<Rightarrow> None
           | c # cs \<Rightarrow>
               if c = CHR '']'' then Some ([v], cs)
               else if c = CHR '','' then
                 map_option (\<lambda>(vs, r'). (v # vs, r')) (read_elements n (skip_ws cs))
               else None))"
| "read_members 0 s = None"
| "read_members (Suc n) s =
     (case s of
        [] \<Rightarrow> None
      | q # s1 \<Rightarrow>
          if q \<noteq> CHR 0x22 then None
          else (case read_string s1 of
              None \<Rightarrow> None
            | Some (k, r0) \<Rightarrow>
                (case skip_ws r0 of
                   [] \<Rightarrow> None
                 | c0 # r1 \<Rightarrow>
                     if c0 \<noteq> CHR '':'' then None
                     else (case read_value n (skip_ws r1) of
                         None \<Rightarrow> None
                       | Some (v, r) \<Rightarrow>
                           (case skip_ws r of
                              [] \<Rightarrow> None
                            | c # cs \<Rightarrow>
                                if c = CHR ''}'' then Some ([(k, v)], cs)
                                else if c = CHR '','' then
                                  map_option (\<lambda>(kvs, r'). ((k, v) # kvs, r')) (read_members n (skip_ws cs))
                                else None)))))"

definition json_loads :: "string \<Rightarrow> pyval option" where
  "json_loads s =
     (case read_value (Suc (length s)) (skip_ws s) of
        None \<Rightarrow> None
      | Some (v, r) \<Rightarrow> if skip_ws r = [] then Some v else None)"

section \<open>Reading back strings and numerals\<close>

lemma before_append: "before x (before y r) = before (x @ y) r"
  by (cases r) (auto simp: before_def)

lemma hex_val_hex_char: "d < 16 \<Longrightarrow> hex_val (hex_char d) = Some d"
  by (auto simp: hex_val_def hex_char_def of_char_of Let_def)

lemma read_unicode_control:
  assumes "n < 32"
  shows "read_unicode (CHR ''0'' # CHR ''0'' # hex_char (n div 16) # hex_char (n mod 16) # s) = Some (n, s)"
proof -
  have "hex_val (CHR ''0'') = Some 0" by (simp add: hex_val_def)
  moreover have "n div 16 < 16" "n mod 16 < 16" using assms by auto
  ultimately have "hex4 (CHR ''0'' # CHR ''0'' # hex_char (n div 16) # hex_char (n mod 16) # s) = Some (n, s)"
    by (simp add: hex_val_hex_char)
  with assms show ?thesis by (simp add: read_unicode_def)
qed

lemma char_code: "(of_char d :: nat) = n \<Longrightarrow> (of_char c :: nat) = n \<longleftrightarrow> c = d"
  by (metis char_of_char)

lemma char_codes:
  "(of_char c :: nat) = 34 \<longleftrightarrow> c = CHR 0x22" "(of_char c :: nat) = 92 \<longleftrightarrow> c = CHR 0x5C"
  "(of_char c :: nat) = 8 \<longleftrightarrow> c = CHR 0x08" "(of_char c :: nat) = 12 \<longleftrightarrow> c = CHR 0x0C"
  "(of_char c :: nat) = 10 \<longleftrightarrow> c = CHR 0x0A" "(of_char c :: nat) = 13 \<longleftrightarrow> c = CHR 0x0D"
  "(of_char c :: nat) = 9 \<longleftrightarrow> c = CHR 0x09"
  by (rule char_code, simp)+

definition special_char :: "char \<Rightarrow> bool" where
  "special_char c \<longleftrightarrow> c \<in> {CHR 0x22, CHR 0x5C, CHR 0x08, CHR 0x0C, CHR 0x0A, CHR 0x0D, CHR 0x09}"

lemma read_escape: "read_string (json_escape c @ s) = before [c] (read_string s)"
proof -
  consider "special_char c" | "\<not> special_char c" "(of_char c :: nat) < 32" | "\<not> special_char c" "32 \<le> (of_char c :: nat)"
    by force
  then show ?thesis
  proof cases
    case 1
    then show ?thesis
      unfolding special_char_def insert_iff empty_iff
      by (elim disjE) (simp_all add: json_escape_def simple_escapes_def)
  next
    case 2
    let ?n = "of_char c :: nat"
    have "json_escape c = [CHR 0x5C, CHR ''u'', CHR ''0'', CHR ''0'', hex_char (?n div 16), hex_char (?n mod 16)]"
      using 2 by (simp add: json_escape_def special_char_def char_codes Let_def)
    moreover have "utf8 ?n = [c]" using 2 by (simp add: utf8_def)
    ultimately show ?thesis using 2 by (simp add: read_unicode_control)
  next
    case 3
    then have "json_escape c = [c]" by (simp add: json_escape_def special_char_def char_codes Let_def)
    with 3 show ?thesis by (simp add: special_char_def)
  qed
qed

lemma read_string_json: "read_string (concat (map json_escape s) @ CHR 0x22 # r) = Some (s, r)"
proof (induction s)
  case (Cons c s)
  then show ?case
    using read_escape [of c "concat (map json_escape s) @ CHR 0x22 # r"] by (simp add: before_def)
qed simp

text \<open>What may follow a value: the end, or the next separator or bracket.\<close>

definition stop :: "string \<Rightarrow> bool" where
  "stop r \<longleftrightarrow> r = [] \<or> hd r \<in> {CHR '','', CHR '']'', CHR ''}''}"

lemma stop_simps [simp]: "stop []" "stop (CHR '','' # r)" "stop (CHR '']'' # r)" "stop (CHR ''}'' # r)"
  by (simp_all add: stop_def)

lemma stop_not:
  "stop r \<Longrightarrow> takeWhile is_digit r = [] \<and> dropWhile is_digit r = r \<and> read_frac r = ([], r) \<and> read_exp r = (None, r)"
  by (cases r) (auto simp: stop_def is_digit_def read_frac_def read_exp_def)

lemma take_drop_digits:
  "list_all is_digit ds \<Longrightarrow> stop r \<Longrightarrow> takeWhile is_digit (ds @ r) = ds \<and> dropWhile is_digit (ds @ r) = r"
  using stop_not [of r] by (induction ds) auto

lemma pos_str_zero: "pos_str 0 = ''0''"
  by code_simp

lemma pos_str_hd: "0 < n \<Longrightarrow> hd (pos_str n) \<noteq> CHR ''0''"
proof (induction n rule: pos_str.induct)
  case (1 n)
  show ?case
  proof (cases "n < 10")
    case True
    moreover have "digit_char n \<noteq> CHR ''0''"
      using 1 True digit_val_digit_char [of n] by (auto simp: digit_val_def)
    ultimately show ?thesis by (simp add: pos_str.simps [of n])
  next
    case False
    with 1 show ?thesis by (simp add: pos_str.simps [of n] pos_imp_zdiv_pos_iff)
  qed
qed

lemma read_int_part_pos:
  assumes "0 \<le> n" "stop r" shows "read_int_part (pos_str n @ r) = Some (pos_str n, r)"
proof (cases "n = 0")
  case True
  with take_drop_digits [of "''0''" r] assms show ?thesis
    by (simp add: pos_str_zero read_int_part_def is_digit_def)
next
  case False
  with take_drop_digits [OF pos_str_digits assms(2), of n] assms pos_str_hd [of n] show ?thesis
    by (simp add: read_int_part_def)
qed

lemma pos_str_no_sign: "0 \<le> n \<Longrightarrow> hd (pos_str n) \<noteq> CHR ''-''"
  using pos_str_digits [of n] by (cases "pos_str n") (auto simp: is_digit_def)

lemma read_number_int: "stop r \<Longrightarrow> read_number (int_str i @ r) = Some (PInt i, r)"
  using pos_str_no_sign [of i] stop_not [of r]
  by (auto simp: read_number_def int_str_def read_int_part_pos Let_def)

section \<open>Reading back values\<close>

text \<open>Payloads without floats whose objects have no key twice.\<close>

fun plain :: "pyval \<Rightarrow> bool" where
  "plain (PFloat m e) = False"
| "plain (PList xs) = list_all plain xs"
| "plain (PDict d) = (distinct (map fst d) \<and> list_all (\<lambda>(k, v). plain v) d)"
| "plain v = True"

definition white :: "string \<Rightarrow> bool" where
  "white w \<longleftrightarrow> list_all json_ws w"

lemma skip_white: "white w \<Longrightarrow> skip_ws (w @ s) = skip_ws s"
  by (induction w) (auto simp: white_def skip_ws_def)

lemma skip_ws_id: "s = [] \<or> \<not> json_ws (hd s) \<Longrightarrow> skip_ws s = s"
  by (cases s) (auto simp: skip_ws_def)

lemma int_str_hd: "is_digit (hd (int_str i)) \<or> hd (int_str i) = CHR ''-''" "int_str i \<noteq> []"
  using pos_str_digits [of i] by (cases "pos_str i"; simp add: int_str_def)+

lemma print_start:
  assumes "plain v"
  obtains c s where "json_print sep ks v = c # s" "\<not> json_ws c" "c \<noteq> CHR '']''" "c \<noteq> CHR ''}''"
proof (cases v)
  case (PInt i)
  obtain c s where i: "int_str i = c # s" using int_str_hd(2) [of i] by (cases "int_str i") auto
  with int_str_hd(1) [of i] have "is_digit c \<or> c = CHR ''-''" by simp
  then have "\<not> json_ws c" "c \<noteq> CHR '']''" "c \<noteq> CHR ''}''"
    by (auto simp: json_ws_def is_digit_def)
  with PInt i that show ?thesis by simp
next
  case (PBool b)
  with that show ?thesis by (cases b) (auto simp: json_ws_def)
qed (use assms that in \<open>auto simp: json_ws_def json_string_def split: if_splits\<close>)

lemma update_new: "k \<notin> fst ` set d \<Longrightarrow> AList.update k v d = d @ [(k, v)]"
  by (induction d) auto

lemma dict_of_distinct: "distinct (map fst kvs) \<Longrightarrow> dict_of kvs = kvs"
proof -
  have "distinct (map fst (d @ kvs)) \<Longrightarrow> fold (\<lambda>(k, v) d. AList.update k v d) kvs d = d @ kvs" for d
    by (induction kvs arbitrary: d) (auto simp: update_new)
  from this [of "[]"] show "distinct (map fst kvs) \<Longrightarrow> dict_of kvs = kvs" by (simp add: dict_of_def)
qed

definition separators :: "string \<Rightarrow> string \<Rightarrow> bool" where
  "separators sep ks \<longleftrightarrow> (\<exists>w w'. sep = CHR '','' # w \<and> ks = CHR '':'' # w' \<and> white w \<and> white w')"

lemma print_skip: "plain v \<Longrightarrow> skip_ws (json_print sep ks v @ r) = json_print sep ks v @ r"
  by (rule print_start [of v sep ks]) (auto intro: skip_ws_id)

lemma read_elements_join:
  assumes sep: "separators sep ks"
    and "xs \<noteq> []" "list_all plain xs"
    and each: "\<And>x n r. x \<in> set xs \<Longrightarrow> stop r \<Longrightarrow> length (json_print sep ks x) \<le> n \<Longrightarrow>
      read_value n (json_print sep ks x @ r) = Some (x, r)"
    and "length (join sep (map (json_print sep ks) xs)) < n"
  shows "read_elements n (join sep (map (json_print sep ks) xs) @ CHR '']'' # r) = Some (xs, r)"
  using assms(2-)
proof (induction xs arbitrary: n)
  case (Cons x xs)
  then obtain m where n: "n = Suc m" by (cases n) auto
  obtain w where w: "sep = CHR '','' # w" "white w" using sep by (auto simp: separators_def)
  show ?case
  proof (cases "xs = []")
    case True
    with Cons.prems n show ?thesis by (simp add: skip_ws_id json_ws_def)
  next
    case False
    have start: "skip_ws (w @ join sep (map (json_print sep ks) xs) @ CHR '']'' # r) =
        join sep (map (json_print sep ks) xs) @ CHR '']'' # r"
    proof -
      from False obtain y ys where "xs = y # ys" by (cases xs) auto
      with Cons.prems(2) w show ?thesis
        by (cases ys) (simp_all add: skip_white print_skip)
    qed
    have "read_elements m (join sep (map (json_print sep ks) xs) @ CHR '']'' # r) = Some (xs, r)"
      using Cons.prems False n w by (intro Cons.IH) (auto simp: join_Cons)
    with Cons.prems False n w start show ?thesis
      by (simp add: join_Cons skip_ws_id json_ws_def)
  qed
qed simp

definition member_text :: "string \<Rightarrow> string \<Rightarrow> string \<times> pyval \<Rightarrow> string" where
  "member_text sep ks kv = (case kv of (k, v) \<Rightarrow> json_string k @ ks @ json_print sep ks v)"

lemma member_text_start: "member_text sep ks kv = CHR 0x22 # tl (member_text sep ks kv)"
  by (cases kv) (simp add: member_text_def json_string_def)

lemma read_members_join:
  assumes sep: "separators sep ks"
    and "d \<noteq> []" "list_all (\<lambda>(k, v). plain v) d"
    and each: "\<And>k v n r. (k, v) \<in> set d \<Longrightarrow> stop r \<Longrightarrow> length (json_print sep ks v) \<le> n \<Longrightarrow>
      read_value n (json_print sep ks v @ r) = Some (v, r)"
    and "length (join sep (map (member_text sep ks) d)) < n"
  shows "read_members n (join sep (map (member_text sep ks) d) @ CHR ''}'' # r) = Some (d, r)"
  using assms(2-)
proof (induction d arbitrary: n)
  case (Cons kv d)
  then obtain m where n: "n = Suc m" by (cases n) auto
  obtain k v where kv: "kv = (k, v)" by (cases kv)
  obtain w w' where w: "sep = CHR '','' # w" "white w" "ks = CHR '':'' # w'" "white w'"
    using sep by (auto simp: separators_def)
  have v: "plain v" using Cons.prems kv by simp
  have head: "read_members n (member_text sep ks kv @ s) =
      (case skip_ws s of
         [] \<Rightarrow> None
       | c # cs \<Rightarrow>
           if c = CHR ''}'' then Some ([(k, v)], cs)
           else if c = CHR '','' then map_option (\<lambda>(kvs, r'). ((k, v) # kvs, r')) (read_members m (skip_ws cs))
           else None)" if "stop s" "length (json_print sep ks v) \<le> m" for s
    using Cons.prems(3) [of k v s m] that w v
    by (simp add: n kv member_text_def json_string_def read_string_json skip_ws_id json_ws_def
        skip_white print_skip)
  show ?case
  proof (cases "d = []")
    case True
    have "length (json_print sep ks v) \<le> m"
      using Cons.prems(4) True n kv by (simp add: member_text_def json_string_def)
    with True head [of "CHR ''}'' # r"] kv show ?thesis by (simp add: skip_ws_id json_ws_def)
  next
    case False
    have start: "skip_ws (w @ join sep (map (member_text sep ks) d) @ CHR ''}'' # r) =
        join sep (map (member_text sep ks) d) @ CHR ''}'' # r"
    proof -
      from False obtain e es where "d = e # es" by (cases d) auto
      moreover have "skip_ws (member_text sep ks e @ s) = member_text sep ks e @ s" for s
        using member_text_start [of sep ks e] by (intro skip_ws_id) (cases "member_text sep ks e"; simp add: json_ws_def)
      ultimately show ?thesis using w by (cases es) (simp_all add: skip_white)
    qed
    have "length (json_print sep ks v) \<le> m"
      using Cons.prems(4) False n kv by (simp add: member_text_def json_string_def join_Cons)
    moreover have "read_members m (join sep (map (member_text sep ks) d) @ CHR ''}'' # r) = Some (d, r)"
      using Cons.prems False n w by (intro Cons.IH) (auto simp: join_Cons)
    ultimately show ?thesis
      using head [of "sep @ join sep (map (member_text sep ks) d) @ CHR ''}'' # r"] False w start kv
      by (simp add: join_Cons skip_ws_id json_ws_def)
  qed
qed simp

lemma read_scalars:
  "stop r \<Longrightarrow> length (int_str i) \<le> n \<Longrightarrow> read_value n (int_str i @ r) = Some (PInt i, r)"
  "stop r \<Longrightarrow> length (json_print sep ks (PBool b)) \<le> n \<Longrightarrow>
     read_value n (json_print sep ks (PBool b) @ r) = Some (PBool b, r)"
  "4 \<le> n \<Longrightarrow> read_value n (''null'' @ r) = Some (PNone, r)"
  "length (json_string s) \<le> n \<Longrightarrow> read_value n (json_string s @ r) = Some (PStr s, r)"
proof -
  assume r: "stop r" and i: "length (int_str i) \<le> n"
  obtain c s where cs: "int_str i = c # s" using int_str_hd(2) [of i] by (cases "int_str i") auto
  with i obtain m where n: "n = Suc m" by (cases n) auto
  from cs int_str_hd(1) [of i] have "is_digit c \<or> c = CHR ''-''" by simp
  then have "c \<notin> {CHR 0x22, CHR ''{'', CHR ''['', CHR ''n'', CHR ''t'', CHR ''f''}"
    by (auto simp: is_digit_def)
  with read_number_int [OF r, of i] cs n show "read_value n (int_str i @ r) = Some (PInt i, r)" by simp
next
  show "length (json_print sep ks (PBool b)) \<le> n \<Longrightarrow>
      read_value n (json_print sep ks (PBool b) @ r) = Some (PBool b, r)"
    by (cases n; cases b) (simp_all add: read_word_def)
  show "4 \<le> n \<Longrightarrow> read_value n (''null'' @ r) = Some (PNone, r)"
    by (cases n) (simp_all add: read_word_def)
  show "length (json_string s) \<le> n \<Longrightarrow> read_value n (json_string s @ r) = Some (PStr s, r)"
    by (cases n) (simp_all add: json_string_def read_string_json)
qed

lemma read_value_print:
  assumes sep: "separators sep ks"
  shows "plain v \<Longrightarrow> stop r \<Longrightarrow> length (json_print sep ks v) \<le> n \<Longrightarrow>
    read_value n (json_print sep ks v @ r) = Some (v, r)"
proof (induction v arbitrary: n r rule: plain.induct)
  case (2 xs)
  then obtain m where n: "n = Suc m" by (cases n) auto
  show ?case
  proof (cases "xs = []")
    case False
    then have "read_elements m (join sep (map (json_print sep ks) xs) @ CHR '']'' # r) = Some (xs, r)"
      using 2 n sep by (intro read_elements_join) (auto simp: list_all_iff)
    moreover have "skip_ws (join sep (map (json_print sep ks) xs) @ CHR '']'' # r) =
        join sep (map (json_print sep ks) xs) @ CHR '']'' # r \<and>
        hd (join sep (map (json_print sep ks) xs) @ CHR '']'' # r) \<noteq> CHR '']''"
    proof -
      from False obtain y ys where xs: "xs = y # ys" by (cases xs) auto
      with 2 have "plain y" by simp
      then obtain c s where "json_print sep ks y = c # s" "\<not> json_ws c" "c \<noteq> CHR '']''"
        by (rule print_start)
      with xs show ?thesis by (cases ys) (auto intro: skip_ws_id)
    qed
    ultimately show ?thesis using n by simp
  qed (use n in \<open>simp add: skip_ws_def json_ws_def\<close>)
next
  case (3 d)
  then obtain m where n: "n = Suc m" by (cases n) auto
  have members: "map (\<lambda>(k, v). json_string k @ ks @ json_print sep ks v) d = map (member_text sep ks) d"
    by (simp add: member_text_def)
  show ?case
  proof (cases "d = []")
    case False
    then have "read_members m (join sep (map (member_text sep ks) d) @ CHR ''}'' # r) = Some (d, r)"
      using 3 n sep by (intro read_members_join) (auto simp: list_all_iff members)
    moreover have "skip_ws (join sep (map (member_text sep ks) d) @ CHR ''}'' # r) =
        join sep (map (member_text sep ks) d) @ CHR ''}'' # r \<and>
        hd (join sep (map (member_text sep ks) d) @ CHR ''}'' # r) \<noteq> CHR ''}''"
    proof -
      from False obtain e es where d: "d = e # es" by (cases d) auto
      obtain s where "member_text sep ks e = CHR 0x22 # s" using member_text_start by metis
      with d show ?thesis by (cases es) (auto simp: json_ws_def intro: skip_ws_id)
    qed
    ultimately show ?thesis using n 3 by (simp add: members dict_of_distinct)
  qed (use n in \<open>simp add: skip_ws_def json_ws_def\<close>)
next
  case "4_1"
  then show ?case using read_scalars(3) [of n r] by simp
next
  case "4_2"
  then show ?case by (intro read_scalars(2))
qed (simp_all add: read_scalars(1,4))

lemma plain_canon: "plain v \<Longrightarrow> plain (canon v)"
proof (induction v rule: plain.induct)
  case (3 d)
  have "map fst (map (\<lambda>(k, v). (k, canon v)) d) = map fst d" by auto
  with 3 have "distinct (map fst (map (\<lambda>(k, v). (k, canon v)) d))" by (simp only: plain.simps)
  then have "distinct (map fst (sort_key fst (map (\<lambda>(k, v). (k, canon v)) d)))"
    by (simp only: distinct_map distinct_sort set_sort)
  with 3 show ?case by (auto simp: list_all_iff)
qed (auto simp: list_all_iff)

lemma read_print:
  assumes "separators sep ks" "plain v"
  shows "json_loads (json_print sep ks v) = Some v"
  using read_value_print [OF assms, of "[]" "Suc (length (json_print sep ks v))"]
    print_skip [OF assms(2), of sep ks "[]"]
  by (simp add: json_loads_def skip_ws_def)

lemma separators_program: "separators '', '' '': ''" "separators '','' '':''"
  by (auto simp: separators_def white_def json_ws_def)

text \<open>A payload survives the ledger: for every float-free payload whose objects have no key twice,
  reading the stored JSON text gives the payload with the keys of every object sorted, with
  either separator convention. So two payloads with the same canonical text, which the content
  hash is taken of, are the same payload up to the order of keys.\<close>

theorem payload_roundtrip:
  assumes "plain v" "plain w"
  shows "json_loads (json_dumps v) = Some (canon v) \<and> json_loads (json_compact v) = Some (canon v) \<and>
    (json_compact v = json_compact w \<longleftrightarrow> canon v = canon w)"
proof -
  have "json_loads (json_compact v) = Some (canon v)" if "plain v" for v
    using read_print [OF separators_program(2) plain_canon [OF that]] by (simp add: json_compact_def)
  from this [OF assms(1)] this [OF assms(2)] read_print [OF separators_program(1) plain_canon [OF assms(1)]]
  show ?thesis by (auto simp: json_dumps_def) (simp add: json_compact_def)
qed

theorem payload_roundtrip_witness:
  "json_loads (json_dumps (PDict [(''b'', PInt (- 3)), (''a'', PList [PStr [CHR 0x22, CHR 0x0A], PBool True])])) =
     Some (PDict [(''a'', PList [PStr [CHR 0x22, CHR 0x0A], PBool True]), (''b'', PInt (- 3))])"
  using payload_roundtrip [of "PDict [(''b'', PInt (- 3)), (''a'', PList [PStr [CHR 0x22, CHR 0x0A], PBool True])]" PNone]
  by simp

end
