(* ===== verification/Text_Limits.thy ===== *)
theory Text_Limits imports Denials begin

text \<open>
  The text gates of \<open>kaizen_components/hashing.py\<close>: word and sentence counts and the
  limits every durable text field is held to. A gate returns \<open>Inr ()\<close> or the denial it
  raises. White space is that of ASCII; a character outside ASCII counts as a letter.
\<close>

section \<open>Counting\<close>

text \<open>\<open>str.split()\<close>\<close>

fun words_from :: "string \<Rightarrow> string \<Rightarrow> string list" where
  "words_from acc [] = (if acc = [] then [] else [rev acc])"
| "words_from acc (c # cs) =
     (if is_space c then (if acc = [] then words_from [] cs else rev acc # words_from [] cs)
      else words_from (c # acc) cs)"

definition split_words :: "string \<Rightarrow> string list" where
  "split_words s = words_from [] s"

definition word_count :: "string \<Rightarrow> int" where
  "word_count s = int (length (split_words s))"

definition is_terminator :: "char \<Rightarrow> bool" where
  "is_terminator c = (c = CHR ''.'' \<or> c = CHR ''!'' \<or> c = CHR ''?'')"

text \<open>\<open>re.split(r"(?<=[.!?])\s+", text)\<close>; the first argument is the part being read, reversed.\<close>

function sentence_split :: "string \<Rightarrow> string \<Rightarrow> string list" where
  "sentence_split acc [] = [rev acc]"
| "sentence_split acc (c # cs) =
     (if is_space c \<and> acc \<noteq> [] \<and> is_terminator (hd acc)
      then rev acc # sentence_split [] (dropWhile is_space cs)
      else sentence_split (c # acc) cs)"
  by pat_completeness auto
termination
  by (relation "measure (\<lambda>(acc, s). length s)") (auto simp: less_Suc_eq_le length_dropWhile_le)

definition sentence_count :: "string \<Rightarrow> int" where
  "sentence_count s =
     (let stripped = join '' '' (split_words s) in
      if stripped = [] then 0
      else max 1 (int (length (filter (\<lambda>p. p \<noteq> []) (sentence_split [] stripped)))))"

section \<open>Gates\<close>

definition default_word_limit :: int where
  "default_word_limit = 1000"

text \<open>\<open>int(limit * 1.3)\<close>, in double arithmetic, and \<open>math.ceil(words / limit)\<close>.\<close>

definition float_of_int :: "int \<Rightarrow> int \<times> int" where
  "float_of_int n = double_of_frac n 1"

definition float_mul :: "int \<times> int \<Rightarrow> int \<times> int \<Rightarrow> int \<times> int" where
  "float_mul a b =
     (let (n, d) = frac_of (fst a * fst b) (snd a + snd b) in double_of_frac n d)"

definition float_1_3 :: "int \<times> int" where
  "float_1_3 = double_of_frac 13 10"

definition split_threshold :: "int \<Rightarrow> int" where
  "split_threshold limit = (let (m, e) = float_mul (float_of_int limit) float_1_3 in float_trunc m e)"

definition ceil_div :: "int \<Rightarrow> int \<Rightarrow> int" where
  "ceil_div a b = (let (m, e) = double_of_frac a b; (n, d) = frac_of m e in - ((- n) div d))"

definition splittable_field :: "string \<Rightarrow> bool" where
  "splittable_field field =
     (field = ''body'' \<or> field = ''text'' \<or> ends_with ''_body'' field)"

definition validate_word_limit :: "string \<Rightarrow> string \<Rightarrow> int \<Rightarrow> exn + unit" where
  "validate_word_limit field value limit =
     (let count = word_count value in
      if count \<le> limit then Inr ()
      else if count \<le> split_threshold limit \<or> \<not> splittable_field field then
        Inl (denied2 ''DENIED_FIELD_WORD_LIMIT''
          [(''field'', PStr field), (''words'', PInt count), (''limit'', PInt limit),
           (''required_action'',
              PStr (''resubmit a shorter '' @ field @ '' under '' @ int_str limit @ '' words''))])
      else if limit = 0 then Inl (PyError ''ZeroDivisionError'' ''division by zero'')
      else
        Inl (denied2 ''DENIED_FIELD_SPLIT_REQUIRED''
          [(''field'', PStr field), (''words'', PInt count), (''limit'', PInt limit),
           (''required_action'',
              PStr (''split into '' @ int_str (ceil_div count limit) @ '' child entries''))]))"

definition validate_summary :: "string \<Rightarrow> bool \<Rightarrow> exn + unit" where
  "validate_summary summary required =
     (if summary = [] then
        (if required then
           Inl (denied2 ''DENIED_SUMMARY_REQUIRED''
             [(''field'', PStr ''summary''),
              (''required_action'', PStr ''resubmit with a 1-2 sentence summary'')])
         else Inr ())
      else
        (let count = sentence_count summary in
         if 2 < count then
           Inl (denied2 ''DENIED_SUMMARY_TOO_LONG''
             [(''field'', PStr ''summary''), (''sentences'', PInt count), (''limit'', PInt 2),
              (''required_action'', PStr ''resubmit with a 1-2 sentence summary'')])
         else validate_word_limit ''summary'' summary 80))"

fun first_error :: "(exn + unit) list \<Rightarrow> exn + unit" where
  "first_error [] = Inr ()"
| "first_error (Inl e # rs) = Inl e"
| "first_error (Inr () # rs) = first_error rs"

definition validate_text_fields :: "(string \<times> string) list \<Rightarrow> bool \<Rightarrow> exn + unit" where
  "validate_text_fields texts summary_required =
     first_error
       (validate_summary (opt_str (map_of texts ''summary'')) summary_required #
        map (\<lambda>(name, value). validate_word_limit name value default_word_limit)
          (filter (\<lambda>(name, value). name \<noteq> ''summary'') texts))"

section \<open>Words and sentences\<close>

definition a_word :: "string \<Rightarrow> bool" where
  "a_word w \<longleftrightarrow> w \<noteq> [] \<and> list_all (\<lambda>c. \<not> is_space c) w"

lemma words_from_props: "list_all (\<lambda>c. \<not> is_space c) acc \<Longrightarrow> list_all a_word (words_from acc s)"
  by (induction acc s rule: words_from.induct) (simp_all add: a_word_def list_all_rev)

lemma split_words_props: "list_all a_word (split_words s)"
  by (simp add: split_words_def words_from_props)

lemma words_from_append:
  "list_all (\<lambda>c. \<not> is_space c) w \<Longrightarrow> words_from acc (w @ s) = words_from (rev w @ acc) s"
  by (induction w arbitrary: acc) auto

lemma is_space_blank [simp]: "is_space (CHR '' '')"
  by (simp add: is_space_def)

lemma words_from_join: "list_all a_word ws \<Longrightarrow> words_from [] (join '' '' ws) = ws"
proof (induction ws)
  case (Cons x ws)
  then have x: "x \<noteq> []" "list_all (\<lambda>c. \<not> is_space c) x" by (auto simp: a_word_def)
  show ?case
  proof (cases "ws = []")
    case True
    with x show ?thesis using words_from_append [of x "[]" "[]"] by simp
  next
    case False
    with x Cons show ?thesis by (simp add: join_Cons words_from_append)
  qed
qed simp

lemma sentence_split_append:
  "list_all (\<lambda>c. \<not> is_space c) w \<Longrightarrow> sentence_split acc (w @ s) = sentence_split (rev w @ acc) s"
  by (induction w arbitrary: acc) auto

lemma join_word_hd:
  assumes "ws \<noteq> []" "list_all a_word ws"
  shows "dropWhile is_space (join '' '' ws) = join '' '' ws \<and> join '' '' ws \<noteq> []"
proof -
  from assms obtain c w ws' where "ws = (c # w) # ws'" "\<not> is_space c"
    by (cases ws; cases "hd ws") (auto simp: a_word_def)
  then show ?thesis by (cases ws') auto
qed

definition ends_sentence :: "string \<Rightarrow> bool" where
  "ends_sentence w \<longleftrightarrow> w \<noteq> [] \<and> is_terminator (last w)"

lemma sentence_split_step:
  assumes "a_word x" "ws \<noteq> []" "list_all a_word ws"
  shows "sentence_split acc (join '' '' (x # ws)) =
    (if ends_sentence x then (rev acc @ x) # sentence_split [] (join '' '' ws)
     else sentence_split (CHR '' '' # rev x @ acc) (join '' '' ws))"
proof -
  from assms(1) have x: "x \<noteq> []" "list_all (\<lambda>c. \<not> is_space c) x" by (auto simp: a_word_def)
  have hd: "rev x @ acc \<noteq> []" "hd (rev x @ acc) = last x"
    using x by (simp_all add: hd_append hd_rev)
  have "sentence_split acc (join '' '' (x # ws)) = sentence_split (rev x @ acc) (CHR '' '' # join '' '' ws)"
    using x assms(2) by (simp add: join_Cons sentence_split_append)
  also have "\<dots> = (if is_terminator (last x) then rev (rev x @ acc) # sentence_split [] (join '' '' ws)
      else sentence_split (CHR '' '' # rev x @ acc) (join '' '' ws))"
    using hd join_word_hd [OF assms(2,3)] by (simp only: sentence_split.simps(2)) simp
  finally show ?thesis using x by (simp add: ends_sentence_def)
qed

lemma sentence_split_join:
  "ws \<noteq> [] \<Longrightarrow> list_all a_word ws \<Longrightarrow>
     list_all (\<lambda>p. p \<noteq> []) (sentence_split acc (join '' '' ws)) \<and>
     length (sentence_split acc (join '' '' ws)) = Suc (length (filter ends_sentence (butlast ws)))"
proof (induction ws arbitrary: acc)
  case (Cons x ws)
  then have x: "a_word x" "x \<noteq> []" by (auto simp: a_word_def)
  show ?case
  proof (cases "ws = []")
    case True
    with x show ?thesis using sentence_split_append [of x acc "[]"] by (simp add: a_word_def)
  next
    case False
    then show ?thesis
      using Cons.prems Cons.IH [of "[]"] Cons.IH [of "CHR '' '' # rev x @ acc"] x
      by (simp add: sentence_split_step)
  qed
qed simp

text \<open>The heuristic sentence count of a text is one more than the number of its words, the last one
  aside, that end in a full stop, an exclamation mark or a question mark; a blank text has none.
  So extra white space never changes it.\<close>

theorem sentence_count_words:
  "sentence_count s =
     (if split_words s = [] then 0
      else 1 + int (length (filter ends_sentence (butlast (split_words s))))) \<and>
   split_words (join '' '' (split_words s)) = split_words s"
proof (cases "split_words s = []")
  case False
  note split = sentence_split_join [OF False split_words_props, of "[]"]
  from split have "filter (\<lambda>p. p \<noteq> []) (sentence_split [] (join '' '' (split_words s))) =
      sentence_split [] (join '' '' (split_words s))"
    by (simp add: filter_id_conv list_all_iff)
  moreover have "split_words (join '' '' (split_words s)) = split_words s"
    using words_from_join [OF split_words_props, of s] by (simp add: split_words_def)
  ultimately show ?thesis
    using False split join_word_hd [OF False split_words_props] by (simp add: sentence_count_def)
qed (simp add: sentence_count_def split_words_def)

lemma validate_word_limit_ok [simp]: "validate_word_limit field value limit = Inr () \<longleftrightarrow> word_count value \<le> limit"
  by (simp add: validate_word_limit_def Let_def)

text \<open>The summary gate lets a text through exactly when it is blank and optional, or it has at most
  two sentences and at most eighty words; otherwise it denies with exit code 2, and the code
  names the first limit that is broken.\<close>

theorem validate_summary_decides:
  "(case validate_summary s required of
      Inr _ \<Rightarrow> s = [] \<and> \<not> required \<or> s \<noteq> [] \<and> sentence_count s \<le> 2 \<and> word_count s \<le> 80
    | Inl e \<Rightarrow> is_denied e \<and> exn_exit e = 2 \<and>
        (exn_code e = ''DENIED_SUMMARY_REQUIRED'' \<and> s = [] \<and> required \<or>
         exn_code e = ''DENIED_SUMMARY_TOO_LONG'' \<and> s \<noteq> [] \<and> 2 < sentence_count s \<or>
         exn_code e = ''DENIED_FIELD_WORD_LIMIT'' \<and> s \<noteq> [] \<and> sentence_count s \<le> 2 \<and> 80 < word_count s))"
proof -
  have "\<not> splittable_field ''summary''" by code_simp
  then show ?thesis
    by (simp add: validate_summary_def validate_word_limit_def Let_def)
qed

end
