(* ===== verification/Regex.thy ===== *)
theory Regex imports Py_Value begin

text \<open>
  The part of Python's \<open>re\<close> the program's patterns use: character classes, concatenation,
  ordered alternation, greedy repetition, word boundaries, negative look-ahead and a one-character
  negative look-behind. A position is the text before it, reversed, and the text after it;
  \<open>ends r p\<close> lists where a match of \<open>r\<close> that starts at \<open>p\<close> can end, in the order the
  backtracking matcher tries them, so its head is the match Python reports.
\<close>

text \<open>\<open>p in s\<close>\<close>

fun contains :: "string \<Rightarrow> string \<Rightarrow> bool" where
  "contains p [] = (p = [])"
| "contains p (c # cs) = (take (length p) (c # cs) = p \<or> contains p cs)"

datatype rx =
    Eps
  | Cls "char \<Rightarrow> bool"
  | Seq rx rx
  | Alt rx rx
  | Star rx
  | WordB
  | NotAhead rx
  | NotBehind "char \<Rightarrow> bool"

type_synonym pos = "string \<times> string"

definition is_upper :: "char \<Rightarrow> bool" where
  "is_upper c = (65 \<le> (of_char c :: nat) \<and> (of_char c :: nat) \<le> 90)"

definition is_lower :: "char \<Rightarrow> bool" where
  "is_lower c = (97 \<le> (of_char c :: nat) \<and> (of_char c :: nat) \<le> 122)"

definition is_alpha :: "char \<Rightarrow> bool" where
  "is_alpha c = (is_upper c \<or> is_lower c)"

definition is_alnum :: "char \<Rightarrow> bool" where
  "is_alnum c = (is_alpha c \<or> is_digit c)"

text \<open>\<open>\w\<close>; a byte of a character outside ASCII counts as a letter.\<close>

definition is_word :: "char \<Rightarrow> bool" where
  "is_word c = (is_alnum c \<or> c = CHR ''_'' \<or> 128 \<le> (of_char c :: nat))"

definition at_boundary :: "pos \<Rightarrow> bool" where
  "at_boundary p =
     ((case fst p of [] \<Rightarrow> False | c # cs \<Rightarrow> is_word c) \<noteq>
      (case snd p of [] \<Rightarrow> False | c # cs \<Rightarrow> is_word c))"

fun step_cls :: "(char \<Rightarrow> bool) \<Rightarrow> pos \<Rightarrow> pos list" where
  "step_cls f (b, []) = []"
| "step_cls f (b, c # a) = (if f c then [(c # b, a)] else [])"

fun star_ends :: "(pos \<Rightarrow> pos list) \<Rightarrow> nat \<Rightarrow> pos \<Rightarrow> pos list" where
  "star_ends f 0 p = [p]"
| "star_ends f (Suc n) p =
     concat (map (\<lambda>q. if length (snd q) < length (snd p) then star_ends f n q else []) (f p)) @ [p]"

primrec ends :: "rx \<Rightarrow> pos \<Rightarrow> pos list" where
  "ends Eps p = [p]"
| "ends (Cls f) p = step_cls f p"
| "ends (Seq r s) p = concat (map (ends s) (ends r p))"
| "ends (Alt r s) p = ends r p @ ends s p"
| "ends (Star r) p = star_ends (ends r) (length (snd p)) p"
| "ends WordB p = (if at_boundary p then [p] else [])"
| "ends (NotAhead r) p = (if ends r p = [] then [p] else [])"
| "ends (NotBehind f) p = (case fst p of [] \<Rightarrow> [p] | c # cs \<Rightarrow> if f c then [] else [p])"

section \<open>Derived patterns\<close>

definition chr_rx :: "char \<Rightarrow> rx" where
  "chr_rx c = Cls (\<lambda>d. d = c)"

text \<open>A character or a literal with the flag \<open>(?i)\<close>: \<open>c\<close> is given in lower case.\<close>

definition chr_i :: "char \<Rightarrow> rx" where
  "chr_i c = Cls (\<lambda>d. lower_char d = c)"

definition seqs :: "rx list \<Rightarrow> rx" where
  "seqs rs = foldr Seq rs Eps"

definition lit :: "string \<Rightarrow> rx" where
  "lit s = seqs (map chr_rx s)"

definition lit_i :: "string \<Rightarrow> rx" where
  "lit_i s = seqs (map chr_i s)"

fun alts :: "rx list \<Rightarrow> rx" where
  "alts [] = NotAhead Eps"
| "alts [r] = r"
| "alts (r # s # rs) = Alt r (alts (s # rs))"

definition opt_rx :: "rx \<Rightarrow> rx" where
  "opt_rx r = Alt r Eps"

definition rep :: "nat \<Rightarrow> rx \<Rightarrow> rx" where
  "rep n r = seqs (replicate n r)"

text \<open>\<open>r{n,}\<close> and \<open>[...]\<close> for a set of characters\<close>

definition at_least_rx :: "nat \<Rightarrow> rx \<Rightarrow> rx" where
  "at_least_rx n r = Seq (rep n r) (Star r)"

definition plus :: "rx \<Rightarrow> rx" where
  "plus r = at_least_rx 1 r"

definition among :: "string \<Rightarrow> char \<Rightarrow> bool" where
  "among cs c = (c \<in> set cs)"

section \<open>Searching\<close>

fun search_from :: "rx \<Rightarrow> string \<Rightarrow> string \<Rightarrow> bool" where
  "search_from r b [] = (ends r (b, []) \<noteq> [])"
| "search_from r b (c # a) = (ends r (b, c # a) \<noteq> [] \<or> search_from r (c # b) a)"

definition rx_search :: "rx \<Rightarrow> string \<Rightarrow> bool" where
  "rx_search r s = search_from r [] s"

text \<open>
  The texts of the successive matches of a pattern that matches no empty text
  (\<open>finditer\<close>). The fuel is the length of what is left.
\<close>

fun find_from :: "nat \<Rightarrow> rx \<Rightarrow> pos \<Rightarrow> string list" where
  "find_from 0 r p = []"
| "find_from (Suc n) r p =
     (case ends r p of
        q # qs \<Rightarrow>
          take (length (snd p) - length (snd q)) (snd p) #
            (if length (snd q) < length (snd p) then find_from n r q else [])
      | [] \<Rightarrow> (case snd p of [] \<Rightarrow> [] | c # a \<Rightarrow> find_from n r (c # fst p, a)))"

definition find_all :: "rx \<Rightarrow> string \<Rightarrow> string list" where
  "find_all r s = find_from (Suc (length s)) r ([], s)"

section \<open>What a search finds\<close>

lemma ex_append_Cons:
  "(\<exists>pre post. c # a = pre @ post \<and> P pre post) \<longleftrightarrow>
     P [] (c # a) \<or> (\<exists>pre post. a = pre @ post \<and> P (c # pre) post)"
  by (auto simp: Cons_eq_append_conv)

lemma search_from_iff:
  "search_from r b s \<longleftrightarrow> (\<exists>pre post. s = pre @ post \<and> ends r (rev pre @ b, post) \<noteq> [])"
proof (induction s arbitrary: b)
  case (Cons c a)
  show ?case unfolding ex_append_Cons by (simp add: Cons.IH)
qed simp

lemma rx_searchI: "s = pre @ post \<Longrightarrow> q \<in> set (ends r (rev pre, post)) \<Longrightarrow> rx_search r s"
  unfolding rx_search_def search_from_iff by (intro exI [of _ pre] exI [of _ post]) auto

lemma ends_seqs_Cons [simp]: "ends (seqs (r # rs)) p = concat (map (ends (seqs rs)) (ends r p))"
  by (simp add: seqs_def)

lemma ends_seqs_Nil [simp]: "ends (seqs []) p = [p]"
  by (simp add: seqs_def)

lemma ends_chr [simp]: "ends (chr_rx c) (b, d # a) = (if d = c then [(c # b, a)] else [])"
  by (simp add: chr_rx_def)

lemma ends_lit: "ends (lit s) (b, s @ a) = [(rev s @ b, a)]"
  by (induction s arbitrary: b) (simp_all add: lit_def)

lemma ends_rep: "length w = n \<Longrightarrow> list_all f w \<Longrightarrow> ends (rep n (Cls f)) (b, w @ a) = [(rev w @ b, a)]"
  by (induction n arbitrary: w b) (auto simp: rep_def length_Suc_conv)

lemma ends_Cls: "ends (Cls f) = step_cls f"
  by (rule ext) simp

lemma star_ends_self: "p \<in> set (star_ends f n p)"
  by (cases n) auto

lemma star_cls_all:
  "list_all f w \<Longrightarrow> length w \<le> n \<Longrightarrow> (rev w @ b, a) \<in> set (star_ends (step_cls f) n (b, w @ a))"
proof (induction w arbitrary: b n)
  case (Cons c w)
  then obtain k where n: "n = Suc k" by (cases n) auto
  with Cons.IH [of k "c # b"] Cons.prems show ?case by simp
qed (simp add: star_ends_self)

text \<open>A run of at least \<open>n\<close> characters of a class matches \<open>[...]{n,}\<close>, up to its end.\<close>

lemma ends_at_least:
  assumes "n \<le> length w" "list_all f w"
  shows "(rev w @ b, a) \<in> set (ends (at_least_rx n (Cls f)) (b, w @ a))"
proof -
  have w: "take n w @ drop n w = w" "length (take n w) = n" using assms(1) by auto
  have "list_all f (take n w)" "list_all f (drop n w)"
    using assms(2) by (auto simp: list_all_iff dest: in_set_takeD in_set_dropD)
  then have "ends (rep n (Cls f)) (b, w @ a) = [(rev (take n w) @ b, drop n w @ a)]"
    and "(rev (drop n w) @ rev (take n w) @ b, a) \<in>
      set (star_ends (step_cls f) (length (drop n w @ a)) (rev (take n w) @ b, drop n w @ a))"
    using ends_rep [OF w(2), of f b "drop n w @ a"] w(1)
      star_cls_all [of f "drop n w" "length (drop n w @ a)" "rev (take n w) @ b" a]
    by (simp_all add: append_assoc [symmetric] del: append_assoc)
  moreover have "rev (drop n w) @ rev (take n w) = rev w"
    using w(1) by (metis rev_append)
  ultimately show ?thesis by (simp add: at_least_rx_def ends_Cls flip: append_assoc)
qed

section \<open>The words a match must contain\<close>

lemma contains_mid: "contains p (a @ p @ b)"
proof (induction a)
  case Nil
  have "take (length p) (p @ b) = p" by simp
  then show ?case by (cases "p @ b") auto
qed simp

lemma contains_infix: "contains p s \<Longrightarrow> contains p (a @ s @ b)"
proof (induction s arbitrary: a)
  case Nil
  then show ?case using contains_mid [of "[]" a b] by simp
next
  case (Cons c s)
  show ?case
  proof (cases "take (length p) (c # s) = p")
    case True
    then obtain z where "c # s = p @ z" by (metis append_take_drop_id)
    then show ?thesis using contains_mid [of p a "z @ b"] by simp
  next
    case False
    with Cons have "contains p ((a @ [c]) @ s @ b)" by (intro Cons.IH) simp
    then show ?thesis by simp
  qed
qed

lemma step_cls_suffix: "q \<in> set (step_cls f p) \<Longrightarrow> \<exists>x. snd p = x @ snd q"
  by (cases "(f, p)" rule: step_cls.cases) (auto split: if_splits)

lemma star_ends_suffix:
  assumes "\<And>p q. q \<in> set (f p) \<Longrightarrow> \<exists>x. snd p = x @ snd q"
  shows "q \<in> set (star_ends f n p) \<Longrightarrow> \<exists>x. snd p = x @ snd q"
proof (induction n arbitrary: p)
  case (Suc n)
  show ?case
  proof (cases "q = p")
    case False
    with Suc.prems obtain m where "m \<in> set (f p)" "q \<in> set (star_ends f n m)" by (auto split: if_splits)
    with assms Suc.IH obtain x y where "snd p = x @ snd m" "snd m = y @ snd q" by metis
    then show ?thesis by (intro exI [of _ "x @ y"]) simp
  qed simp
qed simp

lemma ends_suffix: "q \<in> set (ends r p) \<Longrightarrow> \<exists>x. snd p = x @ snd q"
proof (induction r arbitrary: p q)
  case (Seq r s)
  then obtain m where "m \<in> set (ends r p)" "q \<in> set (ends s m)" by auto
  with Seq.IH obtain x y where "snd p = x @ snd m" "snd m = y @ snd q" by metis
  then show ?case by (intro exI [of _ "x @ y"]) simp
next
  case (Star r)
  from star_ends_suffix [OF Star.IH] Star.prems show ?case by simp
next
  case (Cls f)
  then show ?case by (simp add: step_cls_suffix)
next
  case (Alt r s)
  then show ?case by (simp only: ends.simps set_append Un_iff) blast
qed (auto split: if_splits list.splits)

text \<open>\<open>needs r W\<close>: where \<open>r\<close> matches, the text in lower case contains a word of \<open>W\<close>.\<close>

definition needs :: "rx \<Rightarrow> string set \<Rightarrow> bool" where
  "needs r W \<longleftrightarrow> (\<forall>p q. q \<in> set (ends r p) \<longrightarrow> (\<exists>w \<in> W. contains w (map lower_char (snd p))))"

lemma needs_mono: "needs r V \<Longrightarrow> V \<subseteq> W \<Longrightarrow> needs r W"
  unfolding needs_def by blast

lemma needs_Alt: "needs r W \<Longrightarrow> needs s W \<Longrightarrow> needs (Alt r s) W"
  unfolding needs_def by (simp only: ends.simps set_append Un_iff) blast

lemma needs_Seq: "needs r W \<or> needs s W \<Longrightarrow> needs (Seq r s) W"
  unfolding needs_def
proof (intro allI impI)
  fix p q assume h: "(\<forall>p q. q \<in> set (ends r p) \<longrightarrow> (\<exists>w \<in> W. contains w (map lower_char (snd p)))) \<or>
    (\<forall>p q. q \<in> set (ends s p) \<longrightarrow> (\<exists>w \<in> W. contains w (map lower_char (snd p))))" and "q \<in> set (ends (Seq r s) p)"
  then obtain m where m: "m \<in> set (ends r p)" "q \<in> set (ends s m)" by auto
  obtain x where x: "snd p = x @ snd m" using ends_suffix [OF m(1)] by blast
  show "\<exists>w \<in> W. contains w (map lower_char (snd p))"
    using h
  proof
    assume "\<forall>p q. q \<in> set (ends s p) \<longrightarrow> (\<exists>w \<in> W. contains w (map lower_char (snd p)))"
    with m(2) obtain w where w: "w \<in> W" "contains w (map lower_char (snd m))" by blast
    have "contains w (map lower_char (snd p))"
      using contains_infix [OF w(2), of "map lower_char x" "[]"] by (simp add: x)
    with w(1) show ?thesis by blast
  qed (use m in blast)
qed

lemma needs_seqs: "r \<in> set rs \<Longrightarrow> needs r W \<Longrightarrow> needs (seqs rs) W"
  by (induction rs) (auto simp: seqs_def intro: needs_Seq)

lemma needs_alts: "\<forall>r \<in> set rs. needs r W \<Longrightarrow> needs (alts rs) W"
proof (induction rs rule: alts.induct)
  case 1
  show ?case by (simp add: needs_def)
next
  case (3 r s rs)
  then show ?case by (auto intro: needs_Alt)
qed simp

lemma ends_chars:
  assumes "\<And>c. f c = Cls (g c)" "q \<in> set (ends (seqs (map f w)) (b, a))" "\<And>c d. g c d \<Longrightarrow> lower_char d = h c"
  shows "take (length w) (map lower_char a) = map h w"
  using assms(2)
proof (induction w arbitrary: b a)
  case (Cons c w)
  then show ?case by (cases a) (auto simp: assms(1) split: if_splits dest: assms(3))
qed simp

lemma take_contains: "take (length w) s = w \<Longrightarrow> contains w s"
  using contains_mid [of w "[]" "drop (length w) s"] by (metis append_Nil append_take_drop_id)

lemma needs_lit_i: "needs (lit_i w) {w}"
  unfolding needs_def lit_i_def
  by (auto intro!: take_contains dest!: ends_chars [where g = "\<lambda>c d. lower_char d = c" and h = id, rotated 1] simp: chr_i_def)

lemma needs_lit: "needs (lit w) {map lower_char w}"
  unfolding needs_def lit_def
  by (auto intro!: take_contains dest!: ends_chars [where g = "\<lambda>c d. d = c" and h = lower_char, rotated 1] simp: chr_rx_def)

lemma search_needs:
  assumes "rx_search r s" "needs r W" shows "\<exists>w \<in> W. contains w (map lower_char s)"
proof -
  obtain pre post q where s: "s = pre @ post" "q \<in> set (ends r (rev pre, post))"
    using assms(1) unfolding rx_search_def search_from_iff by (auto simp: neq_Nil_conv) (metis list.set_intros(1))
  with assms(2) obtain w where w: "w \<in> W" "contains w (map lower_char post)" unfolding needs_def by fastforce
  have "contains w (map lower_char s)" using contains_infix [OF w(2), of "map lower_char pre" "[]"] by (simp add: s(1))
  with w(1) show ?thesis by blast
qed

end
