(* ===== verification/Py_Text.thy ===== *)
theory Py_Text imports Text_Limits Regex begin

text \<open>
  The text operations of the standard library that several components use: prefixes, splitting,
  stripping and replacing, the path arithmetic of \<open>ntpath\<close> and \<open>posixpath\<close> (which the
  program calls by name, so they do not depend on the platform), and \<open>shlex.split\<close>. Case
  folding and line breaks are those of ASCII.
\<close>

section \<open>Prefixes, splitting, stripping, replacing\<close>

definition starts_with :: "string \<Rightarrow> string \<Rightarrow> bool" where
  "starts_with p s \<longleftrightarrow> take (length p) s = p"

fun split_char :: "char \<Rightarrow> string \<Rightarrow> string list" where
  "split_char c [] = [[]]"
| "split_char c (x # xs) =
     (if x = c then [] # split_char c xs
      else (case split_char c xs of [] \<Rightarrow> [[x]] | w # ws \<Rightarrow> (x # w) # ws))"

lemma split_char_free: "w \<in> set (split_char c s) \<Longrightarrow> c \<notin> set w"
proof (induction s arbitrary: w)
  case (Cons x xs)
  then show ?case by (cases "split_char c xs") (auto split: if_splits)
qed simp

text \<open>\<open>str.splitlines\<close>\<close>

definition is_break :: "char \<Rightarrow> bool" where
  "is_break c \<longleftrightarrow> (of_char c :: nat) \<in> {10, 11, 12, 13, 28, 29, 30}"

fun lines_from :: "string \<Rightarrow> string \<Rightarrow> string list" where
  "lines_from acc [] = (if acc = [] then [] else [rev acc])"
| "lines_from acc (c # s) =
     (if \<not> is_break c then lines_from (c # acc) s
      else rev acc # (case s of [] \<Rightarrow> []
        | d # s' \<Rightarrow> if (of_char c :: nat) = 13 \<and> (of_char d :: nat) = 10 then lines_from [] s' else lines_from [] s))"

definition splitlines :: "string \<Rightarrow> string list" where
  "splitlines s = lines_from [] s"

text \<open>\<open>s.strip(c)\<close> of one character\<close>

definition strip_char :: "char \<Rightarrow> string \<Rightarrow> string" where
  "strip_char c s = rev (dropWhile (\<lambda>x. x = c) (rev (dropWhile (\<lambda>x. x = c) s)))"

text \<open>\<open>s.replace(old, new)\<close> of a non-empty \<open>old\<close>; the number counts characters of a match still to skip.\<close>

fun replace_from :: "string \<Rightarrow> string \<Rightarrow> nat \<Rightarrow> string \<Rightarrow> string" where
  "replace_from old new k [] = []"
| "replace_from old new (Suc k) (c # cs) = replace_from old new k cs"
| "replace_from old new 0 (c # cs) =
     (if starts_with old (c # cs) then new @ replace_from old new (length old - 1) cs else c # replace_from old new 0 cs)"

definition replace_text :: "string \<Rightarrow> string \<Rightarrow> string \<Rightarrow> string" where
  "replace_text old new s = replace_from old new 0 s"

text \<open>\<open>list(dict.fromkeys(xs))\<close>\<close>

definition first_uniq :: "'a list \<Rightarrow> 'a list" where
  "first_uniq xs = rev (remdups (rev xs))"

section \<open>\<open>ntpath\<close> and \<open>posixpath\<close>\<close>

text \<open>A backslash is \<open>CHR 0x5C\<close>.\<close>

definition bslash :: char where
  "bslash = CHR 0x5C"

definition to_backslashes :: "string \<Rightarrow> string" where
  "to_backslashes s = map (\<lambda>c. if c = CHR ''/'' then bslash else c) s"

definition upper_char :: "char \<Rightarrow> char" where
  "upper_char c = (let n = (of_char c :: nat) in if 97 \<le> n \<and> n \<le> 122 then char_of (n - 32) else c)"

text \<open>The index of the first \<open>c\<close> at or after \<open>start\<close>, as \<open>str.find\<close>; None where it returns \<open>-1\<close>.\<close>

definition find_char_at :: "char \<Rightarrow> nat \<Rightarrow> string \<Rightarrow> nat option" where
  "find_char_at c start s =
     (let skipped = takeWhile (\<lambda>x. x \<noteq> c) (drop start s)
      in if start + length skipped < length s then Some (start + length skipped) else None)"

text \<open>\<open>ntpath.splitroot\<close>: the drive, the root and the rest.\<close>

definition split_root :: "string \<Rightarrow> string \<times> string \<times> string" where
  "split_root p =
     (let n = to_backslashes p in
      if take 1 n = [bslash] then
        if take 1 (drop 1 n) = [bslash] then
          (let start = (if map upper_char (take 8 n) = [bslash, bslash, CHR ''?'', bslash] @ ''UNC'' @ [bslash] then 8 else 2) in
           case find_char_at bslash start n of
             None \<Rightarrow> (p, [], [])
           | Some i \<Rightarrow> (case find_char_at bslash (i + 1) n of
               None \<Rightarrow> (p, [], [])
             | Some j \<Rightarrow> (take j p, take 1 (drop j p), drop (j + 1) p)))
        else ([], take 1 p, drop 1 p)
      else if take 1 (drop 1 n) = '':'' then
        if take 1 (drop 2 n) = [bslash] then (take 2 p, take 1 (drop 2 p), drop 3 p)
        else (take 2 p, [], drop 2 p)
      else ([], [], p))"

text \<open>The loop both \<open>normpath\<close> functions run over the components; the kept ones are stacked.\<close>

fun norm_comps :: "bool \<Rightarrow> string list \<Rightarrow> string list \<Rightarrow> string list" where
  "norm_comps rooted kept [] = rev kept"
| "norm_comps rooted kept (c # cs) =
     (if c = [] \<or> c = ''.'' then norm_comps rooted kept cs
      else if c \<noteq> ''..'' then norm_comps rooted (c # kept) cs
      else (case kept of
          [] \<Rightarrow> if rooted then norm_comps rooted [] cs else norm_comps rooted [c] cs
        | k # ks \<Rightarrow> if k \<noteq> ''..'' then norm_comps rooted ks cs else norm_comps rooted (c # kept) cs))"

definition nt_normpath :: "string \<Rightarrow> string" where
  "nt_normpath path =
     (case split_root (to_backslashes path) of (drive, root, rest) \<Rightarrow>
        let comps = norm_comps (root \<noteq> []) [] (split_char bslash rest)
        in if drive @ root = [] \<and> comps = [] then ''.'' else drive @ root @ join [bslash] comps)"

definition posix_normpath :: "string \<Rightarrow> string" where
  "posix_normpath path =
     (if path = [] then ''.''
      else (let slashes = (if starts_with ''//'' path \<and> \<not> starts_with ''///'' path then ''//'' else if starts_with ''/'' path then ''/'' else []);
                text = slashes @ join ''/'' (norm_comps (slashes \<noteq> []) [] (split_char (CHR ''/'') path))
            in if text = [] then ''.'' else text))"

definition posix_join :: "string \<Rightarrow> string \<Rightarrow> string" where
  "posix_join a b =
     (if starts_with ''/'' b then b else if a = [] \<or> ends_with ''/'' a then a @ b else a @ ''/'' @ b)"

definition is_sep :: "char \<Rightarrow> bool" where
  "is_sep c \<longleftrightarrow> c = bslash \<or> c = CHR ''/''"

text \<open>\<open>ntpath.join(a, b)\<close>\<close>

definition nt_join :: "string \<Rightarrow> string \<Rightarrow> string" where
  "nt_join a b =
     (case split_root a of (d, r, p) \<Rightarrow> case split_root b of (d', r', p') \<Rightarrow>
      let append = (\<lambda>drive. (drive, r, (if p \<noteq> [] \<and> \<not> is_sep (last p) then p @ [bslash] else p) @ p'));
          (drive, root, rest) =
            (if r' \<noteq> [] then (if d' \<noteq> [] \<or> d = [] then d' else d, r', p')
             else if d' \<noteq> [] \<and> d' \<noteq> d then (if lower d' \<noteq> lower d then (d', r', p') else append d')
             else append d)
      in if rest \<noteq> [] \<and> root = [] \<and> drive \<noteq> [] \<and> \<not> is_sep (last drive) \<and> last drive \<noteq> CHR '':''
         then drive @ [bslash] @ rest else drive @ root @ rest)"

definition nt_basename :: "string \<Rightarrow> string" where
  "nt_basename p = (case split_root p of (_, _, rest) \<Rightarrow> rev (takeWhile (\<lambda>c. \<not> is_sep c) (rev rest)))"

section \<open>\<open>shlex.split\<close>\<close>

text \<open>
  The state of the POSIX tokenizer: between tokens, in a token, inside a quotation, or just after an
  escape together with the state to return to. An unclosed quotation and a trailing escape raise.
\<close>

datatype lex_state = Blank | InWord | InQuote char | Escaped lex_state

definition lex_space :: "char \<Rightarrow> bool" where
  "lex_space c \<longleftrightarrow> c \<in> set [CHR '' '', CHR 0x09, CHR 0x0D, CHR 0x0A]"

definition is_quote :: "char \<Rightarrow> bool" where
  "is_quote c \<longleftrightarrow> c = CHR 0x27 \<or> c = CHR 0x22"

text \<open>The token read so far is kept in reverse; the flag tells that it had a quotation.\<close>

definition emit :: "string \<Rightarrow> bool \<Rightarrow> string list \<Rightarrow> string list" where
  "emit token quoted rest = (if token \<noteq> [] \<or> quoted then rev token # rest else rest)"

fun lex :: "lex_state \<Rightarrow> string \<Rightarrow> bool \<Rightarrow> string \<Rightarrow> string list option" where
  "lex (InQuote q) token quoted [] = None"
| "lex (Escaped st) token quoted [] = None"
| "lex Blank token quoted [] = Some (emit token quoted [])"
| "lex InWord token quoted [] = Some (emit token quoted [])"
| "lex (InQuote q) token quoted (c # cs) =
     (if c = q then lex InWord token True cs
      else if c = bslash \<and> q = CHR 0x22 then lex (Escaped (InQuote q)) token True cs
      else lex (InQuote q) (c # token) True cs)"
| "lex (Escaped st) token quoted (c # cs) =
     (case st of
        InQuote q \<Rightarrow> lex st (if c \<noteq> bslash \<and> c \<noteq> q then c # bslash # token else c # token) quoted cs
      | _ \<Rightarrow> lex InWord (c # token) quoted cs)"
| "lex st token quoted (c # cs) =
     (if lex_space c then map_option (emit token quoted) (lex Blank [] False cs)
      else if c = bslash then lex (Escaped InWord) token quoted cs
      else if is_quote c then lex (InQuote c) token quoted cs
      else lex InWord (c # token) quoted cs)"

definition shlex_split :: "string \<Rightarrow> string list option" where
  "shlex_split s = lex Blank [] False s"

end
