(* ===== verification/Workspace_Files.thy ===== *)
theory Workspace_Files imports Json Py_Text begin

text \<open>
  The files of a workspace as the path authority (\<open>orchestration/workspace_path_authority.py\<close>)
  shows them to the writer lease: a map from relative POSIX paths to contents, and a script that says
  for each operation what others did to the files since the previous one and whether the
  operation raises before or after its effect. The lexical check of a path is that of the code; what
  lies below it (directory handles, identities, the staging file of a replacement) is abstracted to the
  content: a read that returns gives the whole content, a replacement is refused unless the file is
  what was read, a removal unless size and SHA-256 match.
\<close>

section \<open>UTF-8 and ASCII texts\<close>

text \<open>The first code point of a strictly encoded text.\<close>

definition utf8_next :: "string \<Rightarrow> (nat \<times> string) option" where
  "utf8_next s =
     (case s of [] \<Rightarrow> None
      | c # _ \<Rightarrow>
         (let b = (of_char c :: nat); k = (if b < 128 then 1 else if b < 224 then 2 else if b < 240 then 3 else 4);
              d = (\<lambda>i. (of_char (s ! i) :: nat) mod 64);
              n = (if k = 1 then b else if k = 2 then b mod 32 * 64 + d 1
                   else if k = 3 then b mod 16 * 4096 + d 1 * 64 + d 2
                   else b mod 8 * 262144 + d 1 * 4096 + d 2 * 64 + d 3)
          in if length s < k \<or> utf8 n \<noteq> take k s \<or> 0xD800 \<le> n \<and> n \<le> 0xDFFF \<or> 0x10FFFF < n then None
             else Some (n, drop k s)))"

lemma utf8_next_length: "utf8_next s = Some (n, r) \<Longrightarrow> length r < length s"
  by (auto simp: utf8_next_def Let_def less_Suc_eq_le split: list.splits if_splits)

text \<open>\<open>bytes.decode('utf-8')\<close> raises unless this holds.\<close>

function utf8_ok :: "string \<Rightarrow> bool" where
  "utf8_ok s = (s = [] \<or> (case utf8_next s of None \<Rightarrow> False | Some (n, r) \<Rightarrow> utf8_ok r))"
  by pat_completeness auto
termination
  by (relation "measure length") (auto dest: utf8_next_length)

text \<open>
  \<open>ensure_ascii=True\<close> on a JSON text: everything outside the printable range, which only occurs
  within string literals, is written as an escape, beyond the basic plane as a surrogate pair.
\<close>

definition u_escape :: "nat \<Rightarrow> string" where
  "u_escape n = [CHR 0x5C, CHR ''u'', hex_char (n div 4096), hex_char (n div 256 mod 16), hex_char (n div 16 mod 16), hex_char (n mod 16)]"

definition ascii_units :: "nat \<Rightarrow> string" where
  "ascii_units n =
     (if n < 127 then [char_of n] else if n < 0x10000 then u_escape n
      else u_escape (0xD800 + (n - 0x10000) div 1024) @ u_escape (0xDC00 + (n - 0x10000) mod 1024))"

function to_ascii :: "string \<Rightarrow> string" where
  "to_ascii s =
     (case s of [] \<Rightarrow> []
      | c # cs \<Rightarrow> (case utf8_next s of None \<Rightarrow> c # to_ascii cs | Some (n, r) \<Rightarrow> ascii_units n @ to_ascii r))"
  by pat_completeness auto
termination
  by (relation "measure length") (auto dest: utf8_next_length)

declare utf8_ok.simps [simp del] to_ascii.simps [simp del]

definition ascii_text :: "string \<Rightarrow> bool" where
  "ascii_text s \<longleftrightarrow> list_all (\<lambda>c. (of_char c :: nat) < 127) s"

lemma utf8_next_ascii: "(of_char c :: nat) < 127 \<Longrightarrow> utf8_next (c # s) = Some (of_char c, s)"
  by (simp add: utf8_next_def utf8_def)

lemma utf8_ok_ascii: "ascii_text s \<Longrightarrow> utf8_ok s"
  by (induction s) (simp_all add: utf8_ok.simps [of "_ # _"] utf8_ok.simps [of "[]"] ascii_text_def utf8_next_ascii)

lemma to_ascii_id: "ascii_text s \<Longrightarrow> to_ascii s = s"
  by (induction s) (simp_all add: to_ascii.simps [of "_ # _"] to_ascii.simps [of "[]"] ascii_text_def utf8_next_ascii ascii_units_def)

text \<open>\<open>len(s)\<close> of a text counts code points, not the continuation bytes.\<close>

definition text_len :: "string \<Rightarrow> int" where
  "text_len s = int (length (filter (\<lambda>c. (of_char c :: nat) div 64 \<noteq> 2) s))"

section \<open>Relative POSIX paths\<close>

definition path_parts :: "string \<Rightarrow> string list" where
  "path_parts s = filter (\<lambda>p. p \<noteq> [] \<and> p \<noteq> ''.'') (split_char (CHR ''/'') s)"

definition parts_path :: "string list \<Rightarrow> string" where
  "parts_path ps = (if ps = [] then ''.'' else join ''/'' ps)"

text \<open>\<open>Path(s).as_posix()\<close>, \<open>.parent\<close> and \<open>.name\<close> of a relative path\<close>

definition posix_path :: "string \<Rightarrow> string" where
  "posix_path s = parts_path (path_parts s)"

definition path_parent :: "string \<Rightarrow> string" where
  "path_parent s = parts_path (butlast (path_parts s))"

definition path_name :: "string \<Rightarrow> string" where
  "path_name s = (case rev (path_parts s) of [] \<Rightarrow> [] | p # _ \<Rightarrow> p)"

definition max_relative_parts :: nat where "max_relative_parts = 128"
definition max_relative_bytes :: nat where "max_relative_bytes = 4096"
definition max_authority_bytes :: int where "max_authority_bytes = 64 * 1024 * 1024"

definition path_error :: "string \<Rightarrow> exn" where
  "path_error msg = PyError ''WorkspacePathError'' msg"

definition relative_parts :: "string \<Rightarrow> exn + string list" where
  "relative_parts raw =
     (if raw = [] \<or> CHR 0x00 \<in> set raw \<or> max_relative_bytes < length raw then Inl (path_error ''workspace-relative path is invalid'')
      else if starts_with ''/'' raw then Inl (path_error ''workspace path must be relative'')
      else (let ps = path_parts raw in
        if ps = [] \<or> max_relative_parts < length ps \<or> ''..'' \<in> set ps
        then Inl (path_error ''workspace-relative path is invalid'') else Inr ps))"

lemma path_parts_join:
  assumes "list_all (\<lambda>p. p \<noteq> [] \<and> p \<noteq> ''.'' \<and> CHR ''/'' \<notin> set p) ps"
  shows "path_parts (join ''/'' ps) = ps"
proof -
  have free: "split_char c p = [p]" if "c \<notin> set p" for c p using that by (induction p) auto
  have app: "split_char c (p @ c # s) = p # split_char c s" if "c \<notin> set p" for c p s
    using that by (induction p) auto
  have "split_char (CHR ''/'') (join ''/'' ps) = ps" if "ps \<noteq> []" "list_all (\<lambda>p. CHR ''/'' \<notin> set p) ps" for ps
    using that
  proof (induction ps)
    case (Cons x ys)
    then show ?case by (cases ys) (simp_all add: app free)
  qed simp
  with assms show ?thesis
    by (cases "ps = []") (simp_all add: path_parts_def list_all_iff filter_id_conv)
qed

lemma path_parts_clean: "list_all (\<lambda>p. p \<noteq> [] \<and> p \<noteq> ''.'' \<and> CHR ''/'' \<notin> set p) (path_parts s)"
  by (auto simp: path_parts_def list_all_iff dest: split_char_free)

lemma path_parts_posix [simp]: "path_parts (posix_path s) = path_parts s"
proof (cases "path_parts s = []")
  case True
  then show ?thesis by (simp add: posix_path_def parts_path_def) (simp add: path_parts_def)
next
  case False
  with path_parts_join [OF path_parts_clean] show ?thesis by (simp add: posix_path_def parts_path_def)
qed

lemma posix_path_idem [simp]: "posix_path (posix_path s) = posix_path s"
  by (simp add: posix_path_def [of "posix_path s"]) (simp add: posix_path_def)

section \<open>The files and the disturbances\<close>

record disturbance =
  di_edit :: "(string \<Rightarrow> string option) \<Rightarrow> (string \<Rightarrow> string option)"
  di_before :: "exn option"
  di_after :: "exn option"

record workspace =
  ws_files :: "string \<Rightarrow> string option"
  ws_ops :: nat
  ws_script :: "nat \<Rightarrow> disturbance"
  ws_sha256 :: "string \<Rightarrow> string"
  ws_closed :: bool

type_synonym 'a file_act = "(workspace, 'a) prog"

text \<open>One operation: what others did is done, then the operation raises, or it is carried out and may still raise.\<close>

definition disturbed :: "'a file_act \<Rightarrow> 'a file_act" where
  "disturbed m =
     seq (gets (\<lambda>w. ws_script w (ws_ops w))) (\<lambda>d.
     seq (modify (\<lambda>w. w\<lparr>ws_ops := Suc (ws_ops w), ws_files := di_edit d (ws_files w)\<rparr>)) (\<lambda>_.
     (case di_before d of Some e \<Rightarrow> raise e
      | None \<Rightarrow> seq m (\<lambda>x. case di_after d of Some e \<Rightarrow> raise e | None \<Rightarrow> ret x))))"

definition bound_ok :: "int \<Rightarrow> unit file_act" where
  "bound_ok n = guard (1 \<le> n \<and> n \<le> max_authority_bytes) (path_error ''operation byte bound is invalid'')"

definition key_of :: "string \<Rightarrow> string file_act" where
  "key_of raw = seq (lift_result (relative_parts raw)) (\<lambda>ps. ret (parts_path ps))"

definition content :: "string \<Rightarrow> string option file_act" where
  "content path = gets (\<lambda>w. ws_files w path)"

text \<open>The operations: \<open>exclusive\<close>, \<open>identity\<close> (of which only the size is used), \<open>read\<close>, \<open>atomic_replace\<close> and \<open>unlink_exact\<close>.\<close>

definition enter_workspace :: "unit file_act" where
  "enter_workspace = seq (gets ws_closed) (\<lambda>c. guard (\<not> c) (path_error ''workspace path authority is closed''))"

definition file_size :: "string \<Rightarrow> int option file_act" where
  "file_size raw = seq (key_of raw) (\<lambda>path. disturbed (seq (content path) (\<lambda>x. ret (map_option (\<lambda>data. int (length data)) x))))"

definition read_file :: "string \<Rightarrow> int \<Rightarrow> string file_act" where
  "read_file raw most =
     seq (bound_ok most) (\<lambda>_. seq (key_of raw) (\<lambda>path.
     disturbed (seq (content path) (\<lambda>x.
       case x of None \<Rightarrow> raise (path_error ''workspace file is missing'')
       | Some data \<Rightarrow> seq (guard (int (length data) \<le> most) (path_error ''workspace file exceeds its operation bound'')) (\<lambda>_. ret data)))))"

definition replace_file :: "string \<Rightarrow> string \<Rightarrow> string option \<Rightarrow> int \<Rightarrow> unit file_act" where
  "replace_file raw data expected most =
     seq (bound_ok most) (\<lambda>_.
     seq (guard (int (length data) \<le> most) (path_error ''replacement bytes are invalid or oversized'')) (\<lambda>_.
     seq (key_of raw) (\<lambda>path.
     disturbed (seq (content path) (\<lambda>x.
       seq (guard (x = expected) (path_error ''workspace destination identity changed'')) (\<lambda>_.
       modify (\<lambda>w. w\<lparr>ws_files := (ws_files w)(path := Some data)\<rparr>)))))))"

definition sha_text :: "string \<Rightarrow> bool" where
  "sha_text s \<longleftrightarrow> length s = 64 \<and> list_all (among ''0123456789abcdef'') s"

definition unlink_file :: "string \<Rightarrow> string \<Rightarrow> int \<Rightarrow> int \<Rightarrow> bool file_act" where
  "unlink_file raw sha count most =
     seq (bound_ok most) (\<lambda>_.
     seq (guard (sha_text sha \<and> 0 \<le> count \<and> count \<le> most) (path_error ''exact unlink evidence is invalid'')) (\<lambda>_.
     seq (key_of raw) (\<lambda>path.
     disturbed (seq (gets (\<lambda>w. (ws_files w path, ws_sha256 w))) (\<lambda>(x, sha256).
       case x of None \<Rightarrow> ret False
       | Some data \<Rightarrow>
           seq (guard (int (length data) = count) (path_error ''exact unlink size does not match'')) (\<lambda>_.
           seq (guard (sha256 data = sha) (path_error ''exact unlink hash or identity does not match'')) (\<lambda>_.
           seq (modify (\<lambda>w. w\<lparr>ws_files := (ws_files w)(path := None)\<rparr>)) (\<lambda>_. ret True))))))))"

end
