(* ===== verification/Owned_Runs.thy ===== *)
theory Owned_Runs imports Workspace_Files begin

text \<open>
  The registry of owned runs of \<open>orchestration/writer_lease.py\<close>: one JSON object in a file of the
  workspace, from run identifiers to entries, with the marker of the workspace writer under a key
  of its own. Every update reads the file, changes the object and replaces the file atomically,
  refusing when the file is no longer what was read. The path is given relative to the workspace.
\<close>

definition state_error :: "string \<Rightarrow> exn" where
  "state_error msg = PyError ''OwnershipStateError'' msg"

fun is_error :: "string \<Rightarrow> exn \<Rightarrow> bool" where
  "is_error ty (PyError t msg) = (t = ty)"
| "is_error ty (Denied d) = False"

text \<open>\<open>except WorkspacePathError as error: raise OwnershipStateError(msg) from error\<close>\<close>

definition path_errors_as :: "string \<Rightarrow> ('s, 'a) prog \<Rightarrow> ('s, 'a) prog" where
  "path_errors_as msg m = handle m (\<lambda>e. raise (if is_error ''WorkspacePathError'' e then state_error msg else e))"

text \<open>\<open>secrets.compare_digest\<close> of two texts, which must be ASCII\<close>

definition digest_eq :: "string \<Rightarrow> string \<Rightarrow> exn + bool" where
  "digest_eq a b =
     (if list_all (\<lambda>c. (of_char c :: nat) < 128) (a @ b) then Inr (a = b)
      else Inl (PyError ''TypeError'' ''comparing strings with non-ASCII characters is not supported''))"

definition writer_marker_key :: string where "writer_marker_key = ''__workspace_writer__''"
definition max_ownership_registry_bytes :: int where "max_ownership_registry_bytes = 8 * 1024 * 1024"

fun is_dict :: "pyval \<Rightarrow> bool" where
  "is_dict (PDict d) = True"
| "is_dict v = False"

definition decode_registry :: "string \<Rightarrow> exn + pydict" where
  "decode_registry raw =
     (case (if utf8_ok raw then json_loads raw else None) of
        None \<Rightarrow> Inl (state_error ''owned-run registry is unreadable'')
      | Some v \<Rightarrow>
          if is_dict v \<and> list_all (\<lambda>(k, item). is_dict item) (dict_or_empty v) then Inr (dict_or_empty v)
          else Inl (state_error ''owned-run registry has an invalid shape''))"

definition encode_registry :: "pydict \<Rightarrow> string" where
  "encode_registry d = to_ascii (json_compact (PDict d))"

text \<open>The content of the file, when it is there\<close>

definition registry_text :: "string \<Rightarrow> string option file_act" where
  "registry_text path =
     seq (file_size path) (\<lambda>x.
     case x of None \<Rightarrow> ret None
     | Some _ \<Rightarrow> seq (read_file path max_ownership_registry_bytes) (\<lambda>raw. ret (Some raw)))"

definition load_registry :: "string \<Rightarrow> pydict file_act" where
  "load_registry path =
     seq enter_workspace (\<lambda>_.
     seq (path_errors_as ''owned-run registry is unreadable'' (registry_text path)) (\<lambda>raw.
     case raw of None \<Rightarrow> ret [] | Some r \<Rightarrow> lift_result (decode_registry r)))"

definition runs :: "string \<Rightarrow> pydict file_act" where
  "runs path = seq (load_registry path) (\<lambda>d. ret (AList.delete writer_marker_key d))"

text \<open>The mutator may raise; what it says besides the changed object is returned with the snapshot.\<close>

definition update_registry :: "string \<Rightarrow> (pydict \<Rightarrow> exn + pydict \<times> 'r) \<Rightarrow> (pydict \<times> 'r) file_act" where
  "update_registry path mutator =
     seq enter_workspace (\<lambda>_.
     path_errors_as ''owned-run registry could not be updated safely''
       (seq (registry_text path) (\<lambda>expected.
        seq (case expected of None \<Rightarrow> ret [] | Some raw \<Rightarrow> lift_result (decode_registry raw)) (\<lambda>old.
        seq (lift_result (mutator old)) (\<lambda>(new, r).
        let encoded = encode_registry new in
        seq (guard (int (length encoded) \<le> max_ownership_registry_bytes)
               (state_error ''owned-run registry exceeds its private recovery bound'')) (\<lambda>_.
        seq (replace_file path encoded expected max_ownership_registry_bytes) (\<lambda>_. ret (new, r))))))))"

definition put_entry :: "string \<Rightarrow> string \<Rightarrow> pydict \<Rightarrow> unit file_act" where
  "put_entry path key entry = seq (update_registry path (\<lambda>d. Inr (AList.update key (PDict entry) d, ()))) (\<lambda>_. ret ())"

definition record_run :: "string \<Rightarrow> string \<Rightarrow> int \<Rightarrow> string \<Rightarrow> unit file_act" where
  "record_run path run pid nonce = put_entry path run [(''pid'', PInt pid), (''nonce'', PStr nonce)]"

definition clear_run :: "string \<Rightarrow> string \<Rightarrow> unit file_act" where
  "clear_run path run = seq (update_registry path (\<lambda>d. Inr (AList.delete run d, ()))) (\<lambda>_. ret ())"

definition writer_marker :: "string \<Rightarrow> pydict option file_act" where
  "writer_marker path = seq (load_registry path) (\<lambda>d. ret (map_option dict_or_empty (map_of d writer_marker_key)))"

definition put_writer_marker :: "string \<Rightarrow> pydict \<Rightarrow> unit file_act" where
  "put_writer_marker path marker = put_entry path writer_marker_key marker"

definition clear_writer_marker :: "string \<Rightarrow> string \<Rightarrow> bool file_act" where
  "clear_writer_marker path claim_id =
     seq (update_registry path (\<lambda>d.
           case map_of d writer_marker_key of
             None \<Rightarrow> Inr (d, False)
           | Some m \<Rightarrow>
               (case digest_eq (py_str (py_or (dget (dict_or_empty m) ''claim_id'') (PStr []))) claim_id of
                  Inl e \<Rightarrow> Inl e
                | Inr same \<Rightarrow> Inr (if same then AList.delete writer_marker_key d else d, same))))
       (\<lambda>(_, removed). ret removed)"

end
