(* ===== verification/Writer_Lease.thy ===== *)
theory Writer_Lease imports Owned_Runs begin

text \<open>
  The single writer lease of a workspace (\<open>orchestration/writer_lease.py\<close>): the claim in memory, its
  durable marker in the registry of owned runs, the journal of an apply in flight, and the
  reconciliation of what a dead owner left behind. Every operation runs under the lock of the
  workspace authority and of the lease, so operations of several threads interleave whole. Paths are
  those of a POSIX host. Fresh claim identifiers and times come from streams.
\<close>

section \<open>The journal of an apply\<close>

definition max_apply_recovery_bytes :: int where "max_apply_recovery_bytes = 4 * 1024 * 1024"
definition max_staged_file_bytes :: int where "max_staged_file_bytes = 8 * 1024 * 1024"
definition max_apply_staged_descriptors :: nat where "max_apply_staged_descriptors = 128"
definition max_apply_staged_total_bytes :: int where "max_apply_staged_total_bytes = 64 * 1024 * 1024"

record staged_file =
  sg_path :: string
  sg_sha :: string
  sg_bytes :: int

record target_file =
  tg_path :: string
  tg_base :: bool
  tg_base_sha :: "string option"
  tg_final :: bool
  tg_final_sha :: "string option"

record journal =
  jn_phase :: string
  jn_staged :: "staged_file list"
  jn_targets :: "target_file list"

definition valid_cleanup_path :: "pyval \<Rightarrow> string option" where
  "valid_cleanup_path v =
     (case v of
        PStr s \<Rightarrow>
          if s = [] \<or> 1024 < text_len s \<or> CHR 0x00 \<in> set s then None
          else if starts_with ''/'' s \<or> list_ex (\<lambda>p. p = ''..'' \<or> CHR '':'' \<in> set p) (path_parts s) then None
          else Some (posix_path s)
      | _ \<Rightarrow> None)"

text \<open>\<open>os.path.normcase(str(Path(value)))\<close>; POSIX does not fold case.\<close>

definition path_identity :: "string \<Rightarrow> string" where
  "path_identity p = posix_path p"

definition has_keys :: "string list \<Rightarrow> pyval \<Rightarrow> bool" where
  "has_keys ks v \<longleftrightarrow> is_dict v \<and> set (map fst (dict_or_empty v)) = set ks"

definition staged_of :: "pyval \<Rightarrow> staged_file option" where
  "staged_of raw =
     (let d = dict_or_empty raw in
      case (valid_cleanup_path (dget d ''path''), dget d ''sha256'', dget d ''bytes'') of
        (Some path, PStr sha, PInt n) \<Rightarrow>
          if has_keys [''path'', ''sha256'', ''bytes''] raw \<and> sha_text sha \<and> 0 \<le> n \<and> n \<le> max_staged_file_bytes
          then Some \<lparr>sg_path = path, sg_sha = sha, sg_bytes = n\<rparr> else None
      | _ \<Rightarrow> None)"

fun clean_staged :: "string list \<Rightarrow> int \<Rightarrow> pyval list \<Rightarrow> exn + staged_file list" where
  "clean_staged seen tot [] = Inr []"
| "clean_staged seen tot (raw # rest) =
     (case staged_of raw of
        None \<Rightarrow> Inl (state_error ''workspace staged recovery descriptor is malformed'')
      | Some x \<Rightarrow>
          if path_identity (sg_path x) \<in> set seen then Inl (state_error ''workspace staged recovery descriptor is malformed'')
          else if max_apply_staged_total_bytes < tot + sg_bytes x
          then Inl (state_error ''workspace staged recovery payload exceeds its aggregate bound'')
          else (case clean_staged (path_identity (sg_path x) # seen) (tot + sg_bytes x) rest of
              Inl e \<Rightarrow> Inl e | Inr xs \<Rightarrow> Inr (x # xs)))"

text \<open>A digest is given exactly for a side that exists.\<close>

definition side_sha :: "bool \<Rightarrow> pyval \<Rightarrow> string option option" where
  "side_sha there v =
     (case v of PNone \<Rightarrow> if there then None else Some None
      | PStr s \<Rightarrow> if there \<and> sha_text s then Some (Some s) else None
      | _ \<Rightarrow> None)"

definition target_of :: "pyval \<Rightarrow> target_file option" where
  "target_of raw =
     (let d = dict_or_empty raw in
      case (valid_cleanup_path (dget d ''path''), dget d ''base_exists'', dget d ''final_exists'') of
        (Some path, PBool b, PBool f) \<Rightarrow>
          (case (side_sha b (dget d ''base_sha256''), side_sha f (dget d ''final_sha256'')) of
             (Some bs, Some fs) \<Rightarrow>
               if has_keys [''path'', ''base_exists'', ''base_sha256'', ''final_exists'', ''final_sha256''] raw \<and> (b \<or> f)
               then Some \<lparr>tg_path = path, tg_base = b, tg_base_sha = bs, tg_final = f, tg_final_sha = fs\<rparr> else None
           | _ \<Rightarrow> None)
      | _ \<Rightarrow> None)"

fun clean_targets :: "string list \<Rightarrow> pyval list \<Rightarrow> exn + target_file list" where
  "clean_targets seen [] = Inr []"
| "clean_targets seen (raw # rest) =
     (case target_of raw of
        None \<Rightarrow> Inl (state_error ''workspace target recovery descriptor is malformed'')
      | Some x \<Rightarrow>
          if path_identity (tg_path x) \<in> set seen then Inl (state_error ''workspace target recovery descriptor is malformed'')
          else (case clean_targets (path_identity (tg_path x) # seen) rest of Inl e \<Rightarrow> Inl e | Inr xs \<Rightarrow> Inr (x # xs)))"

text \<open>The temporary name \<open>.<target>.kaizen-<pid>-<n>-<24 hex>.tmp\<close> beside the target; the pattern is anchored on both ends.\<close>

definition full_match :: "rx \<Rightarrow> string \<Rightarrow> bool" where
  "full_match r s = list_ex (\<lambda>(b, a). a = []) (ends r ([], s))"

definition temp_name :: rx where
  "temp_name =
     (let pos = Seq (Cls (among ''123456789'')) (Star (Cls (among ''0123456789''))) in
      seqs [pos, chr_rx (CHR ''-''), Alt (chr_rx (CHR ''0'')) pos, chr_rx (CHR ''-''), rep 24 (Cls (among ''0123456789abcdef''))])"

definition is_kaizen_temp :: "int option \<Rightarrow> string \<Rightarrow> string \<Rightarrow> bool" where
  "is_kaizen_temp owner staged target =
     (let name = path_name staged; pre = ''.'' @ path_name target @ ''.kaizen-'';
          mid = take (length name - 4 - length pre) (drop (length pre) name) in
      path_identity (path_parent staged) = path_identity (path_parent target) \<and>
      starts_with pre name \<and> ends_with ''.tmp'' name \<and> full_match temp_name mid \<and>
      (case owner of None \<Rightarrow> True | Some pid \<Rightarrow> digits_val (takeWhile (\<lambda>c. c \<noteq> CHR ''-'') mid) = pid))"

definition staged_value :: "staged_file \<Rightarrow> pyval" where
  "staged_value x = PDict [(''path'', PStr (sg_path x)), (''sha256'', PStr (sg_sha x)), (''bytes'', PInt (sg_bytes x))]"

definition target_value :: "target_file \<Rightarrow> pyval" where
  "target_value x =
     PDict [(''path'', PStr (tg_path x)), (''base_exists'', PBool (tg_base x)), (''base_sha256'', of_opt_str (tg_base_sha x)),
       (''final_exists'', PBool (tg_final x)), (''final_sha256'', of_opt_str (tg_final_sha x))]"

definition journal_value :: "journal \<Rightarrow> pyval" where
  "journal_value j =
     PDict [(''phase'', PStr (jn_phase j)), (''staged'', PList (map staged_value (jn_staged j))),
       (''targets'', PList (map target_value (jn_targets j)))]"

definition malformed_apply :: exn where
  "malformed_apply = state_error ''workspace apply recovery state is malformed''"

definition validated_apply_recovery :: "int option \<Rightarrow> pyval \<Rightarrow> exn + journal" where
  "validated_apply_recovery owner v =
     (let d = dict_or_empty v in
      case (has_keys [''phase'', ''staged'', ''targets''] v, dget d ''phase'', dget d ''staged'', dget d ''targets'') of
        (True, PStr phase, PList staged, PList targets) \<Rightarrow>
          if phase \<notin> {''staging'', ''mutating''} \<or> max_apply_staged_descriptors < length staged \<or>
             \<not> (1 \<le> length targets \<and> length targets \<le> max_apply_staged_descriptors) then Inl malformed_apply
          else (case clean_staged [] 0 staged of Inl e \<Rightarrow> Inl e
            | Inr ss \<Rightarrow> (case clean_targets [] targets of Inl e \<Rightarrow> Inl e
              | Inr ts \<Rightarrow>
                  let j = \<lparr>jn_phase = phase, jn_staged = ss, jn_targets = ts\<rparr> in
                  if list_ex (\<lambda>s. path_identity (sg_path s) \<in> set (map (\<lambda>t. path_identity (tg_path t)) ts)) ss
                  then Inl (state_error ''workspace staged and target recovery paths overlap'')
                  else if \<not> list_all (\<lambda>s. list_ex (\<lambda>t. is_kaizen_temp owner (sg_path s) (tg_path t)) ts) ss
                  then Inl (state_error ''workspace staged recovery path is not an exact Kaizen temp'')
                  else if max_apply_recovery_bytes < int (length (to_ascii (json_print '','' '':'' (journal_value j))))
                  then Inl (state_error ''workspace apply recovery state exceeds its private bound'')
                  else Inr j))
      | _ \<Rightarrow> Inl malformed_apply)"

definition apply_transition_allowed :: "journal option \<Rightarrow> journal option \<Rightarrow> bool" where
  "apply_transition_allowed previous current =
     (case previous of
        None \<Rightarrow> (case current of None \<Rightarrow> True | Some c \<Rightarrow> jn_phase c = ''staging'')
      | Some p \<Rightarrow>
          (case current of None \<Rightarrow> True
           | Some c \<Rightarrow> jn_staged p = jn_staged c \<and> jn_targets p = jn_targets c \<and>
               (jn_phase p = jn_phase c \<or> jn_phase p = ''staging'' \<and> jn_phase c = ''mutating'')))"

section \<open>The lease\<close>

record writer_claim =
  wc_id :: string
  wc_mode :: string
  wc_acquired :: string
  wc_session :: "string option"
  wc_run :: "string option"
  wc_spawn :: bool
  wc_children :: "int list"

text \<open>The lease with the workspace its registry lives in; the last two fields count what was drawn from the streams.\<close>

record lease =
  wl_path :: string
  wl_pid :: int
  wl_nonce :: string
  wl_holder :: "writer_claim option"
  wl_recovery :: bool
  wl_reason :: string
  wl_cleanup :: "string list"
  wl_apply :: "journal option"
  wl_ws :: workspace
  wl_token :: "nat \<Rightarrow> string"
  wl_clock :: "nat \<Rightarrow> string"
  wl_claims :: nat

type_synonym 'a lease_act = "(lease, 'a) prog"

definition new_lease :: "string \<Rightarrow> int \<Rightarrow> string \<Rightarrow> (nat \<Rightarrow> string) \<Rightarrow> (nat \<Rightarrow> string) \<Rightarrow> workspace \<Rightarrow> lease" where
  "new_lease path pid nonce token clock w =
     \<lparr>wl_path = path, wl_pid = pid, wl_nonce = nonce, wl_holder = None, wl_recovery = False, wl_reason = [],
      wl_cleanup = [], wl_apply = None, wl_ws = w, wl_token = token, wl_clock = clock, wl_claims = 0\<rparr>"

definition claim_marker :: "writer_claim \<Rightarrow> int \<Rightarrow> string \<Rightarrow> pydict" where
  "claim_marker c pid nonce =
     [(''pid'', PInt pid), (''nonce'', PStr nonce), (''claim_id'', PStr (wc_id c)), (''permission_mode'', PStr (wc_mode c)),
      (''acquired_at'', PStr (wc_acquired c)), (''session_id'', of_opt_str (wc_session c)), (''agent_run_id'', of_opt_str (wc_run c)),
      (''spawn_pending'', PBool (wc_spawn c)), (''child_pids'', PList (map PInt (wc_children c))),
      (''recovery_required'', PBool False), (''cleanup_paths'', PList []), (''apply_recovery'', PNone)]"

definition safe_holder :: "writer_claim \<Rightarrow> pydict" where
  "safe_holder c =
     [(''session_id'', of_opt_str (wc_session c)), (''agent_run_id'', of_opt_str (wc_run c)),
      (''permission_mode'', PStr (wc_mode c)), (''acquired_at'', PStr (wc_acquired c))]"

definition lease_marker :: "lease \<Rightarrow> writer_claim \<Rightarrow> pydict" where
  "lease_marker s c =
     (let m = dict_merge (claim_marker c (wl_pid s) (wl_nonce s))
            [(''recovery_required'', PBool (wl_recovery s)), (''cleanup_paths'', PList (map PStr (wl_cleanup s))),
             (''apply_recovery'', (case wl_apply s of None \<Rightarrow> PNone | Some j \<Rightarrow> journal_value j))] in
      if wl_recovery s then AList.update ''recovery_reason'' (PStr (wl_reason s)) m else m)"

definition on_ws :: "'a file_act \<Rightarrow> 'a lease_act" where
  "on_ws m = (\<lambda>s. case m (wl_ws s) of (r, w) \<Rightarrow> (r, s\<lparr>wl_ws := w\<rparr>))"

definition locked :: "'a lease_act \<Rightarrow> 'a lease_act" where
  "locked m = seq (on_ws enter_workspace) (\<lambda>_. m)"

definition set_recovery :: "string \<Rightarrow> unit lease_act" where
  "set_recovery reason = modify (\<lambda>s. s\<lparr>wl_recovery := True, wl_reason := reason\<rparr>)"

text \<open>\<open>except (OwnershipStateError, OSError)\<close>\<close>

definition ownership_error :: "exn \<Rightarrow> bool" where
  "ownership_error e \<longleftrightarrow> is_error ''OwnershipStateError'' e \<or> is_error ''OSError'' e"

definition attempt :: "'a lease_act \<Rightarrow> (exn + 'a) lease_act" where
  "attempt m = handle (seq m (\<lambda>x. ret (Inr x))) (\<lambda>e. if ownership_error e then ret (Inl e) else raise e)"

definition put_marker :: "writer_claim \<Rightarrow> (exn + unit) lease_act" where
  "put_marker c = (\<lambda>s. attempt (on_ws (put_writer_marker (wl_path s) (lease_marker s c))) s)"

definition durable_recovery_refusal :: "writer_claim \<Rightarrow> string \<Rightarrow> bool lease_act" where
  "durable_recovery_refusal c reason =
     seq (set_recovery reason) (\<lambda>_.
     seq (put_marker c) (\<lambda>r.
     seq (case r of Inr _ \<Rightarrow> ret () | Inl _ \<Rightarrow> set_recovery ''workspace recovery refusal could not be persisted'') (\<lambda>_.
     ret False)))"

definition require_recovery :: "string \<Rightarrow> pyval list \<Rightarrow> bool lease_act" where
  "require_recovery reason cleanup_paths =
     locked (seq (set_recovery reason) (\<lambda>_.
     seq (modify (\<lambda>s. s\<lparr>wl_cleanup := first_uniq (wl_cleanup s @ List.map_filter valid_cleanup_path cleanup_paths)\<rparr>)) (\<lambda>_.
     seq (gets wl_holder) (\<lambda>holder.
     case holder of None \<Rightarrow> ret False
     | Some c \<Rightarrow>
         seq (put_marker c) (\<lambda>r.
         case r of Inr _ \<Rightarrow> ret True
         | Inl _ \<Rightarrow> seq (set_recovery ''workspace recovery marker could not be persisted'') (\<lambda>_. ret False))))))"

definition recovery_denial :: "pydict lease_act" where
  "recovery_denial =
     gets (\<lambda>s. [(''status'', PStr ''DENIED''), (''code'', PStr ''DENIED_WORKSPACE_RECOVERY_REQUIRED''), (''retryable'', PBool False),
       (''required_action'', PStr (if wl_reason s = [] then ''restart the daemon after prior writer reconciliation'' else wl_reason s))])"

definition busy_denial :: "writer_claim \<Rightarrow> pydict" where
  "busy_denial c =
     [(''status'', PStr ''DENIED''), (''code'', PStr ''DENIED_WORKSPACE_WRITER_BUSY''), (''retryable'', PBool True),
      (''holder'', PDict (safe_holder c)), (''required_action'', PStr ''retry after the current workspace writer releases'')]"

text \<open>A claim or a denial\<close>

definition acquire :: "string \<Rightarrow> string option \<Rightarrow> string option \<Rightarrow> (pydict + writer_claim) lease_act" where
  "acquire mode session run =
     locked (seq (gets wl_recovery) (\<lambda>rec.
     if rec then seq recovery_denial (\<lambda>d. ret (Inl d))
     else seq (gets wl_holder) (\<lambda>holder.
     case holder of Some c \<Rightarrow> ret (Inl (busy_denial c))
     | None \<Rightarrow>
         seq (gets (\<lambda>s. \<lparr>wc_id = wl_token s (wl_claims s), wc_mode = mode, wc_acquired = wl_clock s (wl_claims s),
              wc_session = session, wc_run = run, wc_spawn = False, wc_children = []\<rparr>)) (\<lambda>c.
         seq (modify (\<lambda>s. s\<lparr>wl_claims := Suc (wl_claims s), wl_apply := None, wl_cleanup := []\<rparr>)) (\<lambda>_.
         seq (put_marker c) (\<lambda>r.
         case r of
           Inl e \<Rightarrow>
             seq (set_recovery (if is_error ''OwnershipStateError'' e then ''repair the malformed owned-run registry before retrying''
                    else ''repair the owned-run registry write path before retrying'')) (\<lambda>_.
             seq recovery_denial (\<lambda>d. ret (Inl d)))
         | Inr _ \<Rightarrow> seq (modify (\<lambda>s. s\<lparr>wl_holder := Some c\<rparr>)) (\<lambda>_. ret (Inr c))))))))"

text \<open>Does the claim identifier name the holder? No comparison is made when there is none.\<close>

definition names_holder :: "string \<Rightarrow> writer_claim option \<Rightarrow> exn + bool" where
  "names_holder claim_id holder = (case holder of None \<Rightarrow> Inr False | Some c \<Rightarrow> digest_eq (wc_id c) claim_id)"

text \<open>
  The shared shape of promotion, spawn and child tracking: the changed claim replaces the holder only
  once its marker is durable.
\<close>

definition replace_claim :: "writer_claim \<Rightarrow> string \<Rightarrow> string \<Rightarrow> writer_claim lease_act" where
  "replace_claim c reason msg =
     seq (put_marker c) (\<lambda>r.
     case r of Inl _ \<Rightarrow> seq (set_recovery reason) (\<lambda>_. raise (state_error msg))
     | Inr _ \<Rightarrow> seq (modify (\<lambda>s. s\<lparr>wl_holder := Some c\<rparr>)) (\<lambda>_. ret c))"

definition held_claim :: "string \<Rightarrow> (writer_claim \<Rightarrow> bool) \<Rightarrow> string \<Rightarrow> string \<Rightarrow> writer_claim lease_act" where
  "held_claim claim_id ok reason msg =
     seq (gets wl_holder) (\<lambda>holder.
     seq (lift_result (names_holder claim_id holder)) (\<lambda>same.
     case holder of
       Some c \<Rightarrow> if same \<and> ok c then ret c else seq (set_recovery reason) (\<lambda>_. raise (state_error msg))
     | None \<Rightarrow> seq (set_recovery reason) (\<lambda>_. raise (state_error msg))))"

definition promote :: "string \<Rightarrow> string \<Rightarrow> string \<Rightarrow> writer_claim lease_act" where
  "promote claim_id session run =
     locked (seq (held_claim claim_id (\<lambda>_. True) ''writer claim identity was lost during record promotion'' ''writer claim identity mismatch'') (\<lambda>c.
     replace_claim (c\<lparr>wc_session := Some session, wc_run := Some run\<rparr>) ''writer claim could not be promoted durably'' ''writer claim promotion failed''))"

definition begin_spawn :: "string \<Rightarrow> writer_claim lease_act" where
  "begin_spawn claim_id =
     locked (seq (held_claim claim_id (\<lambda>_. True) ''writer claim identity was lost before vendor spawn'' ''writer claim identity mismatch'') (\<lambda>c.
     replace_claim (c\<lparr>wc_spawn := True\<rparr>) ''vendor spawn could not be marked durably'' ''writer spawn marker failed''))"

definition track_spawned_child :: "string \<Rightarrow> pyval \<Rightarrow> writer_claim lease_act" where
  "track_spawned_child claim_id child_pid =
     (case (case child_pid of PInt n \<Rightarrow> if 0 < n then Some n else None | _ \<Rightarrow> None) of
        None \<Rightarrow> seq (require_recovery ''vendor spawn returned an invalid child pid'' []) (\<lambda>_. raise (state_error ''invalid child pid''))
      | Some n \<Rightarrow>
          locked (seq (held_claim claim_id wc_spawn ''vendor spawn result could not be matched to its pending claim'' ''writer spawn identity mismatch'') (\<lambda>c.
          replace_claim (c\<lparr>wc_spawn := False, wc_children := first_uniq (wc_children c @ [n])\<rparr>)
            ''spawned vendor child could not be tracked durably'' ''writer child tracking failed'')))"

text \<open>\<open>None\<close> when the claim still owns the workspace for the run, otherwise a denial\<close>

definition verify_claim :: "string option \<Rightarrow> string \<Rightarrow> pydict option lease_act" where
  "verify_claim claim_id run =
     locked (seq (gets wl_recovery) (\<lambda>rec.
     if rec then seq recovery_denial (\<lambda>d. ret (Some d))
     else seq (gets wl_holder) (\<lambda>holder.
     seq (case claim_id of None \<Rightarrow> ret False | Some i \<Rightarrow> lift_result (names_holder i holder)) (\<lambda>same.
     if same \<and> (case holder of None \<Rightarrow> False | Some c \<Rightarrow> wc_run c = Some run) then ret None
     else seq (set_recovery ''the active turn no longer owns its required writer claim'') (\<lambda>_.
       seq recovery_denial (\<lambda>d. ret (Some d)))))))"

definition release :: "string option \<Rightarrow> bool \<Rightarrow> bool lease_act" where
  "release claim_id termination_proven =
     (case claim_id of None \<Rightarrow> ret True
      | Some i \<Rightarrow>
          locked (seq (gets wl_holder) (\<lambda>holder.
          case holder of None \<Rightarrow> ret True
          | Some c \<Rightarrow>
              seq (lift_result (digest_eq (wc_id c) i)) (\<lambda>same.
              if \<not> same then ret False
              else seq (gets id) (\<lambda>s.
              if wl_apply s \<noteq> None then
                durable_recovery_refusal c (if wl_recovery s then wl_reason s else ''workspace apply recovery state was not cleared before release'')
              else if wl_recovery s then ret False
              else if \<not> termination_proven then durable_recovery_refusal c ''prior writer termination could not be proven''
              else seq (attempt (on_ws (clear_writer_marker (wl_path s) i))) (\<lambda>r.
              case r of
                Inl _ \<Rightarrow> seq (set_recovery ''writer recovery marker could not be cleared durably'') (\<lambda>_. ret False)
              | Inr False \<Rightarrow> seq (set_recovery ''writer recovery marker no longer matches the in-memory claim'') (\<lambda>_. ret False)
              | Inr True \<Rightarrow> seq (modify (\<lambda>s. s\<lparr>wl_holder := None\<rparr>)) (\<lambda>_. ret True)))))))"

section \<open>What is on disk\<close>

record file_state =
  fs_exists :: bool
  fs_sha :: "string option"
  fs_bytes :: "int option"

definition recovery_file_state :: "string \<Rightarrow> int \<Rightarrow> file_state file_act" where
  "recovery_file_state raw_path most =
     (if most < 1 then raise (state_error ''workspace recovery read bound must be a positive integer'')
      else (case valid_cleanup_path (PStr raw_path) of
         None \<Rightarrow> raise (state_error ''workspace recovery path is not safely contained'')
       | Some path \<Rightarrow>
           path_errors_as ''workspace recovery state is unreadable''
             (seq (file_size path) (\<lambda>x.
              case x of None \<Rightarrow> ret \<lparr>fs_exists = False, fs_sha = None, fs_bytes = None\<rparr>
              | Some n \<Rightarrow>
                  seq (guard (n \<le> most) (state_error ''workspace recovery state exceeds its cumulative read bound'')) (\<lambda>_.
                  seq (read_file path (min max_staged_file_bytes (max 1 most))) (\<lambda>data.
                  gets (\<lambda>w. \<lparr>fs_exists = True, fs_sha = Some (ws_sha256 w data), fs_bytes = Some (int (length data))\<rparr>)))))))"

definition side_matches :: "file_state \<Rightarrow> bool \<Rightarrow> string option \<Rightarrow> bool" where
  "side_matches actual there sha \<longleftrightarrow> fs_exists actual = there \<and> (\<not> there \<or> fs_sha actual = sha)"

text \<open>Are all targets at their base, and are all at their final state? The bytes read so far bound the next read.\<close>

fun target_modes :: "int \<Rightarrow> bool \<times> bool \<Rightarrow> target_file list \<Rightarrow> (bool \<times> bool) file_act" where
  "target_modes tot (base, final) [] = ret (base, final)"
| "target_modes tot (base, final) (t # ts) =
     seq (recovery_file_state (tg_path t) (max_apply_staged_total_bytes - tot)) (\<lambda>x.
     let tot' = (if fs_exists x then tot + (case fs_bytes x of None \<Rightarrow> 0 | Some n \<Rightarrow> n) else tot) in
     seq (guard (tot' \<le> max_apply_staged_total_bytes) (state_error ''workspace target recovery payload exceeds its aggregate bound'')) (\<lambda>_.
     target_modes tot' (base \<and> side_matches x (tg_base t) (tg_base_sha t), final \<and> side_matches x (tg_final t) (tg_final_sha t)) ts))"

definition target_recovery_mode :: "journal \<Rightarrow> (bool \<times> bool) file_act" where
  "target_recovery_mode j = target_modes 0 (True, True) (jn_targets j)"

text \<open>\<open>all(not ...exists for item in staged)\<close>, which stops at the first file found\<close>

fun all_absent :: "staged_file list \<Rightarrow> bool file_act" where
  "all_absent [] = ret True"
| "all_absent (x # xs) =
     seq (recovery_file_state (sg_path x) max_staged_file_bytes) (\<lambda>y. if fs_exists y then ret False else all_absent xs)"

definition apply_clear_is_proven :: "journal \<Rightarrow> bool lease_act" where
  "apply_clear_is_proven j =
     seq (attempt (on_ws
       (seq (target_recovery_mode j) (\<lambda>(base, final).
        seq (all_absent (jn_staged j)) (\<lambda>gone.
        ret ((if jn_phase j = ''staging'' then base else final) \<and> gone)))))) (\<lambda>r.
     ret (case r of Inl _ \<Rightarrow> False | Inr b \<Rightarrow> b))"

definition set_apply_recovery :: "string option \<Rightarrow> pyval option \<Rightarrow> bool lease_act" where
  "set_apply_recovery claim_id state =
     locked (seq (gets id) (\<lambda>s.
     seq (case claim_id of None \<Rightarrow> ret False | Some i \<Rightarrow> lift_result (names_holder i (wl_holder s))) (\<lambda>same.
     case (if same then wl_holder s else None) of None \<Rightarrow> ret False
     | Some c \<Rightarrow>
         if wl_recovery s then ret False
         else (case (case state of None \<Rightarrow> Inr None | Some v \<Rightarrow>
                 (case validated_apply_recovery (Some (wl_pid s)) v of Inl e \<Rightarrow> Inl e | Inr j \<Rightarrow> Inr (Some j))) of
           Inl _ \<Rightarrow> durable_recovery_refusal c ''workspace apply recovery state was invalid''
         | Inr normalized \<Rightarrow>
             if \<not> apply_transition_allowed (wl_apply s) normalized then
               durable_recovery_refusal c ''workspace apply recovery phase transition was invalid''
             else seq (case (wl_apply s, normalized) of (Some p, None) \<Rightarrow> apply_clear_is_proven p | _ \<Rightarrow> ret True) (\<lambda>proven.
               if \<not> proven then durable_recovery_refusal c ''workspace apply recovery clear could not be re-proven''
               else seq (modify (\<lambda>u. u\<lparr>wl_apply := normalized\<rparr>)) (\<lambda>_.
                 seq (put_marker c) (\<lambda>r.
                 case r of Inr _ \<Rightarrow> ret True
                 | Inl _ \<Rightarrow> seq (modify (\<lambda>u. u\<lparr>wl_apply := wl_apply s\<rparr>)) (\<lambda>_.
                     durable_recovery_refusal c ''workspace apply recovery marker could not be persisted''))))))))"

end
