(* ===== verification/Writer_Recovery.thy ===== *)
theory Writer_Recovery imports Writer_Lease begin

text \<open>
  What a restarted daemon does with the marker of an earlier one: it is cleared only on evidence that
  the owner and its children are dead and that every file of an interrupted apply is wholly at its
  base or wholly final; otherwise the lease refuses writers. Then the operations of the lease as one
  function over a datatype, and its runs.
\<close>

section \<open>An interrupted apply\<close>

definition fails_as :: "string \<Rightarrow> 'a file_act" where
  "fails_as msg = raise (state_error msg)"

fun check_staged :: "staged_file list \<Rightarrow> file_state list file_act" where
  "check_staged [] = ret []"
| "check_staged (x # xs) =
     seq (recovery_file_state (sg_path x) max_staged_file_bytes) (\<lambda>found.
     if fs_exists found \<and> (fs_sha found \<noteq> Some (sg_sha x) \<or> fs_bytes found \<noteq> Some (sg_bytes x))
     then fails_as ''workspace staged recovery payload does not match its journal''
     else seq (check_staged xs) (\<lambda>rest. ret (found # rest)))"

definition remove_staged :: "staged_file \<Rightarrow> file_state \<Rightarrow> unit file_act" where
  "remove_staged x initial =
     (if \<not> fs_exists initial then ret ()
      else seq (recovery_file_state (sg_path x) max_staged_file_bytes) (\<lambda>immediate.
        if immediate \<noteq> initial then fails_as ''workspace staged recovery payload changed before cleanup''
        else seq (path_errors_as ''workspace staged recovery payload could not be removed''
               (unlink_file (sg_path x) (sg_sha x) (sg_bytes x) max_staged_file_bytes)) (\<lambda>removed.
          seq (if removed then recovery_file_state (sg_path x) max_staged_file_bytes
               else fails_as ''workspace staged recovery cleanup could not be proven'') (\<lambda>left.
          if fs_exists left then fails_as ''workspace staged recovery cleanup could not be proven'' else ret ()))))"

fun remove_all_staged :: "(staged_file \<times> file_state) list \<Rightarrow> unit file_act" where
  "remove_all_staged [] = ret ()"
| "remove_all_staged ((x, initial) # rest) = seq (remove_staged x initial) (\<lambda>_. remove_all_staged rest)"

definition reconcile_apply_recovery :: "string \<Rightarrow> string \<Rightarrow> journal \<Rightarrow> unit file_act" where
  "reconcile_apply_recovery path claim_id j =
     seq (target_recovery_mode j) (\<lambda>before_mode.
     if \<not> (fst before_mode \<or> snd before_mode) then fails_as ''workspace targets are neither wholly base nor wholly final''
     else seq (check_staged (jn_staged j)) (\<lambda>states.
     seq (remove_all_staged (zip (jn_staged j) states)) (\<lambda>_.
     seq (target_recovery_mode j) (\<lambda>after_mode.
     if after_mode \<noteq> before_mode then fails_as ''workspace targets changed during staged recovery cleanup''
     else seq (all_absent (jn_staged j)) (\<lambda>gone.
     if \<not> gone then fails_as ''workspace staged recovery paths are not all absent''
     else seq (clear_writer_marker path claim_id) (\<lambda>cleared.
     if \<not> cleared then fails_as ''workspace recovery marker could not be cleared'' else ret ()))))))"

section \<open>The marker of a dead owner\<close>

record marker_info =
  mk_pid :: int
  mk_nonce :: string
  mk_claim :: string
  mk_spawn :: bool
  mk_children :: "int list"
  mk_required :: bool
  mk_cleanup :: "string list"

definition pid_of :: "pyval \<Rightarrow> int option" where
  "pid_of v = (case v of PInt n \<Rightarrow> if 0 < n then Some n else None | _ \<Rightarrow> None)"

fun list_of :: "pyval \<Rightarrow> pyval list option" where
  "list_of (PList xs) = Some xs"
| "list_of v = None"

fun bool_of :: "pyval \<Rightarrow> bool option" where
  "bool_of (PBool b) = Some b"
| "bool_of v = None"

fun text_of :: "pyval \<Rightarrow> string option" where
  "text_of (PStr s) = Some s"
| "text_of v = None"

definition nonce_ok :: "string \<Rightarrow> bool" where
  "nonce_ok s \<longleftrightarrow> 1 \<le> length s \<and> length s \<le> 128 \<and> list_all (\<lambda>c. is_alnum c \<or> c = CHR ''_'' \<or> c = CHR ''-'') s"

definition claim_ok :: "string \<Rightarrow> bool" where
  "claim_ok s \<longleftrightarrow> length s = 32 \<and> list_all (among ''0123456789abcdef'') s"

fun all_some :: "'a option list \<Rightarrow> 'a list option" where
  "all_some [] = Some []"
| "all_some (x # xs) = (case (x, all_some xs) of (Some y, Some ys) \<Rightarrow> Some (y # ys) | _ \<Rightarrow> None)"

definition read_marker :: "pydict \<Rightarrow> marker_info option" where
  "read_marker m =
     (case (pid_of (dget m ''pid''), text_of (dget m ''nonce''), text_of (dget m ''claim_id''), bool_of (dget m ''spawn_pending''),
            map_option (\<lambda>xs. all_some (map pid_of xs)) (list_of (dget m ''child_pids'')),
            bool_of (dget_default m ''recovery_required'' (PBool False)),
            map_option (\<lambda>xs. all_some (map valid_cleanup_path xs)) (list_of (dget_default m ''cleanup_paths'' (PList [])))) of
        (Some pid, Some nonce, Some claim, Some spawn, Some (Some children), Some required, Some (Some cleanup)) \<Rightarrow>
          if nonce_ok nonce \<and> claim_ok claim
          then Some \<lparr>mk_pid = pid, mk_nonce = nonce, mk_claim = claim, mk_spawn = spawn, mk_children = children,
                mk_required = required, mk_cleanup = cleanup\<rparr>
          else None
      | _ \<Rightarrow> None)"

definition marker_reason :: "pydict \<Rightarrow> marker_info \<Rightarrow> string" where
  "marker_reason m i = (if mk_required i then py_str (py_or (dget m ''recovery_reason'') (PStr [])) else [])"

definition refused :: "string \<Rightarrow> bool lease_act" where
  "refused reason = seq (set_recovery reason) (\<lambda>_. ret False)"

definition reset_lease :: "bool lease_act" where
  "reset_lease =
     seq (modify (\<lambda>s. s\<lparr>wl_holder := None, wl_recovery := False, wl_reason := [], wl_cleanup := [], wl_apply := None\<rparr>)) (\<lambda>_. ret True)"

definition allowed_recovery_reasons :: "string list" where
  "allowed_recovery_reasons =
     [''workspace apply recovery state was not cleared before release'', ''staged workspace mutation cleanup could not be proven'']"

text \<open>What is done with a well-formed marker of a dead owner whose children are dead\<close>

definition clear_dead_marker :: "string \<Rightarrow> marker_info \<Rightarrow> bool lease_act" where
  "clear_dead_marker reason i =
     (if mk_required i \<or> mk_cleanup i \<noteq> [] then
        refused (if reason = [] then ''a prior workspace writer requires explicit recovery reconciliation'' else reason)
      else seq (gets wl_path) (\<lambda>path.
        seq (attempt (on_ws (clear_writer_marker path (mk_claim i)))) (\<lambda>r.
        if r = Inr True then reset_lease else refused ''the dead workspace writer marker could not be cleared'')))"

definition recover_apply :: "string \<Rightarrow> marker_info \<Rightarrow> journal \<Rightarrow> bool lease_act" where
  "recover_apply reason i j =
     (if \<not> set (map path_identity (mk_cleanup i)) \<subseteq> set (map (\<lambda>x. path_identity (sg_path x)) (jn_staged j)) \<or>
         mk_required i \<and> reason \<notin> set allowed_recovery_reasons
      then refused (if reason = [] then ''workspace marker carries unrelated recovery requirements'' else reason)
      else seq (gets wl_path) (\<lambda>path.
        seq (attempt (on_ws (reconcile_apply_recovery path (mk_claim i) j))) (\<lambda>r.
        case r of Inl _ \<Rightarrow> refused ''workspace apply recovery could not prove one exact base or final state''
        | Inr _ \<Rightarrow> reset_lease)))"

definition marker_keys :: "string list" where "marker_keys = [''claim_id'', ''spawn_pending'', ''child_pids'']"

definition marker_journal :: "pydict \<Rightarrow> marker_info \<Rightarrow> exn + journal option" where
  "marker_journal m i =
     (if dget m ''apply_recovery'' = PNone then Inr None
      else (case validated_apply_recovery (Some (mk_pid i)) (dget m ''apply_recovery'') of Inl e \<Rightarrow> Inl e | Inr j \<Rightarrow> Inr (Some j)))"

definition settle_marker :: "(int \<Rightarrow> bool) \<Rightarrow> bool \<Rightarrow> string \<Rightarrow> pydict \<Rightarrow> marker_info \<Rightarrow> journal option \<Rightarrow> bool lease_act" where
  "settle_marker pid_alive allow_clear blocked_reason m i jo =
     seq (gets id) (\<lambda>s.
     if mk_pid i = wl_pid s \<and> mk_nonce i = wl_nonce s then
       seq (lift_result (names_holder (mk_claim i) (wl_holder s))) (\<lambda>same.
       if same then ret True else refused ''the current process lost its in-memory workspace writer holder'')
     else if pid_alive (mk_pid i) then refused ''a prior workspace writer is still alive; stop it before retrying''
     else if mk_spawn i then refused ''a prior vendor spawn outcome is unknown; reconcile it before retrying''
     else if list_ex pid_alive (mk_children i) then refused ''a prior workspace-writer child is still alive; stop it before retrying''
     else seq (modify (\<lambda>u. u\<lparr>wl_cleanup := mk_cleanup i, wl_apply := jo\<rparr>)) (\<lambda>_.
       if \<not> allow_clear then
         refused (if blocked_reason = [] then ''another durable recovery boundary prevents writer reconciliation'' else blocked_reason)
       else (case jo of
           None \<Rightarrow> clear_dead_marker (marker_reason m i) i
         | Some j \<Rightarrow> recover_apply (marker_reason m i) i j)))"

definition judge_marker :: "(int \<Rightarrow> bool) \<Rightarrow> bool \<Rightarrow> string \<Rightarrow> pydict \<Rightarrow> bool lease_act" where
  "judge_marker pid_alive allow_clear blocked_reason m =
     (if \<not> set marker_keys \<subseteq> set (map fst m) then refused ''repair the invalid workspace-writer recovery marker''
      else (case read_marker m of
        None \<Rightarrow> refused ''repair the invalid workspace-writer spawn marker''
      | Some i \<Rightarrow>
          (case marker_journal m i of
             Inl _ \<Rightarrow> refused ''repair the invalid workspace apply recovery marker''
           | Inr jo \<Rightarrow> settle_marker pid_alive allow_clear blocked_reason m i jo)))"

definition reconcile_after_orphan_sweep :: "(int \<Rightarrow> bool) \<Rightarrow> bool \<Rightarrow> string \<Rightarrow> bool lease_act" where
  "reconcile_after_orphan_sweep pid_alive allow_clear blocked_reason =
     locked (seq (gets wl_path) (\<lambda>path.
     seq (attempt (on_ws (writer_marker path))) (\<lambda>r.
     case r of
       Inl _ \<Rightarrow> refused ''repair the malformed owned-run registry before enabling writers''
     | Inr None \<Rightarrow> reset_lease
     | Inr (Some m) \<Rightarrow> judge_marker pid_alive allow_clear blocked_reason m)))"

section \<open>Runs\<close>

datatype lease_op =
    Acquire string "string option" "string option"
  | Promote string string string
  | Begin_Spawn string
  | Track_Child string pyval
  | Verify "string option" string
  | Release "string option" bool
  | Set_Apply "string option" "pyval option"
  | Require_Recovery string "pyval list"
  | Reconcile "int \<Rightarrow> bool" bool string

datatype lease_out = Claim writer_claim | Denial pydict | Answer bool | Passed | Raised exn

definition out_of :: "('a \<Rightarrow> lease_out) \<Rightarrow> 'a lease_act \<Rightarrow> lease \<Rightarrow> lease_out \<times> lease" where
  "out_of f m s = (case m s of (Inl e, t) \<Rightarrow> (Raised e, t) | (Inr x, t) \<Rightarrow> (f x, t))"

fun perform :: "lease_op \<Rightarrow> lease \<Rightarrow> lease_out \<times> lease" where
  "perform (Acquire mode session run) = out_of (case_sum Denial Claim) (acquire mode session run)"
| "perform (Promote i session run) = out_of Claim (promote i session run)"
| "perform (Begin_Spawn i) = out_of Claim (begin_spawn i)"
| "perform (Track_Child i pid) = out_of Claim (track_spawned_child i pid)"
| "perform (Verify i run) = out_of (case_option Passed Denial) (verify_claim i run)"
| "perform (Release i proven) = out_of Answer (release i proven)"
| "perform (Set_Apply i state) = out_of Answer (set_apply_recovery i state)"
| "perform (Require_Recovery reason paths) = out_of Answer (require_recovery reason paths)"
| "perform (Reconcile alive allow reason) = out_of Answer (reconcile_after_orphan_sweep alive allow reason)"

inductive lease_run :: "lease \<Rightarrow> (lease_op \<times> lease_out) list \<Rightarrow> lease \<Rightarrow> bool" where
  lr_Nil: "lease_run s [] s"
| lr_Cons: "perform op s = (x, t) \<Longrightarrow> lease_run t tr u \<Longrightarrow> lease_run s ((op, x) # tr) u"

inductive_simps lease_run_simps: "lease_run s [] u" "lease_run s (e # tr) u"

end
