(* ===== verification/Writer_Theorems.thy ===== *)
theory Writer_Theorems imports Writer_Recovery begin

text \<open>
  Why there is one writer at a time, and what a restarted daemon may conclude from the files an earlier
  one left. The facts hold under every script of disturbances unless a hypothesis says otherwise.
\<close>

section \<open>The holder stays the holder\<close>

lemma keeps_cases:
  "keeps R m \<Longrightarrow> (\<And>x. keeps R (f x)) \<Longrightarrow> keeps R (case z of None \<Rightarrow> m | Some x \<Rightarrow> f x)"
  "(\<And>e. keeps R (g e)) \<Longrightarrow> (\<And>x. keeps R (f x)) \<Longrightarrow> keeps R (case y of Inl e \<Rightarrow> g e | Inr x \<Rightarrow> f x)"
  "(\<And>a b. keeps R (h a b)) \<Longrightarrow> keeps R (case p of (a, b) \<Rightarrow> h a b)"
  by (auto split: option.split sum.split prod.split)

definition holder_id :: "lease \<Rightarrow> string option" where
  "holder_id s = map_option wc_id (wl_holder s)"

definition same_holder :: "lease \<Rightarrow> lease \<Rightarrow> bool" where
  "same_holder s t \<longleftrightarrow> holder_id t = holder_id s \<and> (wl_recovery s \<longrightarrow> wl_recovery t)"

interpretation holding: state_preorder same_holder
  by unfold_locales (simp_all add: same_holder_def)

lemma on_ws_same: "keeps same_holder (on_ws m)"
  by (rule keepsI) (simp add: on_ws_def same_holder_def holder_id_def split: prod.split)

lemma modify_same:
  "keeps same_holder (set_recovery reason)" "keeps same_holder (modify (\<lambda>s. s\<lparr>wl_cleanup := f s\<rparr>))"
  "keeps same_holder (modify (\<lambda>s. s\<lparr>wl_apply := g s\<rparr>))" "keeps same_holder (modify (\<lambda>s. s\<lparr>wl_cleanup := f s, wl_apply := g s\<rparr>))"
  by (simp_all add: keeps_def set_recovery_def same_holder_def holder_id_def)

lemma attempt_same: "keeps same_holder m \<Longrightarrow> keeps same_holder (attempt m)"
  unfolding attempt_def by (intro holding.keeps_intros) auto

lemma put_marker_same: "keeps same_holder (put_marker c)"
  unfolding keeps_def put_marker_def
  by (intro allI keeps_at [of same_holder] attempt_same on_ws_same)

lemma recovery_denial_same: "keeps same_holder recovery_denial"
  unfolding recovery_denial_def by (rule holding.keeps_pure)

lemma refused_same: "keeps same_holder (refused reason)"
  unfolding refused_def by (intro holding.keeps_intros modify_same)

lemma refusal_same: "keeps same_holder (durable_recovery_refusal c reason)"
  unfolding durable_recovery_refusal_def
  by (intro holding.keeps_intros modify_same put_marker_same keeps_cases)

lemma locked_same: "keeps same_holder m \<Longrightarrow> keeps same_holder (locked m)"
  unfolding locked_def by (intro holding.keeps_intros on_ws_same)

lemmas same_intros = holding.keeps_intros modify_same attempt_same put_marker_same recovery_denial_same refused_same refusal_same
  locked_same on_ws_same keeps_cases

lemma sameD: "keeps same_holder m \<Longrightarrow> m s = (x, t) \<Longrightarrow> same_holder s t"
  by (rule keepsD)

lemma require_same: "keeps same_holder (require_recovery reason paths)"
  unfolding require_recovery_def
  by (intro same_intros)

lemma verify_same: "keeps same_holder (verify_claim i run)"
  unfolding verify_claim_def
  by (intro same_intros)

lemma clear_proven_same: "keeps same_holder (apply_clear_is_proven j)"
  unfolding apply_clear_is_proven_def by (intro same_intros)

lemma set_apply_same: "keeps same_holder (set_apply_recovery i state)"
  unfolding set_apply_recovery_def
  by (intro same_intros clear_proven_same)

text \<open>An operation that changes the claim starts from the holder's and keeps its identifier.\<close>

lemma locked_elim:
  assumes "locked m s = (x, t)"
  obtains (closed) "x = Inl (path_error ''workspace path authority is closed'')" "t = s" | (inside) "m s = (x, t)"
  using assms by (cases "ws_closed (wl_ws s)")
    (auto simp: locked_def seq_def on_ws_def enter_workspace_def split: prod.splits)

lemma held_claim_cases:
  assumes "held_claim i ok reason msg s = (x, t)"
  obtains (held) c where "x = Inr c" "t = s" "wl_holder s = Some c" "wc_id c = i" "ok c"
    | (lost) e where "x = Inl e" "same_holder s t"
  using assms
  by (auto simp: held_claim_def names_holder_def digest_eq_def seq_def set_recovery_def holder_id_def same_holder_def split: option.splits if_splits sum.splits)

lemma replace_claim_same:
  assumes "holder_id s = Some (wc_id c)" "replace_claim c reason msg s = (x, t)" shows "same_holder s t"
proof -
  obtain r u where put: "put_marker c s = (r, u)" by fastforce
  have "same_holder s u" by (rule sameD [where m = "put_marker c"]) (rule put_marker_same, rule put)
  with assms put show ?thesis
    by (auto simp: replace_claim_def seq_def set_recovery_def holder_id_def same_holder_def split: sum.splits)
qed

lemma change_claim_same:
  assumes "locked (seq (held_claim i ok reason msg) (\<lambda>c. replace_claim (f c) reason' msg')) s = (x, t)" "\<And>c. wc_id (f c) = wc_id c"
  shows "same_holder s t"
  using assms(1)
proof (cases rule: locked_elim)
  case inside
  obtain y u where held: "held_claim i ok reason msg s = (y, u)" by fastforce
  from this show ?thesis
  proof (cases rule: held_claim_cases)
    case (held c)
    with inside \<open>held_claim i ok reason msg s = (y, u)\<close> have "replace_claim (f c) reason' msg' s = (x, t)" by simp
    then show ?thesis by (rule replace_claim_same [rotated]) (use held assms(2) in \<open>simp add: holder_id_def\<close>)
  next
    case (lost e)
    with inside held show ?thesis by simp
  qed
qed (simp add: holding.refl)

lemma promote_same: "promote i session run s = (x, t) \<Longrightarrow> same_holder s t"
  unfolding promote_def by (erule change_claim_same) simp

lemma spawn_same: "begin_spawn i s = (x, t) \<Longrightarrow> same_holder s t"
  unfolding begin_spawn_def by (erule change_claim_same) simp

lemma track_same:
  assumes "track_spawned_child i pid s = (x, t)" shows "same_holder s t"
proof (cases "case pid of PInt n \<Rightarrow> if 0 < n then Some n else None | _ \<Rightarrow> None")
  case None
  have "keeps same_holder (seq (require_recovery ''vendor spawn returned an invalid child pid'' []) (\<lambda>_. raise (state_error ''invalid child pid'')))"
    by (intro same_intros require_same)
  then show ?thesis by (rule sameD) (use assms None in \<open>simp add: track_spawned_child_def\<close>)
next
  case (Some n)
  with assms have "locked (seq (held_claim i wc_spawn ''vendor spawn result could not be matched to its pending claim'' ''writer spawn identity mismatch'')
      (\<lambda>c. replace_claim (c\<lparr>wc_spawn := False, wc_children := first_uniq (wc_children c @ [n])\<rparr>)
        ''spawned vendor child could not be tracked durably'' ''writer child tracking failed'')) s = (x, t)"
    by (simp add: track_spawned_child_def)
  then show ?thesis by (rule change_claim_same) simp
qed

section \<open>Who ends a claim\<close>

lemma acquire_held:
  assumes "wl_holder s = Some c" "acquire mode session run s = (x, t)"
  shows "same_holder s t" "x \<noteq> Inr (Inr d)"
proof -
  have "same_holder s t \<and> x \<noteq> Inr (Inr d)"
    using assms(2) [unfolded acquire_def]
  proof (cases rule: locked_elim)
    case inside
    with assms(1) show ?thesis by (auto simp: seq_def recovery_denial_def same_holder_def split: if_splits)
  qed (use assms(1) in \<open>simp add: same_holder_def\<close>)
  then show "same_holder s t" "x \<noteq> Inr (Inr d)" by simp_all
qed

lemma release_held:
  assumes "wl_holder s = Some c" "release i proven s = (x, t)"
  shows "same_holder s t \<or> i = Some (wc_id c) \<and> proven \<and> x = Inr True \<and> wl_holder t = None"
proof (cases i)
  case (Some claim_id)
  let ?clear = "attempt (on_ws (clear_writer_marker (wl_path s) claim_id))"
  have kept: "same_holder s u" if "?clear s = (r, u)" for r u
    by (rule sameD [where m = ?clear]) (intro same_intros, rule that)
  from assms(2) Some have run: "locked (seq (gets wl_holder) (\<lambda>holder.
      case holder of None \<Rightarrow> ret True
      | Some c \<Rightarrow> seq (lift_result (digest_eq (wc_id c) claim_id)) (\<lambda>same.
          if \<not> same then ret False
          else seq (gets id) (\<lambda>s.
          if wl_apply s \<noteq> None then
            durable_recovery_refusal c (if wl_recovery s then wl_reason s else ''workspace apply recovery state was not cleared before release'')
          else if wl_recovery s then ret False
          else if \<not> proven then durable_recovery_refusal c ''prior writer termination could not be proven''
          else seq (attempt (on_ws (clear_writer_marker (wl_path s) claim_id))) (\<lambda>r.
          case r of
            Inl _ \<Rightarrow> seq (set_recovery ''writer recovery marker could not be cleared durably'') (\<lambda>_. ret False)
          | Inr False \<Rightarrow> seq (set_recovery ''writer recovery marker no longer matches the in-memory claim'') (\<lambda>_. ret False)
          | Inr True \<Rightarrow> seq (modify (\<lambda>s. s\<lparr>wl_holder := None\<rparr>)) (\<lambda>_. ret True)))))) s = (x, t)"
    by (simp add: release_def)
  from run show ?thesis
  proof (cases rule: locked_elim)
    case inside
    show ?thesis
    proof (cases "wc_id c = claim_id \<and> digest_eq (wc_id c) claim_id = Inr True \<and> wl_apply s = None \<and> \<not> wl_recovery s \<and> proven")
      case True
      obtain r u where r: "?clear s = (r, u)" by fastforce
      from inside True r assms(1) kept [OF r] Some show ?thesis
        by (auto simp: seq_def set_recovery_def holder_id_def same_holder_def split: sum.splits bool.splits)
    next
      case False
      from inside assms(1) False show ?thesis
        by (auto simp: seq_def digest_eq_def holding.refl split: if_splits dest: sameD [OF refusal_same])
    qed
  qed (simp add: holding.refl)
qed (use assms in \<open>simp add: release_def holding.refl\<close>)

text \<open>A reconciliation drops the holder only when it answers yes.\<close>

definition drops_only_on_yes :: "bool lease_act \<Rightarrow> bool" where
  "drops_only_on_yes m \<longleftrightarrow> (\<forall>s x t. m s = (x, t) \<longrightarrow> x \<noteq> Inr True \<longrightarrow> same_holder s t)"

lemma drops_keeps: "keeps same_holder m \<Longrightarrow> drops_only_on_yes m"
  unfolding drops_only_on_yes_def using sameD [of m] by blast

lemma drops_seq: "keeps same_holder m \<Longrightarrow> (\<And>x. drops_only_on_yes (f x)) \<Longrightarrow> drops_only_on_yes (seq m f)"
proof (unfold drops_only_on_yes_def, intro allI impI)
  fix s x t assume m: "keeps same_holder m" and f: "\<And>x. \<forall>s y t. f x s = (y, t) \<longrightarrow> y \<noteq> Inr True \<longrightarrow> same_holder s t"
    and run: "seq m f s = (x, t)" "x \<noteq> Inr True"
  obtain r u where r: "m s = (r, u)" by fastforce
  have "same_holder s u" by (rule sameD [OF m r])
  moreover have "same_holder u t" if "r = Inr y" for y using run r f that by simp
  ultimately show "same_holder s t" using run r by (cases r) (auto intro: holding.trans)
qed

lemma drops_reset: "drops_only_on_yes reset_lease"
  by (simp add: drops_only_on_yes_def reset_lease_def seq_def)

lemma drops_cases:
  "drops_only_on_yes m \<Longrightarrow> drops_only_on_yes m' \<Longrightarrow> drops_only_on_yes (if b then m else m')"
  "drops_only_on_yes m \<Longrightarrow> (\<And>x. drops_only_on_yes (f x)) \<Longrightarrow> drops_only_on_yes (case z of None \<Rightarrow> m | Some x \<Rightarrow> f x)"
  "(\<And>e. drops_only_on_yes (g e)) \<Longrightarrow> (\<And>x. drops_only_on_yes (h x)) \<Longrightarrow> drops_only_on_yes (case y of Inl e \<Rightarrow> g e | Inr x \<Rightarrow> h x)"
  by (auto split: option.split sum.split)

lemmas drops_intros = drops_cases drops_reset drops_keeps [OF refused_same] drops_keeps [OF holding.keeps_pure(1)]

lemma judge_drops: "drops_only_on_yes (judge_marker alive allow reason m)"
  unfolding judge_marker_def settle_marker_def clear_dead_marker_def recover_apply_def
  by (intro drops_intros drops_seq same_intros)

lemma reconcile_drops: "drops_only_on_yes (reconcile_after_orphan_sweep alive allow reason)"
  unfolding reconcile_after_orphan_sweep_def locked_def
  by (intro drops_intros judge_drops drops_seq same_intros)

section \<open>One writer at a time\<close>

definition ends_claim :: "string \<Rightarrow> lease_op \<times> lease_out \<Rightarrow> bool" where
  "ends_claim i = (\<lambda>(op, x). x = Answer True \<and> (op = Release (Some i) True \<or> (\<exists>alive allow reason. op = Reconcile alive allow reason)))"

lemma perform_held:
  assumes "perform op s = (x, t)" "holder_id s = Some i"
  shows "same_holder s t \<or> ends_claim i (op, x)"
proof -
  from assms(2) obtain c where c: "wl_holder s = Some c" "wc_id c = i" by (auto simp: holder_id_def)
  show ?thesis
  proof (cases op)
    case (Acquire mode session run)
    with assms acquire_held(1) [OF c(1)] show ?thesis by (auto simp: out_of_def split: prod.splits sum.splits)
  next
    case (Release i' proven)
    obtain r u where r: "release i' proven s = (r, u)" by fastforce
    from release_held [OF c(1) r] show ?thesis using assms Release r c(2)
      by (auto simp: out_of_def ends_claim_def split: sum.splits)
  next
    case (Reconcile alive allow reason)
    obtain r u where r: "reconcile_after_orphan_sweep alive allow reason s = (r, u)" by fastforce
    with reconcile_drops have "r \<noteq> Inr True \<Longrightarrow> same_holder s u" unfolding drops_only_on_yes_def by blast
    with r assms Reconcile show ?thesis by (auto simp: out_of_def ends_claim_def split: sum.splits)
  qed (use assms in \<open>auto simp: out_of_def split: prod.splits sum.splits
      dest: promote_same spawn_same track_same sameD [OF verify_same] sameD [OF set_apply_same] sameD [OF require_same]\<close>)
qed

lemma perform_acquire_held: "perform (Acquire mode session run) s = (x, t) \<Longrightarrow> holder_id s = Some i \<Longrightarrow> x \<noteq> Claim d"
  using acquire_held(2) [of s _ mode session run]
  by (auto simp: out_of_def holder_id_def split: prod.splits sum.splits)

lemma acquire_grants: "perform (Acquire mode session run) s = (Claim c, t) \<Longrightarrow> holder_id t = Some (wc_id c)"
  by (auto simp: out_of_def acquire_def locked_def seq_def recovery_denial_def holder_id_def
      split: prod.splits sum.splits if_splits option.splits)

lemma run_append: "lease_run s (a @ b) u \<longleftrightarrow> (\<exists>t. lease_run s a t \<and> lease_run t b u)"
  by (induction a arbitrary: s) (auto simp: lease_run_simps)

lemma run_held: "lease_run s tr t \<Longrightarrow> holder_id s = Some i \<Longrightarrow> \<not> list_ex (ends_claim i) tr \<Longrightarrow> holder_id t = Some i"
  by (induction rule: lease_run.induct) (auto simp: same_holder_def dest: perform_held)

section \<open>An end that was not proven\<close>

lemma locked_eq:
  "locked m s = (if ws_closed (wl_ws s) then (Inl (path_error ''workspace path authority is closed''), s) else m s)"
  by (simp add: locked_def seq_def on_ws_def enter_workspace_def)

lemma acquire_recovery: "wl_recovery s \<Longrightarrow> acquire mode session run s = (x, t) \<Longrightarrow> t = s \<and> x \<noteq> Inr (Inr c)"
  by (auto simp: acquire_def locked_eq recovery_denial_def seq_def split: if_splits)

lemma refusal_sets:
  assumes "durable_recovery_refusal c reason s = (x, t)" shows "wl_recovery t"
proof -
  let ?v = "s\<lparr>wl_recovery := True, wl_reason := reason\<rparr>"
  obtain r u where put: "put_marker c ?v = (r, u)" by fastforce
  have "same_holder ?v u" by (rule sameD [where m = "put_marker c"]) (rule put_marker_same, rule put)
  with assms put show ?thesis
    by (auto simp: durable_recovery_refusal_def seq_def set_recovery_def same_holder_def split: sum.splits)
qed

lemma release_recovery: "wl_recovery s \<Longrightarrow> release i proven s = (x, t) \<Longrightarrow> wl_recovery t"
  by (auto simp: release_def locked_eq digest_eq_def seq_def split: option.splits if_splits dest: refusal_sets)

lemma release_unproven:
  assumes "holder_id s = Some i" "release (Some i) False s = (Inr y, t)" shows "wl_recovery t"
  using assms
  by (auto simp: holder_id_def release_def locked_eq digest_eq_def seq_def split: option.splits if_splits dest: refusal_sets)

lemma perform_recovery:
  assumes "perform op s = (x, t)" "wl_recovery s"
  shows "wl_recovery t \<and> (case op of Acquire mode session run \<Rightarrow> \<forall>c. x \<noteq> Claim c | _ \<Rightarrow> True) \<or>
    x = Answer True \<and> (\<exists>alive allow reason. op = Reconcile alive allow reason)"
proof (cases op)
  case (Acquire mode session run)
  obtain r u where r: "acquire mode session run s = (r, u)" by fastforce
  with assms acquire_recovery [OF assms(2) r] Acquire show ?thesis by (auto simp: out_of_def split: sum.splits)
next
  case (Release i proven)
  obtain r u where r: "release i proven s = (r, u)" by fastforce
  with assms release_recovery [OF assms(2) r] Release show ?thesis by (auto simp: out_of_def split: sum.splits)
next
  case (Reconcile alive allow reason)
  obtain r u where r: "reconcile_after_orphan_sweep alive allow reason s = (r, u)" by fastforce
  with reconcile_drops have "r \<noteq> Inr True \<Longrightarrow> same_holder s u" unfolding drops_only_on_yes_def by blast
  with r assms Reconcile show ?thesis by (auto simp: out_of_def same_holder_def split: sum.splits)
qed (use assms in \<open>auto simp: out_of_def same_holder_def split: prod.splits sum.splits
      dest: promote_same spawn_same track_same sameD [OF verify_same] sameD [OF set_apply_same] sameD [OF require_same]\<close>)

lemma run_recovery:
  "lease_run s tr u \<Longrightarrow> wl_recovery s \<Longrightarrow> (Acquire mode session run, Claim c) \<in> set tr \<Longrightarrow>
   \<exists>alive allow reason. (Reconcile alive allow reason, Answer True) \<in> set tr"
proof (induction rule: lease_run.induct)
  case (lr_Cons op s x t tr u)
  from perform_recovery [OF lr_Cons.hyps(1) lr_Cons.prems(1)] show ?case
  proof
    assume kept: "wl_recovery t \<and> (case op of Acquire mode session run \<Rightarrow> \<forall>c. x \<noteq> Claim c | _ \<Rightarrow> True)"
    with lr_Cons.prems(2) have "(Acquire mode session run, Claim c) \<in> set tr" by auto
    with lr_Cons.IH kept show ?thesis by auto
  qed auto
qed simp

section \<open>What a yes rests on\<close>

lemma refused_not: "refused reason s \<noteq> (Inr True, t)"
  by (simp add: refused_def seq_def set_recovery_def)

lemma reset_sets: "reset_lease s = (x, t) \<Longrightarrow> wl_holder t = None \<and> \<not> wl_recovery t"
  by (auto simp: reset_lease_def seq_def)

definition applied_wholly :: "string \<Rightarrow> marker_info \<Rightarrow> pydict \<Rightarrow> workspace \<Rightarrow> bool" where
  "applied_wholly path i m w \<longleftrightarrow>
     (\<exists>j w'. validated_apply_recovery (Some (mk_pid i)) (dget m ''apply_recovery'') = Inr j \<and>
        reconcile_apply_recovery path (mk_claim i) j w = (Inr (), w'))"

lemma clear_dead_yes:
  assumes "clear_dead_marker reason i s = (Inr True, t)"
  shows "\<not> mk_required i \<and> mk_cleanup i = [] \<and> wl_holder t = None \<and> \<not> wl_recovery t"
  using assms by (auto simp: clear_dead_marker_def seq_def refused_not dest: reset_sets split: if_splits prod.splits sum.splits)

lemma attempt_on_ws: "attempt (on_ws m) s = (Inr (Inr x), u) \<Longrightarrow> \<exists>w'. m (wl_ws s) = (Inr x, w')"
  by (auto simp: attempt_def handle_def seq_def on_ws_def split: prod.splits sum.splits if_splits)

lemma recover_apply_yes:
  assumes "recover_apply reason i j s = (Inr True, t)"
  shows "wl_holder t = None \<and> \<not> wl_recovery t \<and> (\<exists>w'. reconcile_apply_recovery (wl_path s) (mk_claim i) j (wl_ws s) = (Inr (), w'))"
  using assms
  by (auto simp: recover_apply_def seq_def refused_not dest: reset_sets dest!: attempt_on_ws split: if_splits prod.splits sum.splits)

definition evidence :: "(int \<Rightarrow> bool) \<Rightarrow> bool \<Rightarrow> lease \<Rightarrow> pydict \<Rightarrow> workspace \<Rightarrow> lease \<Rightarrow> bool" where
  "evidence alive allow s m w t \<longleftrightarrow> (\<exists>i. read_marker m = Some i \<and>
     (mk_pid i = wl_pid s \<and> mk_nonce i = wl_nonce s \<and> holder_id s = Some (mk_claim i) \<and> holder_id t = holder_id s \<or>
      \<not> alive (mk_pid i) \<and> \<not> mk_spawn i \<and> (\<forall>p \<in> set (mk_children i). \<not> alive p) \<and> allow \<and>
      wl_holder t = None \<and> \<not> wl_recovery t \<and>
      (dget m ''apply_recovery'' = PNone \<and> \<not> mk_required i \<and> mk_cleanup i = [] \<or> applied_wholly (wl_path s) i m w)))"

lemma judge_yes:
  assumes "judge_marker alive allow reason m s = (Inr True, t)" shows "evidence alive allow s m (wl_ws s) t"
proof -
  from assms obtain i jo where i: "read_marker m = Some i" and j: "marker_journal m i = Inr jo"
    and settle: "settle_marker alive allow reason m i jo s = (Inr True, t)"
    by (auto simp: judge_marker_def refused_not split: option.splits sum.splits if_splits)
  show ?thesis
  proof (cases "mk_pid i = wl_pid s \<and> mk_nonce i = wl_nonce s")
    case True
    with settle have "names_holder (mk_claim i) (wl_holder s) = Inr True" "t = s"
      by (auto simp: settle_marker_def refused_not seq_def split: if_splits sum.splits)
    with True i show ?thesis by (auto simp: evidence_def names_holder_def digest_eq_def holder_id_def split: option.splits if_splits)
  next
    case False
    let ?u = "s\<lparr>wl_cleanup := mk_cleanup i, wl_apply := jo\<rparr>"
    from settle False have dead: "\<not> alive (mk_pid i)" "\<not> mk_spawn i" "\<forall>p \<in> set (mk_children i). \<not> alive p" "allow"
      and rest: "(case jo of None \<Rightarrow> clear_dead_marker (marker_reason m i) i | Some j \<Rightarrow> recover_apply (marker_reason m i) i j) ?u = (Inr True, t)"
      by (auto simp: settle_marker_def refused_not list_ex_iff split: if_splits)
    show ?thesis
    proof (cases jo)
      case None
      with j have "dget m ''apply_recovery'' = PNone" by (auto simp: marker_journal_def split: if_splits sum.splits)
      with clear_dead_yes [of _ i ?u t] rest None dead i show ?thesis by (auto simp: evidence_def)
    next
      case (Some jn)
      with j have "validated_apply_recovery (Some (mk_pid i)) (dget m ''apply_recovery'') = Inr jn" by (auto simp: marker_journal_def split: if_splits sum.splits)
      with recover_apply_yes [of _ i jn ?u t] rest Some dead i show ?thesis by (auto simp: evidence_def applied_wholly_def)
    qed
  qed
qed

lemma reconcile_yes:
  assumes "reconcile_after_orphan_sweep alive allow reason s = (Inr True, t)"
  shows "\<exists>r w. writer_marker (wl_path s) (wl_ws s) = (Inr r, w) \<and>
    (case r of None \<Rightarrow> wl_holder t = None | Some m \<Rightarrow> evidence alive allow s m w t)"
proof -
  let ?read = "on_ws (writer_marker (wl_path s))"
  obtain r u where read: "attempt ?read s = (r, u)" by fastforce
  from assms read obtain x where r: "r = Inr (Inr x)" and rest: "(case x of None \<Rightarrow> reset_lease | Some m \<Rightarrow> judge_marker alive allow reason m) u = (Inr True, t)"
    by (auto simp: reconcile_after_orphan_sweep_def locked_eq refused_not seq_def split: if_splits sum.splits option.splits)
  from read r obtain w where w: "writer_marker (wl_path s) (wl_ws s) = (Inr x, w)" "u = s\<lparr>wl_ws := w\<rparr>"
    by (auto simp: attempt_def handle_def seq_def on_ws_def split: prod.splits sum.splits if_splits)
  show ?thesis
  proof (cases x)
    case None
    with rest w reset_sets show ?thesis by auto
  next
    case (Some m)
    with rest have "evidence alive allow u m (wl_ws u) t" using judge_yes by auto
    with w Some show ?thesis by (auto simp: evidence_def holder_id_def)
  qed
qed

end
