(* ===== verification/Writer_Files.thy ===== *)
theory Writer_Files imports Writer_Theorems begin

text \<open>
  What the writer lease does to the files of the workspace when nobody else changes them between its
  operations (\<open>quiet\<close>); reads, replacements and removals may still fail at any point.
\<close>

section \<open>Removals and the registry\<close>

definition quiet :: "workspace \<Rightarrow> bool" where
  "quiet w \<longleftrightarrow> (\<forall>n fs. di_edit (ws_script w n) fs = fs)"

definition holds_staged :: "workspace \<Rightarrow> staged_file \<Rightarrow> bool" where
  "holds_staged w g \<longleftrightarrow> (\<exists>data. ws_files w (posix_path (sg_path g)) = Some data \<and>
     ws_sha256 w data = sg_sha g \<and> int (length data) = sg_bytes g)"

text \<open>From one workspace to the other only the registry was written, and only staged files with the recorded content were removed.\<close>

definition removes :: "string \<Rightarrow> staged_file set \<Rightarrow> workspace \<Rightarrow> workspace \<Rightarrow> bool" where
  "removes reg X w w' \<longleftrightarrow> ws_script w' = ws_script w \<and> ws_sha256 w' = ws_sha256 w \<and> ws_closed w' = ws_closed w \<and>
     (quiet w \<longrightarrow> (\<forall>p. p \<noteq> posix_path reg \<longrightarrow> ws_files w' p = ws_files w p \<or>
        ws_files w' p = None \<and> (\<exists>g \<in> X. p = posix_path (sg_path g) \<and> holds_staged w g)))"

lemma quiet_script: "ws_script w' = ws_script w \<Longrightarrow> quiet w' = quiet w"
  by (simp add: quiet_def)

lemma removes_trans:
  assumes wv: "removes reg X w v" and vu: "removes reg X v u" shows "removes reg X w u"
proof -
  have same: "ws_script v = ws_script w" "ws_sha256 v = ws_sha256 w" "ws_script u = ws_script v" "ws_sha256 u = ws_sha256 v"
      "ws_closed u = ws_closed w"
    using wv vu by (simp_all add: removes_def)
  moreover have "ws_files u p = ws_files w p \<or> ws_files u p = None \<and> (\<exists>g \<in> X. p = posix_path (sg_path g) \<and> holds_staged w g)"
    if q: "quiet w" "p \<noteq> posix_path reg" for p
  proof -
    have v: "ws_files v p = ws_files w p \<or> ws_files v p = None \<and> (\<exists>g \<in> X. p = posix_path (sg_path g) \<and> holds_staged w g)"
      using wv q by (simp add: removes_def)
    have u: "ws_files u p = ws_files v p \<or> ws_files u p = None \<and> (\<exists>g \<in> X. p = posix_path (sg_path g) \<and> holds_staged v g)"
      using vu q quiet_script [OF same(1)] by (simp add: removes_def)
    show ?thesis
    proof (cases "ws_files v p = ws_files w p")
      case True
      then have "holds_staged v g = holds_staged w g" if "p = posix_path (sg_path g)" for g
        using that same by (simp add: holds_staged_def)
      with True u show ?thesis by auto
    next
      case False
      with u v show ?thesis by auto
    qed
  qed
  ultimately show ?thesis by (simp add: removes_def)
qed

interpretation removing: state_preorder "removes reg X" for reg X
  by unfold_locales (simp add: removes_def, rule removes_trans)

lemma disturbed_keeps: "keeps (removes reg X) m \<Longrightarrow> keeps (removes reg X) (disturbed m)"
proof -
  assume m: "keeps (removes reg X) m"
  have "disturbed m = seq (\<lambda>w. (Inr (ws_script w (ws_ops w)),
      w\<lparr>ws_ops := Suc (ws_ops w), ws_files := di_edit (ws_script w (ws_ops w)) (ws_files w)\<rparr>))
      (\<lambda>d. case di_before d of Some e \<Rightarrow> raise e
        | None \<Rightarrow> seq m (\<lambda>x. case di_after d of Some e \<Rightarrow> raise e | None \<Rightarrow> ret x))"
    by (rule ext) (simp add: disturbed_def seq_def)
  moreover have "keeps (removes reg X) (\<lambda>w. (Inr (ws_script w (ws_ops w)),
      w\<lparr>ws_ops := Suc (ws_ops w), ws_files := di_edit (ws_script w (ws_ops w)) (ws_files w)\<rparr>))"
    by (simp add: keeps_def removes_def quiet_def)
  ultimately show ?thesis using m by (auto intro!: removing.keeps_intros keeps_cases)
qed

lemma key_of_eq: "key_of raw w = (Inr path, w') \<Longrightarrow> path = posix_path raw \<and> w' = w"
  by (auto simp: key_of_def seq_def relative_parts_def posix_path_def Let_def split: sum.splits if_splits)

lemma keeps_key:
  assumes "keeps (removes reg X) (f (posix_path raw))" shows "keeps (removes reg X) (seq (key_of raw) f)"
proof (rule keepsI)
  fix w
  obtain r u where "key_of raw w = (r, u)" by fastforce
  then show "removes reg X w (snd (seq (key_of raw) f w))"
    using key_of_eq [of raw w _ u] keeps_at [OF assms, of w]
    by (cases r) (auto simp: key_of_def seq_def split: sum.splits intro: removing.refl)
qed

lemma reading_keeps:
  "keeps (removes reg X) (file_size raw)" "keeps (removes reg X) (read_file raw most)" "keeps (removes reg X) enter_workspace"
  unfolding file_size_def read_file_def enter_workspace_def bound_ok_def content_def
  by (intro keeps_key removing.keeps_intros disturbed_keeps keeps_cases)+

lemma replace_keeps: "keeps (removes reg X) (replace_file reg data expected most)"
proof -
  have "keeps (removes reg X) (modify (\<lambda>w. w\<lparr>ws_files := (ws_files w)(posix_path reg := Some data)\<rparr>))"
    by (simp add: keeps_def removes_def)
  then show ?thesis
    unfolding replace_file_def bound_ok_def content_def
    by (intro keeps_key removing.keeps_intros disturbed_keeps)
qed

lemma unlink_keeps:
  assumes "g \<in> X" shows "keeps (removes reg X) (unlink_file (sg_path g) (sg_sha g) (sg_bytes g) most)"
proof -
  let ?p = "posix_path (sg_path g)"
  have inner: "keeps (removes reg X) (seq (gets (\<lambda>w. (ws_files w ?p, ws_sha256 w))) (\<lambda>(x, sha256).
       case x of None \<Rightarrow> ret False
       | Some data \<Rightarrow>
           seq (guard (int (length data) = sg_bytes g) (path_error ''exact unlink size does not match'')) (\<lambda>_.
           seq (guard (sha256 data = sg_sha g) (path_error ''exact unlink hash or identity does not match'')) (\<lambda>_.
           seq (modify (\<lambda>w. w\<lparr>ws_files := (ws_files w)(?p := None)\<rparr>)) (\<lambda>_. ret True)))))"
    using assms by (auto simp: keeps_def seq_def removes_def holds_staged_def split: option.split)
  show ?thesis
    unfolding unlink_file_def bound_ok_def
    by (rule removing.keeps_seq, rule removing.keeps_pure, rule removing.keeps_seq, rule removing.keeps_pure,
        rule keeps_key, rule disturbed_keeps, rule inner)
qed

lemma path_errors_keeps: "keeps R m \<Longrightarrow> state_preorder R \<Longrightarrow> keeps R (path_errors_as msg m)"
  unfolding path_errors_as_def by (intro state_preorder.keeps_handle state_preorder.keeps_pure)

lemma state_keeps: "keeps (removes reg X) (recovery_file_state p n)"
  unfolding recovery_file_state_def
  by (intro removing.keeps_intros keeps_cases path_errors_keeps reading_keeps removing.state_preorder_axioms)

lemma registry_keeps:
  "keeps (removes reg X) (load_registry reg)" "keeps (removes reg X) (writer_marker reg)"
  "keeps (removes reg X) (update_registry reg f)" "keeps (removes reg X) (clear_writer_marker reg i)"
  "keeps (removes reg X) (put_writer_marker reg m)"
proof -
  have read: "keeps (removes reg X) (registry_text reg)"
    unfolding registry_text_def by (intro removing.keeps_intros keeps_cases reading_keeps)
  then show load: "keeps (removes reg X) (load_registry reg)"
    unfolding load_registry_def
    by (intro removing.keeps_intros keeps_cases path_errors_keeps reading_keeps removing.state_preorder_axioms)
  then show "keeps (removes reg X) (writer_marker reg)"
    unfolding writer_marker_def by (intro removing.keeps_intros)
  show update: "keeps (removes reg X) (update_registry reg f)" for f :: "pydict \<Rightarrow> exn + pydict \<times> 'r"
    unfolding update_registry_def Let_def
    by (intro removing.keeps_intros keeps_cases path_errors_keeps reading_keeps read replace_keeps removing.state_preorder_axioms)
  show "keeps (removes reg X) (clear_writer_marker reg i)" "keeps (removes reg X) (put_writer_marker reg m)"
    unfolding clear_writer_marker_def put_writer_marker_def put_entry_def
    by (intro removing.keeps_intros keeps_cases update)+
qed

section \<open>A recovery removes only what its journal staged\<close>

lemma modes_keeps: "keeps (removes reg X) (target_modes tot m ts)"
proof (induction tot m ts rule: target_modes.induct)
  case (2 tot b f t ts)
  show ?case
    unfolding target_modes.simps Let_def by (intro removing.keeps_seq removing.keeps_pure state_keeps "2.IH" refl)
qed (unfold target_modes.simps, intro removing.keeps_pure)

lemma absent_keeps: "keeps (removes reg X) (all_absent xs)"
  by (induction xs) (unfold all_absent.simps, intro removing.keeps_intros state_keeps; assumption?)+

lemma check_keeps: "keeps (removes reg X) (check_staged xs)"
  by (induction xs) (unfold check_staged.simps fails_as_def, intro removing.keeps_intros state_keeps; assumption?)+

lemma remove_keeps: "fst ` set gs \<subseteq> X \<Longrightarrow> keeps (removes reg X) (remove_all_staged gs)"
proof (induction gs rule: remove_all_staged.induct)
  case (2 g initial rest)
  then have "keeps (removes reg X) (remove_staged g initial)"
    unfolding remove_staged_def fails_as_def
    by (intro removing.keeps_intros path_errors_keeps unlink_keeps state_keeps removing.state_preorder_axioms) auto
  with 2 show ?case by (auto intro!: removing.keeps_seq)
qed (simp add: removing.keeps_intros)

lemma zip_subset: "fst ` set (zip xs ys) \<subseteq> set xs"
  by (auto dest: set_zip_leftD)

lemma reconcile_apply_keeps: "keeps (removes reg (set (jn_staged j))) (reconcile_apply_recovery reg i j)"
  unfolding reconcile_apply_recovery_def target_recovery_mode_def fails_as_def
  by (intro removing.keeps_intros modes_keeps absent_keeps check_keeps remove_keeps zip_subset registry_keeps)

text \<open>The same of the lease: it also keeps where its registry is.\<close>

definition lease_removes :: "staged_file set \<Rightarrow> lease \<Rightarrow> lease \<Rightarrow> bool" where
  "lease_removes X s t \<longleftrightarrow> wl_path t = wl_path s \<and> removes (wl_path s) X (wl_ws s) (wl_ws t)"

interpretation leasing: state_preorder "lease_removes X" for X
proof unfold_locales
  show "lease_removes X s s" for s by (simp add: lease_removes_def removing.refl)
  show "lease_removes X s t \<Longrightarrow> lease_removes X t u \<Longrightarrow> lease_removes X s u" for s t u
    by (auto simp: lease_removes_def intro: removing.trans)
qed

lemma attempt_removes: "keeps (lease_removes X) m \<Longrightarrow> keeps (lease_removes X) (attempt m)"
  unfolding attempt_def by (intro leasing.keeps_intros)

lemma refused_removes: "keeps (lease_removes X) (refused reason)" "keeps (lease_removes X) reset_lease"
  by (simp_all add: keeps_def refused_def reset_lease_def seq_def set_recovery_def lease_removes_def removing.refl)

lemma lease_removes_mono: "lease_removes X s t \<Longrightarrow> X \<subseteq> Y \<Longrightarrow> lease_removes Y s t"
  unfolding lease_removes_def removes_def by blast

lemma registry_call:
  assumes "\<And>reg. keeps (removes reg X) (m reg)" "\<And>r. keeps (lease_removes X) (g r)"
  shows "keeps (lease_removes X) (seq (gets wl_path) (\<lambda>path. seq (attempt (on_ws (m path))) g))"
proof -
  have "keeps (lease_removes X) (\<lambda>s. attempt (on_ws (m (wl_path s))) s)"
  proof (rule keepsI)
    fix s :: lease
    obtain r w where run: "m (wl_path s) (wl_ws s) = (r, w)" by fastforce
    have "removes (wl_path s) X (wl_ws s) w" by (rule keepsD [OF assms(1) run])
    with run show "lease_removes X s (snd (attempt (on_ws (m (wl_path s))) s))"
      by (auto simp: attempt_def handle_def seq_def on_ws_def lease_removes_def split: sum.split)
  qed
  moreover have "seq (gets wl_path) (\<lambda>path. seq (attempt (on_ws (m path))) g) = seq (\<lambda>s. attempt (on_ws (m (wl_path s))) s) g"
    by (rule ext) (simp add: seq_def)
  ultimately show ?thesis using assms(2) by (auto intro: leasing.keeps_seq)
qed

lemma clear_removes: "keeps (lease_removes X) (clear_dead_marker reason i)"
  unfolding clear_dead_marker_def
  by (intro leasing.keeps_if registry_call refused_removes registry_keeps)

lemma recover_removes: "keeps (lease_removes (set (jn_staged j))) (recover_apply reason i j)"
  unfolding recover_apply_def
  by (intro leasing.keeps_if registry_call keeps_cases refused_removes reconcile_apply_keeps)

text \<open>The staged files of the journal that the marker of a dead owner carries\<close>

definition recorded :: "(int \<Rightarrow> bool) \<Rightarrow> pydict \<Rightarrow> staged_file set" where
  "recorded alive m = {g. \<exists>i j. read_marker m = Some i \<and> \<not> alive (mk_pid i) \<and>
     validated_apply_recovery (Some (mk_pid i)) (dget m ''apply_recovery'') = Inr j \<and> g \<in> set (jn_staged j)}"

lemma settle_removes:
  assumes "read_marker m = Some i" "marker_journal m i = Inr jo"
  shows "keeps (lease_removes (recorded alive m)) (settle_marker alive allow reason m i jo)"
proof -
  let ?R = "lease_removes (recorded alive m)"
  have ending: "keeps ?R (case jo of None \<Rightarrow> clear_dead_marker (marker_reason m i) i | Some j \<Rightarrow> recover_apply (marker_reason m i) i j)"
    if "\<not> alive (mk_pid i)"
  proof (cases jo)
    case (Some j)
    with assms that have "set (jn_staged j) \<subseteq> recorded alive m" by (auto simp: recorded_def marker_journal_def split: if_splits sum.splits)
    with recover_removes [of j] Some show ?thesis by (auto simp: keeps_def intro: lease_removes_mono)
  qed (simp add: clear_removes)
  have load: "keeps ?R (modify (\<lambda>u. u\<lparr>wl_cleanup := mk_cleanup i, wl_apply := jo\<rparr>))"
    by (simp add: keeps_def lease_removes_def removing.refl)
  have "keeps ?R (\<lambda>s. settle_marker alive allow reason m i jo s)"
  proof (cases "alive (mk_pid i)")
    case True
    then show ?thesis
      by (simp only: settle_marker_def True if_True) (intro leasing.keeps_intros refused_removes)
  next
    case False
    then show ?thesis unfolding settle_marker_def by (intro leasing.keeps_intros refused_removes load ending)
  qed
  then show ?thesis .
qed

lemma judge_removes: "keeps (lease_removes (recorded alive m)) (judge_marker alive allow reason m)"
proof (cases "read_marker m")
  case (Some i)
  then show ?thesis
    by (cases "marker_journal m i") (simp_all add: judge_marker_def refused_removes settle_removes leasing.keeps_if)
qed (simp add: judge_marker_def refused_removes leasing.keeps_if)

end
