(* ===== verification/Writer_Restart.thy ===== *)
theory Writer_Restart imports Writer_Files begin

text \<open>
  What is written to the registry is what a later daemon reads. The texts are ASCII without floats, as
  the ones the daemon itself writes: then the JSON text of a marker reads back as the same marker
  with its keys sorted.
\<close>

section \<open>ASCII values and their texts\<close>

fun ascii_value :: "pyval \<Rightarrow> bool" where
  "ascii_value (PFloat m e) = False"
| "ascii_value (PStr s) = ascii_text s"
| "ascii_value (PList xs) = list_all ascii_value xs"
| "ascii_value (PDict d) = list_all (\<lambda>(k, v). ascii_text k \<and> ascii_value v) d"
| "ascii_value v = True"

lemma ascii_text_simps [simp]: "ascii_text []" "ascii_text (c # s) \<longleftrightarrow> (of_char c :: nat) < 127 \<and> ascii_text s"
  "ascii_text (s @ s') \<longleftrightarrow> ascii_text s \<and> ascii_text s'"
  by (simp_all add: ascii_text_def)

lemma ascii_join: "ascii_text sep \<Longrightarrow> list_all ascii_text xs \<Longrightarrow> ascii_text (join sep xs)"
  by (induction sep xs rule: join.induct) auto

lemma ascii_digits: "list_all is_digit s \<Longrightarrow> ascii_text s"
  by (induction s) (auto simp: is_digit_def)

lemma ascii_int: "ascii_text (int_str i)"
  by (auto simp: int_str_def intro!: ascii_digits pos_str_digits)

lemma hex_char_ascii: "n < 16 \<Longrightarrow> (of_char (hex_char n) :: nat) < 127"
  by (simp add: hex_char_def)

lemma ascii_escape: "(of_char c :: nat) < 127 \<Longrightarrow> ascii_text (json_escape c)"
  by (simp add: json_escape_def Let_def hex_char_ascii)

lemma ascii_string: "ascii_text s \<Longrightarrow> ascii_text (json_string s)"
  by (induction s) (simp_all add: json_string_def ascii_escape)

lemma ascii_print: "ascii_value v \<Longrightarrow> ascii_text sep \<Longrightarrow> ascii_text ks \<Longrightarrow> ascii_text (json_print sep ks v)"
proof (induction v rule: ascii_value.induct)
  case (4 d)
  then show ?case by (fastforce simp: list_all_iff ascii_string intro!: ascii_join)
qed (auto simp: list_all_iff ascii_string ascii_int intro!: ascii_join)

lemma ascii_canon: "ascii_value v \<Longrightarrow> ascii_value (canon v)"
  by (induction v rule: ascii_value.induct) (auto simp: list_all_iff)

lemma ascii_compact: "ascii_value v \<Longrightarrow> ascii_text (json_compact v)"
  by (simp add: json_compact_def ascii_print ascii_canon)

section \<open>The registry reads back\<close>

definition registry_value :: "pydict \<Rightarrow> bool" where
  "registry_value d \<longleftrightarrow> plain (PDict d) \<and> ascii_value (PDict d) \<and> list_all (\<lambda>(k, v). is_dict v) d"

definition sorted_dict :: "pydict \<Rightarrow> pydict" where
  "sorted_dict d = sort_key fst (map (\<lambda>(k, v). (k, canon v)) d)"

lemma canon_dict: "is_dict (canon v) = is_dict v"
  by (cases v) simp_all

lemma decode_encode: "registry_value d \<Longrightarrow> decode_registry (encode_registry d) = Inr (sorted_dict d)"
proof -
  assume d: "registry_value d"
  then have printed: "encode_registry d = json_compact (PDict d)" "ascii_text (json_compact (PDict d))"
    by (simp_all add: registry_value_def encode_registry_def to_ascii_id ascii_compact)
  have "json_loads (json_compact (PDict d)) = Some (canon (PDict d))"
    using read_print [OF separators_program(2) plain_canon [of "PDict d"]] d by (simp only: registry_value_def json_compact_def)
  moreover have "list_all (\<lambda>(k, v). is_dict v) (sorted_dict d)"
    using d by (auto simp: registry_value_def sorted_dict_def list_all_iff canon_dict)
  ultimately show ?thesis
    using printed by (simp add: decode_registry_def utf8_ok_ascii sorted_dict_def)
qed

lemma sorted_dict_get: "map_of (sorted_dict d) k = map_option canon (map_of d k)"
proof -
  have "map_of (map (\<lambda>(k, v). (k, canon v)) d) k = map_option canon (map_of d k)"
    by (induction d) auto
  then show ?thesis by (simp add: sorted_dict_def map_of_sort_key_fst)
qed

lemma sorted_dget: "dget (sorted_dict d) k = canon (dget d k)"
  by (simp add: dget_def sorted_dict_get split: option.split)

text \<open>What the registry of a workspace says when it can be read\<close>

definition registry_dict :: "string \<Rightarrow> workspace \<Rightarrow> pydict \<Rightarrow> bool" where
  "registry_dict path w d \<longleftrightarrow>
     (case ws_files w (posix_path path) of None \<Rightarrow> d = [] | Some raw \<Rightarrow> decode_registry raw = Inr d)"

lemma disturbed_quiet:
  assumes "quiet w" "disturbed m w = (Inr x, w')"
  shows "\<exists>v. ws_files v = ws_files w \<and> ws_script v = ws_script w \<and> ws_sha256 v = ws_sha256 w \<and> ws_closed v = ws_closed w \<and> m v = (Inr x, w')"
proof (intro exI conjI)
  let ?v = "w\<lparr>ws_ops := Suc (ws_ops w)\<rparr>"
  show "m ?v = (Inr x, w')"
    using assms by (auto simp: disturbed_def quiet_def seq_def split: option.splits prod.splits sum.splits)
qed simp_all

lemma same_files:
  "ws_files v = ws_files w \<Longrightarrow> ws_script v = ws_script w \<Longrightarrow> quiet v = quiet w" for v w :: workspace
  by (simp add: quiet_def)

text \<open>Reads in a quiet workspace: what returns is what is there, and the files stay.\<close>

definition unmoved :: "workspace \<Rightarrow> workspace \<Rightarrow> bool" where
  "unmoved w v \<longleftrightarrow> ws_files v = ws_files w \<and> ws_script v = ws_script w \<and> ws_sha256 v = ws_sha256 w \<and> ws_closed v = ws_closed w"

lemma unmoved_trans: "unmoved w v \<Longrightarrow> unmoved v u \<Longrightarrow> unmoved w u"
  by (simp add: unmoved_def)

lemma unmoved_quiet: "unmoved w v \<Longrightarrow> quiet v = quiet w"
  by (simp add: unmoved_def quiet_def)

lemma keyed_Inr: "seq (key_of raw) f w = (Inr x, v) \<Longrightarrow> f (posix_path raw) w = (Inr x, v)"
  using key_of_eq [of raw w] by (auto elim!: seq_InrE)

lemma guard_Inr: "seq (guard b e) f w = (Inr x, v) \<Longrightarrow> b \<and> f () w = (Inr x, v)"
  by (auto elim!: seq_InrE split: if_splits)

lemma file_size_quiet:
  assumes "quiet w" "file_size raw w = (Inr x, v)"
  shows "unmoved w v \<and> x = map_option (\<lambda>data. int (length data)) (ws_files w (posix_path raw))"
  using disturbed_quiet [OF assms(1) keyed_Inr [OF assms(2) [unfolded file_size_def]]]
  by (auto simp: content_def seq_def unmoved_def)

lemma read_file_quiet:
  assumes "quiet w" "read_file raw most w = (Inr data, v)"
  shows "unmoved w v \<and> ws_files w (posix_path raw) = Some data"
proof -
  obtain u where u: "ws_files u = ws_files w" "ws_script u = ws_script w"
      "ws_sha256 u = ws_sha256 w" "ws_closed u = ws_closed w"
    and run: "seq (content (posix_path raw)) (\<lambda>x.
       case x of None \<Rightarrow> raise (path_error ''workspace file is missing'')
       | Some data \<Rightarrow> seq (guard (int (length data) \<le> most) (path_error ''workspace file exceeds its operation bound'')) (\<lambda>_. ret data)) u = (Inr data, v)"
    using disturbed_quiet [OF assms(1) keyed_Inr [OF conjunct2 [OF guard_Inr [OF assms(2) [unfolded read_file_def bound_ok_def]]]]]
    by (elim exE conjE)
  from run have "v = u \<and> ws_files u (posix_path raw) = Some data"
    by (cases "ws_files u (posix_path raw)") (auto simp: content_def seq_def split: if_splits)
  with u show ?thesis by (simp add: unmoved_def)
qed

lemma replace_file_quiet:
  assumes "quiet w" "replace_file raw data expected most w = (Inr (), v)"
  shows "ws_files w (posix_path raw) = expected \<and> unmoved (w\<lparr>ws_files := (ws_files w)(posix_path raw := Some data)\<rparr>) v"
proof -
  obtain u
    where u: "ws_files u = ws_files w" "ws_script u = ws_script w" "ws_sha256 u = ws_sha256 w" "ws_closed u = ws_closed w"
    and run: "seq (content (posix_path raw)) (\<lambda>x.
       seq (guard (x = expected) (path_error ''workspace destination identity changed'')) (\<lambda>_.
       modify (\<lambda>w. w\<lparr>ws_files := (ws_files w)(posix_path raw := Some data)\<rparr>))) u = (Inr (), v)"
    using disturbed_quiet [OF assms(1) keyed_Inr [OF conjunct2 [OF guard_Inr [OF conjunct2 [OF guard_Inr
      [OF assms(2) [unfolded replace_file_def bound_ok_def]]]]]]]
    by (elim exE conjE)
  from run have "v = u\<lparr>ws_files := (ws_files u)(posix_path raw := Some data)\<rparr> \<and> ws_files u (posix_path raw) = expected"
    by (auto simp: content_def seq_def split: if_splits)
  with u show ?thesis by (simp add: unmoved_def)
qed

lemma path_errors_Inr: "path_errors_as msg m w = (Inr x, v) \<Longrightarrow> m w = (Inr x, v)"
  by (auto simp: path_errors_as_def handle_def split: prod.splits sum.splits)

lemma enter_Inr: "enter_workspace w = (Inr x, v) \<Longrightarrow> v = w"
  by (auto simp: enter_workspace_def seq_def split: if_splits)

lemma registry_text_quiet:
  assumes "quiet w" "registry_text path w = (Inr raw, v)"
  shows "unmoved w v \<and> ws_files w (posix_path path) = raw"
proof -
  from assms(2) obtain x u where size: "file_size path w = (Inr x, u)"
    and rest: "(case x of None \<Rightarrow> ret None | Some _ \<Rightarrow> seq (read_file path max_ownership_registry_bytes) (\<lambda>raw. ret (Some raw))) u = (Inr raw, v)"
    unfolding registry_text_def by (elim seq_InrE)
  note u = file_size_quiet [OF assms(1) size]
  with assms(1) have q: "quiet u" by (auto simp: unmoved_quiet)
  show ?thesis
  proof (cases x)
    case None
    with u rest show ?thesis by (auto simp: unmoved_def)
  next
    case (Some n)
    with rest obtain data where "read_file path max_ownership_registry_bytes u = (Inr data, v)" "raw = Some data" by (auto elim!: seq_InrE)
    with read_file_quiet [OF q] u show ?thesis by (auto simp: unmoved_def)
  qed
qed

lemma load_quiet:
  assumes "quiet w" "load_registry path w = (Inr d, v)" shows "unmoved w v \<and> registry_dict path w d"
proof -
  from assms(2) obtain raw where "path_errors_as ''owned-run registry is unreadable'' (registry_text path) w = (Inr raw, v)"
    and rest: "(case raw of None \<Rightarrow> Inr [] | Some r \<Rightarrow> decode_registry r) = Inr d"
    unfolding load_registry_def by (elim seq_InrE) (auto dest!: enter_Inr split: option.splits)
  from registry_text_quiet [OF assms(1) path_errors_Inr [OF this(1)]] rest show ?thesis
    by (auto simp: registry_dict_def split: option.splits)
qed

lemma update_quiet:
  assumes "quiet w" "update_registry path f w = (Inr (new, r), v)"
  obtains old where "registry_dict path w old" "f old = Inr (new, r)"
    "unmoved (w\<lparr>ws_files := (ws_files w)(posix_path path := Some (encode_registry new))\<rparr>) v"
proof -
  let ?rest = "\<lambda>expected. seq (case expected of None \<Rightarrow> ret [] | Some raw \<Rightarrow> lift_result (decode_registry raw)) (\<lambda>old.
        seq (lift_result (f old)) (\<lambda>(new, r).
        let encoded = encode_registry new in
        seq (guard (int (length encoded) \<le> max_ownership_registry_bytes)
               (state_error ''owned-run registry exceeds its private recovery bound'')) (\<lambda>_.
        seq (replace_file path encoded expected max_ownership_registry_bytes) (\<lambda>_. ret (new, r)))))"
  from assms(2) have "seq (registry_text path) ?rest w = (Inr (new, r), v)"
    unfolding update_registry_def by (elim seq_InrE) (auto dest!: enter_Inr path_errors_Inr)
  then obtain raw u where read: "registry_text path w = (Inr raw, u)" and rest: "?rest raw u = (Inr (new, r), v)" by (rule seq_InrE)
  note u = registry_text_quiet [OF assms(1) read]
  with assms(1) have q: "quiet u" by (auto simp: unmoved_quiet)
  from rest obtain old where old: "(case raw of None \<Rightarrow> Inr [] | Some x \<Rightarrow> decode_registry x) = Inr old"
    and f: "f old = Inr (new, r)" and put: "replace_file path (encode_registry new) raw max_ownership_registry_bytes u = (Inr (), v)"
    by (elim seq_InrE) (auto simp: Let_def elim!: seq_InrE split: option.splits prod.splits if_splits)
  have "registry_dict path w old" using u old by (auto simp: registry_dict_def split: option.splits)
  moreover have "unmoved (w\<lparr>ws_files := (ws_files w)(posix_path path := Some (encode_registry new))\<rparr>) v"
    using replace_file_quiet [OF q put] u by (simp add: unmoved_def)
  ultimately show thesis using f that by blast
qed

text \<open>The registry after a marker was put, when its earlier content was one the daemon writes\<close>

definition own_registry :: "string \<Rightarrow> workspace \<Rightarrow> bool" where
  "own_registry path w \<longleftrightarrow> (\<forall>d. registry_dict path w d \<longrightarrow> registry_value d)"

lemma list_all_update: "list_all P d \<Longrightarrow> P (k, v) \<Longrightarrow> list_all P (AList.update k v d)"
  by (induction d) auto

lemma registry_value_update:
  "registry_value d \<Longrightarrow> plain (PDict m) \<Longrightarrow> ascii_value (PDict m) \<Longrightarrow> registry_value (AList.update writer_marker_key (PDict m) d)"
proof -
  have "ascii_text writer_marker_key" by (simp add: writer_marker_key_def)
  then show "registry_value d \<Longrightarrow> plain (PDict m) \<Longrightarrow> ascii_value (PDict m) \<Longrightarrow> registry_value (AList.update writer_marker_key (PDict m) d)"
    by (simp add: registry_value_def distinct_keys_update list_all_update)
qed

lemma put_quiet:
  assumes "quiet w" "own_registry path w" "plain (PDict m)" "ascii_value (PDict m)" "put_writer_marker path m w = (Inr (), v)"
  shows "quiet v \<and> (\<exists>d. registry_dict path v d \<and> map_of d writer_marker_key = Some (canon (PDict m))) \<and>
    (\<forall>p. p \<noteq> posix_path path \<longrightarrow> ws_files v p = ws_files w p)"
proof -
  from assms(5) obtain new where up: "update_registry path (\<lambda>d. Inr (AList.update writer_marker_key (PDict m) d, ())) w = (Inr (new, ()), v)"
    by (auto simp: put_writer_marker_def put_entry_def elim!: seq_InrE)
  from update_quiet [OF assms(1) up] obtain old where old: "registry_dict path w old" "new = AList.update writer_marker_key (PDict m) old"
      and v: "unmoved (w\<lparr>ws_files := (ws_files w)(posix_path path := Some (encode_registry new))\<rparr>) v"
    by auto
  with assms(2-4) have "registry_value new" by (simp add: own_registry_def registry_value_update)
  then have "registry_dict path v (sorted_dict new)" using v by (simp add: registry_dict_def unmoved_def decode_encode)
  moreover have "map_of (sorted_dict new) writer_marker_key = Some (canon (PDict m))" by (simp add: sorted_dict_get old(2))
  moreover have "quiet v" using v assms(1) by (simp add: unmoved_def quiet_def)
  ultimately show ?thesis using v by (auto simp: unmoved_def)
qed

section \<open>Markers\<close>

lemma lease_marker_get:
  "map_of (lease_marker s c) k =
     (if k = ''recovery_reason'' \<and> wl_recovery s then Some (PStr (wl_reason s))
      else if k = ''recovery_required'' then Some (PBool (wl_recovery s))
      else if k = ''cleanup_paths'' then Some (PList (map PStr (wl_cleanup s)))
      else if k = ''apply_recovery'' then Some (case wl_apply s of None \<Rightarrow> PNone | Some j \<Rightarrow> journal_value j)
      else map_of (claim_marker c (wl_pid s) (wl_nonce s)) k)"
  by (simp add: lease_marker_def Let_def map_of_dict_merge)

lemma journal_plain: "plain (journal_value j)"
  by (auto simp: journal_value_def staged_value_def target_value_def of_opt_str_def list_all_iff split: option.split)

lemma marker_plain: "plain (PDict (lease_marker s c))"
  using journal_plain
  by (auto simp: lease_marker_def Let_def claim_marker_def dict_merge_def of_opt_str_def list_all_iff split: option.split)

lemma put_marker_quiet:
  assumes "put_marker c s = (Inr (Inr x), t)" "quiet (wl_ws s)" "own_registry (wl_path s) (wl_ws s)" "ascii_value (PDict (lease_marker s c))"
  shows "quiet (wl_ws t) \<and> t = s\<lparr>wl_ws := wl_ws t\<rparr> \<and>
    (\<exists>d. registry_dict (wl_path s) (wl_ws t) d \<and> map_of d writer_marker_key = Some (canon (PDict (lease_marker s c)))) \<and>
    (\<forall>p. p \<noteq> posix_path (wl_path s) \<longrightarrow> ws_files (wl_ws t) p = ws_files (wl_ws s) p)"
proof -
  from assms(1) obtain v where "put_writer_marker (wl_path s) (lease_marker s c) (wl_ws s) = (Inr (), v)" "t = s\<lparr>wl_ws := v\<rparr>"
    by (auto simp: put_marker_def attempt_def handle_def seq_def on_ws_def split: prod.splits sum.splits if_splits)
  with put_quiet [OF assms(2,3) marker_plain assms(4)] show ?thesis by simp
qed

text \<open>What a daemon with no claim in memory says of a marker that has a spawn in flight\<close>

lemma writer_marker_quiet:
  assumes "quiet w" "registry_dict path w d" "map_of d writer_marker_key = Some (PDict m)" "writer_marker path w = (Inr r, v)"
  shows "r = Some m"
proof -
  from assms(4) obtain d' where "load_registry path w = (Inr d', v)" "r = map_option dict_or_empty (map_of d' writer_marker_key)"
    by (auto simp: writer_marker_def elim!: seq_InrE)
  moreover from load_quiet [OF assms(1) this(1)] assms(2) have "d' = d" by (auto simp: registry_dict_def split: option.splits)
  ultimately have "r = map_option dict_or_empty (map_of d writer_marker_key)" by simp
  with assms(3) show ?thesis by simp
qed

lemma spawning_marker_refused:
  assumes "quiet (wl_ws s)" "wl_holder s = None" "registry_dict (wl_path s) (wl_ws s) d" "map_of d writer_marker_key = Some (PDict m)"
    and "dget m ''spawn_pending'' = PBool True"
  shows "fst (reconcile_after_orphan_sweep alive allow reason s) \<noteq> Inr True"
proof
  assume yes: "fst (reconcile_after_orphan_sweep alive allow reason s) = Inr True"
  obtain x t where run: "reconcile_after_orphan_sweep alive allow reason s = (x, t)" by fastforce
  with yes have "reconcile_after_orphan_sweep alive allow reason s = (Inr True, t)" by simp
  from reconcile_yes [OF this] obtain r w where r: "writer_marker (wl_path s) (wl_ws s) = (Inr r, w)"
    and ev: "case r of None \<Rightarrow> wl_holder t = None | Some m \<Rightarrow> evidence alive allow s m w t" by blast
  have "r = Some m" by (rule writer_marker_quiet [OF assms(1,3,4) r])
  with ev obtain i where i: "read_marker m = Some i" and "\<not> mk_spawn i"
    using assms(2) by (auto simp: evidence_def holder_id_def)
  moreover have "mk_spawn i" using i assms(5) by (auto simp: read_marker_def split: option.splits if_splits)
  ultimately show False by simp
qed

end
