(* ===== verification/Writer_Safety.thy ===== *)
theory Writer_Safety imports Writer_Restart begin

text \<open>
  The properties of the writer lease with a daemon they are applied to: its registry lies in a
  workspace where every operation succeeds and nobody else writes.
\<close>

section \<open>A calm workspace\<close>

definition calm :: "workspace \<Rightarrow> bool" where
  "calm w \<longleftrightarrow> \<not> ws_closed w \<and> ws_script w = (\<lambda>n. \<lparr>di_edit = (\<lambda>fs. fs), di_before = None, di_after = None\<rparr>)"

definition tick :: "workspace \<Rightarrow> workspace" where
  "tick w = w\<lparr>ws_ops := Suc (ws_ops w)\<rparr>"

lemma calm_updates [simp]: "calm (tick w) = calm w" "calm (w\<lparr>ws_files := f\<rparr>) = calm w" "ws_files (tick w) = ws_files w"
  "ws_sha256 (tick w) = ws_sha256 w"
  by (simp_all add: calm_def tick_def)

lemma calm_quiet: "calm w \<Longrightarrow> quiet w"
  by (simp add: calm_def quiet_def)

lemma disturbed_calm: "calm w \<Longrightarrow> disturbed m w = m (tick w)"
  by (auto simp: disturbed_def seq_def calm_def tick_def split: prod.split sum.split)

lemma enter_calm: "calm w \<Longrightarrow> enter_workspace w = (Inr (), w)"
  by (simp add: enter_workspace_def seq_def calm_def)

definition good_path :: "string \<Rightarrow> bool" where
  "good_path p \<longleftrightarrow> (\<exists>ps. relative_parts p = Inr ps)"

lemma key_of_good: "good_path p \<Longrightarrow> key_of p w = (Inr (posix_path p), w)"
  using key_of_eq [of p w] by (auto simp: good_path_def key_of_def seq_def)

lemma file_size_calm:
  "calm w \<Longrightarrow> good_path p \<Longrightarrow> file_size p w = (Inr (map_option (\<lambda>d. int (length d)) (ws_files w (posix_path p))), tick w)"
  by (simp add: file_size_def seq_def key_of_good disturbed_calm content_def)

lemma read_file_calm:
  "calm w \<Longrightarrow> good_path p \<Longrightarrow> ws_files w (posix_path p) = Some d \<Longrightarrow> int (length d) \<le> most \<Longrightarrow> 1 \<le> most \<Longrightarrow> most \<le> max_authority_bytes \<Longrightarrow>
   read_file p most w = (Inr d, tick w)"
  by (simp add: read_file_def bound_ok_def seq_def key_of_good disturbed_calm content_def)

lemma replace_file_calm:
  "calm w \<Longrightarrow> good_path p \<Longrightarrow> int (length d) \<le> most \<Longrightarrow> 1 \<le> most \<Longrightarrow> most \<le> max_authority_bytes \<Longrightarrow>
   replace_file p d (ws_files w (posix_path p)) most w = (Inr (), (tick w)\<lparr>ws_files := (ws_files w)(posix_path p := Some d)\<rparr>)"
  by (simp add: replace_file_def bound_ok_def seq_def key_of_good disturbed_calm content_def)

lemma registry_bound: "1 \<le> max_ownership_registry_bytes" "max_ownership_registry_bytes \<le> max_authority_bytes"
  by (simp_all add: max_ownership_registry_bytes_def max_authority_bytes_def)

text \<open>A registry that is absent or fits its bound\<close>

definition small_registry :: "string \<Rightarrow> workspace \<Rightarrow> bool" where
  "small_registry p w \<longleftrightarrow> good_path p \<and> (\<forall>d. ws_files w (posix_path p) = Some d \<longrightarrow> int (length d) \<le> max_ownership_registry_bytes)"

lemma registry_text_calm:
  assumes "calm w" "small_registry p w"
  shows "\<exists>v. registry_text p w = (Inr (ws_files w (posix_path p)), v) \<and> calm v \<and> ws_files v = ws_files w"
proof (cases "ws_files w (posix_path p)")
  case None
  with assms show ?thesis by (auto simp: registry_text_def seq_def file_size_calm small_registry_def)
next
  case (Some d)
  with assms read_file_calm [OF _ _ _ _ registry_bound, of "tick w" p d] show ?thesis
    by (auto simp: registry_text_def seq_def file_size_calm small_registry_def)
qed

lemma load_calm:
  assumes "calm w" "small_registry p w" "registry_dict p w d"
  shows "\<exists>v. load_registry p w = (Inr d, v) \<and> calm v \<and> ws_files v = ws_files w"
  using registry_text_calm [OF assms(1,2)] assms(3)
  by (auto simp: load_registry_def seq_def enter_calm [OF assms(1)] path_errors_as_def handle_def registry_dict_def split: option.splits)

lemma update_calm:
  assumes "calm w" "small_registry p w" "registry_dict p w d" "f d = Inr (new, r)"
    and "int (length (encode_registry new)) \<le> max_ownership_registry_bytes"
  shows "\<exists>v. update_registry p f w = (Inr (new, r), v) \<and> calm v \<and> ws_files v = (ws_files w)(posix_path p := Some (encode_registry new))"
proof -
  from registry_text_calm [OF assms(1,2)] obtain u where u: "registry_text p w = (Inr (ws_files w (posix_path p)), u)" "calm u" "ws_files u = ws_files w"
    by blast
  have put: "replace_file p (encode_registry new) (ws_files w (posix_path p)) max_ownership_registry_bytes u =
      (Inr (), (tick u)\<lparr>ws_files := (ws_files w)(posix_path p := Some (encode_registry new))\<rparr>)"
    using replace_file_calm [OF u(2) _ assms(5) registry_bound, of p] assms(2) u(3) by (simp add: small_registry_def)
  have "(case ws_files w (posix_path p) of None \<Rightarrow> ret [] | Some raw \<Rightarrow> lift_result (decode_registry raw)) u = (Inr d, u)"
    using assms(3) by (auto simp: registry_dict_def split: option.splits)
  with u assms(4,5) put have "update_registry p f w = (Inr (new, r), (tick u)\<lparr>ws_files := (ws_files w)(posix_path p := Some (encode_registry new))\<rparr>)"
    by (simp add: update_registry_def Let_def enter_calm [OF assms(1)] path_errors_as_def handle_def)
  with u(2) show ?thesis by simp
qed

section \<open>A daemon whose books are in order\<close>

definition booked :: "string \<Rightarrow> workspace \<Rightarrow> pydict \<Rightarrow> bool" where
  "booked p w d \<longleftrightarrow> calm w \<and> small_registry p w \<and> registry_dict p w d"

abbreviation books :: "lease \<Rightarrow> pydict \<Rightarrow> bool" where
  "books s d \<equiv> booked (wl_path s) (wl_ws s) d"

definition fits :: "pydict \<Rightarrow> bool" where
  "fits d \<longleftrightarrow> registry_value d \<and> int (length (encode_registry d)) \<le> max_ownership_registry_bytes"

lemma booked_update:
  assumes "booked p w d" "f d = Inr (new, r)" "fits new"
  shows "\<exists>v. update_registry p f w = (Inr (new, r), v) \<and> booked p v (sorted_dict new)"
proof -
  from assms update_calm [of w p d f new r] obtain v where "update_registry p f w = (Inr (new, r), v)"
      "calm v" "ws_files v = (ws_files w)(posix_path p := Some (encode_registry new))"
    by (auto simp: booked_def fits_def)
  with assms(1,3) show ?thesis
    by (auto simp: booked_def small_registry_def registry_dict_def fits_def decode_encode)
qed

lemma booked_clear:
  assumes "booked p w d" "ascii_text i" "i \<noteq> []" "map_of d writer_marker_key = Some (PDict m)" "dget m ''claim_id'' = PStr i"
    and "fits (AList.delete writer_marker_key d)"
  shows "\<exists>v. clear_writer_marker p i w = (Inr True, v) \<and> booked p v (sorted_dict (AList.delete writer_marker_key d))"
proof -
  have same: "digest_eq i i = Inr True" using assms(2) by (auto simp: digest_eq_def ascii_text_def list_all_iff)
  let ?f = "\<lambda>d. case map_of d writer_marker_key of
             None \<Rightarrow> Inr (d, False)
           | Some m \<Rightarrow>
               (case digest_eq (py_str (py_or (dget (dict_or_empty m) ''claim_id'') (PStr []))) i of
                  Inl e \<Rightarrow> Inl e
                | Inr same \<Rightarrow> Inr (if same then AList.delete writer_marker_key d else d, same))"
  have "?f d = Inr (AList.delete writer_marker_key d, True)" using assms(3-5) same by (simp add: py_or_def)
  from booked_update [where f = ?f, OF assms(1) this assms(6)] show ?thesis
    by (auto simp: clear_writer_marker_def seq_def)
qed

lemma booked_put:
  assumes "books s d" "fits (AList.update writer_marker_key (PDict (lease_marker s c)) d)"
  shows "\<exists>v. put_marker c s = (Inr (Inr ()), s\<lparr>wl_ws := v\<rparr>) \<and>
    books (s\<lparr>wl_ws := v\<rparr>) (sorted_dict (AList.update writer_marker_key (PDict (lease_marker s c)) d))"
proof -
  from booked_update [OF assms(1) _ assms(2), where f = "\<lambda>d. Inr (AList.update writer_marker_key (PDict (lease_marker s c)) d, ())"]
  obtain v where "update_registry (wl_path s) (\<lambda>d. Inr (AList.update writer_marker_key (PDict (lease_marker s c)) d, ())) (wl_ws s) =
      (Inr (AList.update writer_marker_key (PDict (lease_marker s c)) d, ()), v)"
    "books (s\<lparr>wl_ws := v\<rparr>) (sorted_dict (AList.update writer_marker_key (PDict (lease_marker s c)) d))" by auto
  then show ?thesis
    by (auto simp: put_marker_def attempt_def handle_def seq_def on_ws_def put_writer_marker_def put_entry_def)
qed

lemma booked_acquire:
  assumes "books s d" "wl_holder s = None" "\<not> wl_recovery s"
    and "c = \<lparr>wc_id = wl_token s (wl_claims s), wc_mode = mode, wc_acquired = wl_clock s (wl_claims s),
           wc_session = session, wc_run = run, wc_spawn = False, wc_children = []\<rparr>"
    and "u = s\<lparr>wl_claims := Suc (wl_claims s), wl_apply := None, wl_cleanup := []\<rparr>"
    and "fits (AList.update writer_marker_key (PDict (lease_marker u c)) d)"
  shows "\<exists>v. acquire mode session run s = (Inr (Inr c), u\<lparr>wl_ws := v, wl_holder := Some c\<rparr>) \<and>
    books (u\<lparr>wl_ws := v\<rparr>) (sorted_dict (AList.update writer_marker_key (PDict (lease_marker u c)) d))"
proof -
  have "books u d" using assms(1,5) by simp
  from booked_put [OF this assms(6)] obtain v where "put_marker c u = (Inr (Inr ()), u\<lparr>wl_ws := v\<rparr>)"
    "books (u\<lparr>wl_ws := v\<rparr>) (sorted_dict (AList.update writer_marker_key (PDict (lease_marker u c)) d))" by blast
  moreover have "\<not> ws_closed (wl_ws s)" using assms(1) by (simp add: booked_def calm_def)
  ultimately show ?thesis
    using assms(2-5) by (auto simp: acquire_def locked_eq seq_def)
qed

lemma booked_release:
  assumes "books s d" "wl_holder s = Some c" "\<not> wl_recovery s" "wl_apply s = None" "ascii_text (wc_id c)" "wc_id c \<noteq> []"
    and "map_of d writer_marker_key = Some (PDict m)" "dget m ''claim_id'' = PStr (wc_id c)" "fits (AList.delete writer_marker_key d)"
  shows "\<exists>v. release (Some (wc_id c)) True s = (Inr True, s\<lparr>wl_ws := v, wl_holder := None\<rparr>) \<and>
    books (s\<lparr>wl_ws := v\<rparr>) (sorted_dict (AList.delete writer_marker_key d))"
proof -
  have same: "digest_eq (wc_id c) (wc_id c) = Inr True" using assms(5) by (auto simp: digest_eq_def ascii_text_def list_all_iff)
  from booked_clear [OF assms(1,5-9)] obtain v where "clear_writer_marker (wl_path s) (wc_id c) (wl_ws s) = (Inr True, v)"
    "booked (wl_path s) v (sorted_dict (AList.delete writer_marker_key d))" by blast
  moreover have "\<not> ws_closed (wl_ws s)" using assms(1) by (simp add: booked_def calm_def)
  ultimately show ?thesis
    using assms(2-4) same by (auto simp: release_def locked_eq seq_def attempt_def handle_def on_ws_def)
qed

section \<open>The sample daemon\<close>

definition sample_workspace :: workspace where
  "sample_workspace =
     \<lparr>ws_files = (\<lambda>p. None), ws_ops = 0, ws_script = (\<lambda>n. \<lparr>di_edit = (\<lambda>fs. fs), di_before = None, di_after = None\<rparr>),
      ws_sha256 = (\<lambda>x. x), ws_closed = False\<rparr>"

definition sample_daemon :: lease where
  "sample_daemon = new_lease ''AI/runs.json'' 7 ''n1'' (\<lambda>n. if n = 0 then ''c0'' else ''c1'') (\<lambda>n. ''now'') sample_workspace"

definition sample_claim :: "string \<Rightarrow> writer_claim" where
  "sample_claim i = \<lparr>wc_id = i, wc_mode = ''agent'', wc_acquired = ''now'', wc_session = None, wc_run = None, wc_spawn = False, wc_children = []\<rparr>"

definition sample_registry :: "string \<Rightarrow> pydict" where
  "sample_registry i = [(writer_marker_key, PDict (lease_marker sample_daemon (sample_claim i)))]"

lemma sample_stored:
  "sorted_dict (sample_registry ''c0'') = [(writer_marker_key, PDict (sorted_dict (lease_marker sample_daemon (sample_claim ''c0''))))]"
  by (simp add: sorted_dict_def sample_registry_def)

lemma sample_stored_claim: "dget (sorted_dict (lease_marker sample_daemon (sample_claim i))) ''claim_id'' = PStr i"
  by (simp add: sorted_dget) (simp add: dget_def lease_marker_get claim_marker_def sample_claim_def)

lemma sample_books: "books sample_daemon []"
proof -
  have "good_path ''AI/runs.json''" unfolding good_path_def by (rule exI [of _ "[''AI'', ''runs.json'']"]) code_simp
  then show ?thesis
    by (simp add: booked_def sample_daemon_def new_lease_def sample_workspace_def calm_def small_registry_def registry_dict_def)
qed

lemma fits_text: "registry_value d \<Longrightarrow> length (json_compact (PDict d)) < 1000 \<Longrightarrow> fits d"
  by (simp add: fits_def encode_registry_def registry_value_def to_ascii_id ascii_compact max_ownership_registry_bytes_def)

lemma sample_fits: "fits (sample_registry ''c0'')" "fits (sample_registry ''c1'')" "fits []"
  by (rule fits_text; code_simp)+

lemma sample_acquires:
  assumes "books s []" "s = sample_daemon\<lparr>wl_ws := w, wl_claims := n\<rparr>" "i = (if n = 0 then ''c0'' else ''c1'')" "fits (sample_registry i)"
  shows "\<exists>v. acquire ''agent'' None None s = (Inr (Inr (sample_claim i)), s\<lparr>wl_claims := Suc n, wl_ws := v, wl_holder := Some (sample_claim i)\<rparr>) \<and>
    books (s\<lparr>wl_ws := v\<rparr>) (sorted_dict (sample_registry i))"
proof -
  let ?u = "s\<lparr>wl_claims := Suc (wl_claims s), wl_apply := None, wl_cleanup := []\<rparr>"
  have same: "AList.update writer_marker_key (PDict (lease_marker ?u (sample_claim i))) [] = sample_registry i"
    by (simp add: sample_registry_def assms(2) lease_marker_def sample_daemon_def new_lease_def)
  have u: "?u = s\<lparr>wl_claims := Suc n\<rparr>" by (simp add: assms(2) sample_daemon_def new_lease_def)
  have "sample_claim i = \<lparr>wc_id = wl_token s (wl_claims s), wc_mode = ''agent'', wc_acquired = wl_clock s (wl_claims s),
      wc_session = None, wc_run = None, wc_spawn = False, wc_children = []\<rparr>" "wl_holder s = None" "\<not> wl_recovery s"
    using assms(2,3) by (simp_all add: sample_claim_def sample_daemon_def new_lease_def)
  note sample = this
  have marker: "AList.update writer_marker_key (PDict (lease_marker (s\<lparr>wl_claims := Suc n\<rparr>) (sample_claim i))) [] = sample_registry i"
    using same unfolding u .
  show ?thesis
    using booked_acquire [OF assms(1) sample(2,3,1) refl, unfolded u, unfolded marker, OF assms(4)] by simp
qed

text \<open>The sample daemon grants a claim, takes it back and grants another.\<close>

lemma sample_history:
  obtains s1 s2 s3 where "perform (Acquire ''agent'' None None) sample_daemon = (Claim (sample_claim ''c0''), s1)"
    "perform (Release (Some ''c0'') True) s1 = (Answer True, s2)"
    "perform (Acquire ''agent'' None None) s2 = (Claim (sample_claim ''c1''), s3)"
    "s1 = sample_daemon\<lparr>wl_claims := 1, wl_ws := wl_ws s1, wl_holder := Some (sample_claim ''c0'')\<rparr>"
    "books s1 (sorted_dict (sample_registry ''c0''))"
proof -
  have start: "sample_daemon = sample_daemon\<lparr>wl_ws := wl_ws sample_daemon, wl_claims := 0\<rparr>" by (simp add: sample_daemon_def new_lease_def)
  from sample_acquires [OF sample_books start _ sample_fits(1)] obtain v
    where acq: "acquire ''agent'' None None sample_daemon =
        (Inr (Inr (sample_claim ''c0'')), sample_daemon\<lparr>wl_claims := 1, wl_ws := v, wl_holder := Some (sample_claim ''c0'')\<rparr>)"
      and b1: "books (sample_daemon\<lparr>wl_ws := v\<rparr>) (sorted_dict (sample_registry ''c0''))" by auto
  let ?s1 = "sample_daemon\<lparr>wl_claims := 1, wl_ws := v, wl_holder := Some (sample_claim ''c0'')\<rparr>"
  note reg = sample_stored
  have "books ?s1 (sorted_dict (sample_registry ''c0''))" using b1 by simp
  then have "\<exists>v. release (Some (wc_id (sample_claim ''c0''))) True ?s1 = (Inr True, ?s1\<lparr>wl_ws := v, wl_holder := None\<rparr>) \<and>
      books (?s1\<lparr>wl_ws := v\<rparr>) (sorted_dict (AList.delete writer_marker_key (sorted_dict (sample_registry ''c0''))))"
  proof (rule booked_release [where m = "sorted_dict (lease_marker sample_daemon (sample_claim ''c0''))"])
    show "dget (sorted_dict (lease_marker sample_daemon (sample_claim ''c0''))) ''claim_id'' = PStr (wc_id (sample_claim ''c0''))"
      by (simp add: sample_stored_claim) (simp add: sample_claim_def)
    show "fits (AList.delete writer_marker_key (sorted_dict (sample_registry ''c0'')))" using sample_fits(3) by (simp add: reg)
  qed (simp_all add: reg sample_claim_def sample_daemon_def new_lease_def)
  then obtain w where "release (Some (wc_id (sample_claim ''c0''))) True ?s1 = (Inr True, ?s1\<lparr>wl_ws := w, wl_holder := None\<rparr>)"
      "books (?s1\<lparr>wl_ws := w\<rparr>) (sorted_dict (AList.delete writer_marker_key (sorted_dict (sample_registry ''c0''))))" by blast
  then have rel: "release (Some ''c0'') True ?s1 = (Inr True, ?s1\<lparr>wl_ws := w, wl_holder := None\<rparr>)"
    and b2: "booked (wl_path sample_daemon) w []" by (simp_all add: sample_claim_def reg) (simp add: sorted_dict_def)
  let ?s2 = "sample_daemon\<lparr>wl_ws := w, wl_claims := 1\<rparr>"
  have s2: "?s1\<lparr>wl_ws := w, wl_holder := None\<rparr> = ?s2" by (simp add: sample_daemon_def new_lease_def)
  have "books ?s2 []" using b2 by simp
  from sample_acquires [OF this refl _ sample_fits(2)] obtain x where "acquire ''agent'' None None ?s2 =
      (Inr (Inr (sample_claim ''c1'')), ?s2\<lparr>wl_claims := Suc 1, wl_ws := x, wl_holder := Some (sample_claim ''c1'')\<rparr>)" by auto
  with acq rel s2 b1 that [of ?s1 ?s2] show thesis by (simp add: out_of_def)
qed

section \<open>The properties\<close>

text \<open>C17. There is one writer at a time: in every run of operations, under every disturbance of the files,
  between two granted acquisitions the first claim was released by its own identifier with its
  termination proven, or a reconciliation answered that the workspace is free.\<close>

theorem one_writer_at_a_time:
  assumes "lease_run s (pre @ (Acquire mode session run, Claim c) # mid @ (Acquire mode' session' run', Claim d) # post) u"
  shows "list_ex (ends_claim (wc_id c)) mid"
proof (rule ccontr)
  assume none: "\<not> list_ex (ends_claim (wc_id c)) mid"
  from assms obtain a b t where "perform (Acquire mode session run) a = (Claim c, b)" "lease_run b mid t"
      "\<exists>v. perform (Acquire mode' session' run') t = (Claim d, v)"
    by (auto simp: run_append lease_run_simps)
  with acquire_grants run_held [OF _ _ none] perform_acquire_held show False by blast
qed

theorem one_writer_at_a_time_witness:
  "\<exists>u. lease_run sample_daemon
      ([] @ (Acquire ''agent'' None None, Claim (sample_claim ''c0'')) # [(Release (Some ''c0'') True, Answer True)] @
       (Acquire ''agent'' None None, Claim (sample_claim ''c1'')) # []) u \<and>
     list_ex (ends_claim (wc_id (sample_claim ''c0''))) [(Release (Some ''c0'') True, Answer True)]"
proof -
  obtain s1 s2 s3 where "perform (Acquire ''agent'' None None) sample_daemon = (Claim (sample_claim ''c0''), s1)"
    "perform (Release (Some ''c0'') True) s1 = (Answer True, s2)"
    "perform (Acquire ''agent'' None None) s2 = (Claim (sample_claim ''c1''), s3)"
    by (rule sample_history)
  then have run: "lease_run sample_daemon
      ([] @ (Acquire ''agent'' None None, Claim (sample_claim ''c0'')) # [(Release (Some ''c0'') True, Answer True)] @
       (Acquire ''agent'' None None, Claim (sample_claim ''c1'')) # []) s3"
    by (simp add: lease_run_simps del: perform.simps)
  from run one_writer_at_a_time [OF run] show ?thesis by blast
qed

text \<open>C23. When the holder's claim is released without proof that its processes ended, no writer is granted
  afterwards, whatever is done in between, in any run in which no reconciliation answers that the
  workspace is free.\<close>

theorem unproven_end_blocks:
  assumes "holder_id s = Some i" "perform (Release (Some i) False) s = (Answer y, t)" "lease_run t tr u"
    and "\<forall>alive allow reason. (Reconcile alive allow reason, Answer True) \<notin> set tr"
  shows "(Acquire mode session run, Claim c) \<notin> set tr"
proof
  assume granted: "(Acquire mode session run, Claim c) \<in> set tr"
  obtain r v where r: "release (Some i) False s = (r, v)" by fastforce
  with assms(2) have "r = Inr y" "v = t" by (auto simp: out_of_def split: sum.splits)
  with release_unproven [OF assms(1)] r have "wl_recovery t" by simp
  with run_recovery [OF assms(3) _ granted] assms(4) show False by blast
qed

definition stuck_daemon :: lease where
  "stuck_daemon = sample_daemon\<lparr>wl_path := ''/runs.json'', wl_holder := Some (sample_claim ''c0'')\<rparr>"

theorem unproven_end_blocks_witness:
  "holder_id stuck_daemon = Some ''c0'' \<and>
   (\<exists>t u d. perform (Release (Some ''c0'') False) stuck_daemon = (Answer False, t) \<and>
      lease_run t [(Acquire ''agent'' None None, Denial d)] u \<and>
      (Acquire ''agent'' None None, Claim (sample_claim ''c1'')) \<notin> set [(Acquire ''agent'' None None, Denial d)])"
proof -
  have id: "holder_id stuck_daemon = Some ''c0''" by code_simp
  have "fst (perform (Release (Some ''c0'') False) stuck_daemon) = Answer False" by code_simp
  then obtain t where rel: "perform (Release (Some ''c0'') False) stuck_daemon = (Answer False, t)" by (metis prod.collapse)
  have "case fst (perform (Acquire ''agent'' None None) (snd (perform (Release (Some ''c0'') False) stuck_daemon))) of Denial d \<Rightarrow> True | _ \<Rightarrow> False"
    by code_simp
  with rel obtain d u where acq: "perform (Acquire ''agent'' None None) t = (Denial d, u)"
    by (cases "perform (Acquire ''agent'' None None) t") (auto split: lease_out.splits)
  then have run: "lease_run t [(Acquire ''agent'' None None, Denial d)] u" by (simp add: lease_run_simps del: perform.simps)
  have "(Acquire ''agent'' None None, Claim (sample_claim ''c1'')) \<notin> set [(Acquire ''agent'' None None, Denial d)]"
    by (rule unproven_end_blocks [OF id rel run]) simp
  with id rel run show ?thesis by blast
qed

text \<open>C19. A reconciliation answers that the workspace is free only on evidence: the registry has no writer
  marker, or the marker is this process's own for the claim it holds, or its owner and every child
  are dead, no spawn was in flight, clearing was allowed, and either nothing was left to clean up or
  the interrupted apply was found and left wholly at its base or wholly final.\<close>

theorem reconcile_needs_evidence:
  assumes "reconcile_after_orphan_sweep alive allow reason s = (Inr True, t)"
  shows "\<exists>r w. writer_marker (wl_path s) (wl_ws s) = (Inr r, w) \<and>
    (case r of None \<Rightarrow> wl_holder t = None | Some m \<Rightarrow> evidence alive allow s m w t)"
  by (rule reconcile_yes [OF assms])

theorem reconcile_needs_evidence_witness:
  "\<exists>t r w. reconcile_after_orphan_sweep (\<lambda>pid. True) False [] sample_daemon = (Inr True, t) \<and>
     writer_marker (wl_path sample_daemon) (wl_ws sample_daemon) = (Inr r, w) \<and>
     (case r of None \<Rightarrow> wl_holder t = None | Some m \<Rightarrow> evidence (\<lambda>pid. True) False sample_daemon m w t)"
proof -
  have "fst (reconcile_after_orphan_sweep (\<lambda>pid. True) False [] sample_daemon) = Inr True" by code_simp
  then obtain t where "reconcile_after_orphan_sweep (\<lambda>pid. True) False [] sample_daemon = (Inr True, t)" by (metis prod.collapse)
  from this reconcile_needs_evidence [OF this] show ?thesis by blast
qed

text \<open>C21. A reconciliation never touches what it was not told of: whatever it answers or raises, and wherever a
  read, a replacement or a removal fails, every path other than the registry keeps its content, except
  a staged file named in the journal that the marker of a dead owner carries, which is removed only
  when its content is the recorded one.\<close>

theorem recovery_removes_only_staged:
  assumes "quiet (wl_ws s)" "reconcile_after_orphan_sweep alive allow reason s = (x, t)"
    and "p \<noteq> posix_path (wl_path s)"
  shows "ws_files (wl_ws t) p = ws_files (wl_ws s) p \<or> (\<exists>m w g. writer_marker (wl_path s) (wl_ws s) = (Inr (Some m), w) \<and> g \<in> recorded alive m \<and>
    p = posix_path (sg_path g) \<and> holds_staged (wl_ws s) g \<and> ws_files (wl_ws t) p = None)"
proof (cases "ws_files (wl_ws t) p = ws_files (wl_ws s) p")
  case changed: False
  obtain r w where mark: "writer_marker (wl_path s) (wl_ws s) = (r, w)" by fastforce
  have w: "removes (wl_path s) {} (wl_ws s) w" by (rule keepsD [OF registry_keeps(2) mark])
  have differs: "\<not> removes (wl_path s) {} (wl_ws s) (wl_ws t)" using assms(1,3) changed by (auto simp: removes_def)
  have start: "lease_removes {} s (s\<lparr>wl_ws := w\<rparr>)" using w by (simp add: lease_removes_def)
  show ?thesis
  proof (cases "\<exists>m. r = Inr (Some m)")
    case False
    with assms(2) mark have "lease_removes {} s t"
      using leasing.refl [of "{}" s] w
      by (auto simp: reconcile_after_orphan_sweep_def locked_eq attempt_def handle_def seq_def on_ws_def refused_def reset_lease_def
          set_recovery_def lease_removes_def split: if_splits sum.splits option.splits)
    with differs show ?thesis unfolding lease_removes_def by blast
  next
    case True
    then obtain m where m: "r = Inr (Some m)" ..
    have "lease_removes (recorded alive m) s t"
    proof (cases "ws_closed (wl_ws s)")
      case True
      with assms(2) leasing.refl show ?thesis by (simp add: reconcile_after_orphan_sweep_def locked_eq)
    next
      case False
      with assms(2) mark m have "judge_marker alive allow reason m (s\<lparr>wl_ws := w\<rparr>) = (x, t)"
        by (simp add: reconcile_after_orphan_sweep_def locked_eq attempt_def handle_def seq_def on_ws_def)
      then have "lease_removes (recorded alive m) (s\<lparr>wl_ws := w\<rparr>) t" by (rule keepsD [OF judge_removes])
      with lease_removes_mono [OF start] show ?thesis by (auto intro: leasing.trans)
    qed
    then have "ws_files (wl_ws t) p = ws_files (wl_ws s) p \<or> ws_files (wl_ws t) p = None \<and>
        (\<exists>g \<in> recorded alive m. p = posix_path (sg_path g) \<and> holds_staged (wl_ws s) g)"
      using assms(1,3) by (simp add: lease_removes_def removes_def)
    with changed mark m show ?thesis by auto
  qed
qed simp

theorem recovery_removes_only_staged_witness:
  "\<exists>x t. reconcile_after_orphan_sweep (\<lambda>pid. False) True [] sample_daemon = (x, t) \<and>
     (ws_files (wl_ws t) ''AI/a'' = ws_files (wl_ws sample_daemon) ''AI/a'' \<or>
      (\<exists>m w g. writer_marker (wl_path sample_daemon) (wl_ws sample_daemon) = (Inr (Some m), w) \<and> g \<in> recorded (\<lambda>pid. False) m \<and>
        ''AI/a'' = posix_path (sg_path g) \<and> holds_staged (wl_ws sample_daemon) g \<and> ws_files (wl_ws t) ''AI/a'' = None))"
proof -
  have calm: "quiet (wl_ws sample_daemon)" using sample_books by (simp add: booked_def calm_quiet)
  have other: "''AI/a'' \<noteq> posix_path (wl_path sample_daemon)" by code_simp
  obtain x t where "reconcile_after_orphan_sweep (\<lambda>pid. False) True [] sample_daemon = (x, t)" by fastforce
  from this recovery_removes_only_staged [OF calm this other] show ?thesis by blast
qed

text \<open>C18. A spawn is not forgotten by a crash: once the begin of a spawn has returned, a daemon that starts
  afresh on the same files never answers that the workspace is free, whatever the process table says,
  whoever calls it, and whichever of its reads and writes fail.\<close>

theorem spawn_outlives_crash:
  assumes "begin_spawn i s = (Inr c, t)" "quiet (wl_ws s)" "own_registry (wl_path s) (wl_ws s)" "ascii_value (PDict (lease_marker s c))"
  shows "fst (reconcile_after_orphan_sweep alive allow reason (new_lease (wl_path s) pid nonce token clock (wl_ws t))) \<noteq> Inr True"
proof -
  from assms(1) have spawn: "wc_spawn c" and "\<exists>u. put_marker c s = (Inr (Inr ()), u) \<and> wl_ws t = wl_ws u"
    by (auto simp: begin_spawn_def locked_eq held_claim_def names_holder_def replace_claim_def seq_def set_recovery_def
        split: if_splits option.splits sum.splits prod.splits)
  then obtain u where "put_marker c s = (Inr (Inr ()), u)" "wl_ws t = wl_ws u" by blast
  with put_marker_quiet [OF _ assms(2-4)] obtain d where "quiet (wl_ws t)" and d: "registry_dict (wl_path s) (wl_ws t) d"
      "map_of d writer_marker_key = Some (canon (PDict (lease_marker s c)))" by metis
  moreover have "dget (sorted_dict (lease_marker s c)) ''spawn_pending'' = PBool True"
    using spawn by (simp add: sorted_dget) (simp add: dget_def lease_marker_get claim_marker_def)
  ultimately show ?thesis
    by (intro spawning_marker_refused [where m = "sorted_dict (lease_marker s c)"]) (auto simp: new_lease_def sorted_dict_def)
qed

theorem spawn_outlives_crash_witness:
  "\<exists>s c t. begin_spawn ''c0'' s = (Inr c, t) \<and> wc_spawn c \<and>
     fst (reconcile_after_orphan_sweep (\<lambda>pid. False) True [] (new_lease (wl_path s) 8 ''n2'' (\<lambda>n. ''c'') (\<lambda>n. ''now'') (wl_ws t))) \<noteq> Inr True"
proof -
  obtain s where s: "s = sample_daemon\<lparr>wl_claims := 1, wl_ws := wl_ws s, wl_holder := Some (sample_claim ''c0'')\<rparr>"
    and books: "books s (sorted_dict (sample_registry ''c0''))" by (rule sample_history)
  let ?c = "(sample_claim ''c0'')\<lparr>wc_spawn := True\<rparr>"
  have mark: "lease_marker s ?c = lease_marker sample_daemon ?c" by (subst s) (simp add: lease_marker_def sample_daemon_def new_lease_def)
  note reg = sample_stored
  have fit: "fits [(writer_marker_key, PDict (lease_marker sample_daemon ?c))]" by (rule fits_text; code_simp)
  have holder: "wl_holder s = Some (sample_claim ''c0'')" "wl_path s = wl_path sample_daemon" by (subst s, simp)+
  obtain v where put: "put_marker ?c s = (Inr (Inr ()), s\<lparr>wl_ws := v\<rparr>)"
    using booked_put [OF books, of ?c] fit by (auto simp: mark reg)
  have "digest_eq ''c0'' ''c0'' = Inr True" by code_simp
  with holder put books have run: "begin_spawn ''c0'' s = (Inr ?c, s\<lparr>wl_ws := v, wl_holder := Some ?c\<rparr>)"
    by (simp add: begin_spawn_def locked_eq booked_def calm_def held_claim_def names_holder_def replace_claim_def seq_def sample_claim_def)
  have own: "own_registry (wl_path s) (wl_ws s)"
  proof (unfold own_registry_def, intro allI impI)
    fix d assume "registry_dict (wl_path s) (wl_ws s) d"
    with books have "d = sorted_dict (sample_registry ''c0'')" by (auto simp: booked_def registry_dict_def split: option.splits)
    moreover have "registry_value (sorted_dict (sample_registry ''c0''))" by code_simp
    ultimately show "registry_value d" by simp
  qed
  have quiet: "quiet (wl_ws s)" using books by (simp add: booked_def calm_quiet)
  have ascii: "ascii_value (PDict (lease_marker s ?c))" unfolding mark by code_simp
  have "wc_spawn ?c" by simp
  with run spawn_outlives_crash [OF run quiet own ascii] show ?thesis by blast
qed

end
