(* ===== verification/Writer_Apply.thy ===== *)
theory Writer_Apply imports Writer_Safety begin

text \<open>
  The journal of an apply: it moves from staging to mutating and away with fixed descriptors, and only
  an exact state of the files lets it go, in the daemon that wrote it and in one that finds it later.
\<close>

section \<open>What the checks say of the files\<close>

definition side_is :: "workspace \<Rightarrow> string \<Rightarrow> bool \<Rightarrow> string option \<Rightarrow> bool" where
  "side_is w p there sha \<longleftrightarrow>
     (case ws_files w (posix_path p) of None \<Rightarrow> \<not> there | Some d \<Rightarrow> there \<and> sha = Some (ws_sha256 w d))"

definition at_base :: "workspace \<Rightarrow> journal \<Rightarrow> bool" where
  "at_base w j \<longleftrightarrow> (\<forall>t \<in> set (jn_targets j). side_is w (tg_path t) (tg_base t) (tg_base_sha t))"

definition at_final :: "workspace \<Rightarrow> journal \<Rightarrow> bool" where
  "at_final w j \<longleftrightarrow> (\<forall>t \<in> set (jn_targets j). side_is w (tg_path t) (tg_final t) (tg_final_sha t))"

definition staged_gone :: "workspace \<Rightarrow> journal \<Rightarrow> bool" where
  "staged_gone w j \<longleftrightarrow> (\<forall>g \<in> set (jn_staged j). ws_files w (posix_path (sg_path g)) = None)"

lemma state_quiet:
  assumes "quiet w" "recovery_file_state p n w = (Inr x, v)"
  shows "unmoved w v \<and> fs_exists x = (ws_files w (posix_path p) \<noteq> None) \<and>
    (\<forall>d. ws_files w (posix_path p) = Some d \<longrightarrow> fs_sha x = Some (ws_sha256 w d))"
proof -
  from assms(2) obtain path where path: "valid_cleanup_path (PStr p) = Some path"
    by (auto simp: recovery_file_state_def split: if_splits option.splits)
  then have pp: "posix_path path = posix_path p" by (auto simp: valid_cleanup_path_def split: if_splits)
  have n: "\<not> n < 1" using assms(2) by (auto simp: recovery_file_state_def split: if_splits)
  have "path_errors_as ''workspace recovery state is unreadable''
       (seq (file_size path) (\<lambda>x.
        case x of None \<Rightarrow> ret \<lparr>fs_exists = False, fs_sha = None, fs_bytes = None\<rparr>
        | Some k \<Rightarrow>
            seq (guard (k \<le> n) (state_error ''workspace recovery state exceeds its cumulative read bound'')) (\<lambda>_.
            seq (read_file path (min max_staged_file_bytes (max 1 n))) (\<lambda>data.
            gets (\<lambda>w. \<lparr>fs_exists = True, fs_sha = Some (ws_sha256 w data), fs_bytes = Some (int (length data))\<rparr>))))) w = (Inr x, v)"
    using assms(2) unfolding recovery_file_state_def path option.case if_not_P [OF n] .
  from seq_InrE [OF path_errors_Inr [OF this]] obtain y u where size: "file_size path w = (Inr y, u)"
    and rest: "(case y of None \<Rightarrow> ret \<lparr>fs_exists = False, fs_sha = None, fs_bytes = None\<rparr>
        | Some k \<Rightarrow>
            seq (guard (k \<le> n) (state_error ''workspace recovery state exceeds its cumulative read bound'')) (\<lambda>_.
            seq (read_file path (min max_staged_file_bytes (max 1 n))) (\<lambda>data.
            gets (\<lambda>w. \<lparr>fs_exists = True, fs_sha = Some (ws_sha256 w data), fs_bytes = Some (int (length data))\<rparr>)))) u = (Inr x, v)" .
  note u = file_size_quiet [OF assms(1) size]
  show ?thesis
  proof (cases y)
    case None
    with u rest pp show ?thesis by (auto simp: unmoved_def)
  next
    case (Some k)
    with rest obtain data where read: "read_file path (min max_staged_file_bytes (max 1 n)) u = (Inr data, v)"
      and x: "x = \<lparr>fs_exists = True, fs_sha = Some (ws_sha256 v data), fs_bytes = Some (int (length data))\<rparr>"
      by (auto elim!: seq_InrE split: if_splits)
    have "quiet u" using u assms(1) by (auto simp: unmoved_quiet)
    from read_file_quiet [OF this read] u pp x show ?thesis by (auto simp: unmoved_def)
  qed
qed

lemma unmoved_side: "unmoved w v \<Longrightarrow> side_is v = side_is w"
  by (intro ext) (simp add: side_is_def unmoved_def split: option.split)

lemma side_matches_is:
  "fs_exists x = (ws_files w (posix_path p) \<noteq> None) \<Longrightarrow> (\<forall>d. ws_files w (posix_path p) = Some d \<longrightarrow> fs_sha x = Some (ws_sha256 w d)) \<Longrightarrow>
   side_matches x there sha = side_is w p there sha"
  by (auto simp: side_matches_def side_is_def split: option.splits)

lemma modes_quiet:
  "target_modes tot (b, f) ts w = (Inr (b', f'), v) \<Longrightarrow> quiet w \<Longrightarrow>
   unmoved w v \<and> b' = (b \<and> (\<forall>t \<in> set ts. side_is w (tg_path t) (tg_base t) (tg_base_sha t))) \<and>
   f' = (f \<and> (\<forall>t \<in> set ts. side_is w (tg_path t) (tg_final t) (tg_final_sha t)))"
proof (induction ts arbitrary: tot b f w)
  case Nil
  then show ?case by (simp add: unmoved_def)
next
  case (Cons t ts)
  from Cons.prems(1) obtain x u tot' where state: "recovery_file_state (tg_path t) (max_apply_staged_total_bytes - tot) w = (Inr x, u)"
    and rest: "target_modes tot' (b \<and> side_matches x (tg_base t) (tg_base_sha t), f \<and> side_matches x (tg_final t) (tg_final_sha t)) ts u = (Inr (b', f'), v)"
    by (auto simp: Let_def elim!: seq_InrE split: if_splits)
  note x = state_quiet [OF Cons.prems(2) state]
  with Cons.prems(2) have "quiet u" by (auto simp: unmoved_quiet)
  from Cons.IH [OF rest this] x show ?case
    by (auto simp: side_matches_is unmoved_side intro: unmoved_trans)
qed

lemma mode_quiet: "target_recovery_mode j w = (Inr m, v) \<Longrightarrow> quiet w \<Longrightarrow> unmoved w v \<and> m = (at_base w j, at_final w j)"
  unfolding target_recovery_mode_def by (cases m) (auto simp: at_base_def at_final_def dest: modes_quiet)

lemma absent_quiet:
  "all_absent gs w = (Inr True, v) \<Longrightarrow> quiet w \<Longrightarrow> unmoved w v \<and> (\<forall>g \<in> set gs. ws_files w (posix_path (sg_path g)) = None)"
proof (induction gs arbitrary: w)
  case Nil
  then show ?case by (simp add: unmoved_def)
next
  case (Cons g gs)
  from Cons.prems(1) obtain x u where state: "recovery_file_state (sg_path g) max_staged_file_bytes w = (Inr x, u)"
    and rest: "\<not> fs_exists x" "all_absent gs u = (Inr True, v)"
    by (auto elim!: seq_InrE split: if_splits)
  note x = state_quiet [OF Cons.prems(2) state]
  with Cons.prems(2) have "quiet u" by (auto simp: unmoved_quiet)
  from Cons.IH [OF rest(2) this] x rest(1) show ?case by (auto simp: unmoved_def)
qed

section \<open>Recovery is all or nothing\<close>

lemma check_quiet: "check_staged gs w = (Inr xs, v) \<Longrightarrow> quiet w \<Longrightarrow> unmoved w v"
proof (induction gs arbitrary: w xs)
  case Nil
  then show ?case by (simp add: unmoved_def)
next
  case (Cons g gs)
  from Cons.prems(1) obtain x u ys where state: "recovery_file_state (sg_path g) max_staged_file_bytes w = (Inr x, u)"
    and rest: "check_staged gs u = (Inr ys, v)"
    by (auto simp: fails_as_def elim!: seq_InrE split: if_splits)
  note x = state_quiet [OF Cons.prems(2) state]
  with Cons.prems(2) have "quiet u" by (auto simp: unmoved_quiet)
  with Cons.IH [OF rest] x show ?case by (auto intro: unmoved_trans)
qed

text \<open>C20. An interrupted apply is recovered wholly or not at all: when its recovery returns in a workspace
  nobody else writes, all targets were and are at their base, or all were and are final, and no
  staged file is left.\<close>

theorem recovery_all_or_nothing:
  assumes "quiet w" "reconcile_apply_recovery path i j w = (Inr (), v)"
    and "posix_path path \<notin> (\<lambda>t. posix_path (tg_path t)) ` set (jn_targets j)"
    and "posix_path path \<notin> (\<lambda>g. posix_path (sg_path g)) ` set (jn_staged j)"
  shows "(at_base w j \<and> at_base v j \<or> at_final w j \<and> at_final v j) \<and> staged_gone v j"
proof -
  from assms(2) obtain m1 w1 where first: "target_recovery_mode j w = (Inr m1, w1)" and some: "fst m1 \<or> snd m1"
    and rest: "seq (check_staged (jn_staged j)) (\<lambda>states.
      seq (remove_all_staged (zip (jn_staged j) states)) (\<lambda>_.
      seq (target_recovery_mode j) (\<lambda>after_mode.
      if after_mode \<noteq> m1 then fails_as ''workspace targets changed during staged recovery cleanup''
      else seq (all_absent (jn_staged j)) (\<lambda>gone.
      if \<not> gone then fails_as ''workspace staged recovery paths are not all absent''
      else seq (clear_writer_marker path i) (\<lambda>cleared.
      if \<not> cleared then fails_as ''workspace recovery marker could not be cleared'' else ret ()))))) w1 = (Inr (), v)"
    unfolding reconcile_apply_recovery_def by (elim seq_InrE) (auto simp: fails_as_def split: if_splits)
  from rest obtain xs w2 w3 w4 w5 where check: "check_staged (jn_staged j) w1 = (Inr xs, w2)"
    and remove: "remove_all_staged (zip (jn_staged j) xs) w2 = (Inr (), w3)"
    and after: "target_recovery_mode j w3 = (Inr m1, w4)" and gone: "all_absent (jn_staged j) w4 = (Inr True, w5)"
    and clear: "clear_writer_marker path i w5 = (Inr True, v)"
    by (elim seq_InrE) (auto simp: fails_as_def elim!: seq_InrE split: if_splits)
  note m1 = mode_quiet [OF first assms(1)]
  with assms(1) have q1: "quiet w1" by (auto simp: unmoved_quiet)
  note w2 = check_quiet [OF check q1]
  have "removes path (set (jn_staged j)) w2 w3" by (rule keepsD [OF remove_keeps [OF zip_subset] remove])
  with w2 q1 have q3: "quiet w3" by (auto simp: removes_def unmoved_def quiet_def)
  note m3 = mode_quiet [OF after q3]
  with q3 have q4: "quiet w4" by (auto simp: unmoved_quiet)
  note w5 = absent_quiet [OF gone q4]
  with q4 have q5: "quiet w5" by (auto simp: unmoved_quiet)
  have "removes path {} w5 v" by (rule keepsD [OF registry_keeps(4) clear])
  with q5 m3 w5 have v: "ws_sha256 v = ws_sha256 w3" "\<And>p. p \<noteq> posix_path path \<Longrightarrow> ws_files v p = ws_files w3 p"
    by (auto simp: removes_def unmoved_def)
  have side: "side_is v (tg_path t) there sha = side_is w3 (tg_path t) there sha" if "t \<in> set (jn_targets j)" for t there sha
    using that assms(3) v by (auto simp: side_is_def image_iff split: option.split)
  have "at_base v j = at_base w3 j" "at_final v j = at_final w3 j" using side by (simp_all add: at_base_def at_final_def)
  moreover have "staged_gone v j"
    using w5 m3 v(2) assms(4) by (auto simp: staged_gone_def unmoved_def image_iff)
  ultimately show ?thesis using m1 m3 some by auto
qed

section \<open>The phases\<close>

definition journal_moves :: "journal option \<Rightarrow> journal option \<Rightarrow> bool" where
  "journal_moves old new \<longleftrightarrow>
     (case (old, new) of
        (None, None) \<Rightarrow> True
      | (None, Some n) \<Rightarrow> jn_phase n = ''staging''
      | (Some p, Some n) \<Rightarrow> jn_staged n = jn_staged p \<and> jn_targets n = jn_targets p \<and>
          (jn_phase n = jn_phase p \<or> jn_phase p = ''staging'' \<and> jn_phase n = ''mutating'')
      | (Some p, None) \<Rightarrow> True)"

lemma moves_allowed: "apply_transition_allowed old new = journal_moves old new"
  by (auto simp: apply_transition_allowed_def journal_moves_def split: option.split)

lemma clear_proven_quiet:
  assumes "apply_clear_is_proven j s = (Inr True, t)" "quiet (wl_ws s)"
  shows "staged_gone (wl_ws s) j \<and> (if jn_phase j = ''staging'' then at_base (wl_ws s) j else at_final (wl_ws s) j)"
proof -
  let ?m = "seq (target_recovery_mode j) (\<lambda>(base, final). seq (all_absent (jn_staged j)) (\<lambda>gone.
        ret ((if jn_phase j = ''staging'' then base else final) \<and> gone)))"
  from assms(1) obtain v where run: "?m (wl_ws s) = (Inr True, v)"
    by (auto simp: apply_clear_is_proven_def elim!: seq_InrE dest!: attempt_on_ws split: sum.splits)
  then obtain base final u where mode: "target_recovery_mode j (wl_ws s) = (Inr (base, final), u)"
    and gone: "all_absent (jn_staged j) u = (Inr True, v)" and ok: "if jn_phase j = ''staging'' then base else final"
    by (auto elim!: seq_InrE)
  note u = mode_quiet [OF mode assms(2)]
  with assms(2) have "quiet u" by (auto simp: unmoved_quiet)
  from absent_quiet [OF gone this] u ok show ?thesis by (auto simp: staged_gone_def unmoved_def split: if_splits)
qed

lemma refusal_no: "durable_recovery_refusal c reason s \<noteq> (Inr True, t)"
  by (auto simp: durable_recovery_refusal_def seq_def set_recovery_def split: prod.splits sum.splits)

lemma only_files:
  "attempt (on_ws m) s = (r, t) \<Longrightarrow> t = s\<lparr>wl_ws := wl_ws t\<rparr>" "put_marker c s = (q, t) \<Longrightarrow> t = s\<lparr>wl_ws := wl_ws t\<rparr>"
  by (auto simp: put_marker_def attempt_def handle_def seq_def on_ws_def split: prod.splits sum.splits if_splits)

lemma clear_proven_files: "apply_clear_is_proven j s = (r, t) \<Longrightarrow> t = s\<lparr>wl_ws := wl_ws t\<rparr>"
  unfolding apply_clear_is_proven_def by (auto simp: seq_simps split: prod.splits sum.splits dest: only_files)

text \<open>C22. A journal is written and let go in order: when setting it succeeds, the caller names the holder, no
  recovery is pending, the journal held afterwards is the validated one and follows the old one in the
  life of an apply, and it is let go only when no staged file is left and every target is at its base,
  if the apply was still staging, or final, if it was mutating.\<close>

theorem journal_lifecycle:
  assumes "quiet (wl_ws s)" "set_apply_recovery claim state s = (Inr True, t)"
  shows "claim = holder_id s \<and> claim \<noteq> None \<and> \<not> wl_recovery s \<and> journal_moves (wl_apply s) (wl_apply t) \<and>
    (case state of None \<Rightarrow> wl_apply t = None
     | Some v \<Rightarrow> \<exists>j. validated_apply_recovery (Some (wl_pid s)) v = Inr j \<and> wl_apply t = Some j) \<and>
    (case (wl_apply s, state) of
       (Some p, None) \<Rightarrow> staged_gone (wl_ws s) p \<and>
         (if jn_phase p = ''staging'' then at_base (wl_ws s) p else at_final (wl_ws s) p)
     | _ \<Rightarrow> True)"
proof -
  from assms(2) obtain i c where claim: "claim = Some i" and holder: "wl_holder s = Some c" "digest_eq (wc_id c) i = Inr True"
    and ready: "\<not> wl_recovery s" "\<not> ws_closed (wl_ws s)"
    by (auto simp: set_apply_recovery_def locked_eq names_holder_def seq_simps split: option.splits sum.splits if_splits)
  let ?norm = "case state of None \<Rightarrow> Inr None
    | Some v \<Rightarrow> (case validated_apply_recovery (Some (wl_pid s)) v of Inl e \<Rightarrow> Inl e | Inr j \<Rightarrow> Inr (Some j))"
  from assms(2) claim holder ready obtain new where new: "?norm = Inr new" and moves: "apply_transition_allowed (wl_apply s) new"
    by (auto simp: set_apply_recovery_def locked_eq names_holder_def seq_simps refusal_no split: sum.splits if_splits)
  let ?proven = "case (wl_apply s, new) of (Some p, None) \<Rightarrow> apply_clear_is_proven p | _ \<Rightarrow> ret True"
  from assms(2) claim holder ready new moves obtain u where proven: "?proven s = (Inr True, u)"
    and rest: "seq (modify (\<lambda>u. u\<lparr>wl_apply := new\<rparr>)) (\<lambda>_.
                 seq (put_marker c) (\<lambda>r.
                 case r of Inr _ \<Rightarrow> ret True
                 | Inl _ \<Rightarrow> seq (modify (\<lambda>u. u\<lparr>wl_apply := wl_apply s\<rparr>)) (\<lambda>_.
                     durable_recovery_refusal c ''workspace apply recovery marker could not be persisted''))) u = (Inr True, t)"
    by (auto simp: set_apply_recovery_def locked_eq names_holder_def refusal_no elim!: seq_InrE split: if_splits)
  from rest obtain r where "put_marker c (u\<lparr>wl_apply := new\<rparr>) = (Inr (Inr r), t)"
    by (auto simp: refusal_no elim!: seq_InrE split: sum.splits)
  from only_files(2) [OF this] have "wl_apply t = new" by (metis lease.select_convs(8) lease.surjective lease.update_convs(8) lease.update_convs(9))
  with claim holder ready new moves proven clear_proven_quiet [OF _ assms(1)] show ?thesis
    by (auto simp: holder_id_def digest_eq_def moves_allowed [symmetric] split: option.splits sum.splits if_splits)
qed

section \<open>An apply that a dead daemon left staging\<close>

definition plain_path :: "string \<Rightarrow> bool" where
  "plain_path p \<longleftrightarrow> good_path p \<and> valid_cleanup_path (PStr p) = Some p \<and> posix_path p = p"

lemma state_calm:
  assumes "calm w" "plain_path p" "1 \<le> n" "n \<le> max_authority_bytes"
  shows "ws_files w p = None \<Longrightarrow> recovery_file_state p n w = (Inr \<lparr>fs_exists = False, fs_sha = None, fs_bytes = None\<rparr>, tick w)"
    and "ws_files w p = Some d \<Longrightarrow> int (length d) \<le> n \<Longrightarrow> int (length d) \<le> max_staged_file_bytes \<Longrightarrow>
      recovery_file_state p n w = (Inr \<lparr>fs_exists = True, fs_sha = Some (ws_sha256 w d), fs_bytes = Some (int (length d))\<rparr>, tick (tick w))"
proof -
  have small: "1 \<le> min max_staged_file_bytes (max 1 n)" "min max_staged_file_bytes (max 1 n) \<le> max_authority_bytes"
    using assms(3,4) by (simp_all add: max_staged_file_bytes_def max_authority_bytes_def)
  show "ws_files w p = None \<Longrightarrow> recovery_file_state p n w = (Inr \<lparr>fs_exists = False, fs_sha = None, fs_bytes = None\<rparr>, tick w)"
    using assms by (simp add: recovery_file_state_def plain_path_def path_errors_as_def handle_def seq_def file_size_calm)
  assume d: "ws_files w p = Some d" "int (length d) \<le> n" "int (length d) \<le> max_staged_file_bytes"
  then have "read_file p (min max_staged_file_bytes (max 1 n)) (tick w) = (Inr d, tick (tick w))"
    using assms small by (intro read_file_calm) (auto simp: plain_path_def)
  with d assms show "recovery_file_state p n w = (Inr \<lparr>fs_exists = True, fs_sha = Some (ws_sha256 w d), fs_bytes = Some (int (length d))\<rparr>, tick (tick w))"
    by (simp add: recovery_file_state_def plain_path_def path_errors_as_def handle_def seq_def file_size_calm)
qed

lemma unlink_calm:
  "calm w \<Longrightarrow> plain_path p \<Longrightarrow> ws_files w p = Some d \<Longrightarrow> ws_sha256 w d = sha \<Longrightarrow> sha_text sha \<Longrightarrow> int (length d) = n \<Longrightarrow>
   n \<le> most \<Longrightarrow> 1 \<le> most \<Longrightarrow> most \<le> max_authority_bytes \<Longrightarrow>
   unlink_file p sha n most w = (Inr True, (tick w)\<lparr>ws_files := (ws_files w)(p := None)\<rparr>)"
  by (auto simp: unlink_file_def bound_ok_def seq_def key_of_good disturbed_calm plain_path_def tick_def)

definition zero_sha :: string where "zero_sha = replicate 64 (CHR ''0'')"

definition sample_staged :: staged_file where
  "sample_staged = \<lparr>sg_path = ''AI/.a.kaizen-9-0-000000000000000000000000.tmp'', sg_sha = zero_sha, sg_bytes = 3\<rparr>"

definition sample_target :: target_file where
  "sample_target = \<lparr>tg_path = ''AI/a'', tg_base = False, tg_base_sha = None, tg_final = True, tg_final_sha = Some zero_sha\<rparr>"

definition sample_journal :: journal where
  "sample_journal = \<lparr>jn_phase = ''staging'', jn_staged = [sample_staged], jn_targets = [sample_target]\<rparr>"

definition left_workspace :: workspace where
  "left_workspace = sample_workspace\<lparr>ws_sha256 := (\<lambda>d. zero_sha), ws_files := (\<lambda>p.
     if p = ''AI/runs.json'' then Some (encode_registry (sample_registry ''c0''))
     else if p = ''AI/.a.kaizen-9-0-000000000000000000000000.tmp'' then Some ''abc'' else None)\<rparr>"

lemma plain_paths: "plain_path ''AI/a''" "plain_path ''AI/.a.kaizen-9-0-000000000000000000000000.tmp''"
proof -
  have "relative_parts ''AI/a'' = Inr [''AI'', ''a'']" by code_simp
  moreover have "relative_parts ''AI/.a.kaizen-9-0-000000000000000000000000.tmp'' = Inr [''AI'', ''.a.kaizen-9-0-000000000000000000000000.tmp'']" by code_simp
  moreover have "valid_cleanup_path (PStr ''AI/a'') = Some ''AI/a''" "posix_path ''AI/a'' = ''AI/a''" by code_simp+
  moreover have "valid_cleanup_path (PStr ''AI/.a.kaizen-9-0-000000000000000000000000.tmp'') = Some ''AI/.a.kaizen-9-0-000000000000000000000000.tmp''"
    "posix_path ''AI/.a.kaizen-9-0-000000000000000000000000.tmp'' = ''AI/.a.kaizen-9-0-000000000000000000000000.tmp''" by code_simp+
  ultimately show "plain_path ''AI/a''" "plain_path ''AI/.a.kaizen-9-0-000000000000000000000000.tmp''"
    by (auto simp: plain_path_def good_path_def)
qed

lemma bounds: "1 \<le> max_staged_file_bytes" "max_staged_file_bytes \<le> max_authority_bytes" "1 \<le> max_apply_staged_total_bytes"
  "max_apply_staged_total_bytes \<le> max_authority_bytes" "3 \<le> max_staged_file_bytes"
  by (simp_all add: max_staged_file_bytes_def max_authority_bytes_def max_apply_staged_total_bytes_def)

text \<open>The recovery of the sample: the staged file goes, the target stays absent, the marker is cleared.\<close>

lemma left_prefix:
  assumes "calm w" "ws_sha256 w = (\<lambda>d. zero_sha)" "ws_files w ''AI/a'' = None" "ws_files w (sg_path sample_staged) = Some ''abc''"
  obtains u where "calm u" "ws_files u = (ws_files w)(sg_path sample_staged := None)"
    "\<And>path i. reconcile_apply_recovery path i sample_journal w =
       seq (clear_writer_marker path i) (\<lambda>cleared. if \<not> cleared then fails_as ''workspace recovery marker could not be cleared'' else ret ()) u"
proof -
  have sha: "sha_text zero_sha" by code_simp
  let ?g = "sg_path sample_staged"
  have path: "?g = ''AI/.a.kaizen-9-0-000000000000000000000000.tmp''" "sg_sha sample_staged = zero_sha" "sg_bytes sample_staged = 3"
    by (simp_all add: sample_staged_def)
  have mode: "target_recovery_mode sample_journal v = (Inr (True, False), tick v)" if "calm v" "ws_files v ''AI/a'' = None" for v
    using state_calm(1) [OF that(1) plain_paths(1) bounds(3,4) that(2)]
    by (simp add: target_recovery_mode_def sample_journal_def sample_target_def seq_def side_matches_def Let_def max_apply_staged_total_bytes_def)
  have there: "recovery_file_state ?g max_staged_file_bytes v =
      (Inr \<lparr>fs_exists = True, fs_sha = Some zero_sha, fs_bytes = Some 3\<rparr>, tick (tick v))"
    if "calm v" "ws_files v ?g = Some ''abc''" "ws_sha256 v = (\<lambda>d. zero_sha)" for v
    using state_calm(2) [OF that(1) plain_paths(2) bounds(1,2), of "''abc''"] that bounds(5) by (simp add: path)
  have gone: "recovery_file_state ?g max_staged_file_bytes v = (Inr \<lparr>fs_exists = False, fs_sha = None, fs_bytes = None\<rparr>, tick v)"
    if "calm v" "ws_files v ?g = None" for v
    using state_calm(1) [OF that(1) plain_paths(2) bounds(1,2)] that by (simp add: path)
  have unlink: "unlink_file ?g zero_sha 3 max_staged_file_bytes v = (Inr True, (tick v)\<lparr>ws_files := (ws_files v)(?g := None)\<rparr>)"
    if "calm v" "ws_files v ?g = Some ''abc''" "ws_sha256 v = (\<lambda>d. zero_sha)" for v
    using unlink_calm [OF that(1) plain_paths(2), of "''abc''" zero_sha 3 max_staged_file_bytes] that sha bounds by (simp add: path)
  let ?v = "tick (tick (tick w))" and ?x = "\<lparr>fs_exists = True, fs_sha = Some zero_sha, fs_bytes = Some (3 :: int)\<rparr>"
  let ?z = "(tick (tick (tick ?v)))\<lparr>ws_files := (ws_files w)(?g := None)\<rparr>"
  have check: "check_staged [sample_staged] (tick w) = (Inr [?x], ?v)"
    using there [of "tick w"] assms by (simp add: path seq_def)
  have remove: "remove_all_staged [(sample_staged, ?x)] ?v = (Inr (), tick ?z)"
    using there [of ?v] unlink [of "tick (tick ?v)"] gone [of ?z] assms
    by (simp add: remove_staged_def path seq_def path_errors_as_def handle_def)
  have absent: "all_absent [sample_staged] (tick (tick ?z)) = (Inr True, tick (tick (tick ?z)))"
    using gone [of "tick (tick ?z)"] assms by (simp add: seq_def)
  have "reconcile_apply_recovery p i sample_journal w =
      seq (clear_writer_marker p i) (\<lambda>cleared. if \<not> cleared then fails_as ''workspace recovery marker could not be cleared'' else ret ()) (tick (tick (tick ?z)))" for p i
    using mode [of w] mode [of "tick ?z"] check remove absent assms
    by (simp add: reconcile_apply_recovery_def sample_journal_def path)
  with assms(1) that [of "tick (tick (tick ?z))"] show thesis by simp
qed

lemma left_calm: "calm left_workspace" "booked ''AI/runs.json'' left_workspace (sorted_dict (sample_registry ''c0''))"
proof -
  have reg: "posix_path ''AI/runs.json'' = ''AI/runs.json''" by code_simp
  show calm: "calm left_workspace" by (simp add: calm_def left_workspace_def sample_workspace_def)
  have "good_path ''AI/runs.json''" using sample_books by (simp add: booked_def small_registry_def sample_daemon_def new_lease_def)
  with calm sample_fits(1) show "booked ''AI/runs.json'' left_workspace (sorted_dict (sample_registry ''c0''))"
    by (simp add: booked_def small_registry_def registry_dict_def reg left_workspace_def decode_encode fits_def)
qed

theorem recovery_all_or_nothing_witness:
  "\<exists>v. reconcile_apply_recovery ''AI/runs.json'' ''c0'' sample_journal left_workspace = (Inr (), v) \<and>
     (at_base left_workspace sample_journal \<and> at_base v sample_journal \<or> at_final left_workspace sample_journal \<and> at_final v sample_journal) \<and>
     staged_gone v sample_journal"
proof -
  have names: "posix_path ''AI/runs.json'' = ''AI/runs.json''" "posix_path (tg_path sample_target) = ''AI/a''"
    "posix_path (sg_path sample_staged) = sg_path sample_staged" by code_simp+
  obtain u where u: "calm u" "ws_files u = (ws_files left_workspace)(sg_path sample_staged := None)"
    and eq: "\<And>path i. reconcile_apply_recovery path i sample_journal left_workspace =
       seq (clear_writer_marker path i) (\<lambda>cleared. if \<not> cleared then fails_as ''workspace recovery marker could not be cleared'' else ret ()) u"
    by (rule left_prefix [of left_workspace]) (simp_all add: left_calm(1), simp_all add: left_workspace_def sample_staged_def sample_workspace_def)
  have "booked ''AI/runs.json'' u (sorted_dict (sample_registry ''c0''))"
    using left_calm u by (simp add: booked_def small_registry_def registry_dict_def names sample_staged_def)
  then obtain v where "clear_writer_marker ''AI/runs.json'' ''c0'' u = (Inr True, v)"
    using booked_clear [of "''AI/runs.json''" u "sorted_dict (sample_registry ''c0'')" "''c0''"] sample_fits(3) sample_stored_claim
    by (auto simp: sample_stored)
  then have run: "reconcile_apply_recovery ''AI/runs.json'' ''c0'' sample_journal left_workspace = (Inr (), v)" by (simp add: eq)
  from recovery_all_or_nothing [OF calm_quiet [OF left_calm(1)] run] run names show ?thesis
    by (simp add: sample_journal_def) (simp add: sample_staged_def)
qed

definition fresh_journal :: journal where
  "fresh_journal = \<lparr>jn_phase = ''staging'', jn_staged = [], jn_targets = [sample_target]\<rparr>"

lemma fresh_validated: "validated_apply_recovery (Some 7) (journal_value fresh_journal) = Inr fresh_journal"
proof -
  let ?text = "json_print '','' '':'' (journal_value fresh_journal)"
  have "ascii_value (journal_value fresh_journal)" by code_simp
  then have "to_ascii ?text = ?text" by (intro to_ascii_id ascii_print) simp_all
  moreover have "int (length ?text) \<le> max_apply_recovery_bytes" by code_simp
  moreover have "clean_targets [] (map target_value (jn_targets fresh_journal)) = Inr (jn_targets fresh_journal)" by code_simp
  ultimately show ?thesis
    by (simp add: validated_apply_recovery_def has_keys_def dget_def journal_value_def [of fresh_journal, symmetric])
      (simp add: fresh_journal_def journal_value_def has_keys_def dget_def max_apply_staged_descriptors_def Let_def)
qed

theorem journal_lifecycle_witness:
  "\<exists>s t. set_apply_recovery (Some ''c0'') (Some (journal_value fresh_journal)) s = (Inr True, t) \<and>
     journal_moves (wl_apply s) (wl_apply t) \<and> wl_apply t = Some fresh_journal"
proof -
  obtain s where s: "s = sample_daemon\<lparr>wl_claims := 1, wl_ws := wl_ws s, wl_holder := Some (sample_claim ''c0'')\<rparr>"
    and books: "books s (sorted_dict (sample_registry ''c0''))" by (rule sample_history)
  have fields: "wl_holder s = Some (sample_claim ''c0'')" "wl_pid s = 7" "wl_apply s = None" "\<not> wl_recovery s"
    by (subst s, simp add: sample_daemon_def new_lease_def)+
  let ?u = "s\<lparr>wl_apply := Some fresh_journal\<rparr>" and ?sample = "sample_daemon\<lparr>wl_apply := Some fresh_journal\<rparr>"
  have mark: "lease_marker ?u (sample_claim ''c0'') = lease_marker ?sample (sample_claim ''c0'')"
    by (subst s) (simp add: lease_marker_def sample_daemon_def new_lease_def)
  have "fits [(writer_marker_key, PDict (lease_marker ?sample (sample_claim ''c0'')))]" by (rule fits_text; code_simp)
  then obtain v where put: "put_marker (sample_claim ''c0'') ?u = (Inr (Inr ()), ?u\<lparr>wl_ws := v\<rparr>)"
    using booked_put [of ?u, OF _ , of "sorted_dict (sample_registry ''c0'')" "sample_claim ''c0''"] books by (auto simp: mark sample_stored)
  have "digest_eq ''c0'' ''c0'' = Inr True" by code_simp
  with put books fields fresh_validated have run: "set_apply_recovery (Some ''c0'') (Some (journal_value fresh_journal)) s = (Inr True, ?u\<lparr>wl_ws := v\<rparr>)"
    by (simp add: set_apply_recovery_def locked_eq booked_def calm_def names_holder_def seq_simps sample_claim_def
        apply_transition_allowed_def) (simp add: fresh_journal_def)
  have "quiet (wl_ws s)" using books by (simp add: booked_def calm_quiet)
  from journal_lifecycle [OF this run] have "journal_moves (wl_apply s) (wl_apply (?u\<lparr>wl_ws := v\<rparr>))" by blast
  with run show ?thesis by (intro exI [of _ s] exI [of _ "?u\<lparr>wl_ws := v\<rparr>"]) simp
qed

end
