(* ===== verification/Reducers.thy ===== *)
theory Reducers imports Py_Value begin

text \<open>
  The pure reducers of \<open>kaizen_components/fleet/reducers.py\<close>: projections of the
  append-only coordination ledger. An event is one row of the \<open>coord_events\<close> table as
  \<open>FleetStore.coord_events\<close> returns it: the TEXT columns are optional strings, the epoch
  column and the decoded JSON payload are Python values. Dictionaries keyed by a string are
  association lists in insertion order. Every reducer runs over the canonical sequence, so
  the last section derives that replicas with the same rows agree on every projection.
\<close>

record event =
  ev_id :: "string option"
  ev_created :: "string option"
  ev_node :: "string option"
  ev_project :: "string option"
  ev_kind :: "string option"
  ev_marker :: "string option"
  ev_scope :: "string option"
  ev_epoch :: pyval
  ev_payload :: pyval

section \<open>The canonical sequence\<close>

text \<open>
  First occurrence per id wins; an event without an id is keyed by its own identity, so each
  of them stays. The survivors are sorted by \<open>(created_at, id)\<close>; the sort is stable, as
  Python's is.
\<close>

fun dedupe_events :: "string set \<Rightarrow> event list \<Rightarrow> event list" where
  "dedupe_events seen [] = []"
| "dedupe_events seen (e # es) =
     (case ev_id e of
        None \<Rightarrow> e # dedupe_events seen es
      | Some i \<Rightarrow>
          if i \<in> seen then dedupe_events seen es
          else e # dedupe_events (insert i seen) es)"

definition ev_key :: "event \<Rightarrow> string \<times> string" where
  "ev_key e = (opt_str (ev_created e), opt_str (ev_id e))"

definition canonical :: "event list \<Rightarrow> event list" where
  "canonical es = sort_key ev_key (dedupe_events {} es)"

definition ev_payload_dict :: "event \<Rightarrow> pydict" where
  "ev_payload_dict e = dict_or_empty (ev_payload e)"

definition is_event :: "string \<Rightarrow> string \<Rightarrow> event \<Rightarrow> bool" where
  "is_event kind marker e = (ev_kind e = Some kind \<and> ev_marker e = Some marker)"

text \<open>\<open>_epoch\<close>: an absent or non-numeric epoch is \<open>-1\<close>.\<close>

definition event_epoch :: "event \<Rightarrow> int" where
  "event_epoch e = (case py_int (ev_epoch e) of None \<Rightarrow> - 1 | Some n \<Rightarrow> n)"

definition max_epoch :: "event list \<Rightarrow> int" where
  "max_epoch es = fold (\<lambda>e highest. max highest (event_epoch e)) es (- 1)"

section \<open>Nodes\<close>

record node_proj =
  np_node_id :: string
  np_role :: pyval
  np_tailnet_name :: pyval
  np_last_registered_at :: "string option"
  np_last_heartbeat :: "string option"
  np_retired :: bool

definition new_node :: "string \<Rightarrow> node_proj" where
  "new_node node = \<lparr>np_node_id = node, np_role = PNone, np_tailnet_name = PNone,
     np_last_registered_at = None, np_last_heartbeat = None, np_retired = False\<rparr>"

definition node_entry_step :: "event \<Rightarrow> node_proj \<Rightarrow> node_proj" where
  "node_entry_step e entry =
     (if ev_kind e = Some ''node'' then
        (if ev_marker e = Some ''registered'' \<or> ev_marker e = Some ''updated'' then
           (let payload = ev_payload_dict e in
            entry\<lparr>np_role := dget_default payload ''role'' (np_role entry),
                  np_tailnet_name := dget_default payload ''tailnet_name'' (np_tailnet_name entry),
                  np_last_registered_at := ev_created e,
                  np_retired := False\<rparr>)
         else if ev_marker e = Some ''retired'' then entry\<lparr>np_retired := True\<rparr>
         else entry)
      else if is_event ''heartbeat'' ''point'' e then entry\<lparr>np_last_heartbeat := ev_created e\<rparr>
      else entry)"

definition node_step :: "event \<Rightarrow> (string \<times> node_proj) list \<Rightarrow> (string \<times> node_proj) list" where
  "node_step e nodes =
     (case ev_node e of
        None \<Rightarrow> nodes
      | Some node \<Rightarrow>
          if node = [] then nodes
          else (let entry = (case map_of nodes node of None \<Rightarrow> new_node node | Some n \<Rightarrow> n)
                in AList.update node (node_entry_step e entry) nodes))"

definition reduce_nodes :: "event list \<Rightarrow> (string \<times> node_proj) list" where
  "reduce_nodes es = fold node_step (canonical es) []"

section \<open>Coordinator\<close>

record coord_proj =
  cp_holder :: pyval
  cp_epoch :: int
  cp_mode :: string
  cp_id :: "string option"
  cp_iso :: bool
  cp_iso_sentinel :: pyval

definition coordinator_holder :: "event \<Rightarrow> pyval" where
  "coordinator_holder e =
     (let to_node = dget (ev_payload_dict e) ''to_node''
      in if py_truthy to_node then to_node else of_opt_str (ev_node e))"

definition coordinator_mode :: "event \<Rightarrow> string" where
  "coordinator_mode e =
     (let mode = dget (ev_payload_dict e) ''mode''
      in if mode = PStr ''pinned'' then ''pinned'' else ''roaming'')"

definition released_epochs :: "event list \<Rightarrow> int list" where
  "released_epochs cs = map event_epoch (filter (is_event ''coordinator'' ''released'') cs)"

definition has_granted :: "event list \<Rightarrow> bool" where
  "has_granted cs = list_ex (is_event ''coordinator'' ''granted'') cs"

definition authoritative_marker :: "event list \<Rightarrow> string" where
  "authoritative_marker cs = (if has_granted cs then ''granted'' else ''claimed'')"

definition coord_key :: "event \<Rightarrow> int \<times> string \<times> string" where
  "coord_key e = (event_epoch e, ev_key e)"

definition coord_candidates :: "event list \<Rightarrow> event list" where
  "coord_candidates cs =
     filter (\<lambda>e. is_event ''coordinator'' (authoritative_marker cs) e \<and>
                 event_epoch e \<notin> set (released_epochs cs)) cs"

definition coord_entry :: "event \<Rightarrow> coord_proj" where
  "coord_entry e =
     (let payload = ev_payload_dict e; iso = py_truthy (dget payload ''iso'');
          sentinel = dget payload ''iso_sentinel''
      in \<lparr>cp_holder = coordinator_holder e, cp_epoch = event_epoch e,
          cp_mode = coordinator_mode e, cp_id = ev_id e, cp_iso = iso,
          cp_iso_sentinel = (if iso \<and> py_truthy sentinel then sentinel else PNone)\<rparr>)"

definition no_coordinator :: coord_proj where
  "no_coordinator = \<lparr>cp_holder = PNone, cp_epoch = - 1, cp_mode = ''roaming'', cp_id = None,
     cp_iso = False, cp_iso_sentinel = PNone\<rparr>"

definition reduce_coordinator :: "event list \<Rightarrow> coord_proj" where
  "reduce_coordinator es =
     (case fold_best coord_key (coord_candidates (canonical es)) of
        None \<Rightarrow> no_coordinator
      | Some e \<Rightarrow> coord_entry e)"

section \<open>Leases\<close>

datatype lease_state = Held | Free | Expired

record lease_proj =
  lp_scope_key :: string
  lp_holder :: pyval
  lp_epoch :: int
  lp_grant_seq :: int
  lp_state :: lease_state
  lp_expires_at :: pyval
  lp_id :: "string option"
  lp_mode :: string

definition grant_seq :: "event \<Rightarrow> int" where
  "grant_seq e = (case py_int (dget (ev_payload_dict e) ''grant_seq'') of None \<Rightarrow> 0 | Some n \<Rightarrow> n)"

definition release_all :: int where
  "release_all = 2 ^ 62"

definition is_release :: "event \<Rightarrow> bool" where
  "is_release e = (ev_kind e = Some ''lease'' \<and>
     (ev_marker e = Some ''released'' \<or> ev_marker e = Some ''revoked'' \<or> ev_marker e = Some ''expired''))"

definition release_seq :: "event \<Rightarrow> int" where
  "release_seq e =
     (if dget (ev_payload_dict e) ''grant_seq'' \<noteq> PNone then grant_seq e else release_all)"

definition released_level :: "((string \<times> int) \<times> int) list \<Rightarrow> string \<times> int \<Rightarrow> int" where
  "released_level rel key = (case map_of rel key of None \<Rightarrow> - 1 | Some n \<Rightarrow> n)"

definition release_step ::
    "event \<Rightarrow> ((string \<times> int) \<times> int) list \<Rightarrow> ((string \<times> int) \<times> int) list" where
  "release_step e rel =
     (if is_release e then
        (case ev_scope e of
           None \<Rightarrow> rel
         | Some scope \<Rightarrow>
             (let key = (scope, event_epoch e)
              in AList.update key (max (released_level rel key) (release_seq e)) rel))
      else rel)"

definition released_up_to :: "event list \<Rightarrow> ((string \<times> int) \<times> int) list" where
  "released_up_to cs = fold release_step cs []"

definition lease_key :: "event \<Rightarrow> int \<times> int \<times> string \<times> string" where
  "lease_key e = (event_epoch e, grant_seq e, ev_key e)"

definition is_grant :: "event \<Rightarrow> bool" where
  "is_grant e = is_event ''lease'' ''granted'' e"

definition grant_scope :: "event \<Rightarrow> string option" where
  "grant_scope e = (if is_grant e then ev_scope e else None)"

definition lease_holder :: "event \<Rightarrow> pyval" where
  "lease_holder e = py_or (dget (ev_payload_dict e) ''holder'') (of_opt_str (ev_node e))"

definition lease_mode :: "event \<Rightarrow> string" where
  "lease_mode e =
     (if dget (ev_payload_dict e) ''mode'' = PStr ''authoritative'' then ''authoritative''
      else ''advisory'')"

definition grant_freed :: "((string \<times> int) \<times> int) list \<Rightarrow> string \<Rightarrow> event \<Rightarrow> bool" where
  "grant_freed rel scope e = (grant_seq e \<le> released_level rel (scope, event_epoch e))"

definition grant_expired :: "string option \<Rightarrow> event \<Rightarrow> bool" where
  "grant_expired now e =
     (let expires_at = dget (ev_payload_dict e) ''expires_at'' in
      case now of None \<Rightarrow> False
      | Some t \<Rightarrow> py_truthy expires_at \<and> py_str expires_at < t)"

definition lease_entry ::
    "string option \<Rightarrow> ((string \<times> int) \<times> int) list \<Rightarrow> string \<Rightarrow> event \<Rightarrow> lease_proj" where
  "lease_entry now rel scope e =
     (let state = (if grant_freed rel scope e then Free
                   else if grant_expired now e then Expired else Held)
      in \<lparr>lp_scope_key = scope,
          lp_holder = (if state = Held then lease_holder e else PNone),
          lp_epoch = event_epoch e, lp_grant_seq = grant_seq e, lp_state = state,
          lp_expires_at = dget (ev_payload_dict e) ''expires_at'', lp_id = ev_id e,
          lp_mode = lease_mode e\<rparr>)"

definition reduce_lease :: "event list \<Rightarrow> string option \<Rightarrow> (string \<times> lease_proj) list" where
  "reduce_lease es now =
     (let cs = canonical es; rel = released_up_to cs
      in map (\<lambda>(scope, e). (scope, lease_entry now rel scope e)) (group_best grant_scope lease_key cs))"

section \<open>Conflicts\<close>

record conflict_proj =
  xp_id :: string
  xp_scope_key :: "string option"
  xp_created_at :: "string option"
  xp_decision :: pyval
  xp_options :: pyval
  xp_recommendation :: pyval

definition conflict_entry :: "string \<Rightarrow> event \<Rightarrow> conflict_proj" where
  "conflict_entry eid e =
     \<lparr>xp_id = eid, xp_scope_key = ev_scope e, xp_created_at = ev_created e,
      xp_decision = dget (ev_payload_dict e) ''decision'',
      xp_options = dget (ev_payload_dict e) ''options'',
      xp_recommendation = dget (ev_payload_dict e) ''recommendation''\<rparr>"

definition detected_step :: "event \<Rightarrow> (string \<times> conflict_proj) list \<Rightarrow> (string \<times> conflict_proj) list" where
  "detected_step e detected =
     (if is_event ''conflict'' ''detected'' e then
        (case ev_id e of None \<Rightarrow> detected | Some eid \<Rightarrow> AList.update eid (conflict_entry eid e) detected)
      else detected)"

definition resolved_ids :: "event list \<Rightarrow> string list" where
  "resolved_ids cs =
     concat (map (\<lambda>e. let source = dget (ev_payload_dict e) ''source_conflict_id''
                      in if source = PNone then [] else [py_str source])
       (filter (is_event ''conflict'' ''resolved'') cs))"

definition conflict_key :: "conflict_proj \<Rightarrow> string \<times> string" where
  "conflict_key x = (opt_str (xp_created_at x), xp_id x)"

definition reduce_conflicts :: "event list \<Rightarrow> conflict_proj list \<times> nat" where
  "reduce_conflicts es =
     (let cs = canonical es; detected = fold detected_step cs []; resolved = resolved_ids cs
      in (sort_key conflict_key (map snd (filter (\<lambda>(eid, x). eid \<notin> set resolved) detected)),
          length (filter (is_event ''conflict'' ''resolved'') cs)))"

section \<open>Dispatches\<close>

record dispatch_proj =
  dp_dispatch_id :: string
  dp_state :: "string option"
  dp_target_node :: pyval
  dp_scope_key :: "string option"
  dp_origin_node :: pyval
  dp_id :: "string option"
  dp_created_at :: "string option"
  dp_artifact :: "(pyval \<times> pyval \<times> pyval) option"

definition new_dispatch :: "string \<Rightarrow> dispatch_proj" where
  "new_dispatch i = \<lparr>dp_dispatch_id = i, dp_state = None, dp_target_node = PNone,
     dp_scope_key = None, dp_origin_node = PNone, dp_id = None, dp_created_at = None,
     dp_artifact = None\<rparr>"

definition dispatch_rank :: "string \<Rightarrow> int option" where
  "dispatch_rank marker = map_of [(''requested'', 0), (''accepted'', 1), (''started'', 2),
     (''completed'', 3), (''failed'', 3), (''canceled'', 3)] marker"

definition dispatch_terminal :: "string \<Rightarrow> bool" where
  "dispatch_terminal marker = (marker \<in> {''completed'', ''failed'', ''canceled''})"

text \<open>The marker, its rank and the dispatch id of an event the projection counts.\<close>

definition dispatch_of :: "event \<Rightarrow> (string \<times> int \<times> string) option" where
  "dispatch_of e =
     (if ev_kind e = Some ''dispatch'' then
        (case ev_marker e of None \<Rightarrow> None
         | Some marker \<Rightarrow>
             (case dispatch_rank marker of None \<Rightarrow> None
              | Some rank \<Rightarrow>
                  (let i = dget (ev_payload_dict e) ''dispatch_id''
                   in if py_truthy i then Some (marker, rank, py_str i) else None)))
      else None)"

definition carry_facts :: "event \<Rightarrow> string \<Rightarrow> dispatch_proj \<Rightarrow> dispatch_proj" where
  "carry_facts e marker entry =
     (let payload = ev_payload_dict e; target = dget payload ''target_node'';
          origin = dget payload ''origin_node''; artifact = dget payload ''artifact'';
          entry = (if target \<noteq> PNone then entry\<lparr>dp_target_node := target\<rparr> else entry);
          entry = (if origin \<noteq> PNone then entry\<lparr>dp_origin_node := origin\<rparr> else entry);
          entry = (case ev_scope e of None \<Rightarrow> entry | Some s \<Rightarrow> entry\<lparr>dp_scope_key := Some s\<rparr>)
      in if marker = ''completed'' \<and> artifact \<noteq> PNone
         then entry\<lparr>dp_artifact := Some (artifact, dget payload ''sha'', dget payload ''branch'')\<rparr>
         else entry)"

type_synonym dispatch_acc = "(string \<times> dispatch_proj \<times> (int \<times> string \<times> string) option) list"

definition dispatch_step :: "event \<Rightarrow> dispatch_acc \<Rightarrow> dispatch_acc" where
  "dispatch_step e out =
     (case dispatch_of e of
        None \<Rightarrow> out
      | Some (marker, rank, i) \<Rightarrow>
          (let (entry, prior) = (case map_of out i of None \<Rightarrow> (new_dispatch i, None) | Some x \<Rightarrow> x);
               entry = carry_facts e marker entry;
               key = (rank, ev_key e)
           in AList.update i
                (case prior of
                   None \<Rightarrow>
                     (entry\<lparr>dp_state := Some marker, dp_id := ev_id e, dp_created_at := ev_created e\<rparr>, Some key)
                 | Some k \<Rightarrow>
                     if k < key
                     then (entry\<lparr>dp_state := Some marker, dp_id := ev_id e, dp_created_at := ev_created e\<rparr>, Some key)
                     else (entry, Some k)) out))"

definition reduce_dispatches :: "event list \<Rightarrow> (string \<times> dispatch_proj) list" where
  "reduce_dispatches es =
     map (\<lambda>(i, entry, key). (i, entry)) (fold dispatch_step (canonical es) [])"

section \<open>What the canonical sequence keeps\<close>

text \<open>
  A ledger whose rows carry distinct ids (the primary key of \<open>coord_events\<close>): two
  occurrences of one id are the same row.
\<close>

definition wf_ledger :: "event list \<Rightarrow> bool" where
  "wf_ledger es \<longleftrightarrow> (\<forall>e \<in> set es. ev_id e \<noteq> None) \<and> inj_on ev_id (set es)"

lemma wf_ledgerD:
  "wf_ledger es \<Longrightarrow> e \<in> set es \<Longrightarrow> \<exists>i. ev_id e = Some i"
  "wf_ledger es \<Longrightarrow> e \<in> set es \<Longrightarrow> e' \<in> set es \<Longrightarrow> ev_id e = ev_id e' \<Longrightarrow> e = e'"
  by (auto simp: wf_ledger_def dest: inj_onD)

lemma wf_ledger_cong: "set es = set es' \<Longrightarrow> wf_ledger es = wf_ledger es'"
  by (simp add: wf_ledger_def)

lemma wf_ledger_subset: "wf_ledger es \<Longrightarrow> set es' \<subseteq> set es \<Longrightarrow> wf_ledger es'"
  by (auto simp: wf_ledger_def intro: inj_on_subset)

lemma wf_ledger_Cons: "wf_ledger (e # es) \<Longrightarrow> wf_ledger es"
  by (erule wf_ledger_subset) auto

lemma wf_ledger_snocI:
  "wf_ledger es \<Longrightarrow> ev_id e = Some i \<Longrightarrow> Some i \<notin> ev_id ` set es \<Longrightarrow> wf_ledger (es @ [e])"
  by (auto simp: wf_ledger_def inj_on_def image_iff)

lemma set_dedupe_subset: "set (dedupe_events seen es) \<subseteq> set es"
  by (induction es arbitrary: seen) (auto split: option.splits if_splits)

lemma set_dedupe:
  "wf_ledger es \<Longrightarrow> set (dedupe_events seen es) = {e \<in> set es. the (ev_id e) \<notin> seen}"
proof (induction es arbitrary: seen)
  case Nil
  then show ?case by simp
next
  case (Cons e es)
  from Cons.prems have wf: "wf_ledger es" by (rule wf_ledger_Cons)
  obtain i where i: "ev_id e = Some i"
    using wf_ledgerD(1) [OF Cons.prems, of e] by auto
  have same: "e' = e" if "e' \<in> set es" "the (ev_id e') = i" for e'
    using wf_ledgerD [OF Cons.prems, of e'] that i by (cases "ev_id e'") auto
  show ?case
    using Cons.IH [OF wf] i by (auto dest: same)
qed

lemma distinct_dedupe:
  "wf_ledger es \<Longrightarrow> distinct (dedupe_events seen es)"
proof (induction es arbitrary: seen)
  case Nil
  then show ?case by simp
next
  case (Cons e es)
  from Cons.prems have wf: "wf_ledger es" by (rule wf_ledger_Cons)
  obtain i where i: "ev_id e = Some i"
    using wf_ledgerD(1) [OF Cons.prems, of e] by auto
  have "e \<notin> set (dedupe_events (insert i seen) es)"
    using i by (simp add: set_dedupe [OF wf])
  with Cons.IH [OF wf] i show ?case by simp
qed

lemma set_canonical_subset: "set (canonical es) \<subseteq> set es"
  using set_dedupe_subset by (simp add: canonical_def)

lemma set_canonical [simp]: "wf_ledger es \<Longrightarrow> set (canonical es) = set es"
  by (simp add: canonical_def set_dedupe)

lemma distinct_canonical: "wf_ledger es \<Longrightarrow> distinct (canonical es)"
  by (simp add: canonical_def distinct_dedupe)

lemma sorted_canonical: "sorted (map ev_key (canonical es))"
  by (simp add: canonical_def)

lemma inj_on_ev_key: "wf_ledger es \<Longrightarrow> inj_on ev_key (set es)"
proof (rule inj_onI)
  fix x y assume wf: "wf_ledger es" and xy: "x \<in> set es" "y \<in> set es" and "ev_key x = ev_key y"
  moreover obtain i j where "ev_id x = Some i" "ev_id y = Some j"
    using wf_ledgerD(1) [OF wf] xy by blast
  ultimately have "ev_id x = ev_id y" by (simp add: ev_key_def)
  with wf xy show "x = y" by (blast dest: wf_ledgerD(2))
qed

lemma canonical_cong:
  assumes "wf_ledger es" "set es = set es'" shows "canonical es = canonical es'"
proof -
  have wf': "wf_ledger es'" using assms wf_ledger_cong by blast
  show ?thesis
    using assms wf' set_canonical [OF assms(1)] set_canonical [OF wf']
    by (intro sorted_key_unique [of _ _ ev_key])
      (simp_all add: distinct_canonical inj_on_ev_key sorted_canonical)
qed

lemma max_epoch_snoc [simp]: "max_epoch (es @ [e]) = max (max_epoch es) (event_epoch e)"
  by (simp add: max_epoch_def)

lemma max_epoch_Nil [simp]: "max_epoch [] = - 1"
  by (simp add: max_epoch_def)

lemma max_epoch_eq: "max_epoch es = Max (insert (- 1) (event_epoch ` set es))"
proof (induction es rule: rev_induct)
  case (snoc e es)
  have "insert (- 1) (event_epoch ` set (es @ [e])) = insert (event_epoch e) (insert (- 1) (event_epoch ` set es))"
    by auto
  with snoc show ?case by (simp only: max_epoch_snoc) (simp add: max.commute)
qed simp

lemma max_epoch_ge: "e \<in> set es \<Longrightarrow> event_epoch e \<le> max_epoch es"
  by (simp add: max_epoch_eq)

lemma max_epoch_lower: "- 1 \<le> max_epoch es"
  by (simp add: max_epoch_eq)

section \<open>The coordinator projection is the maximum of the eligible claims\<close>

definition eligible :: "event list \<Rightarrow> event \<Rightarrow> bool" where
  "eligible es e \<longleftrightarrow>
     is_event ''coordinator''
       (if \<exists>g \<in> set es. is_event ''coordinator'' ''granted'' g then ''granted'' else ''claimed'') e \<and>
     \<not> (\<exists>r \<in> set es. is_event ''coordinator'' ''released'' r \<and> event_epoch r = event_epoch e)"

lemma set_coord_candidates:
  "wf_ledger es \<Longrightarrow> set (coord_candidates (canonical es)) = {e \<in> set es. eligible es e}"
  by (auto simp: coord_candidates_def eligible_def authoritative_marker_def has_granted_def
      list_ex_iff released_epochs_def image_iff dest: sym)

lemma reduce_coordinator_cases:
  assumes "wf_ledger es"
  obtains (winner) e where "e \<in> set es" "eligible es e"
      "\<And>e'. e' \<in> set es \<Longrightarrow> eligible es e' \<Longrightarrow> coord_key e' \<le> coord_key e"
      "reduce_coordinator es = coord_entry e"
  | (vacant) "\<And>e. e \<in> set es \<Longrightarrow> \<not> eligible es e" "reduce_coordinator es = no_coordinator"
proof (cases "fold_best coord_key (coord_candidates (canonical es))")
  case None
  then have "{e \<in> set es. eligible es e} = {}"
    by (simp flip: set_coord_candidates [OF assms])
  with None vacant show thesis by (auto simp: reduce_coordinator_def)
next
  case (Some e)
  from fold_best_SomeD [OF this] winner [of e] Some show thesis
    by (simp add: set_coord_candidates [OF assms] reduce_coordinator_def)
qed

lemma coord_key_inj:
  assumes "wf_ledger es" "x \<in> set es" "y \<in> set es" "coord_key x = coord_key y" shows "x = y"
  using inj_on_ev_key [OF assms(1)] assms(2-4) by (auto simp: coord_key_def dest: inj_onD)

lemma reduce_coordinator_eqI:
  assumes wf: "wf_ledger es" and e: "e \<in> set es" "eligible es e"
    and max: "\<And>e'. e' \<in> set es \<Longrightarrow> eligible es e' \<Longrightarrow> coord_key e' \<le> coord_key e"
  shows "reduce_coordinator es = coord_entry e"
  using wf
proof (cases rule: reduce_coordinator_cases)
  case (winner e')
  then have "coord_key e' = coord_key e"
    using e max by (meson order.antisym)
  with coord_key_inj [OF wf winner(1) e(1)] winner(4) show ?thesis by simp
next
  case vacant
  with e show ?thesis by blast
qed

lemma coord_entry_epoch [simp]: "cp_epoch (coord_entry e) = event_epoch e"
  by (simp add: coord_entry_def Let_def)

lemma coord_entry_id [simp]: "cp_id (coord_entry e) = ev_id e"
  by (simp add: coord_entry_def Let_def)

lemma coord_entry_holder [simp]: "cp_holder (coord_entry e) = coordinator_holder e"
  by (simp add: coord_entry_def Let_def)

lemma coord_entry_mode [simp]: "cp_mode (coord_entry e) = coordinator_mode e"
  by (simp add: coord_entry_def Let_def)

lemma no_coordinator_simps [simp]:
  "cp_holder no_coordinator = PNone" "cp_epoch no_coordinator = - 1"
  "cp_mode no_coordinator = ''roaming''" "cp_id no_coordinator = None"
  "cp_iso no_coordinator = False" "cp_iso_sentinel no_coordinator = PNone"
  by (simp_all add: no_coordinator_def)

text \<open>What a batch of further rows does to the eligible set once a grant exists.\<close>

lemma eligible_append_low:
  assumes granted: "\<exists>g \<in> set es. is_event ''coordinator'' ''granted'' g"
    and low: "\<And>x. x \<in> set xs \<Longrightarrow> is_event ''coordinator'' ''claimed'' x \<or> event_epoch x < n"
    and "n \<le> event_epoch e"
  shows "eligible (es @ xs) e \<longleftrightarrow> eligible es e"
proof -
  have "event_epoch r \<noteq> event_epoch e" if "r \<in> set xs" "is_event ''coordinator'' ''released'' r" for r
    using low [OF that(1)] that(2) assms(3) by (auto simp: is_event_def)
  with granted show ?thesis by (auto simp: eligible_def)
qed

lemma reduce_coordinator_append_low:
  assumes wf: "wf_ledger (es @ xs)"
    and granted: "\<exists>g \<in> set es. is_event ''coordinator'' ''granted'' g"
    and held: "cp_id (reduce_coordinator es) \<noteq> None"
    and low: "\<And>x. x \<in> set xs \<Longrightarrow>
      is_event ''coordinator'' ''claimed'' x \<or> event_epoch x < cp_epoch (reduce_coordinator es)"
  shows "reduce_coordinator (es @ xs) = reduce_coordinator es"
proof -
  have wf': "wf_ledger es" by (rule wf_ledger_subset [OF wf]) simp
  then show ?thesis
  proof (cases rule: reduce_coordinator_cases)
    case vacant
    with held show ?thesis by simp
  next
    case (winner e)
    let ?n = "event_epoch e"
    have same: "eligible (es @ xs) e' \<longleftrightarrow> eligible es e'" if "?n \<le> event_epoch e'" for e'
      using granted that low winner(4) by (intro eligible_append_low [of es xs ?n]) auto
    have "reduce_coordinator (es @ xs) = coord_entry e"
    proof (rule reduce_coordinator_eqI [OF wf])
      show "e \<in> set (es @ xs)" "eligible (es @ xs) e"
        using winner(1,2) same by auto
      fix e' assume e': "e' \<in> set (es @ xs)" "eligible (es @ xs) e'"
      show "coord_key e' \<le> coord_key e"
      proof (cases "event_epoch e' < ?n")
        case True
        then show ?thesis by (simp add: coord_key_def)
      next
        case False
        then have el: "eligible es e'" using same e'(2) by simp
        have "e' \<in> set es"
        proof (rule ccontr)
          assume "e' \<notin> set es"
          with e'(1) low winner(4) False have "is_event ''coordinator'' ''claimed'' e'" by auto
          with el granted show False by (auto simp: eligible_def is_event_def)
        qed
        with el winner(3) show ?thesis by blast
      qed
    qed
    with winner(4) show ?thesis by simp
  qed
qed

section \<open>The lease projection: the top grant of a scope and what frees it\<close>

lemma released_level_update [simp]:
  "released_level (AList.update k n rel) key = (if key = k then n else released_level rel key)"
  by (simp add: released_level_def)

lemma released_level_up_to:
  "n \<le> released_level (released_up_to cs) (scope, ep) \<longleftrightarrow>
     n \<le> - 1 \<or> (\<exists>r \<in> set cs. is_release r \<and> ev_scope r = Some scope \<and> event_epoch r = ep \<and> n \<le> release_seq r)"
proof (induction cs rule: rev_induct)
  case Nil
  then show ?case by (simp add: released_up_to_def released_level_def)
next
  case (snoc r cs)
  have "released_up_to (cs @ [r]) = release_step r (released_up_to cs)"
    by (simp add: released_up_to_def)
  with snoc show ?case
    by (auto simp: release_step_def Let_def le_max_iff_disj split: option.splits)
qed

definition freed :: "event list \<Rightarrow> string \<Rightarrow> event \<Rightarrow> bool" where
  "freed es scope g \<longleftrightarrow> grant_seq g \<le> - 1 \<or>
     (\<exists>r \<in> set es. is_release r \<and> ev_scope r = Some scope \<and> event_epoch r = event_epoch g \<and>
        grant_seq g \<le> release_seq r)"

lemma grant_freed_iff:
  "wf_ledger es \<Longrightarrow> grant_freed (released_up_to (canonical es)) scope g \<longleftrightarrow> freed es scope g"
  by (simp add: grant_freed_def released_level_up_to freed_def)

lemma map_of_map_snd_key: "map_of (map (\<lambda>(k, v). (k, f k v)) d) x = map_option (f x) (map_of d x)"
  by (induction d) auto

lemma lookup_reduce_lease:
  "map_of (reduce_lease es now) scope =
     map_option (lease_entry now (released_up_to (canonical es)) scope)
       (fold_best lease_key (filter (\<lambda>e. grant_scope e = Some scope) (canonical es)))"
  by (simp add: reduce_lease_def Let_def map_of_map_snd_key map_of_group_best)

lemma distinct_reduce_lease: "distinct (map fst (reduce_lease es now))"
proof -
  have "map fst (reduce_lease es now) = map fst (group_best grant_scope lease_key (canonical es))"
    by (simp add: reduce_lease_def Let_def case_prod_beta comp_def)
  then show ?thesis by (simp add: distinct_group_best)
qed

definition scope_grant :: "string \<Rightarrow> event \<Rightarrow> bool" where
  "scope_grant scope e \<longleftrightarrow> is_grant e \<and> ev_scope e = Some scope"

lemma grant_scope_iff [simp]: "grant_scope e = Some scope \<longleftrightarrow> scope_grant scope e"
  by (auto simp: grant_scope_def scope_grant_def)

definition lease_state_of :: "string option \<Rightarrow> event list \<Rightarrow> string \<Rightarrow> event \<Rightarrow> lease_state" where
  "lease_state_of now es scope g =
     (if freed es scope g then Free else if grant_expired now g then Expired else Held)"

lemma lease_entry_simps:
  assumes "wf_ledger es" and "l = lease_entry now (released_up_to (canonical es)) scope g"
  shows "lp_state l = lease_state_of now es scope g"
    and "lp_holder l = (if lease_state_of now es scope g = Held then lease_holder g else PNone)"
    and "lp_epoch l = event_epoch g" and "lp_grant_seq l = grant_seq g" and "lp_id l = ev_id g"
    and "lp_scope_key l = scope" and "lp_mode l = lease_mode g"
    and "lp_expires_at l = dget (ev_payload_dict g) ''expires_at''"
  using assms(2) by (simp_all add: lease_entry_def Let_def lease_state_of_def grant_freed_iff [OF assms(1)])

lemma lookup_lease_cases:
  assumes "wf_ledger es"
  obtains (none) "\<And>e. e \<in> set es \<Longrightarrow> \<not> scope_grant scope e" "map_of (reduce_lease es now) scope = None"
  | (top) g where "g \<in> set es" "scope_grant scope g"
      "\<And>e. e \<in> set es \<Longrightarrow> scope_grant scope e \<Longrightarrow> lease_key e \<le> lease_key g"
      "map_of (reduce_lease es now) scope =
         Some (lease_entry now (released_up_to (canonical es)) scope g)"
proof (cases "fold_best lease_key (filter (scope_grant scope) (canonical es))")
  case None
  then have "\<not> scope_grant scope e" if "e \<in> set es" for e
    using that assms by (simp add: filter_empty_conv)
  with None none show thesis by (simp add: lookup_reduce_lease)
next
  case (Some g)
  from fold_best_SomeD [OF this] top [of g] Some show thesis
    by (simp add: lookup_reduce_lease assms)
qed

lemma lease_key_inj:
  assumes "wf_ledger es" "x \<in> set es" "y \<in> set es" "lease_key x = lease_key y" shows "x = y"
  using inj_on_ev_key [OF assms(1)] assms(2-4) by (auto simp: lease_key_def dest: inj_onD)

lemma lookup_lease_eqI:
  assumes wf: "wf_ledger es" and g: "g \<in> set es" "scope_grant scope g"
    and max: "\<And>e. e \<in> set es \<Longrightarrow> scope_grant scope e \<Longrightarrow> lease_key e \<le> lease_key g"
  shows "map_of (reduce_lease es now) scope =
     Some (lease_entry now (released_up_to (canonical es)) scope g)"
  using wf
proof (cases rule: lookup_lease_cases [of es scope now])
  case none
  with g show ?thesis by blast
next
  case (top g')
  then have "lease_key g' = lease_key g"
    using g max by (meson order.antisym)
  with lease_key_inj [OF wf top(1) g(1)] top(4) show ?thesis by simp
qed

section \<open>Conflicts: membership decides, not order\<close>

definition conflict_resolved :: "event list \<Rightarrow> string \<Rightarrow> bool" where
  "conflict_resolved es eid \<longleftrightarrow>
     (\<exists>r \<in> set es. is_event ''conflict'' ''resolved'' r \<and>
        dget (ev_payload_dict r) ''source_conflict_id'' \<noteq> PNone \<and>
        py_str (dget (ev_payload_dict r) ''source_conflict_id'') = eid)"

lemma set_resolved_ids: "eid \<in> set (resolved_ids cs) \<longleftrightarrow> conflict_resolved cs eid"
  by (auto simp: resolved_ids_def conflict_resolved_def Let_def split: if_splits)

definition detected_as :: "string \<Rightarrow> event \<Rightarrow> bool" where
  "detected_as eid e \<longleftrightarrow> is_event ''conflict'' ''detected'' e \<and> ev_id e = Some eid"

lemma detected_step_lookup:
  "map_of (detected_step e d) eid = (if detected_as eid e then Some (conflict_entry eid e) else map_of d eid)"
  by (auto simp: detected_step_def detected_as_def split: option.splits)

lemma detected_fold:
  "inj_on ev_id (set cs) \<Longrightarrow>
     map_of (fold detected_step cs []) eid = Some x \<longleftrightarrow>
     (\<exists>e \<in> set cs. detected_as eid e \<and> x = conflict_entry eid e)"
proof (induction cs rule: rev_induct)
  case Nil
  then show ?case by simp
next
  case (snoc e cs)
  have unique: "e' = e" if "e' \<in> set cs" "detected_as eid e'" "detected_as eid e" for e'
    using inj_onD [OF snoc.prems, of e' e] that by (simp add: detected_as_def)
  from snoc.prems have "inj_on ev_id (set cs)" by (rule inj_on_subset) auto
  from snoc.IH [OF this] unique show ?case
    by (auto simp: detected_step_lookup)
qed

lemma distinct_detected_fold: "distinct (map fst (fold detected_step cs []))"
  by (induction cs rule: rev_induct)
    (auto simp: detected_step_def distinct_keys_update split: option.splits)

lemma set_open_conflicts:
  assumes wf: "wf_ledger es"
  shows "x \<in> set (fst (reduce_conflicts es)) \<longleftrightarrow>
    (\<exists>eid. \<exists>e \<in> set es. detected_as eid e \<and> x = conflict_entry eid e \<and> \<not> conflict_resolved es eid)"
proof -
  let ?cs = "canonical es" and ?d = "fold detected_step (canonical es) []"
  have inj: "inj_on ev_id (set ?cs)"
    using wf set_canonical [OF wf] by (simp add: wf_ledger_def)
  have res: "eid \<in> set (resolved_ids ?cs) \<longleftrightarrow> conflict_resolved es eid" for eid
    unfolding set_resolved_ids conflict_resolved_def using set_canonical [OF wf] by simp
  have det: "(eid, y) \<in> set ?d \<longleftrightarrow> (\<exists>e \<in> set es. detected_as eid e \<and> y = conflict_entry eid e)" for eid y
    using detected_fold [OF inj, of eid y] map_of_eq_Some_iff [OF distinct_detected_fold [of ?cs], of eid y]
    by (simp add: set_canonical [OF wf])
  have "x \<in> set (fst (reduce_conflicts es)) \<longleftrightarrow>
      (\<exists>eid. (eid, x) \<in> set ?d \<and> eid \<notin> set (resolved_ids ?cs))"
    by (force simp: reduce_conflicts_def Let_def)
  then show ?thesis
    unfolding res det by blast
qed

section \<open>Dispatches: the lifecycle-latest marker wins\<close>

definition for_dispatch :: "string \<Rightarrow> event \<Rightarrow> bool" where
  "for_dispatch i e \<longleftrightarrow> (case dispatch_of e of None \<Rightarrow> False | Some (marker, rank, j) \<Rightarrow> j = i)"

definition dispatch_key :: "event \<Rightarrow> int \<times> string \<times> string" where
  "dispatch_key e = (case dispatch_of e of None \<Rightarrow> - 1 | Some (marker, rank, j) \<Rightarrow> rank, ev_key e)"

lemma carry_facts_state [simp]:
  "dp_state (carry_facts e m x) = dp_state x" "dp_id (carry_facts e m x) = dp_id x"
  "dp_created_at (carry_facts e m x) = dp_created_at x"
  "dp_dispatch_id (carry_facts e m x) = dp_dispatch_id x"
  by (auto simp: carry_facts_def Let_def split: option.splits)

lemma dispatch_of_SomeD:
  "dispatch_of e = Some (marker, rank, i) \<Longrightarrow>
     ev_kind e = Some ''dispatch'' \<and> ev_marker e = Some marker \<and> dispatch_rank marker = Some rank"
  by (auto simp: dispatch_of_def Let_def split: if_splits option.splits)

lemma dispatch_step_new:
  assumes "dispatch_of e = Some (marker, rank, i)" "map_of out i = None"
  shows "map_of (dispatch_step e out) i =
    Some ((carry_facts e marker (new_dispatch i))
            \<lparr>dp_state := Some marker, dp_id := ev_id e, dp_created_at := ev_created e\<rparr>, Some (rank, ev_key e))"
  using assms by (simp add: dispatch_step_def Let_def)

lemma dispatch_step_old:
  assumes "dispatch_of e = Some (marker, rank, i)" "map_of out i = Some (entry, Some k)"
  shows "map_of (dispatch_step e out) i =
    Some (if k < (rank, ev_key e)
          then ((carry_facts e marker entry)
            \<lparr>dp_state := Some marker, dp_id := ev_id e, dp_created_at := ev_created e\<rparr>, Some (rank, ev_key e))
          else (carry_facts e marker entry, Some k))"
  using assms by (simp add: dispatch_step_def Let_def)

lemma dispatch_step_other:
  "\<not> for_dispatch i e \<Longrightarrow> map_of (dispatch_step e out) i = map_of out i"
  by (auto simp: dispatch_step_def for_dispatch_def Let_def split: option.splits prod.splits)

definition dispatch_entry_of :: "event \<Rightarrow> dispatch_proj \<Rightarrow> bool" where
  "dispatch_entry_of e entry \<longleftrightarrow> dp_state entry = ev_marker e \<and> dp_id entry = ev_id e \<and>
     dp_created_at entry = ev_created e"

lemma for_dispatchE:
  assumes "for_dispatch i e"
  obtains marker rank where "dispatch_of e = Some (marker, rank, i)" "dispatch_key e = (rank, ev_key e)"
    "ev_marker e = Some marker"
  using assms dispatch_of_SomeD by (force simp: for_dispatch_def dispatch_key_def split: option.splits)

lemma dispatch_fold_lookup:
  "map_of (fold dispatch_step cs []) i = None \<and> fold_best dispatch_key (filter (for_dispatch i) cs) = None \<or>
   (\<exists>entry e. map_of (fold dispatch_step cs []) i = Some (entry, Some (dispatch_key e)) \<and>
      fold_best dispatch_key (filter (for_dispatch i) cs) = Some e \<and> dispatch_entry_of e entry)"
proof (induction cs rule: rev_induct)
  case Nil
  then show ?case by simp
next
  case (snoc e cs)
  show ?case
  proof (cases "for_dispatch i e")
    case False
    with snoc show ?thesis by (simp add: dispatch_step_other)
  next
    case True
    then obtain marker rank where d: "dispatch_of e = Some (marker, rank, i)"
      and k: "dispatch_key e = (rank, ev_key e)" and m: "ev_marker e = Some marker"
      by (rule for_dispatchE)
    from snoc show ?thesis
    proof
      assume "map_of (fold dispatch_step cs []) i = None \<and> fold_best dispatch_key (filter (for_dispatch i) cs) = None"
      then show ?thesis
        using True k m by (simp add: dispatch_step_new [OF d] dispatch_entry_of_def)
    next
      assume "\<exists>entry f. map_of (fold dispatch_step cs []) i = Some (entry, Some (dispatch_key f)) \<and>
        fold_best dispatch_key (filter (for_dispatch i) cs) = Some f \<and> dispatch_entry_of f entry"
      then obtain entry f where "map_of (fold dispatch_step cs []) i = Some (entry, Some (dispatch_key f))"
        "fold_best dispatch_key (filter (for_dispatch i) cs) = Some f" "dispatch_entry_of f entry"
        by blast
      then show ?thesis
        using True k m by (auto simp: dispatch_step_old [OF d] dispatch_entry_of_def)
    qed
  qed
qed

lemma map_of_map_fst_snd: "map_of (map (\<lambda>(i, x, y). (i, x)) d) i = map_option fst (map_of d i)"
  by (induction d) auto

lemma lookup_reduce_dispatches:
  "map_of (reduce_dispatches es) i = map_option fst (map_of (fold dispatch_step (canonical es) []) i)"
  by (simp add: reduce_dispatches_def map_of_map_fst_snd)

end
