(* ===== verification/Schema_Validator.thy ===== *)
theory Schema_Validator imports Text_Limits begin

text \<open>
  The structural gate for durable records, \<open>kaizen_components/schemas/validator.py\<close>. A
  compact spec names the required fields, the allowed fields with a rule each, and whether
  further fields are tolerated. A rule's entries are optional exactly as its dictionary keys are.
\<close>

record field_rule =
  fr_type :: string
  fr_enum :: "pyval list option"
  fr_summary :: bool
  fr_max_words :: "pyval option"
  fr_min :: "pyval option"
  fr_max :: "pyval option"

record schema_spec =
  ss_required :: "string list"
  ss_allow_extra :: bool
  ss_fields :: "(string \<times> field_rule) list"

definition any_rule :: field_rule where
  "any_rule = \<lparr>fr_type = ''any'', fr_enum = None, fr_summary = False, fr_max_words = None,
     fr_min = None, fr_max = None\<rparr>"

section \<open>Types, enumerations and bounds\<close>

definition py_types :: "string list" where
  "py_types = [''str'', ''int'', ''float'', ''bool'', ''list'', ''dict'']"

text \<open>\<open>isinstance\<close>: a \<open>bool\<close> is an \<open>int\<close>, and the declared type float takes both.\<close>

fun is_instance :: "pyval \<Rightarrow> string \<Rightarrow> bool" where
  "is_instance (PStr _) t = (t = ''str'')"
| "is_instance (PInt _) t = (t = ''int'' \<or> t = ''float'')"
| "is_instance (PFloat _ _) t = (t = ''float'')"
| "is_instance (PBool _) t = (t = ''bool'' \<or> t = ''int'' \<or> t = ''float'')"
| "is_instance (PList _) t = (t = ''list'')"
| "is_instance (PDict _) t = (t = ''dict'')"
| "is_instance PNone t = False"

fun is_bool :: "pyval \<Rightarrow> bool" where
  "is_bool (PBool _) = True"
| "is_bool _ = False"

definition type_ok :: "pyval \<Rightarrow> string \<Rightarrow> bool" where
  "type_ok v t =
     (if t = ''any'' then True
      else if t \<notin> set py_types then False
      else if (t = ''int'' \<or> t = ''float'') \<and> is_bool v then False
      else is_instance v t)"

fun same_type :: "pyval \<Rightarrow> pyval \<Rightarrow> bool" where
  "same_type PNone PNone = True"
| "same_type (PBool _) (PBool _) = True"
| "same_type (PInt _) (PInt _) = True"
| "same_type (PFloat _ _) (PFloat _ _) = True"
| "same_type (PStr _) (PStr _) = True"
| "same_type (PList _) (PList _) = True"
| "same_type (PDict _) (PDict _) = True"
| "same_type _ _ = False"

definition enum_ok :: "pyval \<Rightarrow> pyval list option \<Rightarrow> bool" where
  "enum_ok v enum =
     (case enum of None \<Rightarrow> True
      | Some options \<Rightarrow> list_ex (\<lambda>x. same_type v x \<and> py_eq v x) options)"

fun is_number :: "pyval \<Rightarrow> bool" where
  "is_number (PInt _) = True"
| "is_number (PFloat _ _) = True"
| "is_number _ = False"

definition py_less :: "pyval \<Rightarrow> pyval \<Rightarrow> bool" where
  "py_less a b = (case (py_num a, py_num b) of (Some x, Some y) \<Rightarrow> frac_less x y | _ \<Rightarrow> False)"

section \<open>One field\<close>

definition spec_error :: "string \<Rightarrow> string \<Rightarrow> string \<Rightarrow> exn" where
  "spec_error ty name reason =
     denied2 ''DENIED_SCHEMA_SPEC_INVALID''
       [(''record_type'', PStr ty), (''field'', PStr name), (''reason'', PStr reason)]"

definition check_text :: "string \<Rightarrow> string list \<Rightarrow> string \<Rightarrow> field_rule \<Rightarrow> string \<Rightarrow> exn + unit" where
  "check_text ty required name rule s =
     (if fr_summary rule then validate_summary s (name \<in> set required)
      else
        (case fr_max_words rule of
           None \<Rightarrow> Inr ()
         | Some (PInt n) \<Rightarrow>
             if n < 0 then Inl (spec_error ty name ''max_words must be a non-negative integer'')
             else validate_word_limit name s n
         | Some _ \<Rightarrow> Inl (spec_error ty name ''max_words must be a non-negative integer'')))"

definition bound_invalid :: "pyval option \<Rightarrow> bool" where
  "bound_invalid b = (case b of None \<Rightarrow> False | Some v \<Rightarrow> \<not> is_number v)"

definition range_error :: "string \<Rightarrow> string \<Rightarrow> pyval \<Rightarrow> string \<Rightarrow> pyval \<Rightarrow> string \<Rightarrow> exn" where
  "range_error ty name v bound_name bound rel =
     denied2 ''DENIED_SCHEMA_RANGE''
       [(''record_type'', PStr ty), (''field'', PStr name), (''value'', v), (bound_name, bound),
        (''required_action'', PStr (name @ '' must be '' @ rel @ '' '' @ py_str bound))]"

definition check_range :: "string \<Rightarrow> string \<Rightarrow> field_rule \<Rightarrow> pyval \<Rightarrow> exn + unit" where
  "check_range ty name rule v =
     (if bound_invalid (fr_min rule) then Inl (spec_error ty name ''min must be numeric'')
      else if bound_invalid (fr_max rule) then Inl (spec_error ty name ''max must be numeric'')
      else
        (case fr_min rule of
           Some lo \<Rightarrow>
             if py_less v lo then Inl (range_error ty name v ''min'' lo ''>='')
             else (case fr_max rule of
                 Some hi \<Rightarrow> if py_less hi v then Inl (range_error ty name v ''max'' hi ''<='') else Inr ()
               | None \<Rightarrow> Inr ())
         | None \<Rightarrow>
             (case fr_max rule of
                Some hi \<Rightarrow> if py_less hi v then Inl (range_error ty name v ''max'' hi ''<='') else Inr ()
              | None \<Rightarrow> Inr ())))"

definition type_error :: "string \<Rightarrow> string \<Rightarrow> string \<Rightarrow> string \<Rightarrow> exn" where
  "type_error ty name expected remedy =
     denied2 ''DENIED_SCHEMA_FIELD_TYPE''
       [(''record_type'', PStr ty), (''field'', PStr name), (''expected'', PStr expected),
        (''required_action'', PStr remedy)]"

text \<open>The body of the loop over the declared fields, for one field.\<close>

definition check_field ::
    "string \<Rightarrow> string list \<Rightarrow> pydict \<Rightarrow> string \<times> field_rule \<Rightarrow> exn + unit" where
  "check_field ty required payload f =
     (let (name, rule) = f; t = fr_type rule; v = dget payload name in
      if t \<noteq> ''any'' \<and> t \<notin> set py_types then
        Inl (type_error ty name t ''declare a supported schema field type'')
      else if v = PNone then Inr ()
      else if \<not> type_ok v t then
        Inl (type_error ty name t (''resubmit '' @ name @ '' as type '' @ t))
      else if \<not> enum_ok v (fr_enum rule) then
        Inl (denied2 ''DENIED_SCHEMA_ENUM''
          [(''record_type'', PStr ty), (''field'', PStr name), (''value'', v),
           (''allowed'', PList (case fr_enum rule of None \<Rightarrow> [] | Some xs \<Rightarrow> xs)),
           (''required_action'', PStr (''use an allowed value for '' @ name))])
      else
        (case v of
           PStr s \<Rightarrow>
             if s = [] \<and> name \<notin> set required then Inr ()
             else first_error
               [check_text ty required name rule s,
                if t = ''int'' \<or> t = ''float'' then check_range ty name rule v else Inr ()]
         | _ \<Rightarrow> if t = ''int'' \<or> t = ''float'' then check_range ty name rule v else Inr ()))"

section \<open>The whole record\<close>

definition field_missing :: "pydict \<Rightarrow> string \<Rightarrow> bool" where
  "field_missing payload name =
     (case dget payload name of PNone \<Rightarrow> True | PStr s \<Rightarrow> py_strip s = [] | _ \<Rightarrow> False)"

definition flag_names :: "string list \<Rightarrow> string" where
  "flag_names missing =
     join '', '' (map (\<lambda>m. ''--'' @ map (\<lambda>c. if c = CHR ''_'' then CHR ''-'' else c) m) missing)"

definition validate_against_spec :: "pyval \<Rightarrow> schema_spec \<Rightarrow> string \<Rightarrow> exn + pyval" where
  "validate_against_spec payload spec ty =
     (case payload of
        PDict d \<Rightarrow>
          (let missing = filter (field_missing d) (ss_required spec);
               unknown = filter (\<lambda>name. map_of (ss_fields spec) name = None) (map fst d)
           in if missing \<noteq> [] then
                Inl (denied2 ''DENIED_SCHEMA_REQUIRED''
                  [(''record_type'', PStr ty), (''fields'', PList (map PStr missing)),
                   (''required_action'', PStr (''resubmit with '' @ flag_names missing))])
              else if \<not> ss_allow_extra spec \<and> unknown \<noteq> [] then
                Inl (denied2 ''DENIED_SCHEMA_UNKNOWN_FIELDS''
                  [(''record_type'', PStr ty), (''fields'', PList (map PStr unknown)),
                   (''required_action'', PStr ''remove fields not in the schema; do not invent fields'')])
              else
                (case first_error (map (check_field ty (ss_required spec) d) (ss_fields spec)) of
                   Inl e \<Rightarrow> Inl e
                 | Inr _ \<Rightarrow> Inr payload))
      | _ \<Rightarrow>
          Inl (denied2 ''DENIED_SCHEMA_TYPE''
            [(''record_type'', PStr ty), (''reason'', PStr ''payload must be a JSON object''),
             (''required_action'', PStr ''resubmit the payload as a JSON object'')]))"

text \<open>The projection onto a JSON Schema.\<close>

definition json_types :: "(string \<times> string) list" where
  "json_types = [(''str'', ''string''), (''int'', ''integer''), (''float'', ''number''),
     (''bool'', ''boolean''), (''list'', ''array''), (''dict'', ''object'')]"

definition opt_entry :: "string \<Rightarrow> pyval option \<Rightarrow> pydict" where
  "opt_entry k v = (case v of None \<Rightarrow> [] | Some x \<Rightarrow> [(k, x)])"

definition json_prop :: "field_rule \<Rightarrow> pydict" where
  "json_prop rule =
     opt_entry ''type'' (map_option PStr (map_of json_types (fr_type rule))) @
     opt_entry ''enum'' (map_option PList (fr_enum rule)) @
     opt_entry ''minimum'' (fr_min rule) @ opt_entry ''maximum'' (fr_max rule)"

definition to_json_schema :: "schema_spec \<Rightarrow> pydict" where
  "to_json_schema spec =
     [(''$schema'', PStr ''https://json-schema.org/draft/2020-12/schema''),
      (''type'', PStr ''object''),
      (''properties'', PDict (map (\<lambda>(name, rule). (name, PDict (json_prop rule))) (ss_fields spec))),
      (''required'', PList (map PStr (ss_required spec))),
      (''additionalProperties'', PBool (ss_allow_extra spec))]"

section \<open>What an accepted record satisfies\<close>

lemma first_error_ok [simp]: "first_error rs = Inr () \<longleftrightarrow> (\<forall>r \<in> set rs. r = Inr ())"
  by (induction rs rule: first_error.induct) auto

lemma first_error_Inl_mem: "first_error rs = Inl e \<Longrightarrow> Inl e \<in> set rs"
  by (induction rs rule: first_error.induct) auto

lemma denied2_not_spec [simp]: "denied2 c f = denied2 c' f' \<longleftrightarrow> c = c' \<and> f = f'"
  by (simp add: denied2_def)

text \<open>A well-formed rule: a supported type, a word limit that is a natural number, numeric bounds.\<close>

definition rule_ok :: "field_rule \<Rightarrow> bool" where
  "rule_ok rule \<longleftrightarrow>
     (fr_type rule = ''any'' \<or> fr_type rule \<in> set py_types) \<and>
     (case fr_max_words rule of None \<Rightarrow> True | Some (PInt n) \<Rightarrow> 0 \<le> n | _ \<Rightarrow> False) \<and>
     \<not> bound_invalid (fr_min rule) \<and> \<not> bound_invalid (fr_max rule)"

definition spec_ok :: "schema_spec \<Rightarrow> bool" where
  "spec_ok spec \<longleftrightarrow>
     list_all (\<lambda>(name, rule). rule_ok rule) (ss_fields spec) \<and> distinct (map fst (ss_fields spec)) \<and>
     list_all (\<lambda>name. name \<in> set (map fst (ss_fields spec))) (ss_required spec)"

text \<open>What the text, the range and the type rules ask of the value of a field.\<close>

definition text_conforms :: "string list \<Rightarrow> string \<Rightarrow> field_rule \<Rightarrow> string \<Rightarrow> bool" where
  "text_conforms required name rule s \<longleftrightarrow>
     (if fr_summary rule then validate_summary s (name \<in> set required) = Inr ()
      else (case fr_max_words rule of Some (PInt n) \<Rightarrow> word_count s \<le> n | _ \<Rightarrow> True))"

definition within :: "field_rule \<Rightarrow> pyval \<Rightarrow> bool" where
  "within rule v \<longleftrightarrow>
     (case fr_min rule of None \<Rightarrow> True | Some lo \<Rightarrow> \<not> py_less v lo) \<and>
     (case fr_max rule of None \<Rightarrow> True | Some hi \<Rightarrow> \<not> py_less hi v)"

definition conforms :: "string list \<Rightarrow> string \<Rightarrow> field_rule \<Rightarrow> pyval \<Rightarrow> bool" where
  "conforms required name rule v \<longleftrightarrow>
     v = PNone \<or>
     type_ok v (fr_type rule) \<and> enum_ok v (fr_enum rule) \<and>
     (case v of PStr s \<Rightarrow> s = [] \<and> name \<notin> set required \<or> text_conforms required name rule s | _ \<Rightarrow> True) \<and>
     (if fr_type rule = ''int'' \<or> fr_type rule = ''float'' then within rule v else True)"

lemma check_text_ok:
  "rule_ok rule \<Longrightarrow> check_text ty required name rule s = Inr () \<longleftrightarrow> text_conforms required name rule s"
  by (auto simp: check_text_def text_conforms_def rule_ok_def split: option.splits pyval.splits)

lemma check_range_ok:
  "rule_ok rule \<Longrightarrow> check_range ty name rule v = Inr () \<longleftrightarrow> within rule v"
  by (auto simp: check_range_def within_def rule_ok_def split: option.splits)

lemma type_ok_str: "type_ok (PStr s) t \<Longrightarrow> \<not> (t = ''int'' \<or> t = ''float'')"
  by (auto simp: type_ok_def split: if_splits)

lemma check_field_ok:
  assumes "rule_ok rule"
  shows "check_field ty required payload (name, rule) = Inr () \<longleftrightarrow> conforms required name rule (dget payload name)"
proof -
  have t: "\<not> (fr_type rule \<noteq> ''any'' \<and> fr_type rule \<notin> set py_types)"
    using assms by (auto simp: rule_ok_def)
  show ?thesis
    unfolding check_field_def conforms_def Let_def prod.case if_not_P [OF t]
    by (cases "dget payload name")
      (auto simp: check_text_ok [OF assms] check_range_ok [OF assms] dest: type_ok_str split: if_splits)
qed

lemma accepted_unchanged: "validate_against_spec payload spec ty = Inr r \<Longrightarrow> r = payload"
  by (cases payload) (simp_all add: validate_against_spec_def Let_def split: if_split_asm sum.split_asm)

lemma validate_ok_iff:
  assumes "spec_ok spec"
  shows "validate_against_spec payload spec ty = Inr r \<longleftrightarrow>
    r = payload \<and>
    (\<exists>d. payload = PDict d \<and> filter (field_missing d) (ss_required spec) = [] \<and>
       (ss_allow_extra spec \<or> fst ` set d \<subseteq> fst ` set (ss_fields spec)) \<and>
       list_all (\<lambda>(name, rule). conforms (ss_required spec) name rule (dget d name)) (ss_fields spec))"
proof -
  have field: "check_field ty (ss_required spec) d f = Inr () \<longleftrightarrow>
      (case f of (name, rule) \<Rightarrow> conforms (ss_required spec) name rule (dget d name))"
    if "f \<in> set (ss_fields spec)" for d f
    using assms that by (cases f) (auto simp: spec_ok_def list_all_iff check_field_ok)
  have fields: "first_error (map (check_field ty (ss_required spec) d) (ss_fields spec)) = Inr () \<longleftrightarrow>
      list_all (\<lambda>(name, rule). conforms (ss_required spec) name rule (dget d name)) (ss_fields spec)" for d
    using field by (auto simp: list_all_iff)
  have unknown: "filter (\<lambda>name. map_of (ss_fields spec) name = None) (map fst d) = [] \<longleftrightarrow>
      fst ` set d \<subseteq> fst ` set (ss_fields spec)" for d :: pydict
    by (auto simp: filter_empty_conv map_of_eq_None_iff)
  show ?thesis
    unfolding validate_against_spec_def Let_def fields [symmetric] unknown [symmetric]
    by (cases payload) (auto split: sum.splits simp del: first_error_ok)
qed


text \<open>A record with a summary and a non-negative count, for the witnesses.\<close>

definition sample_spec :: schema_spec where
  "sample_spec = \<lparr>ss_required = [''summary''], ss_allow_extra = False,
     ss_fields = [(''summary'', any_rule\<lparr>fr_type := ''str'', fr_summary := True\<rparr>),
       (''epoch'', any_rule\<lparr>fr_type := ''int'', fr_min := Some (PInt 0)\<rparr>)]\<rparr>"

lemma sample_spec_ok: "spec_ok sample_spec"
  by (simp add: spec_ok_def sample_spec_def rule_ok_def any_rule_def py_types_def bound_invalid_def)


definition limits_positive :: "schema_spec \<Rightarrow> bool" where
  "limits_positive spec \<longleftrightarrow>
     list_all (\<lambda>(name, rule). fr_max_words rule \<noteq> Some (PInt 0)) (ss_fields spec)"

definition refuses :: "exn + 'a \<Rightarrow> bool" where
  "refuses r \<longleftrightarrow> (case r of Inr _ \<Rightarrow> True
     | Inl e \<Rightarrow> is_denied e \<and> exn_exit e = 2 \<and> exn_code e \<noteq> ''DENIED_SCHEMA_SPEC_INVALID'')"

lemma refuses_simps [simp]:
  "refuses (Inr x)"
  "refuses (Inl (denied2 code fs)) \<longleftrightarrow> code \<noteq> ''DENIED_SCHEMA_SPEC_INVALID''"
  by (simp_all add: refuses_def)

lemma refuses_word_limit: "limit \<noteq> 0 \<Longrightarrow> refuses (validate_word_limit field value limit)"
  by (simp add: validate_word_limit_def Let_def)

lemma refuses_summary: "refuses (validate_summary s required)"
  by (simp add: validate_summary_def Let_def refuses_word_limit)

lemma refuses_first_error: "list_all refuses rs \<Longrightarrow> refuses (first_error rs)"
  by (induction rs rule: first_error.induct) auto

lemma refuses_check_text:
  "rule_ok rule \<Longrightarrow> fr_max_words rule \<noteq> Some (PInt 0) \<Longrightarrow> refuses (check_text ty required name rule s)"
  by (auto simp: check_text_def rule_ok_def refuses_summary refuses_word_limit split: option.splits pyval.splits)

lemma refuses_check_range: "rule_ok rule \<Longrightarrow> refuses (check_range ty name rule v)"
  by (auto simp: check_range_def rule_ok_def range_error_def split: option.splits)

lemma refuses_relay: "refuses r \<Longrightarrow> refuses (case r of Inl e \<Rightarrow> Inl e | Inr _ \<Rightarrow> Inr x)"
  by (cases r) (simp_all add: refuses_def)

lemma refuses_if: "(b \<Longrightarrow> refuses x) \<Longrightarrow> (\<not> b \<Longrightarrow> refuses y) \<Longrightarrow> refuses (if b then x else y)"
  by simp

lemma refuses_check_field:
  assumes "rule_ok rule" "fr_max_words rule \<noteq> Some (PInt 0)"
  shows "refuses (check_field ty required payload (name, rule))"
proof -
  have range: "refuses (if b then check_range ty name rule v else Inr ())" for b v
    by (simp add: refuses_check_range [OF assms(1)])
  then have both: "refuses (first_error [check_text ty required name rule s,
      if b then check_range ty name rule v else Inr ()])" for s b v
    by (intro refuses_first_error) (simp add: refuses_check_text [OF assms])
  have by_case: "refuses (case v of PStr s \<Rightarrow> if b s then Inr () else first_error [check_text ty required name rule s,
      if b' then check_range ty name rule v else Inr ()] | _ \<Rightarrow> if b' then check_range ty name rule v else Inr ())"
    for v b b'
    by (cases v) (use range both in simp_all)
  show ?thesis
    unfolding check_field_def Let_def prod.case type_error_def
    by (intro refuses_if by_case refuses_simps(1)) (simp_all only: refuses_simps, simp_all)
qed

lemma refuses_validate:
  assumes "spec_ok spec" and "limits_positive spec"
  shows "refuses (validate_against_spec payload spec ty)"
proof -
  have "refuses (first_error (map (check_field ty (ss_required spec) d) (ss_fields spec)))" for d
    using assms by (intro refuses_first_error)
      (auto simp: spec_ok_def limits_positive_def list_all_iff intro!: refuses_check_field)
  then have checks: "refuses (case first_error (map (check_field ty (ss_required spec) d) (ss_fields spec)) of
      Inl e \<Rightarrow> Inl e | Inr _ \<Rightarrow> Inr payload)" for d
    by (rule refuses_relay)
  show ?thesis
    unfolding validate_against_spec_def Let_def
    by (cases payload) (simp_all add: checks)
qed

end
