(* ===== verification/Modes.thy ===== *)
theory Modes imports Denials begin

text \<open>
  The mode vocabularies of \<open>kaizen_components/orchestration/modes.py\<close> and their parser.
  The environment is a dictionary of strings; a value of another type than string is the
  constructor of \<^typ>\<open>pyval\<close> it has.
\<close>

definition dist_modes :: "string list" where
  "dist_modes = [''off'', ''observe'', ''active'']"

definition controllers :: "string list" where
  "controllers = [''observed'', ''kaizen'']"

definition session_modes :: "string list" where
  "session_modes = [''observe'', ''hooked'', ''orchestrate'', ''strict'']"

definition mode_denial :: "string \<Rightarrow> string \<Rightarrow> string list \<Rightarrow> exn" where
  "mode_denial field shown allowed =
     denied2 ''DENIED_MODE_INVALID''
       [(''field'', PStr field), (''value'', PStr shown), (''allowed'', PList (map PStr allowed)),
        (''required_action'', PStr (''set '' @ field @ '' to one of: '' @ join ''|'' allowed))]"

definition parse_mode :: "pyval \<Rightarrow> string list \<Rightarrow> string \<Rightarrow> string \<Rightarrow> exn + string" where
  "parse_mode v allowed field dflt =
     (case v of
        PStr s \<Rightarrow>
          (let raw = lower (py_strip s) in
           if raw \<in> set allowed then Inr raw else Inl (mode_denial field raw allowed))
      | PNone \<Rightarrow>
          (let raw = lower (py_strip dflt) in
           if raw \<in> set allowed then Inr raw else Inl (mode_denial field raw allowed))
      | _ \<Rightarrow> Inl (mode_denial field (py_repr v) allowed))"

definition parse_dist_mode :: "pyval \<Rightarrow> exn + string" where
  "parse_dist_mode v = parse_mode v dist_modes ''dist_mode'' ''off''"

definition parse_controller :: "pyval \<Rightarrow> exn + string" where
  "parse_controller v = parse_mode v controllers ''controller'' ''observed''"

definition parse_session_mode :: "pyval \<Rightarrow> exn + string" where
  "parse_session_mode v = parse_mode v session_modes ''session_mode'' ''observe''"

definition dist_mode :: "(string \<times> string) list \<Rightarrow> exn + string" where
  "dist_mode env = parse_dist_mode (of_opt_str (map_of env ''KAIZEN_DIST_MODE''))"

text \<open>A parsed mode is in the vocabulary, the default is accepted, and parsing a mode again
  returns it.\<close>

lemma parse_mode_allowed: "parse_mode v allowed field dflt = Inr m \<Longrightarrow> m \<in> set allowed"
  by (auto simp: parse_mode_def Let_def split: pyval.splits if_splits)

lemma mode_fixpoints: "list_all (\<lambda>m. lower (py_strip m) = m) (dist_modes @ controllers @ session_modes)"
  by code_simp

lemma parse_mode_again:
  assumes "parse_mode v allowed field dflt = Inr m" "list_all (\<lambda>m. lower (py_strip m) = m) allowed"
  shows "parse_mode (PStr m) allowed field dflt = Inr m"
  using parse_mode_allowed [OF assms(1)] assms(2) by (simp add: parse_mode_def Let_def list_all_iff)

end
