(* ===== verification/Schema_Registry.thy ===== *)
theory Schema_Registry imports Schema_Validator Modes begin

text \<open>
  The registered record types of \<open>kaizen_components/schemas/registry.py\<close>: the controlled
  vocabularies, the (kind, marker) matrices of the two event ledgers, and one compact spec per
  record type, with the lookup the write gate starts from. The optional jsonschema pass of
  \<open>schemas/__init__.py\<close> is a parameter, a function from the record type and the record
  without its null fields to the denial it raises, if it does.
\<close>

section \<open>Vocabularies\<close>

definition kaizen_enums :: "(string \<times> string list) list" where
  "kaizen_enums =
    [(''scope'', [''project'', ''global'', ''skill'', ''session'']),
     (''lifecycle_status'', [''active'', ''recorded'', ''resolved'', ''superseded'', ''draft'', ''noted'', ''promoted'']),
     (''verification_conclusion'', [''VERIFIED_ACCEPTABLE'', ''ACCEPTABLE_WITH_CONCERNS'', ''NEEDS_HUMAN_DECISION'', ''STRUCTURAL_REWORK_RECOMMENDED'', ''VERIFICATION_FAILED'', ''PROOF_RECORDED'']),
     (''trace_kind'', [''model_call'', ''tool_call'', ''evidence_read'', ''verifier'', ''subagent'', ''generative_run'', ''judge'']),
     (''trace_level'', [''debug'', ''default'', ''warning'', ''error'']),
     (''score_data_type'', [''numeric'', ''categorical'', ''boolean'']),
     (''score_source'', [''deterministic'', ''human'', ''model'']),
     (''eval_category'', [''behavior'', ''should_trigger'', ''should_not_trigger'', ''routing'', ''grounding'', ''proof'', ''security'', ''freshness'', ''learning_regression'']),
     (''extraction_method'', [''native'', ''pdftext'', ''ocr'', ''llm'', ''manual'']),
     (''chunker'', [''token'', ''sentence'', ''recursive'', ''code'', ''semantic'', ''neural'']),
     (''authority_tier'', [''normative'', ''official_docs'', ''implementation'', ''design_guidance'']),
     (''generative_status'', [''queued'', ''running'', ''completed'', ''completed_no_output'', ''failed'']),
     (''generative_route'', [''api'', ''mcp'']), (''gateway_event_type'', [''comfyui_run'']),
     (''agent_type'', [''codex'', ''claude'', ''other'']),
     (''surface'', [''vscode-extension'', ''cli'', ''app-server'', ''cloud'', ''manual'']),
     (''host'', [''local'', ''remote-ssh'', ''wsl'', ''dev-container'', ''windows-sandbox'', ''codespaces'', ''web'', ''cloud'']),
     (''sandbox_mode'', [''read-only'', ''workspace-write'', ''full-access'', ''danger-full-access'', ''unknown'']),
     (''approval_mode'', [''manual'', ''plan'', ''agent'', ''on-request'', ''on-failure'', ''full-access'', ''never'']),
     (''os'', [''windows'', ''macos'', ''linux'']),
     (''agent_event_kind'', [''turn'', ''subagent'', ''tool_call'', ''approval'', ''transport'', ''auth'', ''rate_limit'', ''context'', ''verification'', ''finalization'', ''hook_event'', ''permission_mode_changed'', ''compaction'', ''chat_message'', ''profile'']),
     (''agent_event_marker'', [''open'', ''close_ok'', ''close_fail'', ''close_canceled'', ''resolved'', ''declined'', ''timed_out'', ''point'']),
     (''agent_failure_category'', [''transport'', ''auth'', ''rate_limit'', ''context'']),
     (''session_controller'', controllers), (''session_mode'', session_modes),
     (''session_auth_mode'', [''none'', ''subscription'', ''api-key'']),
     (''permission_mode'', [''plan'', ''ask'', ''agent'', ''full'']),
     (''approval_request_type'', [''tool_approval'', ''clarifying_question'', ''plan_exit'', ''requestUserInput'']),
     (''approval_state'', [''open'', ''approved'', ''denied'', ''canceled'', ''cleared_by_engine'', ''deferred'']),
     (''approval_decided_by'', [''auto'', ''human'']),
     (''authority_rule_type'', [''allow'', ''ask'', ''deny'']),
     (''policy_verb'', [''tool'', ''file_read'', ''file_write'', ''net'', ''git'', ''exec'', ''spawn'', ''any'']),
     (''authority_match_kind'', [''exact_command'', ''path_prefix'']),
     (''node_role'', [''coordinator'', ''worker'', ''hub'', ''model-server'']),
     (''backend_lane'', [''embed'', ''text'', ''judge'', ''rerank''])]"

definition agent_event_kind_markers :: "(string \<times> string list) list" where
  "agent_event_kind_markers =
    [(''subagent'', [''open'', ''close_ok'', ''close_fail'', ''close_canceled'']),
     (''approval'', [''open'', ''resolved'', ''declined'', ''timed_out'']),
     (''turn'', [''open'', ''close_ok'', ''close_fail'', ''close_canceled'']),
     (''tool_call'', [''open'', ''close_ok'', ''close_fail'']), (''transport'', [''point'']),
     (''auth'', [''point'']), (''rate_limit'', [''point'']), (''context'', [''point'']),
     (''verification'', [''point'']),
     (''finalization'', [''close_ok'', ''close_fail'', ''close_canceled'']),
     (''hook_event'', [''point'']), (''permission_mode_changed'', [''point'']),
     (''compaction'', [''point'']), (''chat_message'', [''point'']),
     (''profile'', [''point''])]"

definition coord_event_kind_markers :: "(string \<times> string list) list" where
  "coord_event_kind_markers =
    [(''node'', [''registered'', ''updated'', ''retired'']), (''heartbeat'', [''point'']),
     (''coordinator'', [''claimed'', ''granted'', ''released'', ''denied'']),
     (''lease'', [''requested'', ''granted'', ''denied'', ''released'', ''revoked'', ''expired'']),
     (''handoff'', [''started'', ''pushed'', ''released'', ''completed'', ''aborted'']),
     (''dispatch'', [''requested'', ''accepted'', ''started'', ''completed'', ''failed'', ''canceled'']),
     (''divergence'', [''detected'', ''resolved'']),
     (''conflict'', [''detected'', ''resolved'']), (''resolution'', [''recorded''])]"

definition reserved_claude_event_kinds :: "string list" where
  "reserved_claude_event_kinds = [''subagent_start'', ''subagent_stop'']"

section \<open>Record types\<close>

text \<open>Abbreviations for the rules the registry writes.\<close>

definition typed :: "string \<Rightarrow> field_rule" where
  "typed t = any_rule\<lparr>fr_type := t\<rparr>"

definition summary_rule :: field_rule where
  "summary_rule = any_rule\<lparr>fr_type := ''str'', fr_summary := True\<rparr>"

definition words_rule :: "int \<Rightarrow> field_rule" where
  "words_rule n = any_rule\<lparr>fr_type := ''str'', fr_max_words := Some (PInt n)\<rparr>"

definition one_of :: "string list \<Rightarrow> field_rule" where
  "one_of xs = any_rule\<lparr>fr_type := ''str'', fr_enum := Some (map PStr xs)\<rparr>"

definition one_of_enum :: "string \<Rightarrow> field_rule" where
  "one_of_enum name = one_of (case map_of kaizen_enums name of None \<Rightarrow> [] | Some xs \<Rightarrow> xs)"

definition at_least :: "string \<Rightarrow> int \<Rightarrow> field_rule" where
  "at_least t n = any_rule\<lparr>fr_type := t, fr_min := Some (PInt n)\<rparr>"

definition between :: "string \<Rightarrow> int \<Rightarrow> int \<Rightarrow> field_rule" where
  "between t lo hi = any_rule\<lparr>fr_type := t, fr_min := Some (PInt lo), fr_max := Some (PInt hi)\<rparr>"

definition coord_markers :: "string list" where
  "coord_markers = sort (remdups (concat (map snd coord_event_kind_markers)))"

definition record_spec :: "string list \<Rightarrow> (string \<times> field_rule) list \<Rightarrow> schema_spec" where
  "record_spec required rules = \<lparr>ss_required = required, ss_allow_extra = False, ss_fields = rules\<rparr>"

definition schema_trace_event :: schema_spec where
  "schema_trace_event = record_spec [''kind'', ''summary'']
    [(''task_id'', typed ''str''), (''trace_id'', typed ''str''),
     (''parent_event_id'', typed ''str''), (''kind'', one_of_enum ''trace_kind''),
     (''name'', words_rule 40), (''level'', one_of_enum ''trace_level''),
     (''environment'', words_rule 20), (''session_id'', typed ''str''),
     (''status'', words_rule 20), (''status_message'', words_rule 200),
     (''model'', words_rule 20), (''provider'', words_rule 20),
     (''prompt_tokens'', at_least ''int'' 0), (''completion_tokens'', at_least ''int'' 0),
     (''total_tokens'', at_least ''int'' 0), (''cost'', at_least ''float'' 0),
     (''latency_ms'', at_least ''int'' 0), (''tags'', typed ''list''),
     (''input_ref'', typed ''str''), (''output_ref'', typed ''str''),
     (''summary'', summary_rule), (''body'', words_rule 1000)]"

definition schema_eval_score :: schema_spec where
  "schema_eval_score = record_spec [''name'', ''value'', ''data_type'', ''source'']
    [(''trace_event_id'', typed ''str''), (''eval_run_id'', typed ''str''),
     (''verification_id'', typed ''str''), (''name'', words_rule 40),
     (''value'', typed ''any''), (''data_type'', one_of_enum ''score_data_type''),
     (''source'', one_of_enum ''score_source''), (''comment'', words_rule 200)]"

definition schema_verification :: schema_spec where
  "schema_verification = record_spec [''summary'']
    [(''task_id'', typed ''str''), (''proof_id'', typed ''str''),
     (''conclusion'', one_of_enum ''verification_conclusion''), (''summary'', summary_rule),
     (''body'', words_rule 1000), (''evidence'', typed ''list''),
     (''findings'', typed ''list''), (''remedies'', typed ''list''),
     (''severity'', words_rule 10), (''scope_label'', words_rule 10),
     (''actionability'', words_rule 10), (''artifact_ids'', typed ''list'')]"

definition schema_gotcha :: schema_spec where
  "schema_gotcha = record_spec [''title'', ''summary'', ''body'']
    [(''title'', words_rule 40), (''summary'', summary_rule), (''body'', words_rule 1000),
     (''scope'', typed ''str''), (''status'', typed ''str''), (''writer_role'', typed ''str''),
     (''task_id'', typed ''str'')]"

definition schema_source_lock :: schema_spec where
  "schema_source_lock = record_spec [''source_id'', ''authority_tier'', ''url_or_repository'', ''summary'']
    [(''source_id'', words_rule 40), (''authority_tier'', one_of_enum ''authority_tier''),
     (''url_or_repository'', typed ''str''), (''version_or_commit'', typed ''str''),
     (''retrieved_at'', typed ''str''), (''content_hash'', typed ''str''),
     (''license'', words_rule 10), (''supersedes'', typed ''str''),
     (''summary'', summary_rule), (''body'', words_rule 1000)]"

definition schema_evidence_document :: schema_spec where
  "schema_evidence_document = record_spec [''origin_kind'', ''origin_ref'', ''backend'', ''summary'']
    [(''source_lock_id'', typed ''str''), (''task_id'', typed ''str''),
     (''origin_kind'', one_of [''file'', ''web'']), (''origin_ref'', typed ''str''),
     (''media_type'', typed ''str''), (''backend'', words_rule 10),
     (''backend_version'', typed ''str''),
     (''extraction_method'', one_of_enum ''extraction_method''),
     (''extraction_confidence'', between ''float'' 0 1), (''block_count'', at_least ''int'' 0),
     (''chunk_count'', at_least ''int'' 0), (''summary'', summary_rule)]"

definition schema_evidence_chunk :: schema_spec where
  "schema_evidence_chunk = record_spec [''text'', ''chunk_index'', ''chunker'']
    [(''document_id'', typed ''str''), (''source_lock_id'', typed ''str''),
     (''chunk_index'', at_least ''int'' 0), (''text'', words_rule 1000),
     (''start_index'', at_least ''int'' 0), (''end_index'', at_least ''int'' 0),
     (''token_count'', at_least ''int'' 0), (''context'', words_rule 60),
     (''chunker'', one_of_enum ''chunker''), (''backend'', words_rule 10),
     (''neighbor_prev_id'', typed ''str''), (''neighbor_next_id'', typed ''str'')]"

definition schema_improvement_proposal :: schema_spec where
  "schema_improvement_proposal = record_spec [''contract'', ''title'', ''summary'']
    [(''contract'', words_rule 20), (''title'', words_rule 40), (''summary'', summary_rule),
     (''body'', words_rule 1000), (''metric'', words_rule 20),
     (''baseline_score'', typed ''float''), (''candidate_score'', typed ''float'')]"

definition schema_pii_scan :: schema_spec where
  "schema_pii_scan = record_spec [''regex_hit_count'', ''model_hit_count'', ''summary'']
    [(''task_id'', typed ''str''), (''trace_id'', typed ''str''),
     (''source_ref'', words_rule 10), (''regex_hit_count'', at_least ''int'' 0),
     (''model_hit_count'', at_least ''int'' 0), (''hits'', typed ''list''),
     (''model'', words_rule 20), (''provider'', words_rule 20), (''summary'', summary_rule)]"

definition schema_generative_run :: schema_spec where
  "schema_generative_run = record_spec [''backend'', ''template'', ''workflow_hash'', ''status'', ''summary'']
    [(''task_id'', typed ''str''), (''backend'', words_rule 10), (''template'', words_rule 20),
     (''endpoint'', typed ''str''), (''workflow_hash'', typed ''str''),
     (''workflow_artifact_id'', typed ''str''), (''seed'', words_rule 20),
     (''models'', typed ''list''), (''status'', one_of_enum ''generative_status''),
     (''prompt_id'', typed ''str''), (''output_artifact_ids'', typed ''list''),
     (''output_dir'', typed ''str''), (''latency_ms'', at_least ''int'' 0),
     (''summary'', summary_rule)]"

definition schema_generative_run_route :: schema_spec where
  "schema_generative_run_route = record_spec [''run_id'', ''route'']
    [(''run_id'', typed ''str''), (''route'', one_of_enum ''generative_route''),
     (''runtime_profile'', words_rule 40), (''mcp_candidate'', words_rule 10),
     (''mcp_version'', words_rule 10), (''ab_pair_id'', typed ''str''),
     (''payload'', typed ''dict'')]"

definition schema_gateway_event :: schema_spec where
  "schema_gateway_event = record_spec [''event_type'', ''status'', ''summary'']
    [(''event_type'', one_of_enum ''gateway_event_type''), (''status'', words_rule 20),
     (''summary'', summary_rule), (''body'', words_rule 1000), (''payload'', typed ''dict'')]"

definition schema_agent_run :: schema_spec where
  "schema_agent_run = record_spec [''agent_type'', ''surface'', ''summary'']
    [(''task_id'', typed ''str''), (''agent_type'', one_of_enum ''agent_type''),
     (''surface'', one_of_enum ''surface''), (''host'', one_of_enum ''host''),
     (''sandbox_mode'', one_of_enum ''sandbox_mode''),
     (''approval_mode'', one_of_enum ''approval_mode''), (''os'', one_of_enum ''os''),
     (''extension_version'', words_rule 10), (''agent_version'', words_rule 10),
     (''model'', words_rule 20), (''worktree_path'', typed ''str''), (''cwd'', typed ''str''),
     (''git_branch'', words_rule 20), (''git_commit'', words_rule 10),
     (''session_id'', words_rule 20), (''engine'', words_rule 20),
     (''auth_mode'', one_of_enum ''session_auth_mode''), (''requested_model'', words_rule 20),
     (''requested_reasoning_effort'', words_rule 20), (''reasoning_effort'', words_rule 20),
     (''permission_mode'', one_of_enum ''permission_mode''), (''profile_hash'', words_rule 10),
     (''summary'', summary_rule), (''body'', words_rule 1000)]"

definition schema_agent_event :: schema_spec where
  "schema_agent_event = record_spec [''event_kind'', ''marker'', ''summary'']
    [(''agent_run_id'', typed ''str''), (''source_event_id'', words_rule 20),
     (''correlation_id'', words_rule 20), (''event_kind'', one_of_enum ''agent_event_kind''),
     (''marker'', one_of_enum ''agent_event_marker''), (''code'', words_rule 20),
     (''name'', words_rule 40), (''status_message'', words_rule 200),
     (''summary'', summary_rule), (''body'', words_rule 1000)]"

definition schema_agent_session :: schema_spec where
  "schema_agent_session = record_spec [''controller'', ''mode'', ''auth_mode'', ''summary'']
    [(''task_id'', typed ''str''), (''controller'', one_of_enum ''session_controller''),
     (''mode'', one_of_enum ''session_mode''), (''engine'', words_rule 20),
     (''auth_mode'', one_of_enum ''session_auth_mode''), (''owning_node'', words_rule 20),
     (''node_epoch'', at_least ''int'' 0), (''vendor_session_root_id'', words_rule 20),
     (''vendor_thread_id'', words_rule 20), (''cwd'', typed ''str''),
     (''git_branch'', words_rule 20), (''state'', words_rule 20),
     (''requested_model'', words_rule 20), (''requested_reasoning_effort'', words_rule 20),
     (''permission_mode'', one_of_enum ''permission_mode''), (''profile_hash'', words_rule 10),
     (''title'', typed ''str''), (''policy_snapshot'', typed ''str''),
     (''summary'', summary_rule)]"

definition schema_user_instruction :: schema_spec where
  "schema_user_instruction = record_spec [''session_id'', ''instruction'', ''summary'']
    [(''session_id'', typed ''str''), (''instruction'', words_rule 1000),
     (''summary'', summary_rule)]"

definition schema_goal :: schema_spec where
  "schema_goal = record_spec [''session_id'', ''title'', ''summary'']
    [(''session_id'', typed ''str''), (''state'', words_rule 20), (''title'', words_rule 40),
     (''summary'', summary_rule), (''body'', words_rule 1000)]"

definition schema_approval_request :: schema_spec where
  "schema_approval_request = record_spec [''session_id'', ''request_type'', ''state'', ''summary'']
    [(''session_id'', typed ''str''), (''correlation_id'', words_rule 20),
     (''request_type'', one_of_enum ''approval_request_type''),
     (''state'', one_of_enum ''approval_state''),
     (''decided_by'', one_of_enum ''approval_decided_by''), (''rule_id'', words_rule 20),
     (''summary'', summary_rule)]"

definition schema_mode_profile :: schema_spec where
  "schema_mode_profile = record_spec [''name'', ''profile_json'', ''summary'']
    [(''name'', words_rule 40), (''profile_json'', typed ''str''), (''summary'', summary_rule)]"

definition schema_authority_rule :: schema_spec where
  "schema_authority_rule = record_spec [''rule_type'', ''verb'', ''match_kind'', ''pattern'', ''summary'']
    [(''rule_type'', one_of_enum ''authority_rule_type''),
     (''verb'', one_of_enum ''policy_verb''),
     (''match_kind'', one_of_enum ''authority_match_kind''), (''pattern'', typed ''str''),
     (''engine'', words_rule 20), (''summary'', summary_rule)]"

definition schema_fleet_node :: schema_spec where
  "schema_fleet_node = record_spec [''node_id'', ''role'', ''summary'']
    [(''node_id'', words_rule 10), (''role'', one_of_enum ''node_role''),
     (''tailnet_name'', words_rule 20), (''os'', words_rule 10), (''arch'', words_rule 10),
     (''capabilities_json'', typed ''dict''), (''summary'', summary_rule)]"

definition schema_coord_event :: schema_spec where
  "schema_coord_event = record_spec [''node_id'', ''event_kind'', ''marker'', ''summary'']
    [(''node_id'', words_rule 10), (''project_id'', words_rule 10),
     (''event_kind'', one_of (map fst coord_event_kind_markers)),
     (''marker'', one_of coord_markers), (''scope_key'', words_rule 40),
     (''epoch'', at_least ''int'' 0), (''payload'', typed ''dict''),
     (''summary'', summary_rule)]"

definition schema_coordinator_action :: schema_spec where
  "schema_coordinator_action = record_spec [''action'', ''node_id'', ''summary'']
    [(''action'', one_of [''claim'', ''transfer'', ''release'']), (''node_id'', words_rule 10),
     (''to_node'', words_rule 10), (''mode'', one_of [''roaming'', ''pinned'']),
     (''iso'', typed ''bool''), (''summary'', summary_rule)]"

definition schema_lease_action :: schema_spec where
  "schema_lease_action = record_spec [''action'', ''scope_key'', ''node_id'', ''summary'']
    [(''action'', one_of [''request'', ''grant'', ''renew'', ''release'', ''handoff'']),
     (''scope_key'', words_rule 40), (''node_id'', words_rule 10), (''holder'', words_rule 10),
     (''ttl_s'', at_least ''int'' 0), (''mode'', one_of [''advisory'', ''authoritative'']),
     (''summary'', summary_rule)]"

definition schema_remote_dispatch :: schema_spec where
  "schema_remote_dispatch = record_spec [''action'', ''summary'']
    [
     (''action'', one_of [''request'', ''accept'', ''start'', ''complete'', ''fail'', ''cancel'', ''apply'', ''list'']),
     (''target_node'', words_rule 10), (''task'', words_rule 40),
     (''scope_key'', words_rule 40), (''dispatch_id'', words_rule 20),
     (''reason'', words_rule 60), (''summary'', summary_rule)]"

definition schema_fleet_reconcile :: schema_spec where
  "schema_fleet_reconcile = record_spec [''action'', ''summary'']
    [(''action'', one_of [''reconcile'', ''sweep'', ''status'']),
     (''hub_remote'', typed ''str''), (''stale_after_s'', at_least ''int'' 1),
     (''skew_margin_s'', at_least ''int'' 0), (''allow_publish'', typed ''bool''),
     (''summary'', summary_rule)]"

definition schema_backend_endpoint :: schema_spec where
  "schema_backend_endpoint = record_spec [''base_url'', ''lanes'', ''model'', ''summary'']
    [(''base_url'', typed ''str''), (''lanes'', typed ''list''), (''model'', words_rule 20),
     (''priority'', at_least ''int'' 0), (''node_id'', words_rule 10),
     (''summary'', summary_rule)]"

definition schemas :: "(string \<times> schema_spec) list" where
  "schemas =
    [(''trace_event'', schema_trace_event), (''eval_score'', schema_eval_score),
     (''verification'', schema_verification), (''gotcha'', schema_gotcha),
     (''source_lock'', schema_source_lock), (''evidence_document'', schema_evidence_document),
     (''evidence_chunk'', schema_evidence_chunk),
     (''improvement_proposal'', schema_improvement_proposal), (''pii_scan'', schema_pii_scan),
     (''generative_run'', schema_generative_run),
     (''generative_run_route'', schema_generative_run_route),
     (''gateway_event'', schema_gateway_event), (''agent_run'', schema_agent_run),
     (''agent_event'', schema_agent_event), (''agent_session'', schema_agent_session),
     (''user_instruction'', schema_user_instruction), (''goal'', schema_goal),
     (''approval_request'', schema_approval_request), (''mode_profile'', schema_mode_profile),
     (''authority_rule'', schema_authority_rule), (''fleet_node'', schema_fleet_node),
     (''coord_event'', schema_coord_event),
     (''coordinator_action'', schema_coordinator_action),
     (''lease_action'', schema_lease_action), (''remote_dispatch'', schema_remote_dispatch),
     (''fleet_reconcile'', schema_fleet_reconcile),
     (''backend_endpoint'', schema_backend_endpoint)]"

section \<open>Lookup and the write gate\<close>

definition list_schemas :: "string list" where
  "list_schemas = sort (map fst schemas)"

definition get_schema :: "string \<Rightarrow> exn + schema_spec" where
  "get_schema ty =
     (case map_of schemas ty of
        Some spec \<Rightarrow> Inr spec
      | None \<Rightarrow>
          Inl (denied2 ''DENIED_SCHEMA_UNKNOWN_TYPE''
            [(''record_type'', PStr ty), (''known_types'', PList (map PStr list_schemas)),
             (''required_action'', PStr ''pass a --kind from the known record types'')]))"

definition has_schema :: "string \<Rightarrow> bool" where
  "has_schema ty = (map_of schemas ty \<noteq> None)"

type_synonym accelerator = "(string \<Rightarrow> pydict \<Rightarrow> (string \<times> string) option) option"

text \<open>
  The accelerator, when it is installed, reports the path and the message of the first violation.
\<close>

definition accelerate :: "accelerator \<Rightarrow> string \<Rightarrow> pydict \<Rightarrow> exn + unit" where
  "accelerate jsonschema ty payload =
     (case jsonschema of
        None \<Rightarrow> Inr ()
      | Some check \<Rightarrow>
          (case check ty (filter (\<lambda>(k, v). v \<noteq> PNone) payload) of
             None \<Rightarrow> Inr ()
           | Some (path, message) \<Rightarrow>
               Inl (denied2 ''DENIED_SCHEMA_JSONSCHEMA''
                 [(''record_type'', PStr ty), (''field'', PStr (if path = [] then ''(root)'' else path)),
                  (''message'', PStr message),
                  (''required_action'', PStr ''fix the payload to satisfy the record schema'')])))"

definition validate_record :: "accelerator \<Rightarrow> string \<Rightarrow> pydict \<Rightarrow> exn + pydict" where
  "validate_record jsonschema ty payload =
     (case get_schema ty of
        Inl e \<Rightarrow> Inl e
      | Inr spec \<Rightarrow>
          (case validate_against_spec (PDict payload) spec ty of
             Inl e \<Rightarrow> Inl e
           | Inr _ \<Rightarrow>
               (case accelerate jsonschema ty payload of Inl e \<Rightarrow> Inl e | Inr _ \<Rightarrow> Inr payload)))"

section \<open>The registry is consistent\<close>

lemmas registry_defs = any_rule_def typed_def summary_rule_def words_rule_def one_of_def one_of_enum_def
  at_least_def between_def record_spec_def

lemma registry_specs_ok: "list_all (\<lambda>(name, spec). spec_ok spec \<and> limits_positive spec) schemas"
  by code_simp

lemma get_schema_cases:
  "(case get_schema ty of
      Inr spec \<Rightarrow> has_schema ty \<and> spec_ok spec \<and> limits_positive spec
    | Inl e \<Rightarrow> \<not> has_schema ty \<and> refuses (Inl e :: exn + unit))"
  using registry_specs_ok
  by (auto simp: get_schema_def has_schema_def list_all_iff refuses_def split: option.splits dest: map_of_SomeD)

lemma refuses_accelerate: "refuses (accelerate jsonschema ty payload)"
  by (simp add: accelerate_def split: option.split prod.split)

text \<open>C33. The write gate is total on every record type: for an unregistered type it denies, and for a
  registered one it returns the record unchanged or raises a structured denial with exit code 2
  about the record, whatever the record is and whether or not an accelerator runs. It never
  fails on the registry's own specs.\<close>

theorem record_gate_total:
  "(case validate_record jsonschema ty payload of
      Inr r \<Rightarrow> r = payload \<and> has_schema ty
    | Inl e \<Rightarrow> is_denied e \<and> exn_exit e = 2 \<and> exn_code e \<noteq> ''DENIED_SCHEMA_SPEC_INVALID'')"
proof (cases "get_schema ty")
  case (Inl e)
  then show ?thesis
    using get_schema_cases [of ty] by (simp add: validate_record_def refuses_def)
next
  case (Inr spec)
  then have spec: "has_schema ty" "spec_ok spec" "limits_positive spec"
    using get_schema_cases [of ty] by auto
  show ?thesis
    using refuses_validate [OF spec(2,3), of "PDict payload" ty] refuses_accelerate [of jsonschema ty payload] spec(1)
    by (auto simp: validate_record_def Inr refuses_def split: sum.splits)
qed

end
