(* ===== verification/Redaction.thy ===== *)
theory Redaction imports Regex Denials begin

text \<open>
  The secret and personal-path scanner of \<open>kaizen_components/redaction.py\<close>: one pattern
  per secret class, the e-mail allow-lists, and the gate that denies a write whose text fields,
  at any depth, match one of them. Patterns are read on ASCII; the bytes of other characters
  count as letters.
\<close>

section \<open>Patterns\<close>

definition key_char :: "char \<Rightarrow> bool" where
  "key_char c = (is_alnum c \<or> c = CHR ''_'' \<or> c = CHR ''-'')"

definition space_rx :: rx where
  "space_rx = Cls is_space"

definition none_of :: "string \<Rightarrow> rx" where
  "none_of cs = Cls (\<lambda>c. \<not> is_space c \<and> c \<notin> set cs)"

definition sep_rx :: rx where
  "sep_rx = Cls (among [CHR 0x5C, CHR ''/''])"

definition anthropic_key :: rx where
  "anthropic_key = Seq (lit ''sk-ant-'') (at_least_rx 16 (Cls key_char))"

definition openai_key :: rx where
  "openai_key = seqs [WordB, lit ''sk-'', NotAhead (lit ''ant-''),
     opt_rx (seqs [alts [lit ''proj'', lit ''svcacct'', lit ''admin''], lit ''-'']),
     at_least_rx 20 (Cls key_char), WordB]"

definition github_token :: rx where
  "github_token = seqs [lit ''gh'', Cls (among ''pousr''), lit ''_'', at_least_rx 20 (Cls is_alnum)]"

definition aws_access_key :: rx where
  "aws_access_key = Seq (lit ''AKIA'') (rep 16 (Cls (\<lambda>c. is_digit c \<or> is_upper c)))"

definition google_api_key :: rx where
  "google_api_key = Seq (lit ''AIza'') (at_least_rx 20 (Cls key_char))"

definition slack_token :: rx where
  "slack_token = seqs [lit ''xox'', Cls (among ''baprs''), lit ''-'',
     at_least_rx 10 (Cls (\<lambda>c. is_alnum c \<or> c = CHR ''-''))]"

definition huggingface_token :: rx where
  "huggingface_token = seqs [WordB, lit ''hf_'', at_least_rx 20 (Cls is_alnum), WordB]"

definition stripe_key :: rx where
  "stripe_key = seqs [WordB, Cls (among ''sr''), lit ''k_'', alts [lit ''live'', lit ''test''], lit ''_'',
     at_least_rx 16 (Cls is_alnum), WordB]"

definition azure_account_key :: rx where
  "azure_account_key = seqs [WordB, lit_i ''accountkey'', lit ''='',
     at_least_rx 40 (Cls (\<lambda>c. is_alnum c \<or> among ''+/='' c))]"

definition db_url_credentials :: rx where
  "db_url_credentials = seqs [WordB,
     alts [seqs [lit_i ''postgres'', opt_rx (lit_i ''ql'')], lit_i ''mysql'',
           seqs [lit_i ''mongodb'', opt_rx (lit_i ''+srv'')], lit_i ''redis'',
           seqs [lit_i ''amqp'', opt_rx (lit_i ''s'')]],
     lit ''://'', plus (none_of ''/:@''), lit '':'', plus (none_of ''@''), lit ''@'']"

definition private_key_block :: rx where
  "private_key_block = seqs [lit ''-----BEGIN '', Star (Cls (\<lambda>c. is_upper c \<or> c = CHR '' '')),
     lit ''PRIVATE KEY-----'']"

definition jwt :: rx where
  "jwt = seqs [WordB, lit ''eyJ'', plus (Cls key_char), lit ''.'', plus (Cls key_char), lit ''.'',
     plus (Cls key_char), WordB]"

definition assigned_secret :: rx where
  "assigned_secret = seqs [WordB,
     alts [lit_i ''password'', lit_i ''passwd'', lit_i ''secret'',
           seqs [lit_i ''api'', opt_rx (Cls (among ''_-'')), lit_i ''key''],
           seqs [lit_i ''access'', opt_rx (Cls (among ''_-'')), lit_i ''token''], lit_i ''bearer''],
     WordB, Star space_rx, Cls (among '':=''), Star space_rx, at_least_rx 6 (none_of [])]"

definition bearer_header :: rx where
  "bearer_header = seqs [WordB, lit_i ''bearer'', plus space_rx,
     at_least_rx 12 (Cls (\<lambda>c. is_alnum c \<or> among ''._-'' c))]"

definition user_home_path :: rx where
  "user_home_path = seqs [Cls is_alpha, lit '':'', sep_rx, lit_i ''users'', sep_rx,
     NotAhead (seqs [alts [lit_i ''public'', lit_i ''default''], WordB]),
     plus (none_of [CHR 0x5C, CHR ''/'', CHR 0x22, CHR 0x27])]"

definition posix_home_path :: rx where
  "posix_home_path = seqs [NotBehind (\<lambda>c. is_alnum c \<or> among ''._/'' c), lit ''/'',
     alts [lit ''home'', lit ''Users''], lit ''/'', plus (none_of [CHR ''/'', CHR 0x22, CHR 0x27])]"

definition secret_patterns :: "(string \<times> rx) list" where
  "secret_patterns =
     [(''anthropic_key'', anthropic_key), (''openai_key'', openai_key), (''github_token'', github_token),
      (''aws_access_key'', aws_access_key), (''google_api_key'', google_api_key),
      (''slack_token'', slack_token), (''huggingface_token'', huggingface_token),
      (''stripe_key'', stripe_key), (''azure_account_key'', azure_account_key),
      (''db_url_credentials'', db_url_credentials), (''private_key_block'', private_key_block),
      (''jwt'', jwt), (''assigned_secret'', assigned_secret), (''bearer_header'', bearer_header),
      (''user_home_path'', user_home_path), (''posix_home_path'', posix_home_path)]"

definition email_rx :: rx where
  "email_rx = seqs [WordB, plus (Cls (\<lambda>c. is_alnum c \<or> among ''._%+-'' c)), lit ''@'',
     plus (Cls (\<lambda>c. is_alnum c \<or> among ''.-'' c)), lit ''.'', at_least_rx 2 (Cls is_alpha), WordB]"

definition email_allowed :: "string \<Rightarrow> bool" where
  "email_allowed addr =
     (list_ex (\<lambda>suf. ends_with suf addr) [''@example.com'', ''@example.org'', ''@anthropic.com''] \<or>
      takeWhile (\<lambda>c. c \<noteq> CHR ''@'') addr = ''noreply'')"

definition has_personal_email :: "string \<Rightarrow> bool" where
  "has_personal_email s = list_ex (\<lambda>m. \<not> email_allowed (lower m)) (find_all email_rx s)"

section \<open>Scanning and the gate\<close>

definition scan_for_secrets :: "string \<Rightarrow> string list" where
  "scan_for_secrets s =
     (if s = [] then []
      else map fst (filter (\<lambda>(name, pattern). rx_search pattern s) secret_patterns) @
        (if has_personal_email s then [''email''] else []))"

fun nested_strings :: "pyval \<Rightarrow> string list" where
  "nested_strings (PStr s) = [s]"
| "nested_strings (PList xs) = concat (map nested_strings xs)"
| "nested_strings (PDict d) = concat (map (\<lambda>(k, v). nested_strings v) d)"
| "nested_strings _ = []"

definition field_labels :: "pyval \<Rightarrow> string list" where
  "field_labels v = sort (remdups (concat (map scan_for_secrets (nested_strings v))))"

definition redaction_hits :: "pydict \<Rightarrow> (string \<times> string list) list" where
  "redaction_hits fs =
     filter (\<lambda>(name, labels). labels \<noteq> []) (map (\<lambda>(name, v). (name, field_labels v)) fs)"

definition assert_redacted :: "pydict \<Rightarrow> exn + unit" where
  "assert_redacted fs =
     (let hits = redaction_hits fs in
      if hits = [] then Inr ()
      else Inl (denied2 ''DENIED_TRACE_REDACTION''
        [(''fields'', PDict (map (\<lambda>(name, labels). (name, PList (map PStr labels))) hits)),
         (''required_action'', PStr ''remove secrets/personal paths; store a hash or a chunk/source-lock reference instead of raw content'')]))"

section \<open>What the gate lets through\<close>

text \<open>A field is clean when none of the strings nested in it matches a pattern.\<close>

definition clean :: "pyval \<Rightarrow> bool" where
  "clean v \<longleftrightarrow> list_all (\<lambda>s. scan_for_secrets s = []) (nested_strings v)"

lemma field_labels_Nil [simp]: "field_labels v = [] \<longleftrightarrow> clean v"
proof -
  have "field_labels v = [] \<longleftrightarrow> set (field_labels v) = {}" by (simp only: set_empty)
  then show ?thesis by (simp add: field_labels_def clean_def list_all_iff)
qed

lemma redaction_hits_Nil: "redaction_hits fs = [] \<longleftrightarrow> list_all (\<lambda>(name, v). clean v) fs"
  by (auto simp: redaction_hits_def filter_empty_conv list_all_iff)

lemma assert_redacted_ok [simp]: "assert_redacted fs = Inr () \<longleftrightarrow> list_all (\<lambda>(name, v). clean v) fs"
  by (simp add: assert_redacted_def Let_def redaction_hits_Nil)

lemma set_field_labels: "set (field_labels v) = (\<Union>s \<in> set (nested_strings v). set (scan_for_secrets s))"
  by (simp add: field_labels_def)

text \<open>The redaction gate passes exactly the records none of whose strings, at any depth of any
  field, matches a secret pattern or holds a personal e-mail address; otherwise it denies with
  exit code 2 and lists, for exactly the offending fields, the sorted labels found there.\<close>

theorem redaction_gate:
  "(case assert_redacted fs of
      Inr _ \<Rightarrow> {s. \<exists>name v. (name, v) \<in> set fs \<and> s \<in> set (nested_strings v) \<and> scan_for_secrets s \<noteq> []} = {}
    | Inl e \<Rightarrow> exn_code e = ''DENIED_TRACE_REDACTION'' \<and> exn_exit e = 2 \<and>
        e = denied2 ''DENIED_TRACE_REDACTION''
          [(''fields'', PDict (map (\<lambda>(name, labels). (name, PList (map PStr labels))) (redaction_hits fs))),
           (''required_action'', PStr ''remove secrets/personal paths; store a hash or a chunk/source-lock reference instead of raw content'')] \<and>
        fst ` set (redaction_hits fs) = {name. \<exists>v. (name, v) \<in> set fs \<and> \<not> clean v})"
proof (cases "redaction_hits fs = []")
  case True
  then show ?thesis
    by (auto simp: assert_redacted_def redaction_hits_Nil list_all_iff clean_def)
next
  case False
  moreover have "fst ` set (redaction_hits fs) = {name. \<exists>v. (name, v) \<in> set fs \<and> \<not> clean v}"
    by (force simp: redaction_hits_def image_iff)
  ultimately show ?thesis by (simp add: assert_redacted_def)
qed

lemma scan_labels: "s \<noteq> [] \<Longrightarrow> (name, pattern) \<in> set secret_patterns \<Longrightarrow> rx_search pattern s \<Longrightarrow>
    name \<in> set (scan_for_secrets s)"
  by (force simp: scan_for_secrets_def)

lemma literal_then_run:
  assumes "n \<le> length w" "list_all f w"
  shows "rx_search (Seq (lit p) (at_least_rx n (Cls f))) (pre @ p @ w @ post)"
  using ends_at_least [OF assms, of "rev p @ rev pre" post]
  by (intro rx_searchI [of _ pre "p @ w @ post"]) (simp_all add: ends_lit)

text \<open>A key of the Anthropic, Google or AWS shape is found wherever it stands in a text, and a text that
  holds one is refused by the gate in any field, also deep inside a payload.\<close>

theorem provider_keys_detected:
  assumes "16 \<le> length k" "list_all key_char k" "20 \<le> length g" "list_all key_char g"
    and "length a = 16" "list_all (\<lambda>c. is_digit c \<or> is_upper c) a"
  shows "''anthropic_key'' \<in> set (scan_for_secrets (pre @ ''sk-ant-'' @ k @ post)) \<and>
    ''google_api_key'' \<in> set (scan_for_secrets (pre @ ''AIza'' @ g @ post)) \<and>
    ''aws_access_key'' \<in> set (scan_for_secrets (pre @ ''AKIA'' @ a @ post)) \<and>
    \<not> clean (PDict [(field, PList [PStr (pre @ ''sk-ant-'' @ k @ post)])])"
proof -
  have "''anthropic_key'' \<in> set (scan_for_secrets (pre @ ''sk-ant-'' @ k @ post))"
    using literal_then_run [OF assms(1,2), of "''sk-ant-''" pre post]
    by (intro scan_labels [of _ _ anthropic_key]) (simp_all add: secret_patterns_def anthropic_key_def)
  moreover have "''google_api_key'' \<in> set (scan_for_secrets (pre @ ''AIza'' @ g @ post))"
    using literal_then_run [OF assms(3,4), of "''AIza''" pre post]
    by (intro scan_labels [of _ _ google_api_key]) (simp_all add: secret_patterns_def google_api_key_def)
  moreover have "rx_search aws_access_key (pre @ ''AKIA'' @ a @ post)"
    using ends_lit [of "''AKIA''" "rev pre" "a @ post"] ends_rep [OF assms(5,6), of "rev ''AKIA'' @ rev pre" post]
    by (intro rx_searchI [of _ pre "''AKIA'' @ a @ post"]) (simp_all add: aws_access_key_def)
  then have "''aws_access_key'' \<in> set (scan_for_secrets (pre @ ''AKIA'' @ a @ post))"
    by (intro scan_labels [of _ _ aws_access_key]) (simp_all add: secret_patterns_def)
  ultimately show ?thesis by (auto simp: clean_def)
qed

theorem provider_keys_detected_witness:
  "''anthropic_key'' \<in> set (scan_for_secrets (''x sk-ant-0123456789abcdef y''))"
  using provider_keys_detected [of "''0123456789abcdef''" "''0123456789abcdefghij''" "''0123456789ABCDEF''" "''x ''" "'' y''" "''f''"]
  by (simp add: key_char_def is_alnum_def is_digit_def is_alpha_def is_lower_def is_upper_def)

end
