(* ===== verification/Iso_Time.thy ===== *)
theory Iso_Time imports Py_Value begin

text \<open>
  The \<open>datetime\<close> values the ledger is stamped with, and their text form. A datetime is its
  local time in microseconds since 0001-01-01 with an optional UTC offset in microseconds;
  \<open>isoformat\<close> and \<open>fromisoformat\<close> follow the standard library (calendar and week
  dates, basic and extended time, fractions, offsets). The helpers are those of
  \<open>fleet/store.py\<close>, \<open>fleet/coordination.py\<close> and \<open>db.now\<close>.
\<close>

section \<open>The proleptic Gregorian calendar\<close>

definition is_leap :: "int \<Rightarrow> bool" where
  "is_leap y = (y mod 4 = 0 \<and> (y mod 100 \<noteq> 0 \<or> y mod 400 = 0))"

definition days_before_year :: "int \<Rightarrow> int" where
  "days_before_year year = (let y = year - 1 in y * 365 + y div 4 - y div 100 + y div 400)"

definition month_starts :: "bool \<Rightarrow> int list" where
  "month_starts leap =
     (if leap then [0, 31, 60, 91, 121, 152, 182, 213, 244, 274, 305, 335]
      else [0, 31, 59, 90, 120, 151, 181, 212, 243, 273, 304, 334])"

definition month_lengths :: "bool \<Rightarrow> int list" where
  "month_lengths leap = [31, if leap then 29 else 28, 31, 30, 31, 30, 31, 31, 30, 31, 30, 31]"

definition valid_date :: "int \<times> int \<times> int \<Rightarrow> bool" where
  "valid_date ymd =
     (case ymd of (y, m, d) \<Rightarrow>
        1 \<le> y \<and> y \<le> 9999 \<and> 1 \<le> m \<and> m \<le> 12 \<and> 1 \<le> d \<and> d \<le> month_lengths (is_leap y) ! nat (m - 1))"

definition ymd2ord :: "int \<times> int \<times> int \<Rightarrow> int" where
  "ymd2ord ymd =
     (case ymd of (y, m, d) \<Rightarrow> days_before_year y + month_starts (is_leap y) ! nat (m - 1) + d)"

definition month_of :: "bool \<Rightarrow> int \<Rightarrow> int" where
  "month_of leap n = int (length (filter (\<lambda>s. s \<le> n) (month_starts leap)))"

definition ord2ymd :: "int \<Rightarrow> int \<times> int \<times> int" where
  "ord2ymd n =
     (let n0 = n - 1;
          n400 = n0 div 146097; r400 = n0 mod 146097;
          n100 = r400 div 36524; r100 = r400 mod 36524;
          n4 = r100 div 1461; r4 = r100 mod 1461;
          n1 = r4 div 365; r1 = r4 mod 365;
          y = n400 * 400 + n100 * 100 + n4 * 4 + n1 + 1
      in if n1 = 4 \<or> n100 = 4 then (y - 1, 12, 31)
         else (let m = month_of (is_leap y) r1
               in (y, m, r1 - month_starts (is_leap y) ! nat (m - 1) + 1)))"

definition max_ordinal :: int where
  "max_ordinal = 3652059"

section \<open>Datetimes and their text\<close>

datatype datetime = Datetime (dt_local: int) (dt_offset: "int option")

definition us_day :: int where
  "us_day = 86400000000"

definition dt_in_range :: "int \<Rightarrow> bool" where
  "dt_in_range l = (0 \<le> l \<and> l < max_ordinal * us_day)"

primrec fixed :: "nat \<Rightarrow> int \<Rightarrow> string" where
  "fixed 0 n = []"
| "fixed (Suc k) n = fixed k (n div 10) @ [digit_char (n mod 10)]"

text \<open>\<open>HH:MM:SS[.ffffff]\<close> of a time of day in microseconds\<close>

definition clock_text :: "int \<Rightarrow> string" where
  "clock_text us =
     (let s = us div 1000000; f = us mod 1000000
      in fixed 2 (s div 3600) @ '':'' @ fixed 2 (s div 60 mod 60) @ '':'' @ fixed 2 (s mod 60)
         @ (if f = 0 then [] else ''.'' @ fixed 6 f))"

definition offset_text :: "int \<Rightarrow> string" where
  "offset_text off =
     (let a = \<bar>off\<bar>; s = a div 1000000; f = a mod 1000000
      in (if off < 0 then ''-'' else ''+'') @ fixed 2 (s div 3600) @ '':'' @ fixed 2 (s div 60 mod 60)
         @ (if s mod 60 = 0 \<and> f = 0 then [] else '':'' @ fixed 2 (s mod 60)
            @ (if f = 0 then [] else ''.'' @ fixed 6 f)))"

definition date_text :: "int \<Rightarrow> string" where
  "date_text n = (case ord2ymd n of (y, m, d) \<Rightarrow> fixed 4 y @ ''-'' @ fixed 2 m @ ''-'' @ fixed 2 d)"

definition isoformat :: "datetime \<Rightarrow> string" where
  "isoformat t =
     date_text (dt_local t div us_day + 1) @ ''T'' @ clock_text (dt_local t mod us_day)
       @ (case dt_offset t of None \<Rightarrow> [] | Some off \<Rightarrow> offset_text off)"

section \<open>Reading\<close>

definition digits_n :: "nat \<Rightarrow> string \<Rightarrow> (int \<times> string) option" where
  "digits_n k s =
     (if length s < k \<or> \<not> list_all is_digit (take k s) then None
      else Some (digits_val (take k s), drop k s))"

definition iso_week_date :: "int \<Rightarrow> int \<Rightarrow> int \<Rightarrow> (int \<times> int \<times> int) option" where
  "iso_week_date y w d =
     (let first = ymd2ord (y, 1, 1); first_weekday = (first + 6) mod 7;
          week1 = first - first_weekday + (if 3 < first_weekday then 7 else 0);
          long = (let wd = first mod 7 in wd = 4 \<or> wd = 3 \<and> is_leap y)
      in if y < 1 \<or> 9999 < y \<or> w < 1 \<or> 53 < w \<or> w = 53 \<and> \<not> long \<or> d < 1 \<or> 7 < d then None
         else Some (ord2ymd (week1 + (w - 1) * 7 + d - 1)))"

text \<open>Where the date ends and the separator stands.\<close>

definition separator_at :: "string \<Rightarrow> nat option" where
  "separator_at s =
     (let len = length s in
      if len < 7 then None
      else if len = 7 then Some 7
      else if s ! 4 = CHR ''-'' then
        (if s ! 5 = CHR ''W'' then
           (if 8 < len \<and> s ! 8 = CHR ''-'' then
              (if len = 9 then None else if 10 < len \<and> is_digit (s ! 10) then Some 8 else Some 10)
            else Some 8)
         else Some 10)
      else if s ! 4 = CHR ''W'' then
        (let k = 7 + length (takeWhile is_digit (drop 7 s))
         in if k < 9 then Some k else if even k then Some 7 else Some 8)
      else Some 8)"

definition parse_week :: "int \<Rightarrow> bool \<Rightarrow> string \<Rightarrow> (int \<times> int \<times> int) option" where
  "parse_week y sep s =
     (case digits_n 2 s of
        None \<Rightarrow> None
      | Some (w, rest) \<Rightarrow>
          if rest = [] then iso_week_date y w 1
          else if sep \<and> hd rest \<noteq> CHR ''-'' then None
          else (case digits_n 1 (if sep then tl rest else rest) of
              None \<Rightarrow> None
            | Some (d, _) \<Rightarrow> iso_week_date y w d))"

definition parse_date :: "string \<Rightarrow> (int \<times> int \<times> int) option" where
  "parse_date s =
     (case digits_n 4 s of
        None \<Rightarrow> None
      | Some (y, r) \<Rightarrow>
          (let sep = (r \<noteq> [] \<and> hd r = CHR ''-''); r1 = (if sep then tl r else r)
           in if r1 \<noteq> [] \<and> hd r1 = CHR ''W'' then parse_week y sep (tl r1)
              else (case digits_n 2 r1 of
                  None \<Rightarrow> None
                | Some (m, r2) \<Rightarrow>
                    if sep \<and> (r2 = [] \<or> hd r2 \<noteq> CHR ''-'') then None
                    else (case digits_n 2 (if sep then tl r2 else r2) of
                        None \<Rightarrow> None
                      | Some (d, _) \<Rightarrow> Some (y, m, d)))))"

text \<open>The fraction: six digits count, further digits are dropped.\<close>

definition parse_fraction :: "string \<Rightarrow> int option" where
  "parse_fraction s =
     (if s = [] \<or> \<not> list_all is_digit s then None
      else Some (digits_val (take 6 s) * 10 ^ (6 - length (take 6 s))))"

fun parse_clock_from :: "nat \<Rightarrow> bool \<Rightarrow> string \<Rightarrow> int list \<Rightarrow> (int list \<times> int) option" where
  "parse_clock_from k sep s acc =
     (case digits_n 2 s of
        None \<Rightarrow> None
      | Some (v, r) \<Rightarrow>
          (let acc = acc @ [v]; sep = (if acc = [v] then r \<noteq> [] \<and> hd r = CHR '':'' else sep)
           in if r = [] then Some (acc, 0)
              else (case k of
                  0 \<Rightarrow>
                    if hd r = CHR ''.'' \<or> hd r = CHR '',''
                    then map_option (Pair acc) (parse_fraction (tl r)) else None
                | Suc j \<Rightarrow>
                    if sep then (if hd r = CHR '':'' then parse_clock_from j sep (tl r) acc else None)
                    else parse_clock_from j sep r acc)))"

definition pad3 :: "int list \<Rightarrow> int list" where
  "pad3 vs = take 3 (vs @ [0, 0, 0])"

text \<open>\<open>HH[:MM[:SS[.f]]]\<close> in microseconds, with the ranges of a time of day\<close>

definition parse_clock :: "string \<Rightarrow> int option" where
  "parse_clock s =
     (case parse_clock_from 2 False s [] of
        None \<Rightarrow> None
      | Some (vs, f) \<Rightarrow>
          (let h = pad3 vs ! 0; m = pad3 vs ! 1; sec = pad3 vs ! 2
           in if h < 24 \<and> m < 60 \<and> sec < 60 then Some (((h * 60 + m) * 60 + sec) * 1000000 + f) else None))"

definition find_char :: "char \<Rightarrow> string \<Rightarrow> nat option" where
  "find_char c s = (if c \<in> set s then Some (length (takeWhile (\<lambda>x. x \<noteq> c) s)) else None)"

text \<open>The sign of the offset: the first \<open>-\<close>, otherwise the first \<open>+\<close>, otherwise \<open>Z\<close>.\<close>

definition zone_at :: "string \<Rightarrow> nat option" where
  "zone_at s =
     (case find_char (CHR ''-'') s of
        Some k \<Rightarrow> Some k
      | None \<Rightarrow> (case find_char (CHR ''+'') s of Some k \<Rightarrow> Some k | None \<Rightarrow> find_char (CHR ''Z'') s))"

definition parse_time :: "string \<Rightarrow> (int \<times> int option) option" where
  "parse_time s =
     (case zone_at s of
        None \<Rightarrow> map_option (\<lambda>us. (us, None)) (parse_clock s)
      | Some k \<Rightarrow>
          (case parse_clock (take k s) of
             None \<Rightarrow> None
           | Some us \<Rightarrow>
               (let zone = drop (Suc k) s in
                if zone = [] \<and> s ! k = CHR ''Z'' then Some (us, Some 0)
                else if length zone \<in> {0, 1, 3} then None
                else (case parse_clock zone of
                    None \<Rightarrow> None
                  | Some off \<Rightarrow> Some (us, Some (if s ! k = CHR ''-'' then - off else off))))))"

definition fromisoformat :: "string \<Rightarrow> datetime option" where
  "fromisoformat s =
     (case separator_at s of
        None \<Rightarrow> None
      | Some k \<Rightarrow>
          (case parse_date (take k s) of
             None \<Rightarrow> None
           | Some ymd \<Rightarrow>
               if \<not> valid_date ymd then None
               else (let tail = drop (Suc k) s; day = (ymd2ord ymd - 1) * us_day in
                 if length s \<le> k then Some (Datetime day None)
                 else (case parse_time tail of
                     None \<Rightarrow> None
                   | Some (us, off) \<Rightarrow> Some (Datetime (day + us) off)))))"

section \<open>Ledger timestamps\<close>

text \<open>\<open>_parse_iso\<close>: \<open>Z\<close> is read as \<open>+00:00\<close> and a naive time as UTC.\<close>

definition parse_iso :: "string option \<Rightarrow> datetime option" where
  "parse_iso s =
     (if opt_str s = [] then None
      else
        (case fromisoformat (concat (map (\<lambda>c. if c = CHR ''Z'' then ''+00:00'' else [c]) (opt_str s))) of
           None \<Rightarrow> None
         | Some t \<Rightarrow> Some (case dt_offset t of None \<Rightarrow> Datetime (dt_local t) (Some 0) | Some _ \<Rightarrow> t)))"

text \<open>The instant of an aware datetime, in microseconds of UTC.\<close>

definition instant :: "datetime \<Rightarrow> int" where
  "instant t = dt_local t - (case dt_offset t of None \<Rightarrow> 0 | Some off \<Rightarrow> off)"

text \<open>\<open>t + timedelta(microseconds=n)\<close>; \<open>None\<close> stands for the \<open>OverflowError\<close>.\<close>

definition dt_add :: "datetime \<Rightarrow> int \<Rightarrow> datetime option" where
  "dt_add t n =
     (if dt_in_range (dt_local t + n) then Some (Datetime (dt_local t + n) (dt_offset t)) else None)"

text \<open>\<open>datetime.now(timezone.utc)\<close> at an instant, and its text, \<open>db.now()\<close>.\<close>

definition utc :: "int \<Rightarrow> datetime" where
  "utc l = Datetime l (Some 0)"

definition now_text :: "int \<Rightarrow> string" where
  "now_text l = isoformat (utc l)"

text \<open>\<open>_age_seconds\<close>: the difference in seconds as a double, rounded to three places.\<close>

definition round3 :: "int \<times> int \<Rightarrow> int \<times> int" where
  "round3 x = (let (n, d) = frac_of (fst x) (snd x) in double_of_frac (round_half_even (n * 1000) d) 1000)"

definition age_seconds :: "string option \<Rightarrow> datetime option \<Rightarrow> pyval" where
  "age_seconds seen now =
     (case (parse_iso seen, now) of
        (Some t, Some n) \<Rightarrow>
          (let (m, e) = round3 (double_of_frac (instant n - instant t) 1000000) in PFloat m e)
      | _ \<Rightarrow> PNone)"

section \<open>Fixed-width numerals\<close>

lemma length_fixed [simp]: "length (fixed k n) = k"
  by (induction k arbitrary: n) auto

lemma fixed_digits [simp]: "list_all is_digit (fixed k n)"
  by (induction k arbitrary: n) auto

lemma digits_val_fixed: "digits_val (fixed k n) = n mod 10 ^ k"
proof (induction k arbitrary: n)
  case (Suc k)
  have "n mod 10 ^ Suc k = 10 * (n div 10 mod 10 ^ k) + n mod 10"
    by (simp add: zmod_zmult2_eq)
  with Suc show ?case by simp
qed simp

lemma digits_val_fixed_id [simp]: "0 \<le> n \<Longrightarrow> n < 10 ^ k \<Longrightarrow> digits_val (fixed k n) = n"
  by (simp add: digits_val_fixed)

lemma digits_n_fixed [simp]: "0 \<le> n \<Longrightarrow> n < 10 ^ k \<Longrightarrow> digits_n k (fixed k n @ s) = Some (n, s)"
  by (simp add: digits_n_def)

lemma digits_n_fixed_end [simp]: "0 \<le> n \<Longrightarrow> n < 10 ^ k \<Longrightarrow> digits_n k (fixed k n) = Some (n, [])"
  using digits_n_fixed [of n k "[]"] by simp

text \<open>Numerals of one width compare as the numbers do, and so do texts that start with them.\<close>

lemma digit_char_less: "0 \<le> a \<Longrightarrow> a < 10 \<Longrightarrow> 0 \<le> b \<Longrightarrow> b < 10 \<Longrightarrow> digit_char a < digit_char b \<longleftrightarrow> a < b"
  by (auto simp: digit_char_def less_char_def of_char_of)

lemma list_less_append:
  fixes a b :: "'a::linorder list"
  shows "length a = length b \<Longrightarrow> a @ s < b @ t \<longleftrightarrow> a < b \<or> a = b \<and> s < t"
  by (induction a b rule: list_induct2) auto

lemma digit_char_inj: "0 \<le> a \<Longrightarrow> a < 10 \<Longrightarrow> 0 \<le> b \<Longrightarrow> b < 10 \<Longrightarrow> digit_char a = digit_char b \<longleftrightarrow> a = b"
  by (metis digit_val_digit_char)

lemma fixed_inj: "0 \<le> m \<Longrightarrow> m < 10 ^ k \<Longrightarrow> 0 \<le> n \<Longrightarrow> n < 10 ^ k \<Longrightarrow> fixed k m = fixed k n \<longleftrightarrow> m = n"
  by (metis digits_val_fixed_id)

lemma fixed_less:
  "0 \<le> m \<Longrightarrow> m < 10 ^ k \<Longrightarrow> 0 \<le> n \<Longrightarrow> n < 10 ^ k \<Longrightarrow> fixed k m < fixed k n \<longleftrightarrow> m < n"
proof (induction k arbitrary: m n)
  case (Suc k)
  have "m div 10 < 10 ^ k" "n div 10 < 10 ^ k" using Suc.prems by auto
  then have "fixed (Suc k) m < fixed (Suc k) n \<longleftrightarrow> m div 10 < n div 10 \<or> m div 10 = n div 10 \<and> m mod 10 < n mod 10"
    using Suc by (simp add: list_less_append digit_char_less fixed_inj pos_imp_zdiv_nonneg_iff)
  also have "\<dots> \<longleftrightarrow> m < n"
    using div_mult_mod_eq [of m 10] div_mult_mod_eq [of n 10] pos_mod_bound [of 10 m] pos_mod_bound [of 10 n]
      pos_mod_sign [of 10 m] pos_mod_sign [of 10 n]
    by linarith
  finally show ?case .
qed simp

lemma fixed_append_less:
  "0 \<le> m \<Longrightarrow> m < 10 ^ k \<Longrightarrow> 0 \<le> n \<Longrightarrow> n < 10 ^ k \<Longrightarrow>
     fixed k m @ s < fixed k n @ t \<longleftrightarrow> m < n \<or> m = n \<and> s < t"
  by (simp add: list_less_append fixed_less fixed_inj)

section \<open>Ordinals and dates\<close>

lemma month_table:
  "list_all (\<lambda>r. let m = month_of leap r in 1 \<le> m \<and> m \<le> 12 \<and> month_starts leap ! nat (m - 1) \<le> r \<and>
      (r < 365 \<longrightarrow> r < month_starts leap ! nat (m - 1) + month_lengths leap ! nat (m - 1))) [0..365]"
  by (cases leap) (simp_all only:, code_simp+)

lemma month_of_props:
  assumes "0 \<le> r" "r < 365"
  shows "1 \<le> month_of leap r" "month_of leap r \<le> 12"
    "month_starts leap ! nat (month_of leap r - 1) \<le> r"
    "r < month_starts leap ! nat (month_of leap r - 1) + month_lengths leap ! nat (month_of leap r - 1)"
  using month_table [of leap, unfolded list_all_iff, rule_format, of r] assms by (simp_all add: Let_def)

lemma div_step:
  fixes y k :: int assumes "0 < k"
  shows "y div k = (y - 1) div k + of_bool (y mod k = 0)"
proof (cases "y mod k = 0")
  case True
  then obtain q where "y = k * q" by auto
  moreover have "(k * q - 1) div k = q - 1"
    using assms by (intro int_div_pos_eq [where r = "k - 1"]) (simp_all add: algebra_simps)
  ultimately show ?thesis using assms by simp
next
  case False
  have "0 < y mod k" "y mod k < k"
    using assms False pos_mod_sign [of k y] by (simp_all add: order.not_eq_order_implies_strict)
  then have "(y - 1) div k = y div k"
    using div_mult_mod_eq [of y k]
    by (intro int_div_pos_eq [where r = "y mod k - 1"]) (simp_all add: algebra_simps)
  with False show ?thesis by simp
qed

lemma of_bool_nested: "(c \<longrightarrow> b) \<Longrightarrow> (b \<longrightarrow> a) \<Longrightarrow> of_bool a - of_bool b + of_bool c = (of_bool (a \<and> (\<not> b \<or> c)) :: int)"
  by (cases a; cases b; cases c) simp_all

lemma leap_chain:
  fixes y :: int
  shows "(y mod 400 = 0 \<longrightarrow> y mod 100 = 0) \<and> (y mod 100 = 0 \<longrightarrow> y mod 4 = 0)"
proof -
  have "y mod 400 mod 100 = y mod 100" "y mod 100 mod 4 = y mod 4"
    by (rule mod_mod_cancel, simp)+
  then show ?thesis by (metis mod_0)
qed

lemma year_sum:
  fixes y :: int
  shows "a' = a + p \<Longrightarrow> b' = b + q \<Longrightarrow> c' = c + r \<Longrightarrow> p - q + r = l \<Longrightarrow>
    y * 365 + a' - b' + c' = (y - 1) * 365 + a - b + c + 365 + l"
  by simp

lemma days_before_year_Suc: "days_before_year (y + 1) = days_before_year y + 365 + of_bool (is_leap y)"
proof -
  have "of_bool (y mod 4 = 0) - of_bool (y mod 100 = 0) + of_bool (y mod 400 = 0) = (of_bool (is_leap y) :: int)"
    unfolding is_leap_def using leap_chain [of y] by (intro of_bool_nested) simp_all
  note year_sum [OF div_step div_step div_step this, of y]
  moreover have "y + 1 - 1 = y" by simp
  ultimately show ?thesis
    unfolding days_before_year_def Let_def by (simp only: zero_less_numeral simp_thms)
qed

lemma days_before_year_mono: "y < y' \<Longrightarrow> days_before_year y + 365 + of_bool (is_leap y) \<le> days_before_year y'"
proof (induction "nat (y' - y)" arbitrary: y)
  case (Suc k)
  show ?case
  proof (cases "y + 1 = y'")
    case True
    then show ?thesis using days_before_year_Suc [of y] by simp
  next
    case False
    have "days_before_year (y + 1) + 365 + of_bool (is_leap (y + 1)) \<le> days_before_year y'"
      using Suc(2,3) False by (intro Suc(1)) auto
    moreover have "(0 :: int) \<le> of_bool (is_leap (y + 1))" by simp
    ultimately show ?thesis using days_before_year_Suc [of y] by linarith
  qed
qed simp

text \<open>A year by its 400-, 100-, 4- and 1-year cycles.\<close>

definition cycle_year :: "int \<Rightarrow> int \<Rightarrow> int \<Rightarrow> int \<Rightarrow> int" where
  "cycle_year a b c d = a * 400 + b * 100 + c * 4 + d + 1"

lemma cycle_year_pos: "0 \<le> a \<Longrightarrow> 0 \<le> b \<Longrightarrow> 0 \<le> c \<Longrightarrow> 0 \<le> d \<Longrightarrow> 1 \<le> cycle_year a b c d"
  by (simp add: cycle_year_def)

lemma days_before_cycle_year:
  assumes "0 \<le> b" "b < 4" "0 \<le> c" "c < 25" "0 \<le> d" "d < 4"
  shows "days_before_year (cycle_year a b c d) = 146097 * a + 36524 * b + 1461 * c + 365 * d"
proof -
  have "(a * 400 + b * 100 + c * 4 + d) div 4 = 100 * a + 25 * b + c"
    using assms by (intro int_div_pos_eq [where r = d]) simp_all
  moreover have "(a * 400 + b * 100 + c * 4 + d) div 100 = 4 * a + b"
    using assms by (intro int_div_pos_eq [where r = "c * 4 + d"]) simp_all
  moreover have "(a * 400 + b * 100 + c * 4 + d) div 400 = a"
    using assms by (intro int_div_pos_eq [where r = "b * 100 + c * 4 + d"]) simp_all
  moreover have "cycle_year a b c d - 1 = a * 400 + b * 100 + c * 4 + d"
    by (simp add: cycle_year_def)
  ultimately show ?thesis
    unfolding days_before_year_def Let_def by (simp only:) simp
qed

lemma leap_cycle_year:
  assumes "0 \<le> b" "b < 4" "0 \<le> c" "c < 25" "0 \<le> d" "d < 4"
  shows "is_leap (cycle_year a b c d) \<longleftrightarrow> d = 3 \<and> (c \<noteq> 24 \<or> b = 3)"
proof -
  let ?y = "cycle_year a b c d"
  have "?y mod 4 = (if d = 3 then 0 else d + 1)"
    using assms
    by (intro int_mod_pos_eq [where q = "100 * a + 25 * b + c + of_bool (d = 3)"]) (simp_all add: cycle_year_def)
  moreover have "?y mod 100 = (if d = 3 \<and> c = 24 then 0 else 4 * c + d + 1)"
    using assms
    by (intro int_mod_pos_eq [where q = "4 * a + b + of_bool (d = 3 \<and> c = 24)"]) (auto simp: cycle_year_def)
  moreover have "?y mod 400 = (if d = 3 \<and> c = 24 \<and> b = 3 then 0 else 100 * b + 4 * c + d + 1)"
    using assms
    by (intro int_mod_pos_eq [where q = "a + of_bool (d = 3 \<and> c = 24 \<and> b = 3)"]) (auto simp: cycle_year_def)
  ultimately show ?thesis
    unfolding is_leap_def using assms by (simp only:) (auto split: if_splits)
qed

lemma ymd2ord_year_end:
  assumes "is_leap y" shows "ymd2ord (y, 12, 31) = days_before_year y + 366"
  using assms by (simp add: ymd2ord_def month_starts_def)

definition date_of :: "int \<Rightarrow> int \<times> int \<times> int \<Rightarrow> bool" where
  "date_of n ymd \<longleftrightarrow> ymd2ord ymd = n \<and>
     (case ymd of (y, m, d) \<Rightarrow> 1 \<le> y \<and> 1 \<le> m \<and> m \<le> 12 \<and> 1 \<le> d \<and>
        d \<le> month_lengths (is_leap y) ! nat (m - 1) \<and> days_before_year y < n)"

lemma date_of_year_end:
  assumes "is_leap y" "1 \<le> y" "n = days_before_year y + 366" shows "date_of n (y, 12, 31)"
  using assms by (simp add: date_of_def ymd2ord_year_end month_lengths_def)

lemma date_of_day:
  assumes "1 \<le> y" "0 \<le> r" "r < 365" "n = days_before_year y + r + 1"
  shows "date_of n (y, month_of (is_leap y) r,
    r - month_starts (is_leap y) ! nat (month_of (is_leap y) r - 1) + 1)"
  using assms month_of_props [OF assms(2,3), of "is_leap y"] by (simp add: date_of_def ymd2ord_def)

lemma div_mod_cases:
  fixes n k :: int assumes "0 \<le> n" "0 < k"
  obtains "0 \<le> n div k" "0 \<le> n mod k" "n mod k < k" "n = n div k * k + n mod k"
  using assms by (simp add: pos_imp_zdiv_nonneg_iff)

lemma ord2ymd_date_of:
  assumes "1 \<le> n" shows "date_of n (ord2ymd n)"
proof -
  define a ra where "a = (n - 1) div 146097" and "ra = (n - 1) mod 146097"
  define b rb where "b = ra div 36524" and "rb = ra mod 36524"
  define c rc where "c = rb div 1461" and "rc = rb mod 1461"
  define d rd where "d = rc div 365" and "rd = rc mod 365"
  note defs = a_def ra_def b_def rb_def c_def rc_def d_def rd_def
  have a: "0 \<le> a" "0 \<le> ra" "ra < 146097" "n - 1 = a * 146097 + ra"
    using assms by (auto simp: a_def ra_def intro: div_mod_cases [of "n - 1" 146097])
  have b: "0 \<le> b" "0 \<le> rb" "rb < 36524" "ra = b * 36524 + rb"
    using a(2) by (auto simp: b_def rb_def intro: div_mod_cases [of ra 36524])
  have c: "0 \<le> c" "0 \<le> rc" "rc < 1461" "rb = c * 1461 + rc"
    using b(2) by (auto simp: c_def rc_def intro: div_mod_cases [of rb 1461])
  have d: "0 \<le> d" "0 \<le> rd" "rd < 365" "rc = d * 365 + rd"
    using c(2) by (auto simp: d_def rd_def intro: div_mod_cases [of rc 365])
  have eq: "ord2ymd n = (let y = cycle_year a b c d in
      if d = 4 \<or> b = 4 then (y - 1, 12, 31)
      else (y, month_of (is_leap y) rd,
        rd - month_starts (is_leap y) ! nat (month_of (is_leap y) rd - 1) + 1))"
    unfolding ord2ymd_def Let_def cycle_year_def defs by (rule refl)
  have "b \<le> 4" "c \<le> 24" "d \<le> 4" using a b c d by linarith+
  then consider "b = 4" | "b < 4" "d = 4" | "b < 4" "d < 4" by linarith
  then show ?thesis
  proof cases
    case 1
    then have z: "rb = 0" "c = 0" "d = 0" "rd = 0" using a b c d by linarith+
    with 1 have y: "cycle_year a b c d - 1 = cycle_year a 3 24 3" by (simp add: cycle_year_def)
    have "date_of n (cycle_year a 3 24 3, 12, 31)"
      using a b z 1
      by (intro date_of_year_end) (simp_all add: leap_cycle_year days_before_cycle_year cycle_year_pos)
    with 1 y show ?thesis by (simp add: eq)
  next
    case 2
    then have "rd = 0" "c \<le> 23" using b c d by linarith+
    with 2 have y: "cycle_year a b c d - 1 = cycle_year a b c 3" by (simp add: cycle_year_def)
    have "date_of n (cycle_year a b c 3, 12, 31)"
      using a b c d 2 \<open>rd = 0\<close> \<open>c \<le> 23\<close>
      by (intro date_of_year_end) (simp_all add: leap_cycle_year days_before_cycle_year cycle_year_pos)
    with 2 y show ?thesis by (simp add: eq)
  next
    case 3
    let ?y = "cycle_year a b c d"
    have "date_of n (?y, month_of (is_leap ?y) rd,
        rd - month_starts (is_leap ?y) ! nat (month_of (is_leap ?y) rd - 1) + 1)"
      using a b c d 3 \<open>c \<le> 24\<close>
      by (intro date_of_day) (simp_all add: days_before_cycle_year cycle_year_pos)
    with 3 show ?thesis by (simp add: eq Let_def)
  qed
qed

lemma days_before_year_le: "y < y' \<Longrightarrow> days_before_year y \<le> days_before_year y'"
proof -
  have "(0 :: int) \<le> of_bool (is_leap y)" by simp
  then show "y < y' \<Longrightarrow> days_before_year y \<le> days_before_year y'"
    using days_before_year_mono [of y y'] by linarith
qed

lemma days_before_max: "days_before_year 10000 = max_ordinal"
  by (simp add: days_before_year_def max_ordinal_def)

lemma ord2ymd_valid:
  assumes "1 \<le> n" "n \<le> max_ordinal" shows "valid_date (ord2ymd n)" "ymd2ord (ord2ymd n) = n"
proof -
  obtain y m d where ymd: "ord2ymd n = (y, m, d)" by (cases "ord2ymd n")
  note props = ord2ymd_date_of [OF assms(1), unfolded ymd date_of_def prod.case]
  have "y \<le> 9999"
  proof (rule ccontr)
    assume "\<not> y \<le> 9999"
    then have "y = 10000 \<or> 10000 < y" by linarith
    then have "max_ordinal \<le> days_before_year y"
      using days_before_year_le [of 10000 y] by (auto simp: days_before_max)
    with props assms(2) show False by auto
  qed
  with props ymd show "valid_date (ord2ymd n)" "ymd2ord (ord2ymd n) = n"
    by (auto simp: valid_date_def)
qed

text \<open>Dates in order have ordinals in order, so the calendar text of a later day is greater.\<close>

lemma month_steps:
  "list_all (\<lambda>m. list_all (\<lambda>m'. m < m' \<longrightarrow>
      month_starts leap ! nat (m - 1) + month_lengths leap ! nat (m - 1) \<le> month_starts leap ! nat (m' - 1))
    [1..12]) [1..12]"
  by (cases leap) (simp_all only:, code_simp+)

lemma month_ends: "list_all (\<lambda>m. 0 \<le> month_starts leap ! nat (m - 1) \<and>
    month_starts leap ! nat (m - 1) + month_lengths leap ! nat (m - 1) \<le> 365 + of_bool leap) [1..12]"
  by (cases leap) (simp_all only:, code_simp+)

lemma ymd2ord_mono:
  assumes "valid_date (y, m, d)" "valid_date (y', m', d')"
    and "y < y' \<or> y = y' \<and> (m < m' \<or> m = m' \<and> d < d')"
  shows "ymd2ord (y, m, d) < ymd2ord (y', m', d')"
proof -
  have v: "1 \<le> m" "m \<le> 12" "d \<le> month_lengths (is_leap y) ! nat (m - 1)" "1 \<le> m'" "m' \<le> 12" "1 \<le> d'"
    using assms(1,2) by (auto simp: valid_date_def)
  have ends: "month_starts (is_leap y) ! nat (m - 1) + month_lengths (is_leap y) ! nat (m - 1) \<le> 365 + of_bool (is_leap y)"
    "0 \<le> month_starts (is_leap y') ! nat (m' - 1)"
    using month_ends [of "is_leap y", unfolded list_all_iff, rule_format, of m]
      month_ends [of "is_leap y'", unfolded list_all_iff, rule_format, of m'] v by simp_all
  from assms(3) consider "y < y'" | "y = y'" "m < m'" | "y = y'" "m = m'" "d < d'" by blast
  then show ?thesis
  proof cases
    case 1
    with days_before_year_mono [OF 1] ends v show ?thesis by (simp add: ymd2ord_def)
  next
    case 2
    then show ?thesis
      using month_steps [of "is_leap y", unfolded list_all_iff, rule_format, of m m'] v
      by (simp add: ymd2ord_def)
  next
    case 3
    then show ?thesis by (simp add: ymd2ord_def)
  qed
qed

lemma ord2ymd_mono:
  assumes "1 \<le> n" "n < n'" "n' \<le> max_ordinal"
  shows "ord2ymd n < ord2ymd n'"
proof -
  have v: "valid_date (ord2ymd n)" "ymd2ord (ord2ymd n) = n" "valid_date (ord2ymd n')" "ymd2ord (ord2ymd n') = n'"
    using assms by (simp_all add: ord2ymd_valid)
  obtain y m d y' m' d' where ymd: "ord2ymd n = (y, m, d)" "ord2ymd n' = (y', m', d')"
    by (cases "ord2ymd n"; cases "ord2ymd n'")
  have "\<not> (y' < y \<or> y' = y \<and> (m' < m \<or> m' = m \<and> d' \<le> d))"
  proof
    assume "y' < y \<or> y' = y \<and> (m' < m \<or> m' = m \<and> d' \<le> d)"
    then have "n' \<le> n"
      using ymd2ord_mono [of y' m' d' y m d] v ymd by (auto simp: le_less)
    with assms show False by simp
  qed
  then show ?thesis unfolding ymd by auto
qed

section \<open>The text of a time of day\<close>

lemma div_mod_less:
  fixes n n' k :: int assumes "0 < k"
  shows "n < n' \<longleftrightarrow> n div k < n' div k \<or> n div k = n' div k \<and> n mod k < n' mod k"
proof -
  have e: "n = k * (n div k) + n mod k" "n' = k * (n' div k) + n' mod k" by simp_all
  show ?thesis
  proof (cases "n div k = n' div k")
    case True
    with e show ?thesis by (metis add_less_cancel_left less_irrefl)
  next
    case False
    with zdiv_mono1 [of n n' k] zdiv_mono1 [of n' n k] assms show ?thesis by linarith
  qed
qed

text \<open>Hours, minutes, seconds and microseconds, and the number they make.\<close>

lemma clock_parts:
  assumes "0 \<le> us" "us < us_day"
  obtains h m x f where "clock_text us = fixed 2 h @ '':'' @ fixed 2 m @ '':'' @ fixed 2 x @ (if f = 0 then [] else ''.'' @ fixed 6 f)"
    "0 \<le> h" "h < 24" "0 \<le> m" "m < 60" "0 \<le> x" "x < 60" "0 \<le> f" "f < 1000000"
    "us = ((h * 60 + m) * 60 + x) * 1000000 + f"
proof (rule that)
  let ?s = "us div 1000000"
  show "clock_text us = fixed 2 (?s div 3600) @ '':'' @ fixed 2 (?s div 60 mod 60) @ '':'' @ fixed 2 (?s mod 60)
      @ (if us mod 1000000 = 0 then [] else ''.'' @ fixed 6 (us mod 1000000))"
    by (simp add: clock_text_def Let_def)
  have h: "?s div 3600 = ?s div 60 div 60" by (simp flip: zdiv_zmult2_eq)
  have e: "us = ?s * 1000000 + us mod 1000000" "?s = ?s div 60 * 60 + ?s mod 60"
    "?s div 60 = ?s div 60 div 60 * 60 + ?s div 60 mod 60" by simp_all
  show "us = ((?s div 3600 * 60 + ?s div 60 mod 60) * 60 + ?s mod 60) * 1000000 + us mod 1000000"
    unfolding h by (metis e)
  have "?s div 3600 * 3600 \<le> ?s" "?s * 1000000 \<le> us" by simp_all
  then show "?s div 3600 < 24" using assms(2) by (simp add: us_day_def)
qed (use assms in \<open>simp_all add: pos_imp_zdiv_nonneg_iff\<close>)

lemma clock_unique:
  fixes h m x f :: int
  assumes "h < h' \<or> h = h' \<and> (m < m' \<or> m = m' \<and> (x < x' \<or> x = x' \<and> f \<le> f'))"
    and "0 \<le> m'" "m < 60" "0 \<le> x'" "x < 60" "0 \<le> f'" "f < 1000000"
  shows "((h * 60 + m) * 60 + x) * 1000000 + f \<le> ((h' * 60 + m') * 60 + x') * 1000000 + f'"
  using assms(1) by (elim disjE conjE) (use assms(2-) in \<open>simp_all add: algebra_simps\<close>)

lemma clock_text_less:
  assumes "0 \<le> us" "us < us'" "us' < us_day"
  shows "clock_text us @ ''+00:00'' < clock_text us' @ ''+00:00''"
proof -
  have "us < us_day" "0 \<le> us'" using assms by auto
  from clock_parts [OF assms(1) this(1)] obtain h m x f where
    c: "clock_text us = fixed 2 h @ '':'' @ fixed 2 m @ '':'' @ fixed 2 x @ (if f = 0 then [] else ''.'' @ fixed 6 f)"
    "0 \<le> h" "h < 24" "0 \<le> m" "m < 60" "0 \<le> x" "x < 60" "0 \<le> f" "f < 1000000"
    "us = ((h * 60 + m) * 60 + x) * 1000000 + f" .
  from clock_parts [OF \<open>0 \<le> us'\<close> assms(3)] obtain h' m' x' f' where
    c': "clock_text us' = fixed 2 h' @ '':'' @ fixed 2 m' @ '':'' @ fixed 2 x' @ (if f' = 0 then [] else ''.'' @ fixed 6 f')"
    "0 \<le> h'" "h' < 24" "0 \<le> m'" "m' < 60" "0 \<le> x'" "x' < 60" "0 \<le> f'" "f' < 1000000"
    "us' = ((h' * 60 + m') * 60 + x') * 1000000 + f'" .
  have "\<not> (h' < h \<or> h' = h \<and> (m' < m \<or> m' = m \<and> (x' < x \<or> x' = x \<and> f' \<le> f)))"
    using clock_unique [of h' h m' m x' x f' f] c c' assms(2) by linarith
  then have lex: "h < h' \<or> h = h' \<and> (m < m' \<or> m = m' \<and> (x < x' \<or> x = x' \<and> f < f'))"
    by (meson linorder_less_linear not_le)
  have "CHR ''+'' < CHR ''.''" by (simp add: less_char_def)
  with lex show ?thesis
    using c(2-9) c'(2-9) unfolding c(1) c'(1)
    by (elim disjE conjE) (simp_all add: fixed_append_less)
qed

lemma parse_clock_text:
  assumes "0 \<le> us" "us < us_day" shows "parse_clock (clock_text us) = Some us"
proof -
  from clock_parts [OF assms] obtain h m x f where
    c: "clock_text us = fixed 2 h @ '':'' @ fixed 2 m @ '':'' @ fixed 2 x @ (if f = 0 then [] else ''.'' @ fixed 6 f)"
    "0 \<le> h" "h < 24" "0 \<le> m" "m < 60" "0 \<le> x" "x < 60" "0 \<le> f" "f < 1000000"
    "us = ((h * 60 + m) * 60 + x) * 1000000 + f" .
  have frac: "parse_fraction (fixed 6 f) = Some f"
    using c by (auto simp: parse_fraction_def simp flip: length_0_conv)
  have h: "digits_n 2 (fixed 2 h @ r) = Some (h, r)" and m: "digits_n 2 (fixed 2 m @ r) = Some (m, r)"
    and x: "digits_n 2 (fixed 2 x @ r) = Some (x, r)" for r
    using c by simp_all
  have "parse_clock_from 2 False (clock_text us) [] = Some ([h, m, x], f)"
    unfolding c(1) by (simp add: h m x frac del: fixed.simps)
  with c show ?thesis by (simp add: parse_clock_def pad3_def)
qed

section \<open>Printing, reading and comparing timestamps\<close>

lemma now_text_parts:
  "now_text l = date_text (l div us_day + 1) @ ''T'' @ clock_text (l mod us_day) @ ''+00:00''"
proof -
  have "offset_text 0 = ''+00:00''" by code_simp
  then show ?thesis by (simp add: now_text_def isoformat_def utc_def)
qed

lemma in_range_parts:
  assumes "dt_in_range l"
  shows "1 \<le> l div us_day + 1" "l div us_day + 1 \<le> max_ordinal" "0 \<le> l mod us_day" "l mod us_day < us_day"
proof -
  have d: "0 < us_day" by (simp add: us_day_def)
  then show "0 \<le> l mod us_day" "l mod us_day < us_day" by simp_all
  show "1 \<le> l div us_day + 1" using assms d by (simp add: dt_in_range_def pos_imp_zdiv_nonneg_iff)
  have "l div us_day < max_ordinal"
  proof (rule ccontr)
    assume "\<not> l div us_day < max_ordinal"
    then have "max_ordinal * us_day \<le> l div us_day * us_day" using d by (intro mult_right_mono) simp_all
    also have "\<dots> \<le> l" using d div_mult_mod_eq [of l us_day] pos_mod_sign [OF d, of l] by linarith
    finally show False using assms by (simp add: dt_in_range_def)
  qed
  then show "l div us_day + 1 \<le> max_ordinal" by simp
qed

lemma month_lengths_max: "list_all (\<lambda>m. month_lengths leap ! nat (m - 1) \<le> 31) [1..12]"
  by (cases leap) (simp_all only:, code_simp+)

lemma valid_date_bounds:
  assumes "valid_date (y, m, d)"
  shows "0 \<le> y" "y < 10000" "0 \<le> m" "m < 100" "0 \<le> d" "d < 100"
  using assms month_lengths_max [of "is_leap y", unfolded list_all_iff, rule_format, of m]
  by (auto simp: valid_date_def)

lemma date_text_less:
  assumes "1 \<le> n" "n < n'" "n' \<le> max_ordinal" shows "date_text n @ s < date_text n' @ t"
proof -
  obtain y m d y' m' d' where ymd: "ord2ymd n = (y, m, d)" "ord2ymd n' = (y', m', d')"
    by (cases "ord2ymd n"; cases "ord2ymd n'")
  have v: "valid_date (y, m, d)" "valid_date (y', m', d')"
    using ord2ymd_valid(1) [of n] ord2ymd_valid(1) [of n'] assms ymd by simp_all
  have b: "0 \<le> y" "y < 10 ^ 4" "0 \<le> m" "m < 10 ^ 2" "0 \<le> d" "d < 10 ^ 2"
      "0 \<le> y'" "y' < 10 ^ 4" "0 \<le> m'" "m' < 10 ^ 2" "0 \<le> d'" "d' < 10 ^ 2"
    using valid_date_bounds [OF v(1)] valid_date_bounds [OF v(2)] by simp_all
  have "(y, m, d) < (y', m', d')" using ord2ymd_mono [OF assms] ymd by simp
  with b show ?thesis
    by (auto simp: date_text_def ymd fixed_append_less)
qed

lemma now_text_less [simp]:
  assumes "dt_in_range a" "dt_in_range b"
  shows "now_text a < now_text b \<longleftrightarrow> a < b"
proof -
  have less: "now_text a < now_text b" if r: "dt_in_range a" "dt_in_range b" and "a < b" for a b
  proof -
    have d: "0 < us_day" by (simp add: us_day_def)
    from \<open>a < b\<close> div_mod_less [OF d, of a b]
    consider "a div us_day < b div us_day" | "a div us_day = b div us_day" "a mod us_day < b mod us_day" by blast
    then show ?thesis
    proof cases
      case 1
      then show ?thesis
        unfolding now_text_parts using in_range_parts [OF r(1)] in_range_parts [OF r(2)]
        by (intro date_text_less) simp_all
    next
      case 2
      then have "clock_text (a mod us_day) @ ''+00:00'' < clock_text (b mod us_day) @ ''+00:00''"
        using in_range_parts [OF r(1)] in_range_parts [OF r(2)] by (intro clock_text_less) simp_all
      with 2 show ?thesis unfolding now_text_parts by (simp add: list_less_append)
    qed
  qed
  from less [OF assms] less [OF assms(2,1)] show ?thesis
    by (metis less_asym linorder_less_linear order_less_irrefl)
qed

text \<open>Ledger timestamps sort by time: of two UTC instants in range the earlier one has the smaller
  ISO text, also when one of them has no fraction of a second and when they differ in the year
  only. So ordering rows by \<open>created_at\<close>, and the expiry test that compares the texts,
  compare times.\<close>

theorem timestamp_text_order:
  assumes "dt_in_range a" "dt_in_range b"
  shows "now_text a < now_text b \<longleftrightarrow> a < b"
  using assms by (rule now_text_less)

theorem timestamp_text_order_witness:
  "now_text 63700000000000000 < now_text 63700000000000001"
  using timestamp_text_order [of 63700000000000000 63700000000000001]
  by (simp add: dt_in_range_def max_ordinal_def us_day_def)

lemma not_digit: "\<not> is_digit (CHR ''W'')" "\<not> is_digit (CHR ''-'')" "\<not> is_digit (CHR ''+'')" "\<not> is_digit (CHR ''Z'')"
  by (simp_all add: is_digit_def)

lemma parse_date_text:
  assumes "1 \<le> n" "n \<le> max_ordinal"
  shows "parse_date (date_text n) = Some (ord2ymd n)" "length (date_text n) = 10"
    "date_text n ! 4 = CHR ''-''" "is_digit (date_text n ! 5)"
proof -
  obtain y m d where ymd: "ord2ymd n = (y, m, d)" by (cases "ord2ymd n")
  have v: "valid_date (y, m, d)" using ord2ymd_valid(1) [OF assms] ymd by simp
  have b: "0 \<le> y" "y < 10 ^ 4" "0 \<le> m" "m < 10 ^ 2" "0 \<le> d" "d < 10 ^ 2"
    using valid_date_bounds [OF v] by simp_all
  have y: "digits_n 4 (fixed 4 y @ r) = Some (y, r)" and m: "digits_n 2 (fixed 2 m @ r) = Some (m, r)"
    and d: "digits_n 2 (fixed 2 d) = Some (d, [])" for r
    using b by simp_all
  have hd: "hd (fixed 2 m @ r) \<noteq> CHR ''W''" "fixed 2 m @ r \<noteq> []" for r
    using not_digit(1) fixed_digits [of 2 m] by (cases "fixed 2 m"; auto simp flip: length_0_conv)+
  show "parse_date (date_text n) = Some (ord2ymd n)"
    by (simp add: parse_date_def date_text_def ymd y m d hd Let_def del: fixed.simps)
  show "length (date_text n) = 10" by (simp add: date_text_def ymd)
  show "date_text n ! 4 = CHR ''-''" "is_digit (date_text n ! 5)"
    by (simp_all add: date_text_def ymd nth_append numeral_2_eq_2)
qed

lemma clock_text_chars:
  assumes "0 \<le> us" "us < us_day" "c \<in> set (clock_text us)"
  shows "is_digit c \<or> c = CHR '':'' \<or> c = CHR ''.''"
  using assms(3) fixed_digits [of 2] fixed_digits [of 6]
  by (auto simp: clock_text_def Let_def list_all_iff split: if_splits)

lemma find_char_append: "c \<notin> set s \<Longrightarrow> find_char c (s @ c # t) = Some (length s)"
proof -
  assume "c \<notin> set s"
  then have "takeWhile (\<lambda>x. x \<noteq> c) (s @ c # t) = s" by (induction s) auto
  then show ?thesis by (simp add: find_char_def)
qed

lemma parse_time_text:
  assumes "0 \<le> us" "us < us_day"
  shows "parse_time (clock_text us @ ''+00:00'') = Some (us, Some 0)"
proof -
  have chars: "CHR ''-'' \<notin> set (clock_text us)" "CHR ''+'' \<notin> set (clock_text us)"
    using clock_text_chars [OF assms, of "CHR ''-''"] clock_text_chars [OF assms, of "CHR ''+''"] not_digit
    by auto
  then have "zone_at (clock_text us @ ''+00:00'') = Some (length (clock_text us))"
    using find_char_append [of "CHR ''+''" "clock_text us" "''00:00''"]
    by (simp add: zone_at_def find_char_def)
  moreover have "parse_clock ''00:00'' = Some 0" by code_simp
  ultimately show ?thesis
    by (simp add: parse_time_def parse_clock_text [OF assms])
qed

lemma fromisoformat_now_text:
  assumes "dt_in_range l" shows "fromisoformat (now_text l) = Some (utc l)"
proof -
  let ?n = "l div us_day + 1" and ?us = "l mod us_day"
  let ?tail = "''T'' @ clock_text ?us @ ''+00:00''"
  note r = in_range_parts [OF assms]
  note d = parse_date_text [OF r(1,2)]
  have "separator_at (date_text ?n @ ?tail) = Some 10"
  proof -
    have "date_text ?n ! 5 \<noteq> CHR ''W''" using d(4) not_digit by auto
    with d show ?thesis by (simp add: separator_at_def nth_append)
  qed
  moreover have "drop 11 (date_text ?n @ ?tail) = clock_text ?us @ ''+00:00''"
    using d(2) by simp
  moreover have "(l div us_day) * us_day + l mod us_day = l" by simp
  ultimately show ?thesis
    using d r ord2ymd_valid [OF r(1,2)] unfolding now_text_parts
    by (simp add: fromisoformat_def parse_time_text utc_def)
qed

lemma now_text_no_Z: "dt_in_range l \<Longrightarrow> CHR ''Z'' \<notin> set (now_text l)"
proof -
  assume l: "dt_in_range l"
  note r = in_range_parts [OF l]
  obtain y m d where "ord2ymd (l div us_day + 1) = (y, m, d)" by (cases "ord2ymd (l div us_day + 1)")
  then have "CHR ''Z'' \<notin> set (date_text (l div us_day + 1))"
    using fixed_digits [of 4 y] fixed_digits [of 2 m] fixed_digits [of 2 d]
    by (auto simp: date_text_def list_all_iff is_digit_def)
  moreover have "CHR ''Z'' \<notin> set (clock_text (l mod us_day))"
    using clock_text_chars [OF r(3,4), of "CHR ''Z''"] by (auto simp: is_digit_def)
  ultimately show ?thesis by (simp add: now_text_parts)
qed

lemma concat_map_id: "c \<notin> set s \<Longrightarrow> concat (map (\<lambda>x. if x = c then t else [x]) s) = s"
  by (induction s) auto

lemma parse_iso_now [simp]:
  assumes "dt_in_range l" shows "parse_iso (Some (now_text l)) = Some (utc l)"
proof -
  have "now_text l \<noteq> []" by (simp add: now_text_parts)
  with assms now_text_no_Z [OF assms] fromisoformat_now_text [OF assms] show ?thesis
    by (simp add: parse_iso_def concat_map_id utc_def)
qed

text \<open>Reading a timestamp the ledger wrote gives back the instant it was written at: the parser of
  the store inverts the clock's text for every instant of the years 1 to 9999.\<close>

theorem timestamp_roundtrip:
  assumes "dt_in_range l" shows "parse_iso (Some (now_text l)) = Some (utc l)"
  using assms by (rule parse_iso_now)

theorem timestamp_roundtrip_witness:
  "parse_iso (Some (now_text 63700000000000001)) = Some (utc 63700000000000001)"
  by (rule timestamp_roundtrip) (simp add: dt_in_range_def max_ordinal_def us_day_def)

end
