(* ===== verification/Db_Retry.thy ===== *)
theory Db_Retry imports Regex Denials begin

text \<open>
  Bounded retry of database writes, \<open>kaizen_components/db_retry.py\<close>. The connection is a
  parameter: what connecting, the transaction body (\<open>BEGIN CONCURRENT\<close>, the operation, \<open>COMMIT\<close>),
  the rollback, the close and the sleep do to the state.
\<close>

definition attempts :: nat where
  "attempts = 6"

definition retryable_rx :: rx where
  "retryable_rx = seqs [WordB,
     alts [lit ''conflict'', lit ''busy'', lit ''snapshot'',
           seqs [lit ''lock'', opt_rx (alts [lit ''ed'', lit ''ing''])]], WordB]"

definition is_retryable :: "exn \<Rightarrow> bool" where
  "is_retryable e = (\<not> is_denied e \<and> rx_search retryable_rx (lower (exn_str e)))"

text \<open>\<open>4.0 * weights[i] / sum(weights)\<close> with the weights 1 to 5, as a double.\<close>

definition retry_weights :: "int list" where
  "retry_weights = map (\<lambda>i. 1 + int i) [0 ..< attempts - 1]"

definition retry_delay :: "nat \<Rightarrow> int \<times> int" where
  "retry_delay i = double_of_frac (4 * retry_weights ! i) (sum_list retry_weights)"

record ('s, 'a) db_ops =
  db_connect :: "'s \<Rightarrow> (exn + unit) \<times> 's"
  db_body :: "nat \<Rightarrow> 's \<Rightarrow> (exn + 'a) \<times> 's"
  db_rollback :: "'s \<Rightarrow> 's"
  db_close :: "'s \<Rightarrow> 's"
  db_sleep :: "int \<times> int \<Rightarrow> 's \<Rightarrow> 's"
  db_elapsed_ms :: "'s \<Rightarrow> int"

definition exhausted :: "int \<Rightarrow> exn \<Rightarrow> string list \<Rightarrow> exn" where
  "exhausted elapsed e errors =
     denied1 ''DENIED_DB_WRITE_RETRY_EXHAUSTED''
       [(''attempts'', PInt (int attempts)), (''elapsed_ms'', PInt elapsed), (''reason'', PStr (exn_str e)),
        (''retryable'', PBool True),
        (''required_action'', PStr ''standby for user or retry the same command later; do not rewrite schema''),
        (''errors'', PList (map PStr errors))]"

text \<open>The loop, with the attempts that are left after this one.\<close>

fun retry_loop :: "('s, 'a) db_ops \<Rightarrow> nat \<Rightarrow> nat \<Rightarrow> string list \<Rightarrow> ('s, 'a) prog" where
  "retry_loop d left attempt errors s =
     (case db_connect d s of
        (Inl e, s1) \<Rightarrow> (Inl e, s1)
      | (Inr _, s1) \<Rightarrow>
          (case db_body d attempt s1 of
             (Inr x, s2) \<Rightarrow> (Inr x, db_close d s2)
           | (Inl e, s2) \<Rightarrow>
               (let s3 = db_rollback d s2; errors = errors @ [exn_str e] in
                if \<not> is_retryable e then (Inl e, db_close d s3)
                else (case left of
                    0 \<Rightarrow> (Inl (exhausted (db_elapsed_ms d s3) e errors), db_close d s3)
                  | Suc k \<Rightarrow>
                      retry_loop d k (Suc attempt) errors (db_sleep d (retry_delay (attempt - 1)) (db_close d s3))))))"

declare retry_loop.simps [simp del]

definition with_retry :: "('s, 'a) db_ops \<Rightarrow> ('s, 'a) prog" where
  "with_retry d = retry_loop d (attempts - 1) 1 []"

section \<open>The schedule and the outcomes\<close>

text \<open>Denials are never retried, whatever their code and fields say.\<close>

lemma denied_not_retryable [simp]: "is_denied e \<Longrightarrow> \<not> is_retryable e"
  by (simp add: is_retryable_def)

lemma retry_loop_denied:
  assumes "db_connect d s = (Inr u, s1)" "db_body d attempt s1 = (Inl e, s2)" "is_denied e"
  shows "retry_loop d left attempt errors s = (Inl e, db_close d (db_rollback d s2))"
  using assms by (subst retry_loop.simps) simp

text \<open>A log of what the loop does, for a body given by its outcomes.\<close>

record retry_log =
  rl_bodies :: "nat list"
  rl_open :: bool
  rl_delays :: "(int \<times> int) list"
  rl_rows :: "string list"

definition scripted :: "(nat \<Rightarrow> exn + string) \<Rightarrow> (retry_log, string) db_ops" where
  "scripted script =
     \<lparr>db_connect = (\<lambda>s. (Inr (), s\<lparr>rl_open := True\<rparr>)),
      db_body = (\<lambda>n s. (script n, s\<lparr>rl_bodies := rl_bodies s @ [n], rl_rows := rl_rows s @ [''row'']\<rparr>)),
      db_rollback = (\<lambda>s. s\<lparr>rl_rows := butlast (rl_rows s)\<rparr>),
      db_close = (\<lambda>s. s\<lparr>rl_open := False\<rparr>),
      db_sleep = (\<lambda>t s. s\<lparr>rl_delays := rl_delays s @ [t]\<rparr>),
      db_elapsed_ms = (\<lambda>s. 0)\<rparr>"

lemma scripted_simps:
  "db_connect (scripted script) s = (Inr (), s\<lparr>rl_open := True\<rparr>)"
  "db_body (scripted script) n s = (script n, s\<lparr>rl_bodies := rl_bodies s @ [n], rl_rows := rl_rows s @ [''row'']\<rparr>)"
  "db_rollback (scripted script) s = s\<lparr>rl_rows := butlast (rl_rows s)\<rparr>"
  "db_close (scripted script) s = s\<lparr>rl_open := False\<rparr>"
  "db_sleep (scripted script) t s = s\<lparr>rl_delays := rl_delays s @ [t]\<rparr>"
  "db_elapsed_ms (scripted script) s = 0"
  by (simp_all add: scripted_def)

lemma scripted_step:
  "retry_loop (scripted script) left attempt errors s =
     (let s2 = s\<lparr>rl_bodies := rl_bodies s @ [attempt], rl_open := False\<rparr> in
      case script attempt of
        Inr x \<Rightarrow> (Inr x, s2\<lparr>rl_rows := rl_rows s @ [''row'']\<rparr>)
      | Inl e \<Rightarrow>
          if \<not> is_retryable e then (Inl e, s2)
          else (case left of
              0 \<Rightarrow> (Inl (exhausted 0 e (errors @ [exn_str e])), s2)
            | Suc k \<Rightarrow> retry_loop (scripted script) k (Suc attempt) (errors @ [exn_str e])
                (s2\<lparr>rl_delays := rl_delays s @ [retry_delay (attempt - 1)]\<rparr>)))"
  by (subst retry_loop.simps) (auto simp: scripted_simps Let_def split: sum.split nat.split)

text \<open>The first attempt, if any, whose outcome is not a transient fault.\<close>

definition settles :: "(nat \<Rightarrow> exn + 'a) \<Rightarrow> nat \<Rightarrow> bool" where
  "settles script n = (case script n of Inr _ \<Rightarrow> True | Inl e \<Rightarrow> \<not> is_retryable e)"

lemma find_upt_ge: "find P [a ..< b] = Some n \<Longrightarrow> a \<le> n"
  by (auto simp: find_Some_iff)

lemma retry_loop_outcome:
  "rl_rows s = rows \<Longrightarrow>
   (case retry_loop (scripted script) left attempt errors s of (r, s') \<Rightarrow>
      \<not> rl_open s' \<and>
      (case find (settles script) [attempt ..< attempt + Suc left] of
         Some n \<Rightarrow> r = script n \<and> rl_bodies s' = rl_bodies s @ [attempt ..< Suc n]
       | None \<Rightarrow> exn_code (projl r) = ''DENIED_DB_WRITE_RETRY_EXHAUSTED'' \<and> isl r \<and>
           rl_bodies s' = rl_bodies s @ [attempt ..< attempt + Suc left]) \<and>
      rl_rows s' = rows @ (if isl r then [] else [''row'']))"
proof (induction left arbitrary: attempt errors s)
  case 0
  then show ?case
    by (subst scripted_step) (auto simp: Let_def settles_def exhausted_def split: sum.split)
next
  case (Suc k)
  have upt: "[attempt ..< attempt + Suc (Suc k)] = attempt # [Suc attempt ..< Suc attempt + Suc k]"
    by (simp add: upt_conv_Cons)
  show ?case
  proof (cases "settles script attempt")
    case True
    then show ?thesis
      using Suc.prems unfolding upt
      by (subst scripted_step) (auto simp: Let_def settles_def split: sum.splits)
  next
    case False
    then obtain e where e: "script attempt = Inl e" "is_retryable e"
      by (auto simp: settles_def split: sum.splits)
    define s2 where "s2 = s\<lparr>rl_bodies := rl_bodies s @ [attempt], rl_open := False,
      rl_delays := rl_delays s @ [retry_delay (attempt - 1)]\<rparr>"
    have step: "retry_loop (scripted script) (Suc k) attempt errors s =
        retry_loop (scripted script) k (Suc attempt) (errors @ [exn_str e]) s2"
      using e by (subst scripted_step) (simp add: s2_def Let_def)
    have s2: "rl_bodies s2 = rl_bodies s @ [attempt]" "rl_rows s2 = rows"
      using Suc.prems by (simp_all add: s2_def)
    have bodies: "(rl_bodies s @ [attempt]) @ [Suc attempt ..< n] = rl_bodies s @ [attempt ..< n]"
      if "attempt < n" for n
      using that by (simp add: upt_conv_Cons)
    have find: "find (settles script) [attempt ..< attempt + Suc (Suc k)] =
        find (settles script) [Suc attempt ..< Suc attempt + Suc k]"
      using False unfolding upt by (simp del: upt_Suc)
    note IH = Suc.IH [OF s2(2), of "Suc attempt" "errors @ [exn_str e]", unfolded s2(1)]
    show ?thesis
    proof (cases "find (settles script) [Suc attempt ..< Suc attempt + Suc k]")
      case None
      have "attempt < Suc attempt + Suc k" by simp
      with IH None show ?thesis unfolding step find None
        by (simp only: option.case bodies add_Suc add_Suc_right)
    next
      case (Some n)
      then have "attempt < Suc n" using find_upt_ge by fastforce
      with IH Some show ?thesis unfolding step find Some by (simp only: option.case bodies)
    qed
  qed
qed

text \<open>C40. A write is tried at most six times. It ends with the first attempt that does not fail with a
  transient fault: with its result, or with its error unchanged, so a denial raised inside a
  transaction is never retried or masked. Six transient faults end in
  DENIED\_DB\_WRITE\_RETRY\_EXHAUSTED. Every failed attempt is rolled back and every connection
  is closed.\<close>

theorem bounded_retry:
  "(case with_retry (scripted script) \<lparr>rl_bodies = [], rl_open = False, rl_delays = [], rl_rows = rows\<rparr> of
      (r, s') \<Rightarrow>
        \<not> rl_open s' \<and>
        (case find (settles script) [1 ..< 7] of
           Some n \<Rightarrow> r = script n \<and> rl_bodies s' = [1 ..< Suc n]
         | None \<Rightarrow> exn_code (projl r) = ''DENIED_DB_WRITE_RETRY_EXHAUSTED'' \<and> isl r \<and> rl_bodies s' = [1 ..< 7]) \<and>
        rl_rows s' = rows @ (if isl r then [] else [''row'']))"
proof -
  have seven: "1 + Suc (attempts - 1) = 7" by (simp add: attempts_def)
  show ?thesis
    using retry_loop_outcome [of "\<lparr>rl_bodies = [], rl_open = False, rl_delays = [], rl_rows = rows\<rparr>" rows
        1 "attempts - 1" script "[]"]
    unfolding with_retry_def seven by (auto simp del: upt_Suc split: prod.splits option.splits)
qed

end
