(* ===== verification/Fleet_Store.thy ===== *)
theory Fleet_Store imports Reducers Schema_Registry Redaction Iso_Time Json Db_Retry begin

text \<open>
  The ledger of \<open>fleet/store.py\<close> with the row identities of \<open>fleet/identity.py\<close>: the tables of
  \<open>fleet.db\<close>, the write transaction with its retry, the canonical read and the append-only event
  insert behind its three gates. The node table, the digest and the sync engine are in
  \<open>Fleet_Sync\<close>.

  What the store talks to and cannot be read here is the environment record: the clock and the
  UUIDs as streams of readings, SHA-256 and Ed25519, the optional JSON Schema checker, the host
  facts, the faults a transaction of the database engine or of the settings table raises, and what
  a pull, push, checkpoint or statistics call of the sync engine does. The stream positions are
  part of the state.
\<close>

section \<open>Tables and state\<close>

record coord_row =
  cr_id :: string
  cr_created :: string
  cr_node :: string
  cr_project :: "string option"
  cr_kind :: string
  cr_marker :: string
  cr_scope :: "string option"
  cr_epoch :: "int option"
  cr_payload_json :: "string option"
  cr_source :: "string option"
  cr_hash :: string
  cr_sig :: "string option"

record node_row =
  nr_id :: string
  nr_role :: "string option"
  nr_tailnet :: "string option"
  nr_os :: "string option"
  nr_arch :: "string option"
  nr_capabilities :: "string option"
  nr_pubkey :: "string option"
  nr_last_heartbeat :: "string option"
  nr_registered :: "string option"
  nr_updated :: "string option"

record dispatch_row =
  dr_id :: string
  dr_created :: "string option"
  dr_target :: "string option"
  dr_leases :: "string option"
  dr_status :: "string option"
  dr_payload :: "string option"

record fleet_db =
  fd_events :: "coord_row list"
  fd_nodes :: "node_row list"
  fd_dispatches :: "dispatch_row list"

record fleet_env =
  env_clock :: "nat \<Rightarrow> int"
  env_uuid :: "nat \<Rightarrow> string"
  env_sha256 :: "string \<Rightarrow> string"
  env_sign :: "string \<Rightarrow> string option"
  env_jsonschema :: accelerator
  env_fault :: "nat \<Rightarrow> exn option"
  env_pull :: "nat \<Rightarrow> fleet_db \<Rightarrow> exn + fleet_db"
  env_push :: "nat \<Rightarrow> exn + unit"
  env_checkpoint :: "nat \<Rightarrow> exn + unit"
  env_stats :: "nat \<Rightarrow> exn + pydict"
  env_settings_fault :: "nat \<Rightarrow> exn option"
  env_os :: string
  env_arch :: string
  env_display_name :: string
  env_project_id :: string
  env_project_source :: string
  env_accept_regression :: bool

record store =
  st_env :: fleet_env
  st_node :: string
  st_synced :: bool
  st_db :: fleet_db
  st_settings :: "(string \<times> string) list"
  st_in_tx :: bool
  st_clock :: nat
  st_uuid :: nat
  st_fault :: nat
  st_sync :: nat
  st_settings_ops :: nat

type_synonym 'a act = "(store, 'a) prog"

definition next_clock :: "int act" where
  "next_clock s = (Inr (env_clock (st_env s) (st_clock s)), s\<lparr>st_clock := Suc (st_clock s)\<rparr>)"

definition next_uuid :: "string act" where
  "next_uuid s = (Inr (env_uuid (st_env s) (st_uuid s)), s\<lparr>st_uuid := Suc (st_uuid s)\<rparr>)"

definition now_iso :: "string act" where
  "now_iso = seq next_clock (\<lambda>t. ret (now_text t))"

section \<open>Identities and hashes\<close>

text \<open>\<open>_utcstamp\<close>: \<open>strftime("%Y%m%d%H%M%S")\<close>\<close>

definition utc_stamp :: "int \<Rightarrow> string" where
  "utc_stamp l = filter is_digit (take 19 (now_text l))"

definition last_chars :: "nat \<Rightarrow> string \<Rightarrow> string" where
  "last_chars k s = drop (length s - k) s"

definition coord_id :: "string \<Rightarrow> string \<Rightarrow> string act" where
  "coord_id prefix node =
     seq next_clock (\<lambda>t. seq next_uuid (\<lambda>u.
       ret (prefix @ ''_'' @ utc_stamp t @ ''_'' @ last_chars 6 node @ u)))"

definition utc_text_hash :: "fleet_env \<Rightarrow> pydict \<Rightarrow> string" where
  "utc_text_hash env payload = env_sha256 env (json_compact (PDict payload))"

definition of_opt_int :: "int option \<Rightarrow> pyval" where
  "of_opt_int x = (case x of None \<Rightarrow> PNone | Some i \<Rightarrow> PInt i)"

definition row_core :: "coord_row \<Rightarrow> pydict" where
  "row_core r =
     [(''node_id'', PStr (cr_node r)), (''project_id'', of_opt_str (cr_project r)),
      (''event_kind'', PStr (cr_kind r)), (''marker'', PStr (cr_marker r)),
      (''scope_key'', of_opt_str (cr_scope r)), (''epoch'', of_opt_int (cr_epoch r)),
      (''payload_json'', of_opt_str (cr_payload_json r)), (''created_at'', PStr (cr_created r))]"

section \<open>The write transaction\<close>

text \<open>
  \<open>_write\<close>: the operation inside one transaction, with the shipped retry. A fault of the engine
  may strike when the transaction opens or when it commits; whatever raises, the tables are
  rolled back and \<open>in_tx\<close> is cleared before the next attempt or the raise.
\<close>

definition next_fault :: "unit act" where
  "next_fault s =
     ((case env_fault (st_env s) (st_fault s) of None \<Rightarrow> Inr () | Some e \<Rightarrow> Inl e),
      s\<lparr>st_fault := Suc (st_fault s)\<rparr>)"

definition tx_body :: "'a act \<Rightarrow> 'a act" where
  "tx_body op = seq next_fault (\<lambda>_. seq op (\<lambda>x. seq next_fault (\<lambda>_. ret x)))"

fun write_attempts :: "nat \<Rightarrow> 'a act \<Rightarrow> 'a act" where
  "write_attempts left op s =
     (case tx_body op (s\<lparr>st_in_tx := True\<rparr>) of
        (Inr x, s') \<Rightarrow> (Inr x, s'\<lparr>st_in_tx := False\<rparr>)
      | (Inl e, s') \<Rightarrow>
          (let s'' = s'\<lparr>st_db := st_db s, st_in_tx := False\<rparr> in
           if \<not> is_retryable e then (Inl e, s'')
           else (case left of 0 \<Rightarrow> (Inl e, s'') | Suc k \<Rightarrow> write_attempts k op s'')))"

declare write_attempts.simps [simp del]

definition fleet_write :: "'a act \<Rightarrow> 'a act" where
  "fleet_write op = write_attempts (attempts - 1) op"

section \<open>Reading the ledger\<close>

definition row_event :: "coord_row \<Rightarrow> event" where
  "row_event r =
     \<lparr>ev_id = Some (cr_id r), ev_created = Some (cr_created r), ev_node = Some (cr_node r),
      ev_project = cr_project r, ev_kind = Some (cr_kind r), ev_marker = Some (cr_marker r),
      ev_scope = cr_scope r, ev_epoch = of_opt_int (cr_epoch r),
      ev_payload =
        (if opt_str (cr_payload_json r) = [] then PNone
         else (case json_loads (opt_str (cr_payload_json r)) of None \<Rightarrow> PNone | Some v \<Rightarrow> v))\<rparr>"

definition db_events :: "fleet_db \<Rightarrow> event list" where
  "db_events d = map row_event (sort_key (\<lambda>r. (cr_created r, cr_id r)) (fd_events d))"

definition coord_events :: "store \<Rightarrow> event list" where
  "coord_events s = db_events (st_db s)"

section \<open>Appending an event\<close>

text \<open>The text the redaction gate sees of a payload.\<close>

definition rendered :: "pyval \<Rightarrow> string" where
  "rendered v = (case v of PStr s \<Rightarrow> s | _ \<Rightarrow> json_dumps v)"

definition note_field :: "string \<Rightarrow> string option \<Rightarrow> pyval \<Rightarrow> pydict \<Rightarrow> pydict" where
  "note_field path key v acc =
     (let acc = AList.update path (PStr (rendered v)) acc in
      case key of None \<Rightarrow> acc
      | Some k \<Rightarrow> AList.update (path @ ''.pair'') (PStr (k @ '': '' @ rendered v)) acc)"

fun visit_value :: "pyval \<Rightarrow> string \<Rightarrow> string option \<Rightarrow> pydict \<Rightarrow> pydict"
  and visit_dict :: "(string \<times> pyval) list \<Rightarrow> string \<Rightarrow> pydict \<Rightarrow> pydict"
  and visit_list :: "pyval list \<Rightarrow> string \<Rightarrow> int \<Rightarrow> pydict \<Rightarrow> pydict" where
  "visit_value v path key acc =
     (let acc = note_field path key v acc in
      case v of PDict d \<Rightarrow> visit_dict d path acc | PList xs \<Rightarrow> visit_list xs path 0 acc | _ \<Rightarrow> acc)"
| "visit_dict [] path acc = acc"
| "visit_dict ((k, v) # d) path acc = visit_dict d path (visit_value v (path @ ''.'' @ k) (Some k) acc)"
| "visit_list [] path i acc = acc"
| "visit_list (v # vs) path i acc =
     visit_list vs path (i + 1) (visit_value v (path @ ''['' @ int_str i @ '']'') None acc)"

definition payload_redaction_fields :: "pydict \<Rightarrow> pydict" where
  "payload_redaction_fields payload = visit_dict payload ''payload'' []"

definition kind_marker_ok :: "string \<Rightarrow> string \<Rightarrow> bool" where
  "kind_marker_ok kind marker =
     (case map_of coord_event_kind_markers kind of None \<Rightarrow> False | Some ms \<Rightarrow> marker \<in> set ms)"

definition kind_marker_denial :: "string \<Rightarrow> string \<Rightarrow> exn" where
  "kind_marker_denial kind marker =
     denied2 ''DENIED_COORD_KIND_MARKER''
       [(''event_kind'', PStr kind), (''marker'', PStr marker),
        (''allowed_markers'', PList (map PStr (case map_of coord_event_kind_markers kind of None \<Rightarrow> [] | Some ms \<Rightarrow> ms))),
        (''allowed_kinds'', PList (map PStr (map fst coord_event_kind_markers))),
        (''required_action'', PStr ''use an allowed (event_kind x marker) pair'')]"

definition opt_dict :: "pydict option \<Rightarrow> pyval" where
  "opt_dict d = (case d of None \<Rightarrow> PNone | Some p \<Rightarrow> PDict p)"

definition clean_fields ::
    "string \<Rightarrow> string \<Rightarrow> string \<Rightarrow> string \<Rightarrow> string option \<Rightarrow> int option \<Rightarrow> pydict option \<Rightarrow> string option \<Rightarrow> pydict" where
  "clean_fields node kind marker summary scope epoch payload project =
     filter (\<lambda>(k, v). v \<noteq> PNone \<and> v \<noteq> PStr [])
       [(''node_id'', PStr node), (''project_id'', of_opt_str project), (''event_kind'', PStr kind),
        (''marker'', PStr marker), (''scope_key'', of_opt_str scope), (''epoch'', of_opt_int epoch),
        (''payload'', opt_dict payload), (''summary'', PStr summary)]"

definition redaction_fields :: "string \<Rightarrow> string option \<Rightarrow> pydict option \<Rightarrow> pydict" where
  "redaction_fields summary scope payload =
     dict_merge
       ([(''summary'', PStr summary)] @
        (if opt_str scope = [] then [] else [(''scope_key'', PStr (opt_str scope))]))
       (case payload of None \<Rightarrow> [] | Some p \<Rightarrow> payload_redaction_fields p)"

text \<open>The three gates an append passes before it opens its transaction.\<close>

definition append_gate ::
    "fleet_env \<Rightarrow> string \<Rightarrow> string \<Rightarrow> string \<Rightarrow> string \<Rightarrow> string option \<Rightarrow> int option \<Rightarrow> pydict option \<Rightarrow>
     string option \<Rightarrow> exn + unit" where
  "append_gate env node kind marker summary scope epoch payload project =
     (if \<not> kind_marker_ok kind marker then Inl (kind_marker_denial kind marker)
      else
        (case validate_record (env_jsonschema env) ''coord_event''
             (clean_fields node kind marker summary scope epoch payload project) of
           Inl e \<Rightarrow> Inl e
         | Inr _ \<Rightarrow> assert_redacted (redaction_fields summary scope payload)))"

text \<open>\<open>SELECT MAX(created_at) FROM coord_events WHERE node_id = ?\<close>\<close>

definition latest_created :: "coord_row list \<Rightarrow> string \<Rightarrow> string option" where
  "latest_created rows node =
     fold_best (\<lambda>t. t) (map cr_created (filter (\<lambda>r. cr_node r = node) rows))"

definition assertion_error :: "string \<Rightarrow> exn" where
  "assertion_error msg = PyError ''AssertionError'' msg"

text \<open>The row's timestamp: the clock's, or one microsecond after the node's latest row.\<close>

definition next_created :: "string \<Rightarrow> string option \<Rightarrow> exn + string" where
  "next_created created latest =
     (case (parse_iso (Some created), parse_iso latest) of
        (None, _) \<Rightarrow> Inl (assertion_error ''coord event created_at must be a valid ISO datetime'')
      | (Some c, None) \<Rightarrow>
          if latest \<noteq> None then Inl (assertion_error ''coord event created_at must be a valid ISO datetime'')
          else Inr created
      | (Some c, Some l) \<Rightarrow>
          if instant c \<le> instant l then
            (case dt_add l 1 of
               None \<Rightarrow> Inl (PyError ''OverflowError'' ''date value out of range'')
             | Some t \<Rightarrow> Inr (isoformat t))
          else Inr created)"

definition row_conflicts :: "coord_row list \<Rightarrow> coord_row \<Rightarrow> bool" where
  "row_conflicts rows r =
     list_ex (\<lambda>q. cr_id q = cr_id r \<or> cr_source r \<noteq> None \<and> cr_source q = cr_source r) rows"

record append_result =
  ar_id :: string
  ar_created :: string
  ar_hash :: string
  ar_sig :: "string option"
  ar_deduped :: bool

text \<open>The row with its content hash and signature filled in.\<close>

definition sealed :: "fleet_env \<Rightarrow> coord_row \<Rightarrow> coord_row" where
  "sealed env r =
     (let h = utc_text_hash env (row_core r) in r\<lparr>cr_hash := h, cr_sig := env_sign env h\<rparr>)"

definition append_tx ::
    "string \<Rightarrow> string \<Rightarrow> string \<Rightarrow> string option \<Rightarrow> int option \<Rightarrow> string option \<Rightarrow> string option \<Rightarrow>
     string option \<Rightarrow> append_result act" where
  "append_tx record_id kind marker scope epoch payload_json project source =
     seq now_iso (\<lambda>now s.
       let rows = fd_events (st_db s); env = st_env s in
       case next_created now (latest_created rows (st_node s)) of
         Inl e \<Rightarrow> (Inl e, s)
       | Inr created \<Rightarrow>
           let r = sealed env \<lparr>cr_id = record_id, cr_created = created, cr_node = st_node s, cr_project = project,
                 cr_kind = kind, cr_marker = marker, cr_scope = scope, cr_epoch = epoch,
                 cr_payload_json = payload_json, cr_source = source, cr_hash = [], cr_sig = None\<rparr>
           in if \<not> row_conflicts rows r then
                (Inr \<lparr>ar_id = record_id, ar_created = created, ar_hash = cr_hash r, ar_sig = cr_sig r, ar_deduped = False\<rparr>,
                 s\<lparr>st_db := (st_db s)\<lparr>fd_events := rows @ [r]\<rparr>\<rparr>)
              else
                (case find (\<lambda>q. if opt_str source \<noteq> [] then cr_source q = source else cr_id q = record_id) rows of
                   None \<Rightarrow> (Inl (assertion_error ''ignored coord event has no persisted row''), s)
                 | Some q \<Rightarrow>
                     (Inr \<lparr>ar_id = cr_id q, ar_created = cr_created q, ar_hash = cr_hash q,
                        ar_sig = cr_sig q, ar_deduped = True\<rparr>, s)))"

definition append_coord_event ::
    "string \<Rightarrow> string \<Rightarrow> string \<Rightarrow> string option \<Rightarrow> int option \<Rightarrow> pydict option \<Rightarrow> string option \<Rightarrow>
     string option \<Rightarrow> append_result act" where
  "append_coord_event kind marker summary scope epoch payload project source = (\<lambda>s.
     case append_gate (st_env s) (st_node s) kind marker summary scope epoch payload project of
       Inl e \<Rightarrow> (Inl e, s)
     | Inr _ \<Rightarrow>
         seq (coord_id ''ce'' (st_node s)) (\<lambda>record_id.
           fleet_write (append_tx record_id kind marker scope epoch
             (map_option (\<lambda>p. json_dumps (PDict p)) payload) project source)) s)"

end
