(* ===== verification/Reducer_Laws.thy ===== *)
theory Reducer_Laws imports Reducers begin

text \<open>
  What the projections of \<open>fleet/reducers.py\<close> promise. The interface
  \<open>ledger_projection\<close> is the law every reducer obeys (it reads its rows only through the
  canonical sequence); its consequences, agreement of replicas, indifference to replays and to
  the order in which two ledgers are merged, are proved once inside it and interpreted for the
  five reducers. The properties of the individual reducers follow.
\<close>

section \<open>Projections of a replicated ledger\<close>

locale ledger_projection =
  fixes project :: "event list \<Rightarrow> 'a"
  assumes factors: "canonical es = canonical es' \<Longrightarrow> project es = project es'"
begin

lemma agree: "wf_ledger es \<Longrightarrow> set es = set es' \<Longrightarrow> project es = project es'"
  by (rule factors) (rule canonical_cong)

lemma merge_commute: "wf_ledger (es @ es') \<Longrightarrow> project (es @ es') = project (es' @ es)"
  by (rule agree) auto

lemma merge_absorbs: "wf_ledger es \<Longrightarrow> set es' \<subseteq> set es \<Longrightarrow> project (es @ es') = project es"
  by (rule agree [symmetric]) auto

end

lemma reduce_nodes_factors: "canonical es = canonical es' \<Longrightarrow> reduce_nodes es = reduce_nodes es'"
  by (simp add: reduce_nodes_def)

interpretation node_view: ledger_projection reduce_nodes
  by unfold_locales (rule reduce_nodes_factors)

interpretation coordinator_view: ledger_projection reduce_coordinator
  by unfold_locales (simp add: reduce_coordinator_def)

interpretation lease_view: ledger_projection "\<lambda>es. reduce_lease es now" for now
  by unfold_locales (simp add: reduce_lease_def)

interpretation conflict_view: ledger_projection reduce_conflicts
  by unfold_locales (simp add: reduce_conflicts_def)

interpretation dispatch_view: ledger_projection reduce_dispatches
  by unfold_locales (simp add: reduce_dispatches_def)

section \<open>A small ledger for the witnesses\<close>

definition sample_row ::
    "string \<Rightarrow> string \<Rightarrow> string \<Rightarrow> string \<Rightarrow> string \<Rightarrow> string option \<Rightarrow> int \<Rightarrow> pydict \<Rightarrow> event" where
  "sample_row i t node kind marker scope epoch payload =
     \<lparr>ev_id = Some i, ev_created = Some t, ev_node = Some node, ev_project = None,
      ev_kind = Some kind, ev_marker = Some marker, ev_scope = scope, ev_epoch = PInt epoch,
      ev_payload = PDict payload\<rparr>"

definition sample_ledger :: "event list" where
  "sample_ledger =
     [sample_row ''a'' ''1'' ''n1'' ''coordinator'' ''granted'' None 1 [],
      sample_row ''b'' ''2'' ''n1'' ''lease'' ''granted'' (Some ''s'') 1 [(''grant_seq'', PInt 3), (''holder'', PStr ''n2'')],
      sample_row ''c'' ''3'' ''n2'' ''dispatch'' ''completed'' None 0 [(''dispatch_id'', PStr ''d'')],
      sample_row ''d'' ''4'' ''n2'' ''conflict'' ''detected'' None 0 []]"

lemma wf_sample: "wf_ledger sample_ledger"
  by (simp add: wf_ledger_def sample_ledger_def sample_row_def inj_on_def)

section \<open>Replicas agree\<close>

text \<open>C1. Replicas that hold the same rows, in any order and with any duplication, compute the
  same node, coordinator, lease, conflict and dispatch projections.\<close>

theorem replicas_agree:
  assumes "wf_ledger es" and "set es = set es'"
  shows "reduce_nodes es = reduce_nodes es' \<and> reduce_coordinator es = reduce_coordinator es' \<and>
    reduce_lease es now = reduce_lease es' now \<and> reduce_conflicts es = reduce_conflicts es' \<and>
    reduce_dispatches es = reduce_dispatches es'"
  using node_view.agree [OF assms] coordinator_view.agree [OF assms] lease_view.agree [OF assms]
    conflict_view.agree [OF assms] dispatch_view.agree [OF assms] by blast

theorem replicas_agree_witness:
  "wf_ledger sample_ledger \<and> reduce_coordinator sample_ledger = reduce_coordinator (rev sample_ledger @ sample_ledger) \<and>
     reduce_lease sample_ledger None = reduce_lease (rev sample_ledger @ sample_ledger) None"
  using replicas_agree [OF wf_sample, of "rev sample_ledger @ sample_ledger" None] wf_sample by simp

section \<open>The coordinator\<close>

text \<open>The coordinator projection is the greatest authoritative claim by (epoch, created_at, id)
  that no release of its own epoch fences; with no such claim the role is vacant. Grants are
  authoritative, bare claims only while no grant exists at any epoch.\<close>

theorem coordinator_is_max_epoch:
  assumes "wf_ledger es"
  shows "(\<exists>e \<in> set es. eligible es e \<and> reduce_coordinator es = coord_entry e \<and>
            {e' \<in> set es. eligible es e' \<and> coord_key e < coord_key e'} = {}) \<or>
         ({e \<in> set es. eligible es e} = {} \<and> reduce_coordinator es = no_coordinator)"
  using assms
proof (cases rule: reduce_coordinator_cases)
  case (winner e)
  then show ?thesis by (intro disjI1 bexI [of _ e]) (auto simp: not_less)
next
  case vacant
  then show ?thesis by auto
qed

theorem coordinator_is_max_epoch_witness:
  "cp_holder (reduce_coordinator sample_ledger) = PStr ''n1'' \<or>
   reduce_coordinator sample_ledger = no_coordinator"
  using coordinator_is_max_epoch [OF wf_sample]
  by (auto simp: sample_ledger_def sample_row_def eligible_def is_event_def coordinator_holder_def
      dget_def ev_payload_dict_def Let_def)

text \<open>Once a grant holds the role, a further batch of bare claims (of any epoch) and of rows of
  lower epochs (a hub restored from an old snapshot) leaves the whole projection unchanged.\<close>

theorem coordinator_not_displaced:
  assumes "wf_ledger (es @ xs)"
    and "\<exists>g \<in> set es. is_event ''coordinator'' ''granted'' g"
    and "cp_id (reduce_coordinator es) \<noteq> None"
    and "\<And>x. x \<in> set xs \<Longrightarrow>
      is_event ''coordinator'' ''claimed'' x \<or> event_epoch x < cp_epoch (reduce_coordinator es)"
  shows "reduce_coordinator (es @ xs) = reduce_coordinator es"
  using assms by (rule reduce_coordinator_append_low)

lemma coordinator_of_sample: "reduce_coordinator sample_ledger =
  \<lparr>cp_holder = PStr ''n1'', cp_epoch = 1, cp_mode = ''roaming'', cp_id = Some ''a'', cp_iso = False,
   cp_iso_sentinel = PNone\<rparr>"
  by code_simp

theorem coordinator_not_displaced_witness:
  "reduce_coordinator (sample_ledger @
      [sample_row ''x'' ''9'' ''n9'' ''coordinator'' ''claimed'' None 7 [],
       sample_row ''y'' ''9'' ''n8'' ''coordinator'' ''granted'' None 0 []]) = reduce_coordinator sample_ledger"
proof (rule coordinator_not_displaced)
  show "wf_ledger (sample_ledger @
      [sample_row ''x'' ''9'' ''n9'' ''coordinator'' ''claimed'' None 7 [],
       sample_row ''y'' ''9'' ''n8'' ''coordinator'' ''granted'' None 0 []])"
    by (simp add: wf_ledger_def sample_ledger_def sample_row_def inj_on_def)
  show "\<exists>g \<in> set sample_ledger. is_event ''coordinator'' ''granted'' g"
    by (simp add: sample_ledger_def sample_row_def is_event_def)
  show "cp_id (reduce_coordinator sample_ledger) \<noteq> None"
    by (simp add: coordinator_of_sample)
  fix x assume "x \<in> set [sample_row ''x'' ''9'' ''n9'' ''coordinator'' ''claimed'' None 7 [],
       sample_row ''y'' ''9'' ''n8'' ''coordinator'' ''granted'' None 0 []]"
  then show "is_event ''coordinator'' ''claimed'' x \<or> event_epoch x < cp_epoch (reduce_coordinator sample_ledger)"
    unfolding coordinator_of_sample by (auto simp: sample_row_def is_event_def event_epoch_def)
qed

section \<open>Leases\<close>

text \<open>A scope has a lease entry exactly when some row grants it. The entry is that of the
  greatest grant by (epoch, grant_seq, created_at, id); it is free when a release, revocation or
  expiry row of the same scope and epoch reaches the grant's sequence number, otherwise expired
  when the clock is past its expiry, otherwise held, and it names a holder only while held.\<close>

theorem lease_is_top_grant:
  assumes wf: "wf_ledger es"
  shows "(case map_of (reduce_lease es now) scope of
      None \<Rightarrow> {e \<in> set es. scope_grant scope e} = {}
    | Some l \<Rightarrow> \<exists>g \<in> set es. scope_grant scope g \<and>
        {e \<in> set es. scope_grant scope e \<and> lease_key g < lease_key e} = {} \<and>
        lp_state l = lease_state_of now es scope g \<and> lp_epoch l = event_epoch g \<and>
        lp_grant_seq l = grant_seq g \<and> lp_id l = ev_id g \<and> lp_scope_key l = scope \<and>
        lp_holder l = (if lp_state l = Held then lease_holder g else PNone))"
  using wf
proof (cases rule: lookup_lease_cases [of es scope now])
  case none
  then show ?thesis by auto
next
  case (top g)
  note entry = lease_entry_simps [OF wf refl, of now scope g]
  show ?thesis
    unfolding top(4) option.case
    by (rule bexI [OF _ top(1)]) (use top(2,3) in \<open>auto simp: entry not_less\<close>)
qed

theorem lease_is_top_grant_witness:
  "wf_ledger sample_ledger \<and>
   (case map_of (reduce_lease sample_ledger None) ''s'' of
      None \<Rightarrow> {e \<in> set sample_ledger. scope_grant ''s'' e} = {}
    | Some l \<Rightarrow> \<exists>g \<in> set sample_ledger. scope_grant ''s'' g \<and> lp_grant_seq l = grant_seq g)"
  using lease_is_top_grant [OF wf_sample, where now = None and scope = "''s''"] wf_sample
  by (auto split: option.splits)

text \<open>A release of the top grant's epoch that carries no sequence number, or one that reaches the
  grant's, frees the scope; a later grant at the same epoch with a sequence number beyond every
  release holds the scope again for its own holder.\<close>

theorem lease_release_then_regrant:
  assumes wf: "wf_ledger (es @ [r, g'])"
    and lease: "map_of (reduce_lease es now) scope = Some l"
    and r: "is_release r" "ev_scope r = Some scope" "event_epoch r = lp_epoch l" "lp_grant_seq l \<le> release_seq r"
    and g': "scope_grant scope g'" "event_epoch g' = lp_epoch l" "\<not> grant_expired now g'"
      "\<not> freed (es @ [r]) scope g'" "lp_grant_seq l < grant_seq g'"
  shows "map_option lp_state (map_of (reduce_lease (es @ [r]) now) scope) = Some Free \<and>
    map_option lp_holder (map_of (reduce_lease (es @ [r]) now) scope) = Some PNone \<and>
    map_option lp_state (map_of (reduce_lease (es @ [r, g']) now) scope) = Some Held \<and>
    map_option lp_holder (map_of (reduce_lease (es @ [r, g']) now) scope) = Some (lease_holder g')"
proof -
  have wf_r: "wf_ledger (es @ [r])" and wf_es: "wf_ledger es"
    by (rule wf_ledger_subset [OF wf], auto)+
  obtain g where g: "g \<in> set es" "scope_grant scope g"
      "\<And>e. e \<in> set es \<Longrightarrow> scope_grant scope e \<Longrightarrow> lease_key e \<le> lease_key g"
      "l = lease_entry now (released_up_to (canonical es)) scope g"
    using wf_es lease by (cases rule: lookup_lease_cases [of es scope now]) auto
  note l = lease_entry_simps(3,4) [OF wf_es g(4)]
  have not_grant: "\<not> scope_grant scope r" and not_release: "\<not> is_release g'"
    using r(1) g'(1) by (auto simp: is_release_def scope_grant_def is_grant_def is_event_def)
  have freed: "freed (es @ [r]) scope g"
    using r l unfolding freed_def by auto
  have "map_of (reduce_lease (es @ [r]) now) scope =
      Some (lease_entry now (released_up_to (canonical (es @ [r]))) scope g)"
    using g not_grant by (intro lookup_lease_eqI [OF wf_r]) auto
  moreover have "lease_key e \<le> lease_key g'" if "e \<in> set es" "scope_grant scope e" for e
    using g(3) [OF that] g' l by (auto simp: lease_key_def)
  then have "map_of (reduce_lease (es @ [r, g']) now) scope =
      Some (lease_entry now (released_up_to (canonical (es @ [r, g']))) scope g')"
    using not_grant g' by (intro lookup_lease_eqI [OF wf]) auto
  moreover have "\<not> freed (es @ [r, g']) scope g'"
    using g'(4) not_release by (auto simp: freed_def)
  ultimately show ?thesis
    using freed g'(3)
    by (simp add: lease_entry_simps [OF wf_r refl] lease_entry_simps [OF wf refl] lease_state_of_def)
qed

lemma sample_lease: "map_of (reduce_lease sample_ledger None) ''s'' =
  Some \<lparr>lp_scope_key = ''s'', lp_holder = PStr ''n2'', lp_epoch = 1, lp_grant_seq = 3, lp_state = Held,
    lp_expires_at = PNone, lp_id = Some ''b'', lp_mode = ''advisory''\<rparr>"
  by code_simp

theorem lease_release_then_regrant_witness:
  "map_option lp_holder (map_of (reduce_lease (sample_ledger @
     [sample_row ''r'' ''5'' ''n1'' ''lease'' ''released'' (Some ''s'') 1 [],
      sample_row ''g'' ''6'' ''n1'' ''lease'' ''granted'' (Some ''s'') 1 [(''grant_seq'', PInt (2 ^ 63))]]) None) ''s'')
   = Some (PStr ''n1'')"
proof -
  let ?r = "sample_row ''r'' ''5'' ''n1'' ''lease'' ''released'' (Some ''s'') 1 []"
  let ?g = "sample_row ''g'' ''6'' ''n1'' ''lease'' ''granted'' (Some ''s'') 1 [(''grant_seq'', PInt (2 ^ 63))]"
  note defs = sample_row_def is_release_def scope_grant_def is_grant_def is_event_def event_epoch_def
    release_seq_def grant_seq_def dget_def ev_payload_dict_def release_all_def grant_expired_def
    freed_def sample_ledger_def
  have "wf_ledger (sample_ledger @ [?r, ?g])"
    by (simp add: wf_ledger_def sample_ledger_def sample_row_def inj_on_def)
  note main = lease_release_then_regrant [OF this sample_lease]
  have "map_option lp_holder (map_of (reduce_lease (sample_ledger @ [?r, ?g]) None) ''s'')
      = Some (lease_holder ?g)"
    by (rule main [THEN conjunct2, THEN conjunct2, THEN conjunct2]) (auto simp: defs)
  then show ?thesis by (simp add: lease_holder_def defs py_or_def)
qed

section \<open>Conflicts\<close>

text \<open>The blocking conflicts are the detected ones that no row resolves, in whatever order the
  detection and its resolution arrived, listed once each in (created_at, id) order.\<close>

theorem open_conflicts_are_unresolved:
  assumes "wf_ledger es"
  shows "set (fst (reduce_conflicts es)) =
      {conflict_entry eid e | eid e. e \<in> set es \<and> detected_as eid e \<and> \<not> conflict_resolved es eid} \<and>
    sorted (map conflict_key (fst (reduce_conflicts es)))"
  using set_open_conflicts [OF assms]
  by (intro conjI set_eqI) (auto simp: reduce_conflicts_def Let_def)

theorem open_conflicts_are_unresolved_witness:
  "map xp_id (fst (reduce_conflicts sample_ledger)) = [''d''] \<and>
   sorted (map conflict_key (fst (reduce_conflicts sample_ledger)))"
proof
  show "map xp_id (fst (reduce_conflicts sample_ledger)) = [''d'']" by code_simp
qed (use open_conflicts_are_unresolved [OF wf_sample] in blast)

section \<open>Dispatches\<close>

lemma lookup_dispatch_cases:
  assumes wf: "wf_ledger es"
  obtains (none) "\<And>e. e \<in> set es \<Longrightarrow> \<not> for_dispatch i e" "map_of (reduce_dispatches es) i = None"
  | (latest) e entry where "e \<in> set es" "for_dispatch i e"
      "\<And>x. x \<in> set es \<Longrightarrow> for_dispatch i x \<Longrightarrow> dispatch_key x \<le> dispatch_key e"
      "map_of (reduce_dispatches es) i = Some entry" "dispatch_entry_of e entry"
  using dispatch_fold_lookup [of "canonical es" i]
proof (elim disjE exE conjE)
  assume "map_of (fold dispatch_step (canonical es) []) i = None"
    and "fold_best dispatch_key (filter (for_dispatch i) (canonical es)) = None"
  then show thesis
    using wf by (intro none) (auto simp: lookup_reduce_dispatches filter_empty_conv)
next
  fix entry e
  assume lookup: "map_of (fold dispatch_step (canonical es) []) i = Some (entry, Some (dispatch_key e))"
    and best: "fold_best dispatch_key (filter (for_dispatch i) (canonical es)) = Some e"
    and entry: "dispatch_entry_of e entry"
  from fold_best_SomeD [OF best] lookup entry show thesis
    using wf by (intro latest [of e entry]) (auto simp: lookup_reduce_dispatches)
qed

lemma dispatch_key_inj:
  assumes "wf_ledger es" "x \<in> set es" "y \<in> set es" "for_dispatch i x" "for_dispatch i y"
    and "dispatch_key x = dispatch_key y"
  shows "x = y"
proof -
  have "ev_key x = ev_key y"
    using assms(4-6) by (auto elim!: for_dispatchE)
  then show ?thesis
    using inj_on_ev_key [OF assms(1)] assms(2,3) by (auto dest: inj_onD)
qed

text \<open>A dispatch has an entry exactly when some row names it, and the entry reports the marker, id
  and time of the lifecycle-latest row of the dispatch: the greatest by (rank, created_at, id).\<close>

theorem dispatch_is_lifecycle_latest:
  assumes wf: "wf_ledger es"
  shows "(case map_of (reduce_dispatches es) i of
      None \<Rightarrow> {e \<in> set es. for_dispatch i e} = {}
    | Some entry \<Rightarrow> \<exists>e \<in> set es. for_dispatch i e \<and>
        {x \<in> set es. for_dispatch i x \<and> dispatch_key e < dispatch_key x} = {} \<and>
        dp_state entry = ev_marker e \<and> dp_id entry = ev_id e \<and> dp_created_at entry = ev_created e)"
  using wf
proof (cases rule: lookup_dispatch_cases [of es i])
  case none
  then show ?thesis by auto
next
  case (latest e entry)
  then show ?thesis
    unfolding latest(4) option.case
    by (intro bexI [of _ e]) (auto simp: not_less dispatch_entry_of_def)
qed

theorem dispatch_is_lifecycle_latest_witness:
  "wf_ledger sample_ledger \<and>
   (case map_of (reduce_dispatches sample_ledger) ''d'' of
      None \<Rightarrow> {e \<in> set sample_ledger. for_dispatch ''d'' e} = {}
    | Some entry \<Rightarrow> \<exists>e \<in> set sample_ledger. for_dispatch ''d'' e \<and> dp_state entry = ev_marker e)"
  using dispatch_is_lifecycle_latest [OF wf_sample, of "''d''"] wf_sample
  by (auto split: option.splits)

lemma dispatch_rank_terminal: "dispatch_rank marker = Some rank \<Longrightarrow> (rank = 3 \<longleftrightarrow> dispatch_terminal marker) \<and> rank \<le> 3"
  by (auto simp: dispatch_rank_def dispatch_terminal_def split: if_splits)

definition terminal_event :: "string \<Rightarrow> event \<Rightarrow> bool" where
  "terminal_event i e \<longleftrightarrow> for_dispatch i e \<and> dispatch_terminal (opt_str (ev_marker e))"

lemma terminal_event_key:
  assumes "for_dispatch i e"
  shows "terminal_event i e \<longleftrightarrow> fst (dispatch_key e) = 3" and "fst (dispatch_key e) \<le> 3"
  using assms dispatch_of_SomeD dispatch_rank_terminal
  by (auto simp: terminal_event_def elim!: for_dispatchE) (metis dispatch_of_SomeD dispatch_rank_terminal option.sel)+

text \<open>Terminal wins: once a dispatch has a completed, failed or canceled row, no further rows of the
  dispatch that are not terminal themselves, however late their timestamps, change its reported
  state, deciding row and time; and whatever rows arrive, the state stays terminal.\<close>

theorem dispatch_terminal_wins:
  assumes wf: "wf_ledger (es @ xs)"
    and fin: "t \<in> set es" "terminal_event i t"
  shows "(\<exists>entry m. map_of (reduce_dispatches (es @ xs)) i = Some entry \<and> dp_state entry = Some m \<and>
      dispatch_terminal m) \<and>
    ({x \<in> set xs. terminal_event i x} = {} \<longrightarrow>
      map_option (\<lambda>entry. (dp_state entry, dp_id entry, dp_created_at entry)) (map_of (reduce_dispatches (es @ xs)) i) =
      map_option (\<lambda>entry. (dp_state entry, dp_id entry, dp_created_at entry)) (map_of (reduce_dispatches es) i))"
proof -
  have wf_es: "wf_ledger es" by (rule wf_ledger_subset [OF wf]) simp
  have t: "for_dispatch i t" using fin(2) by (simp add: terminal_event_def)
  have key_le: "terminal_event i e" if "for_dispatch i e" "dispatch_key t \<le> dispatch_key e" for e
    using terminal_event_key [OF that(1)] terminal_event_key [OF t] fin(2) that(2)
    by (cases "dispatch_key t"; cases "dispatch_key e") auto
  from wf obtain e entry where e: "e \<in> set (es @ xs)" "for_dispatch i e"
      "\<And>x. x \<in> set (es @ xs) \<Longrightarrow> for_dispatch i x \<Longrightarrow> dispatch_key x \<le> dispatch_key e"
      "map_of (reduce_dispatches (es @ xs)) i = Some entry" "dispatch_entry_of e entry"
    by (cases rule: lookup_dispatch_cases [of _ i]) (use t fin(1) in auto)
  from wf_es obtain f fentry where f: "f \<in> set es" "for_dispatch i f"
      "\<And>x. x \<in> set es \<Longrightarrow> for_dispatch i x \<Longrightarrow> dispatch_key x \<le> dispatch_key f"
      "map_of (reduce_dispatches es) i = Some fentry" "dispatch_entry_of f fentry"
    by (cases rule: lookup_dispatch_cases [of _ i]) (use t fin(1) in auto)
  have e_term: "terminal_event i e" using key_le [OF e(2)] e(3) [of t] fin(1) t by simp
  obtain m where "ev_marker e = Some m" using e(2) by (auto elim: for_dispatchE)
  with e_term e(4,5) have 1: "\<exists>entry m. map_of (reduce_dispatches (es @ xs)) i = Some entry \<and>
      dp_state entry = Some m \<and> dispatch_terminal m"
    by (auto simp: dispatch_entry_of_def terminal_event_def)
  have "e = f" if "{x \<in> set xs. terminal_event i x} = {}"
  proof (rule dispatch_key_inj [OF wf e(1) _ e(2) f(2)])
    show "f \<in> set (es @ xs)" using f(1) by simp
    have "e \<in> set es" using that e(1) e_term by auto
    then show "dispatch_key e = dispatch_key f"
      using f(3) [OF _ e(2)] e(3) [of f] f(1,2) by (simp add: order.antisym)
  qed
  with 1 e(4,5) f(4,5) show ?thesis by (auto simp: dispatch_entry_of_def)
qed

theorem dispatch_terminal_wins_witness:
  "map_option dp_state (map_of (reduce_dispatches (sample_ledger @
     [sample_row ''z'' ''9'' ''n2'' ''dispatch'' ''started'' None 0 [(''dispatch_id'', PStr ''d'')]])) ''d'')
   = Some (Some ''completed'')"
proof -
  let ?x = "sample_row ''z'' ''9'' ''n2'' ''dispatch'' ''started'' None 0 [(''dispatch_id'', PStr ''d'')]"
  let ?t = "sample_row ''c'' ''3'' ''n2'' ''dispatch'' ''completed'' None 0 [(''dispatch_id'', PStr ''d'')]"
  note defs = sample_row_def terminal_event_def for_dispatch_def dispatch_of_def dispatch_rank_def
    dispatch_terminal_def ev_payload_dict_def dget_def
  have wf: "wf_ledger (sample_ledger @ [?x])"
    by (simp add: wf_ledger_def sample_ledger_def sample_row_def inj_on_def)
  have t: "?t \<in> set sample_ledger" "terminal_event ''d'' ?t" and x: "{x \<in> set [?x]. terminal_event ''d'' x} = {}"
    by (auto simp: sample_ledger_def defs)
  have "map_option dp_state (map_of (reduce_dispatches sample_ledger) ''d'') = Some (Some ''completed'')"
    by code_simp
  with dispatch_terminal_wins [OF wf t] x show ?thesis
    by (cases "map_of (reduce_dispatches sample_ledger) ''d''") auto
qed

end
