(* ===== verification/Store_Laws.thy ===== *)
theory Store_Laws imports Fleet_Store Reducer_Laws begin

text \<open>
  What the store's write path guarantees. An append that raises leaves every table as it was;
  one that returns adds exactly one row, stamped after every earlier row of the node, whose
  event view carries the payload that was passed. These facts are the laws of the interface
  \<open>append_only\<close> the coordination engine is proved against, interpreted here on the store.
\<close>

section \<open>What operations never touch\<close>

text \<open>
  The environment, the node and the kind of connection are fixed when the store is opened, and
  the stream of UUIDs only advances.
\<close>

definition goes_on :: "store \<Rightarrow> store \<Rightarrow> bool" where
  "goes_on s s' \<longleftrightarrow> st_env s' = st_env s \<and> st_node s' = st_node s \<and> st_synced s' = st_synced s \<and>
     st_uuid s \<le> st_uuid s'"

lemma goes_on_refl [simp]: "goes_on s s"
  by (simp add: goes_on_def)

lemma goes_on_trans: "goes_on s t \<Longrightarrow> goes_on t u \<Longrightarrow> goes_on s u"
  by (simp add: goes_on_def)

lemma goes_on_updates [simp]:
  "goes_on s (t\<lparr>st_db := d\<rparr>) = goes_on s t" "goes_on s (t\<lparr>st_in_tx := b\<rparr>) = goes_on s t"
  "goes_on s (t\<lparr>st_clock := n\<rparr>) = goes_on s t" "goes_on s (t\<lparr>st_settings_ops := n\<rparr>) = goes_on s t"
  "goes_on s (t\<lparr>st_settings := x\<rparr>) = goes_on s t"
  "goes_on s (t\<lparr>st_fault := n\<rparr>) = goes_on s t" "goes_on s (t\<lparr>st_sync := n\<rparr>) = goes_on s t"
  "goes_on (s\<lparr>st_db := d\<rparr>) t = goes_on s t" "goes_on (s\<lparr>st_in_tx := b\<rparr>) t = goes_on s t"
  "goes_on (s\<lparr>st_clock := n\<rparr>) t = goes_on s t" "goes_on (s\<lparr>st_settings_ops := n\<rparr>) t = goes_on s t"
  "goes_on (s\<lparr>st_settings := x\<rparr>) t = goes_on s t"
  "goes_on (s\<lparr>st_fault := n\<rparr>) t = goes_on s t" "goes_on (s\<lparr>st_sync := n\<rparr>) t = goes_on s t"
  by (simp_all add: goes_on_def)

lemma goes_on_uuid [simp]: "goes_on s (s\<lparr>st_uuid := Suc (st_uuid s)\<rparr>)"
  by (simp add: goes_on_def)

interpretation run_order: state_preorder goes_on
  by unfold_locales (auto intro: goes_on_trans)

text \<open>Neither the clock and the streams nor the retry touch a table on their own.\<close>

lemma next_clock_simps [simp]:
  "next_clock s = (Inr (env_clock (st_env s) (st_clock s)), s\<lparr>st_clock := Suc (st_clock s)\<rparr>)"
  by (simp add: next_clock_def)

lemma next_uuid_simps [simp]:
  "next_uuid s = (Inr (env_uuid (st_env s) (st_uuid s)), s\<lparr>st_uuid := Suc (st_uuid s)\<rparr>)"
  by (simp add: next_uuid_def)

lemma now_iso_simps [simp]:
  "now_iso s = (Inr (now_text (env_clock (st_env s) (st_clock s))), s\<lparr>st_clock := Suc (st_clock s)\<rparr>)"
  by (simp add: now_iso_def)

section \<open>The write transaction\<close>

lemma tx_body_cases:
  assumes "tx_body op s = (r, s')" and "\<And>t. goes_on t (snd (op t))"
  shows "goes_on s s'"
    and "r = Inr x \<Longrightarrow> \<exists>t t'. goes_on s t \<and> st_db t = st_db s \<and> st_in_tx t = st_in_tx s \<and>
      st_clock t = st_clock s \<and> op t = (Inr x, t') \<and> st_db s' = st_db t'"
proof -
  define t where "t = s\<lparr>st_fault := Suc (st_fault s)\<rparr>"
  have t: "goes_on s t" "st_db t = st_db s" "st_in_tx t = st_in_tx s" "st_clock t = st_clock s"
    by (simp_all add: t_def)
  obtain q u where q: "op t = (q, u)" by (cases "op t")
  with assms(2) [of t] t(1) have u: "goes_on s u" by (auto intro: goes_on_trans)
  have body: "tx_body op s = (case env_fault (st_env s) (st_fault s) of
      Some e \<Rightarrow> (Inl e, t)
    | None \<Rightarrow> (case q of Inl e \<Rightarrow> (Inl e, u)
        | Inr y \<Rightarrow> (case env_fault (st_env u) (st_fault u) of
              Some e \<Rightarrow> (Inl e, u\<lparr>st_fault := Suc (st_fault u)\<rparr>)
            | None \<Rightarrow> (Inr y, u\<lparr>st_fault := Suc (st_fault u)\<rparr>))))"
    using q by (simp add: tx_body_def seq_def next_fault_def t_def split: option.split sum.split)
  show "goes_on s s'"
    using assms(1) t u unfolding body by (auto split: option.splits sum.splits)
  assume "r = Inr x"
  with assms(1) have "q = Inr x" "st_db s' = st_db u"
    unfolding body by (auto split: option.splits sum.splits)
  with t q show "\<exists>t t'. goes_on s t \<and> st_db t = st_db s \<and> st_in_tx t = st_in_tx s \<and>
      st_clock t = st_clock s \<and> op t = (Inr x, t') \<and> st_db s' = st_db t'"
    by blast
qed

lemma write_attempts_cases:
  assumes "\<And>t. goes_on t (snd (op t))"
  shows "write_attempts n op s = (r, s') \<Longrightarrow>
    goes_on s s' \<and> \<not> st_in_tx s' \<and>
    (case r of Inl e \<Rightarrow> st_db s' = st_db s
     | Inr x \<Rightarrow> \<exists>t t'. goes_on s t \<and> st_db t = st_db s \<and> st_in_tx t \<and> op t = (Inr x, t') \<and> st_db s' = st_db t')"
proof (induction n arbitrary: s)
  case 0
  obtain q u where body: "tx_body op (s\<lparr>st_in_tx := True\<rparr>) = (q, u)" by (cases "tx_body op (s\<lparr>st_in_tx := True\<rparr>)")
  note cases = tx_body_cases [OF body assms]
  from 0 body cases(1) show ?case
    by (subst (asm) write_attempts.simps)
      (fastforce simp: Let_def split: sum.splits if_splits dest!: cases(2))
next
  case (Suc n)
  obtain q u where body: "tx_body op (s\<lparr>st_in_tx := True\<rparr>) = (q, u)" by (cases "tx_body op (s\<lparr>st_in_tx := True\<rparr>)")
  note cases = tx_body_cases [OF body assms]
  let ?u = "u\<lparr>st_db := st_db s, st_in_tx := False\<rparr>"
  have u: "goes_on s ?u" "st_db ?u = st_db s" using cases(1) by simp_all
  show ?case
  proof (cases "\<exists>e. q = Inl e \<and> is_retryable e")
    case True
    with Suc.prems body have "write_attempts n op ?u = (r, s')"
      by (subst (asm) write_attempts.simps) (auto simp: Let_def)
    from Suc.IH [OF this] u show ?thesis
      by (auto intro: goes_on_trans split: sum.splits)
  next
    case False
    with Suc.prems body cases(1) show ?thesis
      by (subst (asm) write_attempts.simps)
        (fastforce simp: Let_def split: sum.splits if_splits dest!: cases(2))
  qed
qed

text \<open>
  A transaction that raises leaves every table untouched; one that returns ran its operation once
  on the tables of the state it was called in.
\<close>

lemma fleet_write_cases:
  assumes "fleet_write op s = (r, s')" "\<And>t. goes_on t (snd (op t))"
  obtains (raised) e where "r = Inl e" "st_db s' = st_db s" "goes_on s s'" "\<not> st_in_tx s'"
  | (committed) x t t' where "r = Inr x" "goes_on s t" "st_db t = st_db s" "op t = (Inr x, t')"
      "st_db s' = st_db t'" "goes_on s s'" "\<not> st_in_tx s'"
  using write_attempts_cases [OF assms(2), of "attempts - 1" s r s'] assms(1)
  by (cases r) (auto simp: fleet_write_def)

section \<open>One append\<close>

text \<open>The row an append of the given content adds to the tables of \<open>s\<close>.\<close>

definition fresh_row ::
    "store \<Rightarrow> string \<Rightarrow> string \<Rightarrow> string option \<Rightarrow> int option \<Rightarrow> pydict option \<Rightarrow> string option \<Rightarrow> string option \<Rightarrow>
     coord_row \<Rightarrow> bool" where
  "fresh_row s kind marker scope epoch payload project source row \<longleftrightarrow>
     cr_node row = st_node s \<and> cr_kind row = kind \<and> cr_marker row = marker \<and> cr_scope row = scope \<and>
     cr_epoch row = epoch \<and> cr_payload_json row = map_option (\<lambda>p. json_dumps (PDict p)) payload \<and>
     cr_project row = project \<and> cr_source row = source \<and>
     cr_hash row = utc_text_hash (st_env s) (row_core row) \<and> cr_sig row = env_sign (st_env s) (cr_hash row) \<and>
     \<not> row_conflicts (fd_events (st_db s)) row \<and>
     (\<exists>k. next_created (now_text (env_clock (st_env s) k)) (latest_created (fd_events (st_db s)) (st_node s)) =
        Inr (cr_created row)) \<and>
     (\<exists>t. cr_id row = ''ce_'' @ utc_stamp t @ ''_'' @ last_chars 6 (st_node s) @ env_uuid (st_env s) (st_uuid s))"

lemma sealed_simps [simp]:
  "cr_id (sealed env r) = cr_id r" "cr_created (sealed env r) = cr_created r" "cr_node (sealed env r) = cr_node r"
  "cr_project (sealed env r) = cr_project r" "cr_kind (sealed env r) = cr_kind r"
  "cr_marker (sealed env r) = cr_marker r" "cr_scope (sealed env r) = cr_scope r"
  "cr_epoch (sealed env r) = cr_epoch r" "cr_payload_json (sealed env r) = cr_payload_json r"
  "cr_source (sealed env r) = cr_source r" "row_core (sealed env r) = row_core r"
  "cr_hash (sealed env r) = utc_text_hash env (row_core r)" "cr_sig (sealed env r) = env_sign env (cr_hash (sealed env r))"
  by (simp_all add: sealed_def Let_def row_core_def)

lemma append_tx_setup: "goes_on t (snd (append_tx i kind marker scope epoch pj project source t))"
  by (simp add: append_tx_def seq_def Let_def split: sum.split option.split)

lemma append_tx_cases:
  assumes "append_tx i kind marker scope epoch pj project source t = (Inr a, t')"
  obtains (added) row where
      "st_db t' = (st_db t)\<lparr>fd_events := fd_events (st_db t) @ [row]\<rparr>" "ar_deduped a = False"
      "ar_id a = i" "cr_id row = i" "ar_created a = cr_created row" "ar_hash a = cr_hash row" "ar_sig a = cr_sig row"
      "cr_node row = st_node t" "cr_kind row = kind" "cr_marker row = marker" "cr_scope row = scope"
      "cr_epoch row = epoch" "cr_payload_json row = pj" "cr_project row = project" "cr_source row = source"
      "cr_hash row = utc_text_hash (st_env t) (row_core row)" "cr_sig row = env_sign (st_env t) (cr_hash row)"
      "\<not> row_conflicts (fd_events (st_db t)) row"
      "next_created (now_text (env_clock (st_env t) (st_clock t))) (latest_created (fd_events (st_db t)) (st_node t)) =
        Inr (cr_created row)"
  | (replayed) q where "st_db t' = st_db t" "ar_deduped a = True" "q \<in> set (fd_events (st_db t))"
      "if opt_str source \<noteq> [] then cr_source q = source else cr_id q = i"
proof -
  define u where "u = t\<lparr>st_clock := Suc (st_clock t)\<rparr>"
  obtain created where c: "next_created (now_text (env_clock (st_env t) (st_clock t)))
      (latest_created (fd_events (st_db t)) (st_node t)) = Inr created"
    using assms by (auto simp: append_tx_def seq_def Let_def split: sum.splits)
  define r0 where "r0 = \<lparr>cr_id = i, cr_created = created, cr_node = st_node t, cr_project = project,
                 cr_kind = kind, cr_marker = marker, cr_scope = scope, cr_epoch = epoch,
                 cr_payload_json = pj, cr_source = source, cr_hash = [], cr_sig = None\<rparr>"
  define r where "r = sealed (st_env t) r0"
  have core: "cr_id r = i" "cr_created r = created" "cr_node r = st_node t" "cr_project r = project"
      "cr_kind r = kind" "cr_marker r = marker" "cr_scope r = scope" "cr_epoch r = epoch"
      "cr_payload_json r = pj" "cr_source r = source"
      "cr_hash r = utc_text_hash (st_env t) (row_core r)" "cr_sig r = env_sign (st_env t) (cr_hash r)"
    by (simp_all add: r_def r0_def)
  have run: "append_tx i kind marker scope epoch pj project source t =
      (if \<not> row_conflicts (fd_events (st_db t)) r then
         (Inr \<lparr>ar_id = i, ar_created = created, ar_hash = cr_hash r, ar_sig = cr_sig r, ar_deduped = False\<rparr>,
            t\<lparr>st_clock := Suc (st_clock t), st_db := (st_db t)\<lparr>fd_events := fd_events (st_db t) @ [r]\<rparr>\<rparr>)
       else (case find (\<lambda>q. if opt_str source \<noteq> [] then cr_source q = source else cr_id q = i) (fd_events (st_db t)) of
               None \<Rightarrow> (Inl (assertion_error ''ignored coord event has no persisted row''), t\<lparr>st_clock := Suc (st_clock t)\<rparr>)
             | Some q \<Rightarrow>
                 (Inr \<lparr>ar_id = cr_id q, ar_created = cr_created q, ar_hash = cr_hash q,
                    ar_sig = cr_sig q, ar_deduped = True\<rparr>, t\<lparr>st_clock := Suc (st_clock t)\<rparr>)))"
    using c by (simp add: append_tx_def seq_def Let_def r_def r0_def)
  show thesis
  proof (cases "row_conflicts (fd_events (st_db t)) r")
    case False
    with assms run have "a = \<lparr>ar_id = i, ar_created = created, ar_hash = cr_hash r, ar_sig = cr_sig r, ar_deduped = False\<rparr>"
      "t' = t\<lparr>st_clock := Suc (st_clock t), st_db := (st_db t)\<lparr>fd_events := fd_events (st_db t) @ [r]\<rparr>\<rparr>"
      by simp_all
    with False c core show ?thesis by (intro added [of r]) simp_all
  next
    case True
    with assms run obtain q where
      "find (\<lambda>q. if opt_str source \<noteq> [] then cr_source q = source else cr_id q = i) (fd_events (st_db t)) = Some q"
      "st_db t' = st_db t" "ar_deduped a"
      by (auto split: option.splits)
    then show ?thesis by (intro replayed [of q]) (auto simp: find_Some_iff in_set_conv_nth)
  qed
qed

lemma coord_id_simps:
  "coord_id prefix node s =
     (Inr (prefix @ ''_'' @ utc_stamp (env_clock (st_env s) (st_clock s)) @ ''_'' @ last_chars 6 node @
       env_uuid (st_env s) (st_uuid s)),
      s\<lparr>st_clock := Suc (st_clock s), st_uuid := Suc (st_uuid s)\<rparr>)"
  by (simp add: coord_id_def)

lemma append_coord_event_cases:
  assumes run: "append_coord_event kind marker summary scope epoch payload project source s = (r, s')"
  obtains (raised) e where "r = Inl e" "st_db s' = st_db s" "goes_on s s'" "\<not> st_in_tx s \<Longrightarrow> \<not> st_in_tx s'"
  | (added) a row where "r = Inr a" "fresh_row s kind marker scope epoch payload project source row"
      "st_db s' = (st_db s)\<lparr>fd_events := fd_events (st_db s) @ [row]\<rparr>" "ar_id a = cr_id row" "\<not> ar_deduped a"
      "ar_created a = cr_created row" "ar_hash a = cr_hash row" "ar_sig a = cr_sig row"
      "append_gate (st_env s) (st_node s) kind marker summary scope epoch payload project = Inr ()"
      "goes_on s s'" "st_uuid s < st_uuid s'" "\<not> st_in_tx s'"
  | (replayed) a q where "r = Inr a" "st_db s' = st_db s" "ar_deduped a" "q \<in> set (fd_events (st_db s))"
      "if opt_str source \<noteq> [] then cr_source q = source
       else \<exists>t. cr_id q = ''ce_'' @ utc_stamp t @ ''_'' @ last_chars 6 (st_node s) @ env_uuid (st_env s) (st_uuid s)"
      "goes_on s s'" "\<not> st_in_tx s'"
proof (cases "append_gate (st_env s) (st_node s) kind marker summary scope epoch payload project")
  case (Inl e)
  with run show thesis by (intro raised) (auto simp: append_coord_event_def)
next
  case gate: (Inr u)
  define s1 where "s1 = s\<lparr>st_clock := Suc (st_clock s), st_uuid := Suc (st_uuid s)\<rparr>"
  define i where "i = ''ce_'' @ utc_stamp (env_clock (st_env s) (st_clock s)) @ ''_'' @ last_chars 6 (st_node s) @
       env_uuid (st_env s) (st_uuid s)"
  have s1: "goes_on s s1" "st_db s1 = st_db s" "st_env s1 = st_env s" "st_node s1 = st_node s"
      "st_uuid s1 = Suc (st_uuid s)"
    by (simp_all add: s1_def goes_on_def)
  have "fleet_write (append_tx i kind marker scope epoch (map_option (\<lambda>p. json_dumps (PDict p)) payload) project source) s1 = (r, s')"
    using run gate by (simp add: append_coord_event_def coord_id_simps s1_def i_def)
  from this append_tx_setup show thesis
  proof (cases rule: fleet_write_cases)
    case (raised e)
    with s1 show thesis by (intro that(1)) (auto intro: goes_on_trans)
  next
    case (committed x t t')
    have t: "st_env t = st_env s" "st_node t = st_node s" "st_db t = st_db s"
      using committed(2,3) s1 by (simp_all add: goes_on_def)
    have s': "goes_on s s'" "st_uuid s < st_uuid s'"
      using committed(6) s1 by (auto simp: goes_on_def)
    from committed(4) show thesis
    proof (cases rule: append_tx_cases)
      case (added row)
      with t s' committed gate show thesis
        by (intro that(2) [of x row]) (auto simp: fresh_row_def i_def)
    next
      case (replayed q)
      with t s' committed show thesis
        by (intro that(3) [of x q]) (auto simp: i_def)
    qed
  qed
qed

section \<open>A well-kept ledger\<close>

text \<open>
  Row ids are distinct (the primary key), no row bears a UUID that is still to be drawn, and the
  timestamps of the node's own rows are readings of the clock's format. The clock reads UTC
  instants of the years 1 to 9999, no UUID is drawn twice (nor is one the end of another), and a
  pull of a synced store adds rows of the same kind without dropping any.
\<close>

definition rows_ok :: "fleet_env \<Rightarrow> string \<Rightarrow> nat \<Rightarrow> fleet_db \<Rightarrow> bool" where
  "rows_ok env node k d \<longleftrightarrow> distinct (map cr_id (fd_events d)) \<and>
     (\<forall>r \<in> set (fd_events d).
        (\<forall>j \<ge> k. \<forall>x. cr_id r \<noteq> x @ env_uuid env j) \<and>
        (cr_node r = node \<longrightarrow> (\<exists>t. dt_in_range t \<and> cr_created r = now_text t)))"

definition env_ok :: "fleet_env \<Rightarrow> bool" where
  "env_ok env \<longleftrightarrow> (\<forall>k. dt_in_range (env_clock env k)) \<and> 
     (\<forall>i j x y. x @ env_uuid env i = y @ env_uuid env j \<longrightarrow> i = j)"

definition pull_merges :: "fleet_env \<Rightarrow> string \<Rightarrow> bool" where
  "pull_merges env node \<longleftrightarrow>
     (\<forall>n d d' k. rows_ok env node k d \<and> env_pull env n d = Inr d' \<longrightarrow>
        rows_ok env node k d' \<and> set (fd_events d) \<subseteq> set (fd_events d'))"

definition ledger_ok :: "store \<Rightarrow> bool" where
  "ledger_ok s \<longleftrightarrow> env_ok (st_env s) \<and> rows_ok (st_env s) (st_node s) (st_uuid s) (st_db s) \<and>
     (st_synced s \<longrightarrow> pull_merges (st_env s) (st_node s))"

lemma rows_ok_later: "rows_ok env node k d \<Longrightarrow> k \<le> k' \<Longrightarrow> rows_ok env node k' d"
  by (auto simp: rows_ok_def)

lemma ledger_ok_goes_on:
  "ledger_ok s \<Longrightarrow> goes_on s s' \<Longrightarrow> fd_events (st_db s') = fd_events (st_db s) \<Longrightarrow> ledger_ok s'"
  by (auto simp: ledger_ok_def goes_on_def rows_ok_def)

lemma set_coord_events: "set (coord_events s) = row_event ` set (fd_events (st_db s))"
  by (simp add: coord_events_def db_events_def)

lemma row_event_simps [simp]:
  "ev_id (row_event r) = Some (cr_id r)" "ev_created (row_event r) = Some (cr_created r)"
  "ev_node (row_event r) = Some (cr_node r)" "ev_kind (row_event r) = Some (cr_kind r)"
  "ev_marker (row_event r) = Some (cr_marker r)" "ev_scope (row_event r) = cr_scope r"
  "ev_epoch (row_event r) = of_opt_int (cr_epoch r)" "ev_project (row_event r) = cr_project r"
  by (simp_all add: row_event_def)

lemma wf_coord_events: "ledger_ok s \<Longrightarrow> wf_ledger (coord_events s)"
  by (auto simp: ledger_ok_def rows_ok_def wf_ledger_def set_coord_events inj_on_def distinct_map)

text \<open>The timestamp of the next row is later than every timestamp of the node, as a text too.\<close>

lemma utc_simps [simp]:
  "instant (utc m) = m" "isoformat (utc m) = now_text m"
  "dt_add (utc m) n = (if dt_in_range (m + n) then Some (utc (m + n)) else None)"
  by (simp_all add: instant_def utc_def now_text_def dt_add_def)

lemma next_created_later:
  assumes t: "dt_in_range t" and own: "\<And>r. r \<in> set rows \<Longrightarrow> cr_node r = node \<Longrightarrow> \<exists>u. dt_in_range u \<and> cr_created r = now_text u"
    and nxt: "next_created (now_text t) (latest_created rows node) = Inr c"
  shows "\<exists>u. dt_in_range u \<and> c = now_text u" and "\<And>r. r \<in> set rows \<Longrightarrow> cr_node r = node \<Longrightarrow> cr_created r < c"
proof -
  have "(\<exists>u. dt_in_range u \<and> c = now_text u) \<and> (\<forall>r \<in> set rows. cr_node r = node \<longrightarrow> cr_created r < c)"
  proof (cases "latest_created rows node")
    case None
    then have "\<forall>r \<in> set rows. cr_node r \<noteq> node"
      by (auto simp: latest_created_def filter_empty_conv)
    moreover have "parse_iso None = None" by (simp add: parse_iso_def)
    with None t nxt have "c = now_text t" by (simp add: next_created_def)
    ultimately show ?thesis using t by auto
  next
    case (Some l)
    then have max: "\<forall>r \<in> set rows. cr_node r = node \<longrightarrow> cr_created r \<le> l"
      and "\<exists>r \<in> set rows. cr_node r = node \<and> l = cr_created r"
      by (auto simp: latest_created_def dest!: fold_best_SomeD)
    with own obtain m where m: "dt_in_range m" "l = now_text m" by blast
    show ?thesis
    proof (cases "t \<le> m")
      case True
      with nxt Some m t have c: "dt_in_range (m + 1)" "c = now_text (m + 1)"
        by (auto simp: next_created_def split: if_splits)
      with m have "l < c" by simp
      with max c show ?thesis by (auto intro: order.strict_trans1)
    next
      case False
      with nxt Some m t have "c = now_text t"
        by (auto simp: next_created_def)
      with False m t have "l < c" by simp
      with max t \<open>c = now_text t\<close> show ?thesis by (auto intro: order.strict_trans1)
    qed
  qed
  then show "\<exists>u. dt_in_range u \<and> c = now_text u" and "\<And>r. r \<in> set rows \<Longrightarrow> cr_node r = node \<Longrightarrow> cr_created r < c"
    by auto
qed

section \<open>What a store operation keeps\<close>

text \<open>
  \<open>grows s s'\<close>: no table row is dropped or rewritten, a well-kept ledger stays well-kept, and no
  transaction is left open.
\<close>

definition grows :: "store \<Rightarrow> store \<Rightarrow> bool" where
  "grows s s' \<longleftrightarrow> goes_on s s' \<and> (\<not> st_in_tx s \<longrightarrow> \<not> st_in_tx s') \<and>
     (ledger_ok s \<longrightarrow> ledger_ok s' \<and> set (fd_events (st_db s)) \<subseteq> set (fd_events (st_db s')))"

interpretation growth: state_preorder grows
  by unfold_locales (auto simp: grows_def intro: goes_on_trans)

lemma growsD:
  assumes "grows s s'"
  shows "goes_on s s'" "ledger_ok s \<Longrightarrow> ledger_ok s'"
    "ledger_ok s \<Longrightarrow> set (coord_events s) \<subseteq> set (coord_events s')"
    "\<not> st_in_tx s \<Longrightarrow> \<not> st_in_tx s'"
  using assms by (auto simp: grows_def set_coord_events)

lemma ends_id: "\<exists>x. ''ce_'' @ a @ ''_'' @ b @ u = x @ u"
  by (rule exI [of _ "''ce_'' @ a @ ''_'' @ b"]) simp

text \<open>A fresh row joins a well-kept ledger.\<close>

lemma fresh_row_ok:
  assumes ok: "ledger_ok s" and row: "fresh_row s kind marker scope epoch payload project source row"
    and later: "goes_on s s'" "st_uuid s < st_uuid s'"
    and db: "fd_events (st_db s') = fd_events (st_db s) @ [row]"
  shows "ledger_ok s'" and "\<And>r. r \<in> set (fd_events (st_db s)) \<Longrightarrow> cr_id r \<noteq> cr_id row"
    and "\<And>r. r \<in> set (fd_events (st_db s)) \<Longrightarrow> cr_node r = st_node s \<Longrightarrow> cr_created r < cr_created row"
proof -
  have env: "env_ok (st_env s)" and rows: "rows_ok (st_env s) (st_node s) (st_uuid s) (st_db s)"
    using ok by (auto simp: ledger_ok_def)
  obtain k where created: "next_created (now_text (env_clock (st_env s) k))
      (latest_created (fd_events (st_db s)) (st_node s)) = Inr (cr_created row)"
    using row by (auto simp: fresh_row_def)
  have t: "dt_in_range (env_clock (st_env s) k)" using env by (simp add: env_ok_def)
  have own: "\<exists>u. dt_in_range u \<and> cr_created r = now_text u" if "r \<in> set (fd_events (st_db s))" "cr_node r = st_node s" for r
    using rows that by (auto simp: rows_ok_def)
  note later_row = next_created_later [OF t own created]
  show "\<And>r. r \<in> set (fd_events (st_db s)) \<Longrightarrow> cr_node r = st_node s \<Longrightarrow> cr_created r < cr_created row"
    by (rule later_row(2)) auto
  obtain x where tail: "cr_id row = x @ env_uuid (st_env s) (st_uuid s)"
    using row ends_id unfolding fresh_row_def by metis
  show ids: "\<And>r. r \<in> set (fd_events (st_db s)) \<Longrightarrow> cr_id r \<noteq> cr_id row"
    using rows tail unfolding rows_ok_def by (metis order_refl)
  have "cr_id row \<noteq> y @ env_uuid (st_env s) j" if "st_uuid s' \<le> j" for j y
  proof
    assume "cr_id row = y @ env_uuid (st_env s) j"
    with tail have "x @ env_uuid (st_env s) (st_uuid s) = y @ env_uuid (st_env s) j" by simp
    with env have "st_uuid s = j" unfolding env_ok_def by blast
    with that later(2) show False by simp
  qed
  moreover have "\<exists>u. dt_in_range u \<and> cr_created row = now_text u" by (rule later_row(1)) auto
  ultimately have "rows_ok (st_env s) (st_node s) (st_uuid s') (st_db s')"
    using rows_ok_later [OF rows less_imp_le [OF later(2)]] ids
    by (fastforce simp: rows_ok_def db)
  with ok later show "ledger_ok s'" by (auto simp: ledger_ok_def goes_on_def)
qed

text \<open>What an append with no source id does to a well-kept ledger.\<close>

lemma append_new:
  assumes run: "append_coord_event kind marker summary scope epoch payload project None s = (Inr a, s')"
    and ok: "ledger_ok s"
  obtains row where "fresh_row s kind marker scope epoch payload project None row"
    "fd_events (st_db s') = fd_events (st_db s) @ [row]" "ar_id a = cr_id row" "\<not> ar_deduped a" "grows s s'"
    "ledger_ok s'" "append_gate (st_env s) (st_node s) kind marker summary scope epoch payload project = Inr ()"
    "set (coord_events s') = insert (row_event row) (set (coord_events s))" "st_node s' = st_node s"
    "st_env s' = st_env s" "st_synced s' = st_synced s"
  using run
proof (cases rule: append_coord_event_cases)
  case (added a' row)
  then have db: "fd_events (st_db s') = fd_events (st_db s) @ [row]" by simp
  from fresh_row_ok [OF ok added(2) added(10,11) db] added db ok show thesis
    by (intro that [of row]) (auto simp: grows_def set_coord_events goes_on_def)
next
  case (replayed a' q)
  then obtain t where "cr_id q = ''ce_'' @ utc_stamp t @ ''_'' @ last_chars 6 (st_node s) @ env_uuid (st_env s) (st_uuid s)"
    by auto
  then obtain x where "cr_id q = x @ env_uuid (st_env s) (st_uuid s)"
    using ends_id by metis
  with ok replayed(4) show thesis unfolding ledger_ok_def rows_ok_def by blast
qed simp

lemma append_grows [intro, simp]: "keeps grows (append_coord_event kind marker summary scope epoch payload project source)"
  unfolding keeps_def
proof
  fix s
  obtain r s' where run: "append_coord_event kind marker summary scope epoch payload project source s = (r, s')"
    by fastforce
  from run show "grows s (snd (append_coord_event kind marker summary scope epoch payload project source s))"
  proof (cases rule: append_coord_event_cases)
    case (raised e)
    with run show ?thesis by (auto simp: grows_def intro: ledger_ok_goes_on)
  next
    case (added a row)
    then have "fd_events (st_db s') = fd_events (st_db s) @ [row]" by simp
    from fresh_row_ok(1) [OF _ added(2) added(10,11) this] added run show ?thesis by (auto simp: grows_def)
  next
    case (replayed a q)
    with run show ?thesis by (auto simp: grows_def intro: ledger_ok_goes_on)
  qed
qed

text \<open>The payload a row shows is the one that was passed, with the keys of every object sorted.\<close>

lemma canon_get: "map_of (sort_key fst (map (\<lambda>(k, v). (k, canon v)) d)) k = map_option canon (map_of d k)"
proof -
  have "map_of (map (\<lambda>(k, v). (k, canon v)) d) k = map_option canon (map_of d k)"
    by (induction d) auto
  then show ?thesis by (simp only: map_of_sort_key_fst)
qed

lemma row_payload:
  assumes "fresh_row s kind marker scope epoch (Some p) project source row" "plain (PDict p)"
  shows "dget (ev_payload_dict (row_event row)) k = (case map_of p k of None \<Rightarrow> PNone | Some v \<Rightarrow> canon v)"
proof -
  have json: "cr_payload_json row = Some (json_dumps (PDict p))" using assms(1) by (simp add: fresh_row_def)
  have "json_loads (json_dumps (PDict p)) = Some (canon (PDict p))"
    using read_print [OF separators_program(1) plain_canon [OF assms(2)]] by (simp add: json_dumps_def)
  moreover have "json_dumps (PDict p) \<noteq> []" by (simp add: json_dumps_def)
  ultimately have "ev_payload_dict (row_event row) = sort_key fst (map (\<lambda>(k, v). (k, canon v)) p)"
    by (simp add: row_event_def json ev_payload_dict_def)
  then show ?thesis by (simp add: dget_def canon_get split: option.split)
qed

lemma row_no_payload:
  "fresh_row s kind marker scope epoch None project source row \<Longrightarrow> ev_payload_dict (row_event row) = []"
  by (simp add: fresh_row_def row_event_def ev_payload_dict_def)

lemma fresh_row_simps:
  assumes "fresh_row s kind marker scope epoch payload project source row"
  shows "cr_node row = st_node s" "cr_kind row = kind" "cr_marker row = marker" "cr_scope row = scope"
    "cr_epoch row = epoch" "cr_project row = project"
  using assms by (simp_all add: fresh_row_def)

lemma fresh_row_epoch:
  assumes "fresh_row s kind marker scope epoch payload project source row"
  shows "event_epoch (row_event row) = (case epoch of None \<Rightarrow> - 1 | Some n \<Rightarrow> n)"
  using fresh_row_simps [OF assms] by (simp add: event_epoch_def of_opt_int_def split: option.split)

lemma fresh_row_event:
  "fresh_row s kind marker scope epoch payload project source row \<Longrightarrow>
     is_event k m (row_event row) \<longleftrightarrow> kind = k \<and> marker = m"
  using fresh_row_simps by (fastforce simp: is_event_def)

end
