(* ===== verification/Fleet_Sync.thy ===== *)
theory Fleet_Sync imports Store_Laws begin

text \<open>
  The rest of \<open>fleet/store.py\<close> and the wrapper of \<open>fleet/sync.py\<close>: opening a store, the node
  table (registration, heartbeat, key publication), the digest with the epoch watermark kept in
  the settings table of \<open>kaizen.db\<close>, and pull, push, checkpoint and statistics behind the guard
  that no local transaction is open.
\<close>

section \<open>Opening a store\<close>

text \<open>
  \<open>_connect\<close>: what each attempt to open the connection returns is a parameter. The attempts that
  are left count down from the sixth.
\<close>

definition connect_denial :: "string \<Rightarrow> exn \<Rightarrow> exn" where
  "connect_denial db_path e =
     denied1 ''DENIED_FLEET_DB_CONNECT_RETRY_EXHAUSTED''
       [(''attempts'', PInt (int attempts)), (''reason'', PStr (exn_str e)), (''db_path'', PStr db_path),
        (''required_action'', PStr ''standby or retry later; fleet.db is disposable (re-bootstrap from hub)'')]"

fun connect_attempts :: "(nat \<Rightarrow> exn + 'c) \<Rightarrow> string \<Rightarrow> nat \<Rightarrow> nat \<Rightarrow> exn + 'c" where
  "connect_attempts open_connection db_path left attempt =
     (case open_connection attempt of
        Inr c \<Rightarrow> Inr c
      | Inl e \<Rightarrow>
          if \<not> is_retryable e then Inl (connect_denial db_path e)
          else (case left of
              0 \<Rightarrow> Inl (connect_denial db_path e)
            | Suc k \<Rightarrow> connect_attempts open_connection db_path k (Suc attempt)))"

declare connect_attempts.simps [simp del]

definition fleet_connect :: "(nat \<Rightarrow> exn + 'c) \<Rightarrow> string \<Rightarrow> exn + 'c" where
  "fleet_connect open_connection db_path = connect_attempts open_connection db_path (attempts - 1) 1"

text \<open>The node identity a store is constructed with must be an object with a non-empty \<open>node_id\<close>.\<close>

definition node_identity_gate :: "pyval \<Rightarrow> exn + string" where
  "node_identity_gate node =
     (case dget (dict_or_empty node) ''node_id'' of
        PStr i \<Rightarrow> if i \<noteq> [] then Inr i else
          Inl (denied2 ''DENIED_FLEET_NODE_IDENTITY''
            [(''required_action'', PStr ''provide a node identity dict with a non-empty node_id'')])
      | _ \<Rightarrow> Inl (denied2 ''DENIED_FLEET_NODE_IDENTITY''
            [(''required_action'', PStr ''provide a node identity dict with a non-empty node_id'')]))"

text \<open>
  \<open>daemon_is_live\<close>: the text of the pid file, when it can be read, and the liveness test of a pid
  are parameters. A text that is not JSON, an object with no pid and a pid that is not a number
  mean no daemon; JSON of another shape raises.
\<close>

definition daemon_is_live :: "string option \<Rightarrow> (int \<Rightarrow> bool) \<Rightarrow> exn + bool" where
  "daemon_is_live pidfile pid_alive =
     (case pidfile of
        None \<Rightarrow> Inr False
      | Some content \<Rightarrow>
          (case json_loads content of
             None \<Rightarrow> Inr False
           | Some (PDict d) \<Rightarrow>
               (case map_of d ''pid'' of
                  None \<Rightarrow> Inr False
                | Some v \<Rightarrow>
                    (case v of
                       PStr t \<Rightarrow> (case int_of_str t of None \<Rightarrow> Inr False | Some pid \<Rightarrow> Inr (pid_alive pid))
                     | _ \<Rightarrow> (case py_int v of
                           None \<Rightarrow> Inl (PyError ''TypeError'' ''int() argument must be a string or a real number'')
                         | Some pid \<Rightarrow> Inr (pid_alive pid))))
           | Some _ \<Rightarrow> Inl (PyError ''TypeError'' ''pid file is not a JSON object'')))"

definition breakglass_gate :: "exn + bool \<Rightarrow> exn + unit" where
  "breakglass_gate live =
     (case live of
        Inl e \<Rightarrow> Inl e
      | Inr True \<Rightarrow> Inl (denied2 ''DENIED_FLEET_DAEMON_LIVE''
          [(''reason'', PStr ''a live supervisor daemon holds the fleet.db handle''),
           (''required_action'', PStr ''route the op through the daemon loopback; do not open a second fleet.db handle'')])
      | Inr False \<Rightarrow> Inr ())"

section \<open>The node table\<close>

definition find_node :: "fleet_db \<Rightarrow> string \<Rightarrow> node_row option" where
  "find_node d node = find (\<lambda>r. nr_id r = node) (fd_nodes d)"

definition set_node :: "node_row \<Rightarrow> fleet_db \<Rightarrow> fleet_db" where
  "set_node r d = d\<lparr>fd_nodes := filter (\<lambda>q. nr_id q \<noteq> nr_id r) (fd_nodes d) @ [r]\<rparr>"

definition some_if :: "string \<Rightarrow> string option" where
  "some_if t = (if t = [] then None else Some t)"

definition str_or :: "string option \<Rightarrow> string \<Rightarrow> string" where
  "str_or x d = (if opt_str x = [] then d else opt_str x)"

definition register_tx :: "string \<Rightarrow> string \<Rightarrow> string option \<Rightarrow> string \<Rightarrow> bool act" where
  "register_tx role display caps_json now = (\<lambda>s.
     let old = find_node (st_db s) (st_node s);
         registered_at = str_or (case old of None \<Rightarrow> None | Some r \<Rightarrow> nr_registered r) now
     in (Inr (old \<noteq> None),
         s\<lparr>st_db := set_node
             \<lparr>nr_id = st_node s, nr_role = Some role, nr_tailnet = Some display,
              nr_os = some_if (lower (env_os (st_env s))), nr_arch = some_if (env_arch (st_env s)),
              nr_capabilities = caps_json,
              nr_pubkey = (case old of None \<Rightarrow> None | Some r \<Rightarrow> nr_pubkey r),
              nr_last_heartbeat = (case old of None \<Rightarrow> None | Some r \<Rightarrow> nr_last_heartbeat r),
              nr_registered = Some registered_at, nr_updated = Some now\<rparr> (st_db s)\<rparr>))"

definition register_summary :: "bool \<Rightarrow> string \<Rightarrow> string" where
  "register_summary updated role = ''Node '' @ (if updated then ''updated'' else ''registered'') @ '' as '' @ role @ ''.''"

definition register_payload :: "string \<Rightarrow> string \<Rightarrow> pydict option \<Rightarrow> pydict" where
  "register_payload role display capabilities =
     [(''role'', PStr role), (''tailnet_name'', PStr display)] @
     (case capabilities of None \<Rightarrow> [] | Some c \<Rightarrow> [(''capabilities'', PDict c)])"

text \<open>The checks that run before the node row is touched.\<close>

definition register_preview :: "fleet_env \<Rightarrow> string \<Rightarrow> bool \<Rightarrow> string \<Rightarrow> pydict \<Rightarrow> exn + unit" where
  "register_preview env node updated role payload =
     (case validate_record (env_jsonschema env) ''coord_event''
         [(''node_id'', PStr node), (''event_kind'', PStr ''node''),
          (''marker'', PStr (if updated then ''updated'' else ''registered'')),
          (''payload'', PDict payload), (''summary'', PStr (register_summary updated role))] of
        Inl e \<Rightarrow> Inl e
      | Inr _ \<Rightarrow> assert_redacted
          (dict_merge [(''summary'', PStr (register_summary updated role))] (payload_redaction_fields payload)))"

definition register_node :: "string \<Rightarrow> string option \<Rightarrow> pydict option \<Rightarrow> pydict act" where
  "register_node role tailnet_name capabilities = (\<lambda>s.
     let display = str_or tailnet_name (env_display_name (st_env s));
         caps_json = map_option (\<lambda>c. json_dumps (PDict c)) capabilities;
         payload = register_payload role display capabilities
     in seq now_iso (\<lambda>now.
        seq (gets (\<lambda>s. find_node (st_db s) (st_node s) \<noteq> None)) (\<lambda>updated.
        seq (\<lambda>s. (register_preview (st_env s) (st_node s) updated role payload, s)) (\<lambda>_.
        seq (fleet_write (register_tx role display caps_json now)) (\<lambda>existed.
        let marker = (if existed then ''updated'' else ''registered'') in
        seq (append_coord_event ''node'' marker (register_summary existed role) None None (Some payload) None None) (\<lambda>ev.
        ret [(''status'', PStr ''OK''), (''node_id'', PStr (st_node s)), (''role'', PStr role),
             (''tailnet_name'', PStr display), (''marker'', PStr marker), (''coord_event_id'', PStr (ar_id ev))]))))) s)"

definition heartbeat_tx :: "string \<Rightarrow> unit act" where
  "heartbeat_tx now = modify (\<lambda>s. s\<lparr>st_db := (st_db s)\<lparr>fd_nodes :=
     map (\<lambda>r. if nr_id r = st_node s then r\<lparr>nr_last_heartbeat := Some now, nr_updated := Some now\<rparr> else r)
       (fd_nodes (st_db s))\<rparr>\<rparr>)"

definition heartbeat :: "pydict act" where
  "heartbeat = seq now_iso (\<lambda>now. seq (fleet_write (heartbeat_tx now)) (\<lambda>_.
     seq (append_coord_event ''heartbeat'' ''point'' ''Node heartbeat.'' None None (Some [(''ts'', PStr now)]) None None) (\<lambda>ev s.
       (Inr [(''status'', PStr ''OK''), (''node_id'', PStr (st_node s)), (''ts'', PStr now),
             (''coord_event_id'', PStr (ar_id ev))], s))))"

definition publish_tx :: "string \<Rightarrow> string \<Rightarrow> unit act" where
  "publish_tx pubkey now = modify (\<lambda>s. s\<lparr>st_db := set_node
     (case find_node (st_db s) (st_node s) of
        Some r \<Rightarrow> r\<lparr>nr_pubkey := Some pubkey, nr_updated := Some now\<rparr>
      | None \<Rightarrow> \<lparr>nr_id = st_node s, nr_role = None, nr_tailnet = None, nr_os = None, nr_arch = None,
          nr_capabilities = None, nr_pubkey = Some pubkey, nr_last_heartbeat = None,
          nr_registered = Some now, nr_updated = Some now\<rparr>) (st_db s)\<rparr>)"

definition publish_pubkey :: "string \<Rightarrow> pydict act" where
  "publish_pubkey pubkey = seq now_iso (\<lambda>now. seq (fleet_write (publish_tx pubkey now)) (\<lambda>_.
     seq (append_coord_event ''node'' ''updated'' ''Node pubkey published.'' None None (Some [(''pubkey'', PStr pubkey)]) None None) (\<lambda>ev s.
       (Inr [(''status'', PStr ''OK''), (''node_id'', PStr (st_node s)), (''pubkey'', PStr pubkey),
             (''coord_event_id'', PStr (ar_id ev))], s))))"

definition node_pubkey :: "store \<Rightarrow> string \<Rightarrow> string option" where
  "node_pubkey s node =
     (case find_node (st_db s) node of None \<Rightarrow> None | Some r \<Rightarrow> some_if (opt_str (nr_pubkey r)))"

section \<open>The epoch watermark\<close>

text \<open>
  \<open>db.get_setting\<close> and \<open>db.set_setting\<close> on the un-synced \<open>kaizen.db\<close>, which may raise as the
  environment says.
\<close>

definition settings_fault :: "unit act" where
  "settings_fault s =
     ((case env_settings_fault (st_env s) (st_settings_ops s) of None \<Rightarrow> Inr () | Some e \<Rightarrow> Inl e),
      s\<lparr>st_settings_ops := Suc (st_settings_ops s)\<rparr>)"

definition get_setting :: "string \<Rightarrow> string option act" where
  "get_setting key = seq settings_fault (\<lambda>_.
     gets (\<lambda>s. some_if (opt_str (map_of (st_settings s) key))))"

definition set_setting :: "string \<Rightarrow> string \<Rightarrow> unit act" where
  "set_setting key v = seq settings_fault (\<lambda>_.
     modify (\<lambda>s. s\<lparr>st_settings := AList.update key v (st_settings s)\<rparr>))"

definition watermark_key :: "string \<Rightarrow> string" where
  "watermark_key project = ''fleet_max_seen_epoch_'' @ project"

definition parse_watermark :: "string option \<Rightarrow> int" where
  "parse_watermark raw =
     (if opt_str raw = [] then - 1 else (case int_of_str (opt_str raw) of None \<Rightarrow> - 1 | Some n \<Rightarrow> n))"

definition watermark :: "string \<Rightarrow> int act" where
  "watermark project = seq (get_setting (watermark_key project)) (\<lambda>raw. ret (parse_watermark raw))"

definition record_watermark :: "string \<Rightarrow> int \<Rightarrow> unit act" where
  "record_watermark project epoch =
     (if epoch < 0 then ret ()
      else seq (handle (watermark project) (\<lambda>e. if is_denied e \<or> exn_code e = ''ValueError'' then ret (- 1) else raise e)) (\<lambda>current.
        if current < epoch then set_setting (watermark_key project) (int_str epoch) else ret ()))"

definition regression_denial :: "int \<Rightarrow> int \<Rightarrow> string \<Rightarrow> exn" where
  "regression_denial stored epoch project =
     denied2 ''DENIED_EPOCH_REGRESSION''
       [(''stored_watermark'', PInt stored), (''reduced_epoch'', PInt epoch), (''project_id'', PStr project),
        (''required_action'', PStr ''hub-restore suspected -- verify the hub, then re-bootstrap per runbooks/hub.md; set KAIZEN_FLEET_ACCEPT_EPOCH_REGRESSION=1 for ONE deliberate acceptance'')]"

definition check_epoch_regression :: "string \<Rightarrow> int \<Rightarrow> unit act" where
  "check_epoch_regression project epoch = seq (watermark project) (\<lambda>stored.
     if stored \<le> - 1 \<or> stored \<le> epoch then ret ()
     else (\<lambda>s. if env_accept_regression (st_env s) then
       seq (handle
         (seq (append_coord_event ''divergence'' ''detected''
             ''Epoch regression accepted (operator override); watermark reset to rewound ledger.'' None None
             (Some [(''would_block'', PStr ''DENIED_EPOCH_REGRESSION''), (''accepted'', PBool True),
                    (''stored_watermark'', PInt stored), (''reduced_epoch'', PInt epoch)]) None None) (\<lambda>_. ret ()))
         (\<lambda>e. ret ()))
         (\<lambda>_. set_setting (watermark_key project) (int_str epoch)) s
     else (Inl (regression_denial stored epoch project), s)))"

section \<open>The digest\<close>

record digest_node =
  gn_node_id :: string
  gn_role :: pyval
  gn_tailnet_name :: pyval
  gn_last_heartbeat :: "string option"
  gn_heartbeat_age_s :: pyval
  gn_retired :: bool

record fleet_digest =
  dg_project_id :: string
  dg_project_source :: string
  dg_node_id :: string
  dg_nodes :: "digest_node list"
  dg_coordinator :: coord_proj
  dg_leases :: "(string \<times> lease_proj) list"
  dg_open_conflicts :: "conflict_proj list"
  dg_open_dispatches :: "dispatch_proj list"
  dg_max_epoch :: int
  dg_sync :: bool
  dg_event_count :: nat
  dg_node_count :: nat

definition digest_entry :: "fleet_db \<Rightarrow> (string \<times> node_proj) list \<Rightarrow> datetime option \<Rightarrow> string \<Rightarrow> digest_node" where
  "digest_entry d reduced now node =
     (let row = find_node d node; view = map_of reduced node;
          beat = (let own = (case row of None \<Rightarrow> None | Some r \<Rightarrow> nr_last_heartbeat r) in
                  if opt_str own \<noteq> [] then own else (case view of None \<Rightarrow> None | Some v \<Rightarrow> np_last_heartbeat v))
      in \<lparr>gn_node_id = node,
          gn_role = py_or (of_opt_str (case row of None \<Rightarrow> None | Some r \<Rightarrow> nr_role r))
            (case view of None \<Rightarrow> PNone | Some v \<Rightarrow> np_role v),
          gn_tailnet_name = py_or (of_opt_str (case row of None \<Rightarrow> None | Some r \<Rightarrow> nr_tailnet r))
            (case view of None \<Rightarrow> PNone | Some v \<Rightarrow> np_tailnet_name v),
          gn_last_heartbeat = beat, gn_heartbeat_age_s = age_seconds beat now,
          gn_retired = (case view of None \<Rightarrow> False | Some v \<Rightarrow> np_retired v)\<rparr>)"

definition digest_node_ids :: "fleet_db \<Rightarrow> (string \<times> node_proj) list \<Rightarrow> string list" where
  "digest_node_ids d reduced = sort (remdups (map nr_id (fd_nodes d) @ map fst reduced))"

definition dispatch_open :: "dispatch_proj \<Rightarrow> bool" where
  "dispatch_open p = (case dp_state p of None \<Rightarrow> True | Some m \<Rightarrow> \<not> dispatch_terminal m)"

definition digest :: "int option \<Rightarrow> fleet_digest act" where
  "digest limit =
     seq (gets coord_events) (\<lambda>events.
     seq now_iso (\<lambda>now.
     seq now_iso (\<lambda>later s.
       let env = st_env s; d = st_db s; reduced = reduce_nodes events; epoch = max_epoch events;
           ids = digest_node_ids d reduced;
           nodes = map (digest_entry d reduced (parse_iso (Some later))) ids;
           nodes = (case limit of None \<Rightarrow> nodes | Some n \<Rightarrow> take (nat (max 0 n)) nodes)
       in seq (if st_synced s then check_epoch_regression (env_project_id env) epoch else ret ()) (\<lambda>_.
          seq (record_watermark (env_project_id env) epoch) (\<lambda>_.
          ret \<lparr>dg_project_id = env_project_id env, dg_project_source = env_project_source env,
               dg_node_id = st_node s, dg_nodes = nodes, dg_coordinator = reduce_coordinator events,
               dg_leases = reduce_lease events (Some now), dg_open_conflicts = fst (reduce_conflicts events),
               dg_open_dispatches = filter dispatch_open (map snd (reduce_dispatches events)),
               dg_max_epoch = epoch, dg_sync = st_synced s, dg_event_count = length events,
               dg_node_count = length ids\<rparr>)) s)))"

section \<open>The sync engine\<close>

definition sync_guard :: "string \<Rightarrow> unit act" where
  "sync_guard op s =
     guard (\<not> st_in_tx s)
       (denied2 ''DENIED_SYNC_IN_TX''
         [(''op'', PStr op),
          (''reason'', PStr ''a local write tx is open; commit/rollback before syncing (ledger #24)''),
          (''required_action'', PStr (''close the transaction before calling '' @ op @ ''()''))]) s"

definition sync_off :: pydict where
  "sync_off = [(''sync'', PStr ''off'')]"

definition sync_op :: "string \<Rightarrow> string \<Rightarrow> unit act \<Rightarrow> pydict act" where
  "sync_op op done call = seq (sync_guard op) (\<lambda>_ s.
     if \<not> st_synced s then (Inr sync_off, s)
     else seq call (\<lambda>_. ret [(''sync'', PStr done)]) s)"

definition conn_pull :: "unit act" where
  "conn_pull s =
     (let s' = s\<lparr>st_sync := Suc (st_sync s)\<rparr> in
      case env_pull (st_env s) (st_sync s) (st_db s) of Inl e \<Rightarrow> (Inl e, s') | Inr d \<Rightarrow> (Inr (), s'\<lparr>st_db := d\<rparr>))"

definition conn_call :: "(nat \<Rightarrow> exn + unit) \<Rightarrow> unit act" where
  "conn_call f s = (f (st_sync s), s\<lparr>st_sync := Suc (st_sync s)\<rparr>)"

definition pull :: "pydict act" where
  "pull = sync_op ''pull'' ''pulled'' conn_pull"

definition push :: "pydict act" where
  "push s = sync_op ''push'' ''pushed'' (conn_call (env_push (st_env s))) s"

definition checkpoint :: "pydict act" where
  "checkpoint s = sync_op ''checkpoint'' ''checkpointed'' (conn_call (env_checkpoint (st_env s))) s"

definition stats_fields :: "string list" where
  "stats_fields = [''revision'', ''main_wal_size'', ''revert_wal_size'', ''last_pushed'', ''last_pulled'']"

definition stats :: "pydict act" where
  "stats s =
     (if \<not> st_synced s then (Inr sync_off, s)
      else ((case env_stats (st_env s) (st_sync s) of
               Inl e \<Rightarrow> Inl e
             | Inr raw \<Rightarrow> Inr ((''sync'', PStr ''on'') #
                 concat (map (\<lambda>k. case map_of raw k of None \<Rightarrow> [] | Some v \<Rightarrow> [(k, v)]) stats_fields))),
            s\<lparr>st_sync := Suc (st_sync s)\<rparr>))"

text \<open>Pull, check for a rewound hub, then reduce afresh.\<close>

definition pull_and_reduce :: "int option \<Rightarrow> (pydict \<times> fleet_digest) act" where
  "pull_and_reduce limit =
     seq pull (\<lambda>pulled.
     seq (\<lambda>s. (if st_synced s then check_epoch_regression (env_project_id (st_env s)) (max_epoch (coord_events s))
               else ret ()) s) (\<lambda>_.
     seq (digest limit) (\<lambda>dg. ret (pulled, dg))))"

text \<open>\<open>sync_url_from_env\<close> and \<open>sync_auth_token_from_env\<close>\<close>

definition env_value :: "(string \<times> string) list \<Rightarrow> string \<Rightarrow> string option" where
  "env_value env name = some_if (py_strip (opt_str (map_of env name)))"

definition sync_url_from_env :: "(string \<times> string) list \<Rightarrow> string option" where
  "sync_url_from_env env = env_value env ''KAIZEN_DB_SYNC_URL''"

definition sync_auth_token_from_env :: "(string \<times> string) list \<Rightarrow> string option" where
  "sync_auth_token_from_env env = env_value env ''KAIZEN_DB_SYNC_AUTH_TOKEN''"

text \<open>\<open>open_connection\<close>: with a URL the sync engine's connect, else the local one; the flag says which.\<close>

definition open_connection ::
    "(string \<Rightarrow> string option \<Rightarrow> exn + 'c) \<Rightarrow> (unit \<Rightarrow> exn + 'c) \<Rightarrow> string option \<Rightarrow> string option \<Rightarrow> exn + ('c \<times> bool)" where
  "open_connection sync_connect connect url token =
     (if opt_str url \<noteq> [] then (case sync_connect (opt_str url) token of Inl e \<Rightarrow> Inl e | Inr c \<Rightarrow> Inr (c, True))
      else (case connect () of Inl e \<Rightarrow> Inl e | Inr c \<Rightarrow> Inr (c, False)))"

end
