(* ===== verification/Coordination.thy ===== *)
theory Coordination imports Fleet_Sync begin

text \<open>
  The coordination engine of \<open>fleet/coordination.py\<close>: the coordinator role (claim, transfer,
  release), leases (request, grant, renew, release, revoke, sweep), the epoch fence that records
  a conflict before it refuses, and the freshness and contention gates of the authoritative mode.
  Every operation reads the fresh projections of the ledger and appends rows to it.
\<close>

section \<open>Fresh projections\<close>

definition default_ttl :: int where
  "default_ttl = 900"

definition current_coordinator :: "store \<Rightarrow> coord_proj" where
  "current_coordinator s = reduce_coordinator (coord_events s)"

definition current_leases :: "(string \<times> lease_proj) list act" where
  "current_leases = seq now_iso (\<lambda>now. gets (\<lambda>s. reduce_lease (coord_events s) (Some now)))"

definition store_max_epoch :: "store \<Rightarrow> int" where
  "store_max_epoch s = max_epoch (coord_events s)"

definition expires_at :: "string \<Rightarrow> int \<Rightarrow> string act" where
  "expires_at now ttl =
     seq (case fromisoformat now of Some t \<Rightarrow> ret t | None \<Rightarrow> seq next_clock (\<lambda>t. ret (utc t))) (\<lambda>base.
       (case dt_add base (max 0 ttl * 1000000) of
          None \<Rightarrow> raise (PyError ''OverflowError'' ''date value out of range'')
        | Some t \<Rightarrow> ret (isoformat t)))"

section \<open>The fence and the grantor gate\<close>

definition scope_entry :: "string option \<Rightarrow> pydict" where
  "scope_entry scope = (if opt_str scope = [] then [] else [(''scope_key'', PStr (opt_str scope))])"

definition stale_fence :: "int \<Rightarrow> int \<Rightarrow> string option \<Rightarrow> exn" where
  "stale_fence assumed current scope =
     denied2 ''DENIED_STALE_FENCE''
       ([(''assumed_epoch'', PInt assumed), (''current_epoch'', PInt current),
         (''required_action'', PStr ''re-read the current coordinator epoch (fleet digest) and retry; a stale controller epoch is split-brain'')]
        @ scope_entry scope)"

definition fence_check :: "int option \<Rightarrow> int \<Rightarrow> string option \<Rightarrow> unit act" where
  "fence_check assumed current scope =
     (case assumed of
        None \<Rightarrow> ret ()
      | Some a \<Rightarrow>
          if a = current then ret ()
          else seq (append_coord_event ''conflict'' ''detected''
              ''Epoch-fence denied (stale assumed epoch); split-brain control refused.'' scope None
              (Some ([(''would_block'', PStr ''DENIED_STALE_FENCE''), (''assumed_epoch'', PInt a),
                      (''current_epoch'', PInt current)] @ scope_entry scope)) None None)
            (\<lambda>_. raise (stale_fence a current scope)))"

definition not_coordinator :: "string \<Rightarrow> coord_proj \<Rightarrow> exn" where
  "not_coordinator node c =
     denied2 ''DENIED_NOT_COORDINATOR''
       [(''node_id'', PStr node), (''current_holder'', cp_holder c), (''current_epoch'', PInt (cp_epoch c)),
        (''required_action'', PStr ''only the coordinator (sole grantor) may grant/renew/revoke/transfer; claim the role first'')]"

definition require_coordinator :: "coord_proj act" where
  "require_coordinator = (\<lambda>s.
     let c = current_coordinator s in
     if cp_holder c \<noteq> PStr (st_node s) then (Inl (not_coordinator (st_node s) c), s) else (Inr c, s))"

section \<open>The coordinator role\<close>

definition iso_sentinel :: "string \<Rightarrow> string" where
  "iso_sentinel node = ''iso:'' @ last_chars 6 node"

definition assert_isolated :: "unit act" where
  "assert_isolated = (\<lambda>s.
     if \<not> st_synced s then (Inr (), s)
     else (case pull_and_reduce None s of
             (Inl e, s') \<Rightarrow> if is_denied e then (Inl e, s') else (Inr (), s')
           | (Inr _, s') \<Rightarrow>
               (Inl (denied2 ''DENIED_NOT_ISOLATED''
                 [(''node_id'', PStr (st_node s)),
                  (''required_action'', PStr ''the hub is reachable; claim without isolated=True (contested rules apply) or transfer the role'')]), s')))"

definition coordinator_payload :: "string \<Rightarrow> string \<Rightarrow> bool \<Rightarrow> string option \<Rightarrow> pydict" where
  "coordinator_payload node mode isolated to_node =
     [(''mode'', PStr mode)] @
     (if opt_str to_node = [] then [] else [(''to_node'', PStr (opt_str to_node))]) @
     (if isolated then [(''iso'', PBool True), (''iso_sentinel'', PStr (iso_sentinel node))] else [])"

definition coordinator_event :: "string \<Rightarrow> string \<Rightarrow> int \<Rightarrow> pydict option \<Rightarrow> append_result act" where
  "coordinator_event marker summary epoch payload =
     append_coord_event ''coordinator'' marker summary None (Some epoch) payload None None"

definition contested_conflict :: "string \<Rightarrow> bool \<Rightarrow> coord_proj \<Rightarrow> int \<Rightarrow> append_result act" where
  "contested_conflict summary assumed c epoch =
     append_coord_event ''conflict'' ''detected'' summary None None
       (Some ([(''would_block'', PStr ''CONTESTED_CLAIM'')] @ (if assumed then [(''iso_assumed'', PBool True)] else []) @
        [(''current_holder'', cp_holder c), (''current_epoch'', PInt (cp_epoch c)), (''claim_epoch'', PInt epoch)])) None None"

definition diverged :: "string \<Rightarrow> coord_proj \<Rightarrow> exn" where
  "diverged node c =
     denied2 ''DENIED_COORD_DIVERGED''
       [(''node_id'', PStr node), (''current_holder'', cp_holder c), (''current_epoch'', PInt (cp_epoch c)),
        (''current_mode'', PStr ''pinned''),
        (''required_action'', PStr ''transfer the role from the pinned holder, or have it unpin (claim roaming) first'')]"

definition iso_result :: "string \<Rightarrow> bool \<Rightarrow> pydict" where
  "iso_result node isolated =
     (if isolated then [(''iso'', PBool True), (''iso_sentinel'', PStr (iso_sentinel node))] else [])"

text \<open>The isolated fallback, the recorded contested claim, and the self-grant on a vacancy.\<close>

definition claim_assume :: "string option \<Rightarrow> string \<Rightarrow> string \<Rightarrow> coord_proj \<Rightarrow> int \<Rightarrow> pydict act" where
  "claim_assume summary node mode c epoch =
     (let payload = coordinator_payload node mode True None in
      seq (coordinator_event ''claimed'' (str_or summary (''Isolated coordinator claim at epoch '' @ int_str epoch @ ''.'')) epoch (Some payload)) (\<lambda>claimed.
      seq (coordinator_event ''granted'' (str_or summary (''Coordinator role assumed isolated at epoch '' @ int_str epoch @ ''.'')) epoch (Some payload)) (\<lambda>granted.
      seq (contested_conflict ''Isolated claim assumed the coordinator role over an unreachable roaming holder.'' True c epoch) (\<lambda>_.
      ret [(''status'', PStr ''OK''), (''contested'', PBool True), (''iso'', PBool True),
           (''iso_sentinel'', PStr (iso_sentinel node)), (''node_id'', PStr node), (''holder'', PStr node),
           (''epoch'', PInt epoch), (''mode'', PStr mode), (''claimed_id'', PStr (ar_id claimed)),
           (''granted_id'', PStr (ar_id granted))]))))"

definition claim_contested :: "string option \<Rightarrow> string \<Rightarrow> string \<Rightarrow> bool \<Rightarrow> coord_proj \<Rightarrow> int \<Rightarrow> pydict act" where
  "claim_contested summary node mode isolated c epoch =
     seq (coordinator_event ''claimed'' (str_or summary (''Coordinator claim (contested) at epoch '' @ int_str epoch @ ''.'')) epoch
       (Some (coordinator_payload node mode isolated None))) (\<lambda>claimed.
     seq (contested_conflict ''Contested coordinator claim recorded; current holder unchanged (roaming).'' False c epoch) (\<lambda>_.
     ret [(''status'', PStr ''RECORDED''), (''contested'', PBool True), (''node_id'', PStr node),
          (''current_holder'', cp_holder c), (''current_epoch'', PInt (cp_epoch c)), (''claim_epoch'', PInt epoch),
          (''claimed_id'', PStr (ar_id claimed))]))"

definition claim_vacant :: "string option \<Rightarrow> string \<Rightarrow> string \<Rightarrow> bool \<Rightarrow> int \<Rightarrow> pydict act" where
  "claim_vacant summary node mode isolated epoch =
     (let payload = coordinator_payload node mode isolated None in
      seq (coordinator_event ''claimed'' (str_or summary (''Coordinator claim at epoch '' @ int_str epoch @ ''.'')) epoch (Some payload)) (\<lambda>claimed.
      seq (coordinator_event ''granted'' (str_or summary (''Coordinator self-granted at epoch '' @ int_str epoch @ ''.'')) epoch (Some payload)) (\<lambda>granted.
      ret ([(''status'', PStr ''OK''), (''contested'', PBool False), (''node_id'', PStr node), (''holder'', PStr node),
            (''epoch'', PInt epoch), (''mode'', PStr mode), (''claimed_id'', PStr (ar_id claimed)),
            (''granted_id'', PStr (ar_id granted))] @ iso_result node isolated))))"

definition claim_role :: "string \<Rightarrow> bool \<Rightarrow> string option \<Rightarrow> pydict act" where
  "claim_role mode isolated summary = (\<lambda>s.
     let c = current_coordinator s; node = st_node s; epoch = max 1 (store_max_epoch s + 1);
         mode = (if mode = ''roaming'' \<or> mode = ''pinned'' then mode else ''roaming'')
     in if cp_holder c \<noteq> PNone \<and> cp_holder c \<noteq> PStr node then
          (if cp_mode c = ''pinned'' then (Inl (diverged node c), s)
           else if isolated then claim_assume summary node mode c epoch s
           else claim_contested summary node mode isolated c epoch s)
        else claim_vacant summary node mode isolated epoch s)"

definition claim_coordinator :: "string \<Rightarrow> bool \<Rightarrow> string option \<Rightarrow> pydict act" where
  "claim_coordinator mode isolated summary =
     seq (if isolated then assert_isolated else ret ()) (\<lambda>_. claim_role mode isolated summary)"

definition transfer_coordinator :: "string \<Rightarrow> bool \<Rightarrow> string option \<Rightarrow> int option \<Rightarrow> pydict act" where
  "transfer_coordinator to_node isolated summary assumed =
     seq require_coordinator (\<lambda>c.
     seq (fence_check assumed (cp_epoch c) None) (\<lambda>_ s.
     let cur = cp_epoch c; epoch = max cur (store_max_epoch s) + 1; node = st_node s; mode = cp_mode c in
     seq (coordinator_event ''released'' (str_or summary (''Coordinator role released at epoch '' @ int_str cur @ '' for transfer.'')) cur
       (Some [(''to_node'', PStr to_node)])) (\<lambda>released.
     seq (coordinator_event ''granted'' (str_or summary (''Coordinator role transferred to '' @ to_node @ '' at epoch '' @ int_str epoch @ ''.'')) epoch
       (Some (coordinator_payload node mode isolated (Some to_node)))) (\<lambda>granted.
     ret ([(''status'', PStr ''OK''), (''from_node'', PStr node), (''to_node'', PStr to_node), (''epoch'', PInt epoch),
           (''mode'', PStr mode), (''released_id'', PStr (ar_id released)), (''granted_id'', PStr (ar_id granted))]
          @ iso_result node isolated))) s))"

definition release_coordinator :: "string option \<Rightarrow> pydict act" where
  "release_coordinator summary =
     seq require_coordinator (\<lambda>c s.
     let cur = cp_epoch c in
     seq (coordinator_event ''released'' (str_or summary (''Coordinator role released at epoch '' @ int_str cur @ ''.'')) cur None) (\<lambda>released.
     ret [(''status'', PStr ''OK''), (''node_id'', PStr (st_node s)), (''epoch'', PInt cur),
          (''released_id'', PStr (ar_id released))]) s)"

section \<open>Leases\<close>

definition normalize_lease_mode :: "string \<Rightarrow> string" where
  "normalize_lease_mode mode = (if mode = ''advisory'' \<or> mode = ''authoritative'' then mode else ''advisory'')"

definition lease_event ::
    "string \<Rightarrow> string \<Rightarrow> string \<Rightarrow> int option \<Rightarrow> pydict \<Rightarrow> append_result act" where
  "lease_event marker summary scope epoch payload =
     append_coord_event ''lease'' marker summary (Some scope) epoch (Some payload) None None"

definition origin_entry :: "string option \<Rightarrow> pydict" where
  "origin_entry origin = (if opt_str origin = [] then [] else [(''origin_node'', PStr (opt_str origin))])"

definition request_lease :: "string \<Rightarrow> string \<Rightarrow> int \<Rightarrow> string option \<Rightarrow> string option \<Rightarrow> pydict act" where
  "request_lease scope mode ttl summary origin =
     (let mode = normalize_lease_mode mode in
      seq (lease_event ''requested'' (str_or summary (''Lease requested for '' @ scope @ '' ('' @ mode @ '').'')) scope None
        ([(''mode'', PStr mode), (''ttl_s'', PInt ttl)] @ origin_entry origin)) (\<lambda>ev.
      ret [(''status'', PStr ''OK''), (''scope_key'', PStr scope), (''mode'', PStr mode), (''ttl_s'', PInt ttl),
           (''id'', PStr (ar_id ev))]))"

definition next_grant_seq :: "event list \<Rightarrow> string \<Rightarrow> int \<Rightarrow> int" where
  "next_grant_seq es scope epoch =
     fold (\<lambda>e highest. max highest (grant_seq e))
       (filter (\<lambda>e. is_event ''lease'' ''granted'' e \<and> ev_scope e = Some scope \<and> event_epoch e = epoch) es) 0 + 1"

definition hub_unreachable :: "string \<Rightarrow> exn \<Rightarrow> exn" where
  "hub_unreachable scope e =
     denied2 ''DENIED_LEASE_HUB_UNREACHABLE''
       [(''scope_key'', PStr scope), (''reason'', PStr (take 180 (exn_str e))),
        (''required_action'', PStr ''reconnect to the hub and retry, or use advisory mode (AP) for local-only coordination'')]"

definition authoritative_freshness :: "string \<Rightarrow> unit act" where
  "authoritative_freshness scope = (\<lambda>s.
     if \<not> st_synced s then (Inr (), s)
     else handle (seq (pull_and_reduce None) (\<lambda>_. ret ()))
       (\<lambda>e. if is_denied e then raise e else raise (hub_unreachable scope e)) s)"

definition lease_held :: "string \<Rightarrow> lease_proj \<Rightarrow> exn" where
  "lease_held scope l =
     denied2 ''DENIED_LEASE_HELD''
       [(''scope_key'', PStr scope), (''current_holder'', lp_holder l), (''epoch'', PInt (lp_epoch l)),
        (''grant_seq'', PInt (lp_grant_seq l)),
        (''required_action'', PStr ''release or revoke the held authoritative lease before granting it to another holder'')]"

definition assert_authoritative_free :: "string \<Rightarrow> pyval option \<Rightarrow> unit act" where
  "assert_authoritative_free scope allow_holder =
     seq current_leases (\<lambda>leases.
       case map_of leases scope of
         None \<Rightarrow> ret ()
       | Some l \<Rightarrow>
           if lp_state l \<noteq> Held then ret ()
           else (case allow_holder of
               Some h \<Rightarrow> if py_eq (lp_holder l) h then ret () else raise (lease_held scope l)
             | None \<Rightarrow> raise (lease_held scope l)))"

definition not_held :: "string \<Rightarrow> string \<Rightarrow> exn" where
  "not_held scope action =
     denied2 ''DENIED_LEASE_NOT_HELD'' [(''scope_key'', PStr scope), (''required_action'', PStr action)]"

text \<open>The row a grant or a renewal appends, and its report.\<close>

definition grant_payload :: "int \<Rightarrow> pyval \<Rightarrow> string \<Rightarrow> int \<Rightarrow> string \<Rightarrow> coord_proj \<Rightarrow> string \<Rightarrow> pydict" where
  "grant_payload n holder mode ttl expires c node =
     [(''grant_seq'', PInt n), (''holder'', holder), (''mode'', PStr mode), (''ttl_s'', PInt ttl),
      (''expires_at'', PStr expires)] @
     (if cp_iso c \<and> py_truthy (cp_iso_sentinel c) \<and> py_eq holder (PStr node)
      then [(''iso'', PBool True), (''iso_sentinel'', cp_iso_sentinel c)] else [])"

definition grant_result :: "string \<Rightarrow> pyval \<Rightarrow> int \<Rightarrow> int \<Rightarrow> string \<Rightarrow> int \<Rightarrow> string \<Rightarrow> string \<Rightarrow> pydict" where
  "grant_result scope holder epoch n mode ttl expires i =
     [(''status'', PStr ''OK''), (''scope_key'', PStr scope), (''holder'', holder), (''epoch'', PInt epoch),
      (''grant_seq'', PInt n), (''mode'', PStr mode), (''ttl_s'', PInt ttl), (''expires_at'', PStr expires), (''id'', PStr i)]"

definition append_grant ::
    "coord_proj \<Rightarrow> string \<Rightarrow> pyval \<Rightarrow> string \<Rightarrow> int \<Rightarrow> (int \<Rightarrow> string) \<Rightarrow> pydict act" where
  "append_grant c scope holder mode ttl summary =
     seq (gets (\<lambda>s. next_grant_seq (coord_events s) scope (cp_epoch c))) (\<lambda>n.
     seq now_iso (\<lambda>now.
     seq (expires_at now ttl) (\<lambda>expires s.
     seq (lease_event ''granted'' (summary n) scope (Some (cp_epoch c)) (grant_payload n holder mode ttl expires c (st_node s)))
       (\<lambda>ev. ret (grant_result scope holder (cp_epoch c) n mode ttl expires (ar_id ev))) s)))"

definition grant_lease ::
    "string \<Rightarrow> string \<Rightarrow> string \<Rightarrow> int \<Rightarrow> string option \<Rightarrow> int option \<Rightarrow> pydict act" where
  "grant_lease scope holder mode ttl summary assumed =
     seq require_coordinator (\<lambda>c.
     seq (fence_check assumed (cp_epoch c) (Some scope)) (\<lambda>_.
     let mode = normalize_lease_mode mode in
     seq (if mode = ''authoritative''
          then seq (authoritative_freshness scope) (\<lambda>_. assert_authoritative_free scope None) else ret ()) (\<lambda>_.
     append_grant c scope (PStr holder) mode ttl
       (\<lambda>n. str_or summary (''Lease granted to '' @ holder @ '' for '' @ scope @ '' at epoch '' @ int_str (cp_epoch c) @ ''.'')))))"

definition renew_lease :: "string \<Rightarrow> string \<Rightarrow> int \<Rightarrow> string option \<Rightarrow> int option \<Rightarrow> pydict act" where
  "renew_lease scope mode ttl summary assumed =
     seq require_coordinator (\<lambda>c.
     seq (fence_check assumed (cp_epoch c) (Some scope)) (\<lambda>_.
     let mode = normalize_lease_mode mode in
     seq (if mode = ''authoritative'' then authoritative_freshness scope else ret ()) (\<lambda>_.
     seq current_leases (\<lambda>leases s.
     (case map_of leases scope of
        None \<Rightarrow> raise (not_held scope ''grant the lease before renewing it'')
      | Some l \<Rightarrow>
          if lp_state l = Free then raise (not_held scope ''grant the lease before renewing it'')
          else
            (let holder = py_or (lp_holder l) (PStr (st_node s)) in
             seq (if mode = ''authoritative'' then assert_authoritative_free scope (Some holder) else ret ()) (\<lambda>_.
             append_grant c scope holder mode ttl
               (\<lambda>n. str_or summary (''Lease renewed for '' @ scope @ '' at epoch '' @ int_str (cp_epoch c) @ '' seq '' @ int_str n @ ''.''))))) s))))"

definition release_lease :: "string \<Rightarrow> string option \<Rightarrow> string option \<Rightarrow> pydict act" where
  "release_lease scope summary origin =
     seq current_leases (\<lambda>leases s.
     let node = str_or origin (st_node s) in
     (case map_of leases scope of
        None \<Rightarrow> raise (not_held scope ''there is no active lease on this scope to release'')
      | Some l \<Rightarrow>
          if lp_state l = Free then raise (not_held scope ''there is no active lease on this scope to release'')
          else if lp_holder l \<noteq> PStr node then
            raise (denied2 ''DENIED_NOT_HOLDER''
              [(''scope_key'', PStr scope), (''node_id'', PStr node), (''current_holder'', lp_holder l),
               (''required_action'', PStr ''only the lease holder may release it'')])
          else
            seq (lease_event ''released'' (str_or summary (''Lease released for '' @ scope @ '' at epoch '' @ int_str (lp_epoch l) @ ''.''))
                scope (Some (lp_epoch l)) ([(''grant_seq'', PInt (lp_grant_seq l))] @ origin_entry origin))
              (\<lambda>ev. ret [(''status'', PStr ''OK''), (''scope_key'', PStr scope), (''epoch'', PInt (lp_epoch l)), (''id'', PStr (ar_id ev))])) s)"

definition revoke_lease :: "string \<Rightarrow> string option \<Rightarrow> int option \<Rightarrow> pydict act" where
  "revoke_lease scope summary assumed =
     seq require_coordinator (\<lambda>c.
     seq (fence_check assumed (cp_epoch c) (Some scope)) (\<lambda>_.
     seq current_leases (\<lambda>leases.
     case map_of leases scope of
       None \<Rightarrow> raise (not_held scope ''there is no active lease on this scope to revoke'')
     | Some l \<Rightarrow>
         if lp_state l = Free then raise (not_held scope ''there is no active lease on this scope to revoke'')
         else
           seq (lease_event ''revoked'' (str_or summary (''Lease revoked for '' @ scope @ '' at epoch '' @ int_str (lp_epoch l) @ ''.''))
               scope (Some (lp_epoch l)) [(''grant_seq'', PInt (lp_grant_seq l))])
             (\<lambda>ev. ret [(''status'', PStr ''OK''), (''scope_key'', PStr scope), (''epoch'', PInt (lp_epoch l)), (''id'', PStr (ar_id ev))]))))"

text \<open>\<open>sweep_expired\<close>: one row per scope the projection reports expired, in scope order.\<close>

definition sweep_one :: "string \<times> lease_proj \<Rightarrow> pydict act" where
  "sweep_one sl = (case sl of (scope, l) \<Rightarrow>
     seq (lease_event ''expired'' (''Lease expired for '' @ scope @ '' at epoch '' @ int_str (lp_epoch l) @ '' (ttl elapsed).'')
         scope (Some (lp_epoch l)) [(''grant_seq'', PInt (lp_grant_seq l))])
       (\<lambda>ev. ret [(''scope_key'', PStr scope), (''epoch'', PInt (lp_epoch l)), (''id'', PStr (ar_id ev))]))"

definition sweep_expired :: "string option \<Rightarrow> pydict list act" where
  "sweep_expired now =
     seq (case now of Some t \<Rightarrow> ret t | None \<Rightarrow> now_iso) (\<lambda>now s.
     for_each sweep_one
       (filter (\<lambda>(scope, l). lp_state l = Expired) (sort_key fst (reduce_lease (coord_events s) (Some now)))) s)"

end
