(* ===== verification/Git_Runner.thy ===== *)
theory Git_Runner imports Coordination Py_Text begin

text \<open>
  Operations that also act on a work tree: the state is the store and a world the git runner
  owns. The runner itself is a parameter of every operation that calls it, as it is injected in
  the code; what it does to the world and what it prints is its own.
\<close>

section \<open>Programs over the store and a work tree\<close>

record git_out =
  go_code :: int
  go_stdout :: "string option"
  go_stderr :: "string option"

type_synonym 'w git = "string list \<Rightarrow> ('w, git_out) prog"
type_synonym ('w, 'a) tree_act = "(store \<times> 'w, 'a) prog"

definition on_store :: "'a act \<Rightarrow> ('w, 'a) tree_act" where
  "on_store m = (\<lambda>(s, w). case m s of (r, s') \<Rightarrow> (r, (s', w)))"

definition on_tree :: "('w, 'a) prog \<Rightarrow> ('w, 'a) tree_act" where
  "on_tree m = (\<lambda>(s, w). case m w of (r, w') \<Rightarrow> (r, (s, w')))"

text \<open>\<open>_default_git_runner\<close>: \<open>run\<close> stands for the subprocess, \<open>installed\<close> for what \<open>shutil.which\<close> finds.\<close>

definition default_git_runner :: "bool \<Rightarrow> 'w git \<Rightarrow> 'w git" where
  "default_git_runner installed run args =
     (if \<not> installed then ret \<lparr>go_code = 127, go_stdout = Some [], go_stderr = Some ''git not found''\<rparr> else run args)"

section \<open>Paths\<close>

text \<open>\<open>Path(p).name\<close> of a POSIX path: its last component, empty components and \<open>.\<close> left out.\<close>

definition path_name :: "string \<Rightarrow> string" where
  "path_name p =
     (case rev (filter (\<lambda>c. c \<noteq> [] \<and> c \<noteq> ''.'') (split_char (CHR ''/'') p)) of [] \<Rightarrow> [] | c # cs \<Rightarrow> c)"

lemma path_name_base: "CHR ''/'' \<notin> set (path_name p)"
proof (cases "rev (filter (\<lambda>c. c \<noteq> [] \<and> c \<noteq> ''.'') (split_char (CHR ''/'') p))")
  case (Cons c cs)
  then have "c \<in> set (filter (\<lambda>c. c \<noteq> [] \<and> c \<noteq> ''.'') (split_char (CHR ''/'') p))"
    unfolding rev_swap by simp
  then have "c \<in> set (split_char (CHR ''/'') p)" by simp
  with Cons split_char_free show ?thesis by (simp add: path_name_def)
qed (simp add: path_name_def)

lemma on_store_simps [simp]:
  "m s = (r, s') \<Longrightarrow> on_store m (s, w) = (r, (s', w))" "m w = (r, w') \<Longrightarrow> on_tree m (s, w) = (r, (s, w'))"
  by (simp_all add: on_store_def on_tree_def)

end
