(* ===== verification/Dispatch_Remote.thy ===== *)
theory Dispatch_Remote imports Git_Runner begin

text \<open>
  The remote-dispatch lifecycle of \<open>fleet/dispatch_remote.py\<close>: the lease-gated request, the
  target's accept, start, complete and fail, the cancellation from either side, and the
  dispatcher's apply, which needs an approval and a clean dry run. Every transition is checked
  against the fresh projection, appended to the ledger, and mirrored in the dispatch table.
\<close>

section \<open>Reading\<close>

definition terminal_states :: "string list" where
  "terminal_states = [''completed'', ''failed'', ''canceled'']"

text \<open>\<open>_LEGAL_NEXT\<close>: what may follow a projected state.\<close>

definition legal_next :: "string option \<Rightarrow> string list" where
  "legal_next state =
     (case state of
        None \<Rightarrow> [''accepted'']
      | Some q \<Rightarrow>
          (case map_of [(''requested'', [''accepted'']), (''accepted'', [''started'']),
               (''started'', [''completed'', ''failed''])] q of None \<Rightarrow> [] | Some ms \<Rightarrow> ms))"

definition current_dispatches :: "store \<Rightarrow> (string \<times> dispatch_proj) list" where
  "current_dispatches s = reduce_dispatches (coord_events s)"

definition reduced_dispatch :: "store \<Rightarrow> string \<Rightarrow> dispatch_proj option" where
  "reduced_dispatch s i = map_of (current_dispatches s) i"

definition dispatch_row_of :: "store \<Rightarrow> string \<Rightarrow> dispatch_row option" where
  "dispatch_row_of s i = find (\<lambda>r. dr_id r = i) (fd_dispatches (st_db s))"

definition row_scope :: "dispatch_row \<Rightarrow> pyval" where
  "row_scope r =
     (if opt_str (dr_payload r) = [] then PNone
      else (case json_loads (opt_str (dr_payload r)) of None \<Rightarrow> PNone | Some v \<Rightarrow> dget (dict_or_empty v) ''scope_key''))"

definition state_of_dispatch :: "store \<Rightarrow> string \<Rightarrow> string option" where
  "state_of_dispatch s i = (case reduced_dispatch s i of None \<Rightarrow> None | Some p \<Rightarrow> dp_state p)"

definition dispatch_missing :: "string \<Rightarrow> string \<Rightarrow> exn" where
  "dispatch_missing i action =
     denied1 ''DENIED_DISPATCH_NOT_FOUND'' [(''dispatch_id'', PStr i), (''required_action'', PStr action)]"

definition require_row :: "string \<Rightarrow> dispatch_row act" where
  "require_row i = (\<lambda>s.
     case dispatch_row_of s i of
       None \<Rightarrow> (Inl (dispatch_missing i ''request the dispatch first (no remote_dispatches row)''), s)
     | Some r \<Rightarrow> (Inr r, s))"

definition not_target :: "string \<Rightarrow> dispatch_row \<Rightarrow> string \<Rightarrow> string \<Rightarrow> exn" where
  "not_target i r node action =
     denied2 ''DENIED_DISPATCH_NOT_TARGET''
       [(''dispatch_id'', PStr i), (''target_node'', of_opt_str (dr_target r)), (''node_id'', PStr node),
        (''required_action'', PStr action)]"

definition target_check :: "string \<Rightarrow> string \<Rightarrow> dispatch_row \<Rightarrow> dispatch_row act" where
  "target_check i action r = (\<lambda>s.
     if dr_target r \<noteq> Some (st_node s) then (Inl (not_target i r (st_node s) action), s) else (Inr r, s))"

definition require_target_row :: "string \<Rightarrow> dispatch_row act" where
  "require_target_row i =
     seq (require_row i) (target_check i ''only the dispatch's target node may advance this transition'')"

section \<open>Requesting\<close>

definition unleased :: "string \<Rightarrow> string \<Rightarrow> lease_proj option \<Rightarrow> exn" where
  "unleased scope origin l =
     denied2 ''DENIED_DISPATCH_UNLEASED''
       [(''scope_key'', PStr scope), (''origin_node'', PStr origin),
        (''current_holder'', (case l of None \<Rightarrow> PNone | Some l \<Rightarrow> lp_holder l)),
        (''required_action'', PStr ''hold the granted lease on scope_key before dispatching'')]"

definition insert_dispatch :: "dispatch_row \<Rightarrow> unit act" where
  "insert_dispatch r = (\<lambda>s.
     if dispatch_row_of s (dr_id r) \<noteq> None
     then (Inl (PyError ''IntegrityError'' ''UNIQUE constraint failed: remote_dispatches.id''), s)
     else (Inr (), s\<lparr>st_db := (st_db s)\<lparr>fd_dispatches := fd_dispatches (st_db s) @ [r]\<rparr>\<rparr>))"

definition request_dispatch ::
    "string \<Rightarrow> string \<Rightarrow> string \<Rightarrow> string list option \<Rightarrow> string option \<Rightarrow> string option \<Rightarrow> pydict act" where
  "request_dispatch target task scope required origin_node summary = (\<lambda>s.
     let origin = str_or origin_node (st_node s) in
     seq current_leases (\<lambda>leases.
     let active = map_of leases scope in
     seq (guard (case active of None \<Rightarrow> False | Some l \<Rightarrow> lp_state l = Held \<and> lp_holder l = PStr origin) (unleased scope origin active)) (\<lambda>_.
     seq (coord_id ''rd'' (st_node s)) (\<lambda>i.
     let leases = (case required of None \<Rightarrow> [scope] | Some ls \<Rightarrow> ls) in
     seq (append_coord_event ''dispatch'' ''requested''
         (str_or summary (''Dispatch requested to '' @ target @ '' for '' @ scope @ ''.'')) (Some scope) None
         (Some [(''dispatch_id'', PStr i), (''target_node'', PStr target), (''task'', PStr task),
                (''scope_key'', PStr scope), (''origin_node'', PStr origin)]) None None) (\<lambda>ev.
     seq (fleet_write (insert_dispatch
         \<lparr>dr_id = i, dr_created = Some (ar_created ev), dr_target = Some target,
          dr_leases = Some (json_dumps (PList (map PStr leases))), dr_status = Some ''requested'',
          dr_payload = Some (json_dumps (PDict [(''task'', PStr task), (''scope_key'', PStr scope), (''origin_node'', PStr origin)]))\<rparr>)) (\<lambda>_.
     ret [(''status'', PStr ''OK''), (''dispatch_id'', PStr i), (''target_node'', PStr target), (''scope_key'', PStr scope),
          (''task'', PStr task), (''origin_node'', PStr origin), (''required_leases'', PList (map PStr leases)),
          (''state'', PStr ''requested''), (''coord_event_id'', PStr (ar_id ev))]))))) s)"

section \<open>Advancing\<close>

definition illegal_transition :: "string \<Rightarrow> string option \<Rightarrow> string \<Rightarrow> exn" where
  "illegal_transition i state marker =
     denied2 ''DENIED_DISPATCH_STATE''
       [(''dispatch_id'', PStr i), (''current_state'', of_opt_str state), (''attempted'', PStr marker),
        (''allowed'', PList (map PStr (sort (legal_next state)))),
        (''required_action'', PStr (''a dispatch in state '' @ py_repr (of_opt_str state) @ '' cannot transition to '' @ py_repr (PStr marker)))]"

text \<open>
  The scope a transition is appended under is whatever the row's payload holds. A value that is
  not a text never passes the record gate; were it let through, the engine could not bind it.
\<close>

definition append_in_scope :: "string \<Rightarrow> string \<Rightarrow> pyval \<Rightarrow> pydict \<Rightarrow> append_result act" where
  "append_in_scope marker summary scope payload =
     (case scope of
        PNone \<Rightarrow> append_coord_event ''dispatch'' marker summary None None (Some payload) None None
      | PStr q \<Rightarrow> append_coord_event ''dispatch'' marker summary (Some q) None (Some payload) None None
      | v \<Rightarrow> (\<lambda>s. lift_result
          (case validate_record (env_jsonschema (st_env s)) ''coord_event''
             (filter (\<lambda>(k, v). v \<noteq> PNone \<and> v \<noteq> PStr [])
               [(''node_id'', PStr (st_node s)), (''event_kind'', PStr ''dispatch''), (''marker'', PStr marker),
                (''scope_key'', v), (''payload'', PDict payload), (''summary'', PStr summary)]) of
             Inl e \<Rightarrow> Inl e
           | Inr _ \<Rightarrow> Inl (PyError ''InterfaceError'' ''unsupported type'')) s))"

definition set_dispatch_status :: "string \<Rightarrow> string \<Rightarrow> unit act" where
  "set_dispatch_status i marker = modify (\<lambda>s. s\<lparr>st_db := (st_db s)\<lparr>fd_dispatches :=
     map (\<lambda>r. if dr_id r = i then r\<lparr>dr_status := Some marker\<rparr> else r) (fd_dispatches (st_db s))\<rparr>\<rparr>)"

definition advance :: "string \<Rightarrow> dispatch_row \<Rightarrow> string \<Rightarrow> string \<Rightarrow> pydict \<Rightarrow> bool \<Rightarrow> pydict act" where
  "advance i row marker summary extra from_any = (\<lambda>s.
     let state = state_of_dispatch s i;
         legal = (from_any \<and> \<not> (case state of None \<Rightarrow> False | Some q \<Rightarrow> q \<in> set terminal_states))
     in seq (guard (legal \<or> marker \<in> set (legal_next state)) (illegal_transition i state marker)) (\<lambda>_.
        seq (append_in_scope marker summary (row_scope row) (dict_merge [(''dispatch_id'', PStr i)] extra)) (\<lambda>ev.
        seq (fleet_write (set_dispatch_status i marker)) (\<lambda>_.
        ret (dict_merge [(''status'', PStr ''OK''), (''dispatch_id'', PStr i), (''state'', PStr marker),
                         (''coord_event_id'', PStr (ar_id ev))] extra)))) s)"

definition accept_dispatch :: "string \<Rightarrow> string option \<Rightarrow> pydict act" where
  "accept_dispatch i summary =
     seq (seq (require_row i) (target_check i ''only the dispatch's target node may accept it'')) (\<lambda>row.
     advance i row ''accepted'' (str_or summary (''Dispatch '' @ i @ '' accepted.'')) [] False)"

definition start_dispatch :: "string \<Rightarrow> string option \<Rightarrow> pydict act" where
  "start_dispatch i summary =
     seq (require_target_row i) (\<lambda>row. advance i row ''started'' (str_or summary (''Dispatch '' @ i @ '' started.'')) [] False)"

definition entry_if :: "string \<Rightarrow> string option \<Rightarrow> pydict" where
  "entry_if k v = (if opt_str v = [] then [] else [(k, PStr (opt_str v))])"

definition complete_dispatch ::
    "string \<Rightarrow> string option \<Rightarrow> string option \<Rightarrow> string option \<Rightarrow> string option \<Rightarrow> pydict act" where
  "complete_dispatch i artifact sha branch summary =
     seq (require_target_row i) (\<lambda>row.
     advance i row ''completed'' (str_or summary (''Dispatch '' @ i @ '' completed.''))
       ((if opt_str artifact = [] then [] else [(''artifact'', PStr (path_name (opt_str artifact)))]) @
        entry_if ''sha'' sha @ entry_if ''branch'' branch) False)"

definition fail_dispatch :: "string \<Rightarrow> string \<Rightarrow> string option \<Rightarrow> pydict act" where
  "fail_dispatch i reason summary =
     seq (require_target_row i) (\<lambda>row.
     advance i row ''failed'' (str_or summary (''Dispatch '' @ i @ '' failed.'')) [(''reason'', PStr (take 180 reason))] False)"

definition cancel_dispatch :: "string \<Rightarrow> string option \<Rightarrow> string option \<Rightarrow> pydict act" where
  "cancel_dispatch i reason summary =
     seq (require_row i) (\<lambda>row s.
     let state = state_of_dispatch s i in
     seq (guard (\<not> (case state of None \<Rightarrow> False | Some q \<Rightarrow> q \<in> set terminal_states))
         (denied2 ''DENIED_DISPATCH_STATE''
           [(''dispatch_id'', PStr i), (''current_state'', of_opt_str state), (''attempted'', PStr ''canceled''),
            (''required_action'', PStr ''a terminal dispatch (completed/failed/canceled) cannot be canceled'')])) (\<lambda>_.
     advance i row ''canceled'' (str_or summary (''Dispatch '' @ i @ '' canceled.''))
       (if opt_str reason = [] then [] else [(''reason'', PStr (take 180 (opt_str reason)))]) True) s)"

section \<open>Applying\<close>

definition unapproved :: "string \<Rightarrow> string \<Rightarrow> pyval \<Rightarrow> exn" where
  "unapproved i approval state =
     denied2 ''DENIED_DISPATCH_APPLY_UNAPPROVED''
       [(''dispatch_id'', PStr i), (''approval_id'', PStr approval), (''approval_state'', state),
        (''required_action'', PStr ''apply into the active worktree needs an APPROVED approval (C4 state 'approved')'')]"

definition apply_failed :: "string \<Rightarrow> string \<Rightarrow> git_out \<Rightarrow> string \<Rightarrow> string \<Rightarrow> exn" where
  "apply_failed i stage out fallback action =
     denied2 ''DENIED_DISPATCH_APPLY_FAILED''
       [(''dispatch_id'', PStr i), (''stage'', PStr stage),
        (''reason'', PStr (take 180 (str_or (go_stderr out) (str_or (go_stdout out) fallback)))),
        (''required_action'', PStr action)]"

text \<open>\<open>lookup\<close> is the injected approvals lookup, when it is callable.\<close>

definition apply_dispatch ::
    "'w git \<Rightarrow> (string \<Rightarrow> pyval) option \<Rightarrow> string \<Rightarrow> string \<Rightarrow> string \<Rightarrow> string option \<Rightarrow> ('w, pydict) tree_act" where
  "apply_dispatch git lookup i path approval summary =
     (let approved = dget (dict_or_empty (case lookup of None \<Rightarrow> PNone | Some f \<Rightarrow> f approval)) ''state'' in
      seq (guard (approved = PStr ''approved'') (unapproved i approval approved)) (\<lambda>_.
      seq (on_tree (git [''apply'', ''--check'', ''--'', path])) (\<lambda>check.
      seq (guard (go_code check = 0) (apply_failed i ''check'' check ''git apply --check failed''
          ''the returned patch does not apply cleanly onto the local tree; the tree was NOT modified'')) (\<lambda>_.
      seq (on_tree (git [''apply'', ''--'', path])) (\<lambda>applied.
      seq (guard (go_code applied = 0) (apply_failed i ''apply'' applied ''git apply failed''
          ''git apply failed after a clean check; inspect the tree state'')) (\<lambda>_.
      seq (on_store (append_coord_event ''resolution'' ''recorded''
          (str_or summary (''Dispatch '' @ i @ '' patch applied to worktree ('' @ approval @ '').'')) None None
          (Some [(''dispatch_id'', PStr i), (''applied'', PBool True), (''artifact'', PStr (path_name path)),
                 (''approval_id'', PStr approval)]) None None)) (\<lambda>ev.
      ret [(''status'', PStr ''OK''), (''dispatch_id'', PStr i), (''applied'', PBool True), (''approval_id'', PStr approval),
           (''resolution_event_id'', PStr (ar_id ev))])))))))"

section \<open>Listing\<close>

definition list_dispatches :: "store \<Rightarrow> dispatch_proj list \<times> nat" where
  "list_dispatches s =
     (let items = sort_key (\<lambda>p. (opt_str (dp_created_at p), dp_dispatch_id p)) (map snd (current_dispatches s))
      in (items, length items))"

definition status_dispatch :: "string \<Rightarrow> dispatch_proj act" where
  "status_dispatch i = (\<lambda>s.
     case reduced_dispatch s i of
       None \<Rightarrow> (Inl (dispatch_missing i ''check the dispatch id with list''), s)
     | Some p \<Rightarrow> (Inr p, s))"

definition sha256_text :: "fleet_env \<Rightarrow> string \<Rightarrow> string" where
  "sha256_text env t = env_sha256 env t"

end
