(* ===== verification/Handoff.thy ===== *)
theory Handoff imports Dispatch_Remote begin

text \<open>
  The shadow handoff of \<open>fleet/coordination.py\<close> (\<open>HandoffEngine\<close>): quiesce, snapshot, WIP commit
  or patch artifact, push with confirmation, divergence checks, release and completion, each step
  recorded in the ledger, and the abort that records the failing step and never raises. The git
  runner and the two file operations of the artifact are fields of the engine.
\<close>

section \<open>Paths\<close>

text \<open>\<open>str(Path(p))\<close> of a POSIX path\<close>

definition path_text :: "string \<Rightarrow> string" where
  "path_text p =
     (let root = (if take 2 p = ''//'' \<and> take 3 p \<noteq> ''///'' then ''//'' else if take 1 p = ''/'' then ''/'' else []);
          parts = filter (\<lambda>c. c \<noteq> [] \<and> c \<noteq> ''.'') (split_char (CHR ''/'') p)
      in if root = [] \<and> parts = [] then ''.'' else root @ join ''/'' parts)"

text \<open>\<open>str(Path(d) / name)\<close> of a normal directory text and a plain name\<close>

definition path_join :: "string \<Rightarrow> string \<Rightarrow> string" where
  "path_join d name = (if d = ''.'' then name else if ends_with ''/'' d then d @ name else d @ ''/'' @ name)"

section \<open>The engine and its record\<close>

record 'w handoff_engine =
  he_git :: "'w git"
  he_mkdir :: "string \<Rightarrow> ('w, unit) prog"
  he_write :: "string \<Rightarrow> string \<Rightarrow> ('w, unit) prog"
  he_hub :: "string option"
  he_wip :: bool
  he_push :: bool
  he_artifact_dir :: "string option"

record handoff =
  ho_status :: string
  ho_scope :: string
  ho_steps :: "string list"
  ho_dirty :: "bool option"
  ho_head :: "string option"
  ho_artifact :: "string option"
  ho_wip :: "string option"
  ho_pushed :: "string option"
  ho_would_push :: "bool option"
  ho_divergences :: "string list"
  ho_started_id :: "string option"
  ho_pushed_id :: "string option"
  ho_released_id :: "string option"
  ho_completed_id :: "string option"
  ho_current :: string
  ho_failed_step :: "string option"
  ho_error :: "string option"
  ho_aborted_id :: "string option"

definition new_handoff :: "string \<Rightarrow> handoff" where
  "new_handoff scope =
     \<lparr>ho_status = ''OK'', ho_scope = scope, ho_steps = [], ho_dirty = None, ho_head = None, ho_artifact = None,
      ho_wip = None, ho_pushed = None, ho_would_push = None, ho_divergences = [], ho_started_id = None,
      ho_pushed_id = None, ho_released_id = None, ho_completed_id = None, ho_current = ''started'',
      ho_failed_step = None, ho_error = None, ho_aborted_id = None\<rparr>"

type_synonym ('w, 'a) hand = "(handoff \<times> store \<times> 'w, 'a) prog"

definition on_run :: "('w, 'a) tree_act \<Rightarrow> ('w, 'a) hand" where
  "on_run m = (\<lambda>(h, sw). case m sw of (r, sw') \<Rightarrow> (r, (h, sw')))"

definition jot :: "(handoff \<Rightarrow> handoff) \<Rightarrow> ('w, unit) hand" where
  "jot f = (\<lambda>(h, sw). (Inr (), (f h, sw)))"

definition noted :: "(handoff \<Rightarrow> 'a) \<Rightarrow> ('w, 'a) hand" where
  "noted f = (\<lambda>(h, sw). (Inr (f h), (h, sw)))"

definition entering :: "string \<Rightarrow> ('w, unit) hand" where
  "entering name = jot (\<lambda>h. h\<lparr>ho_current := name\<rparr>)"

definition passed :: "string \<Rightarrow> ('w, unit) hand" where
  "passed name = jot (\<lambda>h. h\<lparr>ho_steps := ho_steps h @ [name]\<rparr>)"

definition git_text :: "'w handoff_engine \<Rightarrow> string list \<Rightarrow> ('w, int \<times> string) tree_act" where
  "git_text e args = seq (on_tree (he_git e args)) (\<lambda>p. ret (go_code p, py_strip (opt_str (go_stdout p))))"

section \<open>The parts\<close>

definition handoff_event :: "string \<Rightarrow> string \<Rightarrow> string \<Rightarrow> pydict option \<Rightarrow> append_result act" where
  "handoff_event marker summary scope payload = append_coord_event ''handoff'' marker summary (Some scope) None payload None None"

definition record_divergence :: "string \<Rightarrow> string \<Rightarrow> pydict \<Rightarrow> append_result act" where
  "record_divergence reason scope detail =
     append_coord_event ''divergence'' ''detected'' (''Handoff divergence recorded ('' @ reason @ ''); not blocking (shadow).'')
       (Some scope) None (Some (dict_merge [(''would_block'', PStr reason), (''scope_key'', PStr scope)] detail)) None None"

definition write_patch_artifact :: "'w handoff_engine \<Rightarrow> ('w, string option) tree_act" where
  "write_patch_artifact e =
     (let dir = opt_str (he_artifact_dir e) in
      if dir = [] then ret None
      else seq (on_tree (he_git e [''diff'', ''HEAD''])) (\<lambda>p.
           seq (on_tree (he_mkdir e (path_text dir))) (\<lambda>_.
           seq (on_store next_clock) (\<lambda>t.
           let path = path_join (path_text dir) (''handoff-'' @ utc_stamp t @ fixed 6 (t mod 1000000) @ ''.patch'') in
           seq (on_tree (he_write e path (opt_str (go_stdout p)))) (\<lambda>_. ret (Some path))))))"

definition advertised :: "string \<Rightarrow> string list" where
  "advertised text =
     map (\<lambda>line. case split_words (py_strip (hd (split_char (CHR 0x09) line))) of [] \<Rightarrow> [] | sha # _ \<Rightarrow> sha) (splitlines text)"

definition push_and_confirm :: "'w handoff_engine \<Rightarrow> ('w, string option) tree_act" where
  "push_and_confirm e =
     seq (git_text e [''rev-parse'', ''HEAD'']) (\<lambda>(head_rc, head).
     if head_rc \<noteq> 0 \<or> head = [] then ret None
     else seq (git_text e [''push'', opt_str (he_hub e), ''HEAD'']) (\<lambda>(push_rc, _).
       if push_rc \<noteq> 0 then ret None
       else seq (git_text e [''ls-remote'', opt_str (he_hub e)]) (\<lambda>(ls_rc, out).
         if ls_rc \<noteq> 0 then ret None
         else ret (if head \<in> set (advertised out) then Some head else None))))"

definition prior_watermark_sha :: "store \<Rightarrow> string \<Rightarrow> pyval option" where
  "prior_watermark_sha s scope =
     fold (\<lambda>e latest. let v = dget (ev_payload_dict e) ''watermark_sha'' in if py_truthy v then Some v else latest)
       (filter (\<lambda>e. is_event ''lease'' ''granted'' e \<and> ev_scope e = Some scope) (coord_events s)) None"

definition diverged_on :: "string \<Rightarrow> string \<Rightarrow> pydict \<Rightarrow> ('w, unit) hand" where
  "diverged_on reason scope detail =
     seq (on_run (on_store (record_divergence reason scope detail))) (\<lambda>_.
     jot (\<lambda>h. h\<lparr>ho_divergences := ho_divergences h @ [reason]\<rparr>))"

definition divergence_checks :: "string \<Rightarrow> bool option \<Rightarrow> string option \<Rightarrow> ('w, unit) hand" where
  "divergence_checks scope dirty head =
     seq (if dirty = Some True
          then seq (on_run (on_store current_leases)) (\<lambda>leases.
               seq (on_run (on_store (gets st_node))) (\<lambda>node.
               let holder = (case map_of leases scope of None \<Rightarrow> PNone | Some l \<Rightarrow> lp_holder l) in
               if holder \<noteq> PNone \<and> \<not> py_eq holder (PStr node)
               then diverged_on ''DIRTY_NON_HOLDER'' scope [(''holder'', holder)] else ret ()))
          else ret ()) (\<lambda>_.
     seq (on_run (on_store (gets (\<lambda>s. prior_watermark_sha s scope)))) (\<lambda>watermark.
     case (watermark, head) of
       (Some v, Some sha) \<Rightarrow>
         if \<not> py_eq v (PStr sha)
         then diverged_on ''HEAD_NOT_WATERMARK'' scope [(''head_sha'', PStr sha), (''watermark_sha'', v)] else ret ()
     | _ \<Rightarrow> ret ()))"

definition release_best_effort :: "string \<Rightarrow> unit act" where
  "release_best_effort scope =
     handle (seq (release_lease scope (Some (''Handoff release for '' @ scope @ ''.'')) None) (\<lambda>_. ret ()))
       (\<lambda>e. if is_denied e then ret () else raise e)"

section \<open>The steps\<close>

definition started_step :: "string \<Rightarrow> ('w, unit) hand" where
  "started_step scope =
     seq (on_run (on_store (handoff_event ''started'' (''Shadow handoff started for '' @ scope @ ''.'') scope None))) (\<lambda>a.
     seq (jot (\<lambda>h. h\<lparr>ho_started_id := Some (ar_id a)\<rparr>)) (\<lambda>_. passed ''started''))"

definition quiesce_step :: "('w, unit) tree_act option \<Rightarrow> ('w, unit) hand" where
  "quiesce_step quiesce =
     seq (entering ''quiesce'') (\<lambda>_. seq (case quiesce of None \<Rightarrow> ret () | Some q \<Rightarrow> on_run q) (\<lambda>_. passed ''quiesce''))"

definition snapshot_step :: "'w handoff_engine \<Rightarrow> ('w, unit) hand" where
  "snapshot_step e =
     seq (entering ''snapshot'') (\<lambda>_.
     seq (on_run (git_text e [''status'', ''--porcelain''])) (\<lambda>(status_rc, status_out).
     seq (on_run (git_text e [''rev-parse'', ''HEAD''])) (\<lambda>(head_rc, head).
     seq (jot (\<lambda>h. h\<lparr>ho_dirty := (if status_rc = 0 then Some (status_out \<noteq> []) else None),
                     ho_head := (if head_rc = 0 then Some head else None)\<rparr>)) (\<lambda>_. passed ''snapshot''))))"

definition wip_step :: "'w handoff_engine \<Rightarrow> string \<Rightarrow> ('w, unit) hand" where
  "wip_step e scope =
     seq (entering ''wip'') (\<lambda>_.
     if he_wip e then
       seq (on_run (git_text e [''add'', ''-A''])) (\<lambda>_.
       seq (on_run (git_text e [''commit'', ''-m'', ''kz-wip: shadow handoff '' @ scope])) (\<lambda>_.
       seq (on_run (git_text e [''rev-parse'', ''HEAD''])) (\<lambda>(rc, sha).
       seq (jot (\<lambda>h. h\<lparr>ho_wip := (if rc = 0 then Some sha else None)\<rparr>)) (\<lambda>_. passed ''wip-commit''))))
     else
       seq (on_run (write_patch_artifact e)) (\<lambda>artifact.
       seq (jot (\<lambda>h. h\<lparr>ho_artifact := artifact\<rparr>)) (\<lambda>_. passed ''wip-artifact'')))"

definition push_step :: "'w handoff_engine \<Rightarrow> string \<Rightarrow> ('w, unit) hand" where
  "push_step e scope =
     seq (entering ''push'') (\<lambda>_.
     if he_push e \<and> opt_str (he_hub e) \<noteq> [] then
       seq (on_run (push_and_confirm e)) (\<lambda>sha.
       case sha of
         Some sha \<Rightarrow>
           seq (on_run (on_store (handoff_event ''pushed'' (''Shadow handoff pushed '' @ scope @ '' to hub.'') scope
             (Some [(''sha'', PStr sha)])))) (\<lambda>a.
           seq (jot (\<lambda>h. h\<lparr>ho_pushed := Some sha, ho_pushed_id := Some (ar_id a)\<rparr>)) (\<lambda>_. passed ''pushed''))
       | None \<Rightarrow> seq (diverged_on ''PUSH_NOT_CONFIRMED'' scope []) (\<lambda>_. passed ''push-unconfirmed''))
     else
       seq (jot (\<lambda>h. h\<lparr>ho_would_push := Some (opt_str (he_hub e) \<noteq> [])\<rparr>)) (\<lambda>_. passed ''would-push''))"

definition divergence_step :: "string \<Rightarrow> ('w, unit) hand" where
  "divergence_step scope =
     seq (entering ''divergence'') (\<lambda>_.
     seq (noted (\<lambda>h. (ho_dirty h, ho_head h))) (\<lambda>(dirty, head).
     seq (divergence_checks scope dirty head) (\<lambda>_. passed ''divergence-check'')))"

definition would_push_entry :: "bool option \<Rightarrow> pydict" where
  "would_push_entry w =
     (case w of None \<Rightarrow> []
      | Some b \<Rightarrow> [(''would_push'', PDict [(''enabled'', PBool b), (''reason'', PStr ''push not enabled (shadow default)'')])])"

definition release_step :: "string \<Rightarrow> ('w, unit) hand" where
  "release_step scope =
     seq (entering ''release'') (\<lambda>_.
     seq (noted (\<lambda>h. would_push_entry (ho_would_push h))) (\<lambda>payload.
     seq (on_run (on_store (release_best_effort scope))) (\<lambda>_.
     seq (on_run (on_store (handoff_event ''released'' (''Shadow handoff released lease for '' @ scope @ ''.'') scope
       (if payload = [] then None else Some payload)))) (\<lambda>a.
     seq (jot (\<lambda>h. h\<lparr>ho_released_id := Some (ar_id a)\<rparr>)) (\<lambda>_. passed ''released'')))))"

definition completed_step :: "string \<Rightarrow> ('w, unit) hand" where
  "completed_step scope =
     seq (entering ''completed'') (\<lambda>_.
     seq (noted (\<lambda>h. [(''shadow'', PBool True)] @
         (if opt_str (ho_artifact h) = [] then [] else [(''artifact'', PStr (path_name (opt_str (ho_artifact h))))]) @
         entry_if ''sha'' (ho_pushed h))) (\<lambda>payload.
     seq (on_run (on_store (handoff_event ''completed'' (''Shadow handoff completed for '' @ scope @ ''.'') scope (Some payload)))) (\<lambda>a.
     seq (jot (\<lambda>h. h\<lparr>ho_completed_id := Some (ar_id a)\<rparr>)) (\<lambda>_. passed ''completed''))))"

definition handoff_steps :: "'w handoff_engine \<Rightarrow> ('w, unit) tree_act option \<Rightarrow> string \<Rightarrow> ('w, unit) hand" where
  "handoff_steps e quiesce scope =
     seq (started_step scope) (\<lambda>_. seq (quiesce_step quiesce) (\<lambda>_. seq (snapshot_step e) (\<lambda>_. seq (wip_step e scope) (\<lambda>_.
     seq (push_step e scope) (\<lambda>_. seq (divergence_step scope) (\<lambda>_. seq (release_step scope) (\<lambda>_. completed_step scope)))))))"

text \<open>\<open>shadow_handoff\<close>: it has no error result; whatever a step raises ends in the aborted record.\<close>

definition shadow_handoff ::
    "'w handoff_engine \<Rightarrow> ('w, unit) tree_act option \<Rightarrow> string \<Rightarrow> store \<times> 'w \<Rightarrow> handoff \<times> store \<times> 'w" where
  "shadow_handoff e quiesce scope sw =
     (case handoff_steps e quiesce scope (new_handoff scope, sw) of
        (Inr _, res) \<Rightarrow> res
      | (Inl err, (h, s, w)) \<Rightarrow>
          (let h' = h\<lparr>ho_status := ''ABORTED'', ho_failed_step := Some (ho_current h), ho_error := Some (exn_str err)\<rparr> in
           case handoff_event ''aborted'' (''Shadow handoff aborted at '' @ ho_current h @ '' for '' @ scope @ ''.'') scope
               (Some [(''failed_step'', PStr (ho_current h)), (''reason'', PStr (take 180 (exn_str err)))]) s of
             (Inl _, s') \<Rightarrow> (h', s', w)
           | (Inr a, s') \<Rightarrow> (h'\<lparr>ho_aborted_id := Some (ar_id a)\<rparr>, s', w)))"

end
