(* ===== verification/Git_Transport.thy ===== *)
theory Git_Transport imports Handoff begin

text \<open>
  Branch names and transport safety of \<open>fleet/mirror.py\<close>: the per-node branch name, the test for a
  local path, the host of an http(s) URL, and the gate that lets plain http(s) git through only
  over the tailnet. Texts are ASCII; what \<open>urllib\<close> checks inside a bracketed host differs between
  the patch releases of the interpreter, so it is a field of the network record.
\<close>

section \<open>Texts\<close>

definition ref_char :: "char \<Rightarrow> bool" where
  "ref_char c \<longleftrightarrow> is_alnum c \<or> c \<in> set ''._-''"

text \<open>\<open>s.partition(c)\<close>: the text before the first \<open>c\<close>, whether there is one, and the text after it.\<close>

definition partition_at :: "char \<Rightarrow> string \<Rightarrow> string \<times> bool \<times> string" where
  "partition_at c s =
     (let a = takeWhile (\<lambda>x. x \<noteq> c) s; b = dropWhile (\<lambda>x. x \<noteq> c) s in (a, b \<noteq> [], drop 1 b))"

text \<open>\<open>s.rpartition('@')[2]\<close>\<close>

definition after_last :: "char \<Rightarrow> string \<Rightarrow> string" where
  "after_last c s = rev (takeWhile (\<lambda>x. x \<noteq> c) (rev s))"

section \<open>Branch names\<close>

definition bad_task :: "string \<Rightarrow> bool" where
  "bad_task raw \<longleftrightarrow>
     (let stripped = py_strip raw in
      stripped = [] \<or> list_ex is_space raw \<or> contains ''..'' stripped \<or> CHR ''/'' \<in> set stripped \<or>
      CHR 0x5C \<in> set stripped \<or> starts_with ''-'' stripped)"

definition ref_safe :: "string \<Rightarrow> bool" where
  "ref_safe node \<longleftrightarrow>
     (case node of [] \<Rightarrow> False | c # cs \<Rightarrow> is_alnum c \<and> list_all ref_char cs) \<and>
     \<not> contains ''..'' node \<and> \<not> ends_with ''.'' node \<and> \<not> ends_with ''.lock'' node"

definition text_of :: "pyval \<Rightarrow> string" where
  "text_of v = (case v of PStr s \<Rightarrow> s | _ \<Rightarrow> [])"

definition node_branch :: "pyval \<Rightarrow> pyval \<Rightarrow> int option \<Rightarrow> exn + string" where
  "node_branch task node_id worktree =
     (let raw = text_of task; node = py_strip (text_of node_id) in
      if bad_task raw then
        Inl (denied2 ''DENIED_MIRROR_BRANCH_INVALID''
          [(''task'', PStr raw), (''required_action'', PStr (''task must be a single non-empty token with no spaces, slashes, or '..'' @ [CHR 0x27]))])
      else if \<not> ref_safe node then
        Inl (denied2 ''DENIED_MIRROR_BRANCH_INVALID''
          [(''node_id'', node_id), (''required_action'', PStr ''node_id must be a single non-empty ref-safe token'')])
      else Inr (''kz/'' @ py_strip raw @ ''/'' @ node @ (case worktree of None \<Rightarrow> [] | Some n \<Rightarrow> ''/w'' @ int_str n)))"

definition branch_scope_key :: "string \<Rightarrow> string \<Rightarrow> string" where
  "branch_scope_key project branch = project @ ''/'' @ branch"

section \<open>Transport\<close>

record git_net =
  gn_env :: "(string \<times> string) list"
  gn_on_tailnet :: bool
  gn_bracket_ok :: "string \<Rightarrow> bool"

definition tailnet_suffix :: "(string \<times> string) list \<Rightarrow> string" where
  "tailnet_suffix env = str_or (map_of env ''KAIZEN_TAILNET_SUFFIX'') ''.ts.net''"

definition find_char_int :: "char \<Rightarrow> string \<Rightarrow> int" where
  "find_char_int c s = (if c \<in> set s then int (length (takeWhile (\<lambda>x. x \<noteq> c) s)) else - 1)"

definition looks_local_path :: "string \<Rightarrow> bool" where
  "looks_local_path remote =
     (let t = py_strip remote; colon = find_char_int (CHR '':'') t; slash = find_char_int (CHR ''/'') t in
      if t = [] then False
      else if starts_with ''file://'' (lower t) then True
      else if length t \<ge> 3 \<and> t ! 1 = CHR '':'' \<and> is_alpha (t ! 0) \<and> t ! 2 \<in> {CHR 0x5C, CHR ''/''} then True
      else if starts_with ''/'' t then True
      else if contains ''://'' t then False
      else if CHR ''@'' \<in> set t \<and> colon \<noteq> - 1 \<and> (slash = - 1 \<or> colon < slash) then False
      else True)"

text \<open>\<open>_SCP_SSH_REMOTE.fullmatch\<close>: \<open>user@host:path\<close>, the host a name or a bracketed address.\<close>

definition scp_ssh_remote :: "string \<Rightarrow> bool" where
  "scp_ssh_remote t =
     (case partition_at (CHR ''@'') t of (user, at, rest) \<Rightarrow>
        user \<noteq> [] \<and> list_all ref_char user \<and> at \<and>
        (let path_ok = (\<lambda>p. p \<noteq> [] \<and> list_all (\<lambda>c. \<not> is_space c) p) in
         if starts_with ''['' rest then
           (case partition_at (CHR '']'') (drop 1 rest) of (host, closed, tail) \<Rightarrow>
              closed \<and> host \<noteq> [] \<and> list_all (\<lambda>c. c \<in> set ''0123456789ABCDEFabcdef:.'') host \<and>
              starts_with '':'' tail \<and> path_ok (drop 1 tail))
         else
           (case partition_at (CHR '':'') rest of (host, colon, path) \<Rightarrow>
              colon \<and> host \<noteq> [] \<and> list_all ref_char host \<and> path_ok path)))"

text \<open>
  \<open>urlsplit(url.strip())\<close>, its scheme and its host: control characters and blanks go from the
  left, tabs and line ends from everywhere; the scheme is a letter and scheme characters before the
  first colon; the network location ends at the first of \<open>/?#\<close>.
\<close>

definition scheme_char :: "char \<Rightarrow> bool" where
  "scheme_char c \<longleftrightarrow> is_alnum c \<or> c \<in> set ''+-.''"

definition url_parts :: "string \<Rightarrow> string \<times> string" where
  "url_parts url =
     (let u = filter (\<lambda>c. c \<notin> {CHR 0x09, CHR 0x0A, CHR 0x0D}) (dropWhile (\<lambda>c. (of_char c :: nat) \<le> 32) url)
      in case partition_at (CHR '':'') u of (a, colon, rest) \<Rightarrow>
           if colon \<and> a \<noteq> [] \<and> is_alpha (hd a) \<and> list_all scheme_char a then (lower a, rest) else ([], u))"

definition net_location :: "string \<Rightarrow> string" where
  "net_location rest = (if starts_with ''//'' rest then takeWhile (\<lambda>c. c \<notin> set ''/?#'') (drop 2 rest) else [])"

definition host_of :: "string \<Rightarrow> string" where
  "host_of netloc =
     (let info = after_last (CHR ''@'') netloc in
      case partition_at (CHR ''['') info of (_, bracket, inner) \<Rightarrow>
        (let host = (if bracket then fst (partition_at (CHR '']'') inner) else fst (partition_at (CHR '':'') info)) in
         case partition_at (CHR ''%'') host of (name, zoned, zone) \<Rightarrow> lower name @ (if zoned then ''%'' else []) @ zone))"

definition url_host :: "(string \<Rightarrow> bool) \<Rightarrow> string \<Rightarrow> string" where
  "url_host bracket_ok url =
     (case url_parts (py_strip url) of (scheme, rest) \<Rightarrow>
        (let netloc = net_location rest; opened = CHR ''['' \<in> set netloc; closed = CHR '']'' \<in> set netloc in
         if opened \<noteq> closed \<or> opened \<and> closed \<and> \<not> bracket_ok netloc then []
         else if scheme \<noteq> ''http'' \<and> scheme \<noteq> ''https'' then []
         else lower (host_of netloc)))"

definition transport_denied :: "string \<Rightarrow> string \<Rightarrow> exn" where
  "transport_denied remote action =
     denied2 ''DENIED_MIRROR_TRANSPORT'' [(''remote'', PStr remote), (''required_action'', PStr action)]"

definition assert_remote_transport_safe :: "git_net \<Rightarrow> string \<Rightarrow> exn + unit" where
  "assert_remote_transport_safe net remote =
     (let t = py_strip remote; lowered = lower t in
      if t = [] then Inl (transport_denied remote ''provide a local path, ssh remote, or a tailnet http(s) remote'')
      else if looks_local_path t then Inr ()
      else if starts_with ''ssh://'' lowered \<or> scp_ssh_remote t then Inr ()
      else if starts_with ''http://'' lowered \<or> starts_with ''https://'' lowered then
        (let suffix = tailnet_suffix (gn_env net); host = url_host (gn_bracket_ok net) t in
         if ends_with (lower suffix) host \<and> gn_on_tailnet net then Inr ()
         else Inl (denied2 ''DENIED_MIRROR_TRANSPORT''
           [(''remote'', PStr remote), (''host'', PStr host), (''tailnet_suffix'', PStr suffix),
            (''on_tailnet'', PBool (gn_on_tailnet net)),
            (''required_action'', PStr ''plain http(s) git is allowed ONLY over the tailnet (host ends in the tailnet suffix AND on_tailnet()); use ssh or a local path otherwise'')]))
      else Inl (transport_denied remote ''use a local path, ssh remote, or a tailnet http(s) remote''))"

end
