(* ===== verification/Mirror.thy ===== *)
theory Mirror imports Git_Transport begin

text \<open>
  Git mirroring and conflict handling of \<open>fleet/mirror.py\<close>: the divergence of a work tree from
  its watermark, the acquisition of a scope with its single fast-forward move, the recorded fork
  decision, the holder-side merge with its blocking span, the read-only fan-in and the fetch with
  fallback. The git runner is a parameter, as in the code.
\<close>

section \<open>Runners\<close>

text \<open>\<open>_runner_for\<close>; \<open>default_for\<close> binds the default runner to a repository root.\<close>

definition runner_for :: "(string \<Rightarrow> 'w git) \<Rightarrow> 'w git option \<Rightarrow> string option \<Rightarrow> exn + 'w git" where
  "runner_for default_for runner root =
     (case runner of
        Some git \<Rightarrow> Inr git
      | None \<Rightarrow>
          (case root of
             None \<Rightarrow> Inl (denied2 ''DENIED_MIRROR_TRANSPORT'' [(''required_action'', PStr ''pass a git_runner or a repo_root'')])
           | Some r \<Rightarrow> Inr (default_for r)))"

definition mirror_git :: "'w git \<Rightarrow> string list \<Rightarrow> ('w, int \<times> string) tree_act" where
  "mirror_git git args = seq (on_tree (git args)) (\<lambda>p. ret (go_code p, py_strip (opt_str (go_stdout p))))"

section \<open>Divergence\<close>

definition parse_counts :: "int \<Rightarrow> string \<Rightarrow> int \<times> int \<times> bool" where
  "parse_counts rc out =
     (if rc \<noteq> 0 \<or> out = [] then (0, 0, False)
      else (case split_words out of
          a # b # _ \<Rightarrow>
            (case (int_of_str b, int_of_str a) of (Some ahead, Some behind) \<Rightarrow> (ahead, behind, True) | _ \<Rightarrow> (0, 0, False))
        | _ \<Rightarrow> (0, 0, False)))"

definition counted :: "'w git \<Rightarrow> string \<Rightarrow> string \<Rightarrow> ('w, int \<times> int \<times> bool) tree_act" where
  "counted git left right =
     seq (mirror_git git [''rev-list'', ''--left-right'', ''--count'', left @ ''...'' @ right]) (\<lambda>(rc, out). ret (parse_counts rc out))"

definition ahead_behind :: "'w git \<Rightarrow> string \<Rightarrow> string \<Rightarrow> ('w, int \<times> int) tree_act" where
  "ahead_behind git mark right = seq (counted git mark right) (\<lambda>(ahead, behind, computed). ret (ahead, behind))"

definition classify :: "bool option \<Rightarrow> int \<Rightarrow> int \<Rightarrow> bool \<Rightarrow> string list" where
  "classify dirty ahead behind was_holder =
     (if dirty = Some True \<and> \<not> was_holder then [''DIRTY_NON_HOLDER''] else []) @
     (if behind > 0 \<and> ahead > 0 then [''DIVERGED_FORK''] else if behind > 0 then [''BEHIND_WATERMARK''] else [])"

section \<open>The audit rows\<close>

definition py_bool_str :: "bool \<Rightarrow> string" where
  "py_bool_str b = (if b then ''True'' else ''False'')"

definition record_scope_divergence :: "string \<Rightarrow> string list \<Rightarrow> bool \<Rightarrow> pydict \<Rightarrow> append_result act" where
  "record_scope_divergence scope reasons enforced detail =
     append_coord_event ''divergence'' ''detected''
       (''Scope divergence on '' @ scope @ '' ('' @ (let j = join '', '' reasons in if j = [] then ''diverged'' else j) @
        ''); enforced='' @ py_bool_str enforced @ ''.'') (Some scope) None
       (Some (dict_merge [(if enforced then ''blocked'' else ''would_block'', PStr ''DENIED_COORD_DIVERGED''),
           (''reasons'', PList (map PStr reasons)), (''enforced'', PBool enforced)] detail)) None None"

definition fork_options :: "string list" where
  "fork_options = [''rebase'', ''merge-on-holder'', ''parallel-apply-fan-in'', ''discard-one'']"

definition fork_recommendation :: string where
  "fork_recommendation = ''merge-on-holder''"

definition record_fork_decision :: "string \<Rightarrow> pydict \<Rightarrow> append_result act" where
  "record_fork_decision scope detail =
     append_coord_event ''conflict'' ''detected''
       (''Fork on '' @ scope @ '': choose '' @ join ''/'' fork_options @ '' (recommend '' @ fork_recommendation @ '').'')
       (Some scope) None
       (Some (dict_merge [(''decision'', PStr (''fork on '' @ scope)), (''options'', PList (map PStr fork_options)),
           (''recommendation'', PStr fork_recommendation), (''confirmation'', PStr ''pending'')] detail)) None None"

definition resolve_conflict :: "string \<Rightarrow> string \<Rightarrow> string \<Rightarrow> string \<Rightarrow> pydict act" where
  "resolve_conflict i scope summary chosen =
     (let payload = [(''source_conflict_id'', PStr i), (''chosen'', PStr chosen)] in
      seq (append_coord_event ''conflict'' ''resolved''
        (str_or (Some summary) (''Conflict on '' @ scope @ '' resolved ('' @ chosen @ '').'')) (Some scope) None (Some payload) None None) (\<lambda>resolved.
      seq (append_coord_event ''resolution'' ''recorded'' (''Resolution recorded for '' @ scope @ '' ('' @ chosen @ '').'')
        (Some scope) None (Some payload) None None) (\<lambda>recorded.
      ret [(''status'', PStr ''OK''), (''scope_key'', PStr scope), (''chosen'', PStr chosen),
           (''resolved_id'', PStr (ar_id resolved)), (''recorded_id'', PStr (ar_id recorded))])))"

section \<open>Acquiring a scope\<close>

definition stale_replica_epoch :: "(int \<times> int) option act" where
  "stale_replica_epoch =
     seq (handle (seq (\<lambda>s. watermark (env_project_id (st_env s)) s) (\<lambda>n. ret (Some n)))
       (\<lambda>e. case e of
          PyError ty msg \<Rightarrow> if ty \<in> {''AttributeError'', ''TypeError'', ''ValueError''} then ret None else raise e
        | Denied d \<Rightarrow> raise e)) (\<lambda>mark.
     case mark of
       None \<Rightarrow> ret None
     | Some n \<Rightarrow>
         if n \<le> - 1 then ret None
         else gets (\<lambda>s. let ledger = max_epoch (coord_events s) in if ledger < n then Some (ledger, n) else None))"

definition coord_diverged :: "string \<Rightarrow> string list \<Rightarrow> string \<Rightarrow> string \<Rightarrow> pydict \<Rightarrow> string \<Rightarrow> exn" where
  "coord_diverged scope reasons key i detail action =
     denied2 ''DENIED_COORD_DIVERGED''
       ([(''scope_key'', PStr scope), (''reasons'', PList (map PStr reasons)), (key, PStr i)] @ detail @
        [(''required_action'', PStr action)])"

text \<open>A divergence is recorded first, then refused, or reported when it is only shadowed.\<close>

definition surface_divergence :: "string \<Rightarrow> bool \<Rightarrow> string list \<Rightarrow> pydict \<Rightarrow> string \<Rightarrow> pydict act" where
  "surface_divergence scope enforce reasons detail action =
     seq (record_scope_divergence scope reasons enforce detail) (\<lambda>ev.
     if enforce then raise (coord_diverged scope reasons ''divergence_event_id'' (ar_id ev) detail action)
     else ret [(''status'', PStr ''RECORDED''), (''scope_key'', PStr scope), (''action'', PStr ''diverged''),
               (''reasons'', PList (map PStr reasons)), (''divergence_event_id'', PStr (ar_id ev))])"

definition surface_fork :: "string \<Rightarrow> bool \<Rightarrow> pydict \<Rightarrow> pydict act" where
  "surface_fork scope enforce detail =
     seq (record_fork_decision scope detail) (\<lambda>decision.
     seq (record_scope_divergence scope [''DIVERGED_FORK''] enforce ((''conflict_event_id'', PStr (ar_id decision)) # detail)) (\<lambda>_.
     if enforce then
       raise (coord_diverged scope [''DIVERGED_FORK''] ''conflict_event_id'' (ar_id decision) detail
         (''resolve the fork: '' @ join ''/'' fork_options @ '' (recommend '' @ fork_recommendation @ '')''))
     else ret ([(''status'', PStr ''RECORDED''), (''scope_key'', PStr scope), (''action'', PStr ''fork''),
                (''reasons'', PList [PStr ''DIVERGED_FORK'']), (''conflict_event_id'', PStr (ar_id decision))] @ detail)))"

definition acquired :: "string \<Rightarrow> string \<Rightarrow> string option \<Rightarrow> pydict" where
  "acquired scope action head =
     [(''status'', PStr ''OK''), (''scope_key'', PStr scope), (''action'', PStr action), (''head_sha'', of_opt_str head)]"

text \<open>Step (5), the only move the module makes by itself; \<open>None\<close> goes on to the fork.\<close>

definition fast_forward :: "'w git \<Rightarrow> string \<Rightarrow> string \<Rightarrow> int \<Rightarrow> int \<Rightarrow> ('w, pydict option) tree_act" where
  "fast_forward git scope mark ahead behind =
     (if behind > 0 \<and> ahead = 0 then
        seq (mirror_git git [''merge'', ''--ff-only'', mark]) (\<lambda>(ff_rc, _).
        if ff_rc = 0 then
          seq (mirror_git git [''rev-parse'', ''HEAD'']) (\<lambda>(new_rc, new_head).
          ret (Some (acquired scope ''ff-moved'' (Some (if new_rc = 0 then new_head else mark)) @
            [(''watermark_sha'', PStr mark), (''head_read_failed'', PBool (new_rc \<noteq> 0))])))
        else ret None)
      else ret None)"

definition verify_tree :: "'w git \<Rightarrow> string \<Rightarrow> string option \<Rightarrow> bool \<Rightarrow> bool \<Rightarrow> ('w, pydict) tree_act" where
  "verify_tree git scope mark enforce was_prior_holder =
     seq (mirror_git git [''status'', ''--porcelain'']) (\<lambda>(status_rc, status_out).
     seq (mirror_git git [''rev-parse'', ''HEAD'']) (\<lambda>(head_rc, head_out).
     let dirty = (if status_rc = 0 then Some (status_out \<noteq> []) else None);
         head = (if head_rc = 0 then Some head_out else None);
         reasons = classify dirty 0 0 was_prior_holder
     in if ''DIRTY_NON_HOLDER'' \<in> set reasons then
          on_store (surface_divergence scope enforce reasons [(''head_sha'', of_opt_str head)]
            ''commit/stash the dirty tree or acquire as the prior holder'')
        else if opt_str mark = [] then ret (acquired scope ''fresh'' head)
        else if head = mark then ret (acquired scope ''resume'' head)
        else seq (ahead_behind git (opt_str mark) ''HEAD'') (\<lambda>(ahead, behind).
          seq (fast_forward git scope (opt_str mark) ahead behind) (\<lambda>moved.
          case moved of
            Some r \<Rightarrow> ret r
          | None \<Rightarrow> on_store (surface_fork scope enforce
              [(''ahead'', PInt ahead), (''behind'', PInt behind), (''head_sha'', of_opt_str head),
               (''watermark_sha'', PStr (opt_str mark))])))))"

definition acquire_scope ::
    "(string \<Rightarrow> 'w git) \<Rightarrow> 'w git option \<Rightarrow> string option \<Rightarrow> string \<Rightarrow> string option \<Rightarrow> bool \<Rightarrow> bool \<Rightarrow> ('w, pydict) tree_act" where
  "acquire_scope default_for runner root scope mark enforce was_prior_holder =
     seq (lift_result (runner_for default_for runner root)) (\<lambda>git.
     seq (on_store stale_replica_epoch) (\<lambda>stale.
     case stale of
       Some (ledger, n) \<Rightarrow>
         on_store (surface_divergence scope enforce [''STALE_REPLICA_EPOCH''] [(''ledger_epoch'', PInt ledger), (''watermark'', PInt n)]
           ''pull the coord ledger (turso.sync) before acquiring this scope'')
     | None \<Rightarrow> verify_tree git scope mark enforce was_prior_holder))"

section \<open>Merging as the holder\<close>

definition is_active_holder :: "string \<Rightarrow> bool act" where
  "is_active_holder scope =
     seq current_leases (\<lambda>leases. gets (\<lambda>s.
       case map_of leases scope of None \<Rightarrow> False | Some l \<Rightarrow> lp_state l = Held \<and> lp_holder l = PStr (st_node s)))"

definition has_conflict_markers :: "string \<Rightarrow> bool" where
  "has_conflict_markers status =
     list_ex (\<lambda>line. take 2 line \<in> {''UU'', ''AA'', ''DD'', ''AU'', ''UA'', ''DU'', ''UD''}) (splitlines status)"

definition not_merge_holder :: "string \<Rightarrow> string \<Rightarrow> exn" where
  "not_merge_holder scope node =
     denied2 ''DENIED_MIRROR_NOT_HOLDER''
       [(''scope_key'', PStr scope), (''node_id'', PStr node),
        (''required_action'', PStr ''only the active lease holder may merge on the integration branch'')]"

definition merge_span :: "string \<Rightarrow> string \<Rightarrow> append_result act" where
  "merge_span scope other =
     append_coord_event ''conflict'' ''detected''
       (''Merge conflict on '' @ scope @ '' merging '' @ other @ ''; aborted, blocking span open.'') (Some scope) None
       (Some [(''decision'', PStr (''merge conflict on '' @ scope)), (''options'', PList (map PStr fork_options)),
              (''recommendation'', PStr fork_recommendation), (''confirmation'', PStr ''pending''),
              (''other_branch'', PStr other), (''conflict'', PBool True)]) None None"

definition merge_failed :: "string \<Rightarrow> string \<Rightarrow> bool \<Rightarrow> string option \<Rightarrow> exn" where
  "merge_failed scope other conflicted i =
     denied2 ''DENIED_MIRROR_MERGE_CONFLICT''
       ([(''scope_key'', PStr scope), (''other_branch'', PStr other), (''conflicted'', PBool conflicted),
         (''required_action'', PStr (if conflicted
            then ''resolve the conflict off-band then resolve_conflict(); the tree was restored clean''
            else ''merge failed without conflict markers (unknown branch / unrelated history); fix the ref and retry''))] @
        (case i of None \<Rightarrow> [] | Some i \<Rightarrow> [(''conflict_event_id'', PStr i)]))"

definition attempt_holder_merge ::
    "(string \<Rightarrow> 'w git) \<Rightarrow> 'w git option \<Rightarrow> string option \<Rightarrow> string \<Rightarrow> string \<Rightarrow> bool \<Rightarrow> ('w, pydict) tree_act" where
  "attempt_holder_merge default_for runner root scope other holder_check =
     seq (lift_result (runner_for default_for runner root)) (\<lambda>git.
     seq (if holder_check then on_store (is_active_holder scope) else ret True) (\<lambda>holds.
     seq (on_store (gets st_node)) (\<lambda>node.
     seq (guard holds (not_merge_holder scope node)) (\<lambda>_.
     seq (mirror_git git [''merge'', ''--no-ff'', ''--no-edit'', other]) (\<lambda>(merge_rc, _).
     if merge_rc \<noteq> 0 then
       seq (mirror_git git [''status'', ''--porcelain'']) (\<lambda>(_, status_out).
       if has_conflict_markers status_out then
         seq (mirror_git git [''merge'', ''--abort'']) (\<lambda>_.
         seq (on_store (merge_span scope other)) (\<lambda>ev. raise (merge_failed scope other True (Some (ar_id ev)))))
       else raise (merge_failed scope other False None))
     else
       seq (mirror_git git [''rev-parse'', ''HEAD'']) (\<lambda>(rc, sha).
       ret [(''status'', PStr ''OK''), (''scope_key'', PStr scope),
            (''merge_sha'', if rc = 0 then PStr sha else PNone), (''other_branch'', PStr other)]))))))"

section \<open>Fan-in and fetch\<close>

definition compare_branch :: "'w git \<Rightarrow> string \<Rightarrow> string \<Rightarrow> ('w, pydict) tree_act" where
  "compare_branch git base branch =
     seq (counted git base branch) (\<lambda>(ahead, behind, computed).
     seq (mirror_git git [''diff'', ''--stat'', base @ ''...'' @ branch]) (\<lambda>(stat_rc, stat_out).
     ret [(''ahead'', PInt ahead), (''behind'', PInt behind), (''diffstat'', PStr stat_out),
          (''computed'', PBool (computed \<and> stat_rc = 0))]))"

definition fan_in_compare ::
    "(string \<Rightarrow> 'w git) \<Rightarrow> 'w git option \<Rightarrow> string option \<Rightarrow> string \<Rightarrow> string list \<Rightarrow> ('w, pydict) tree_act" where
  "fan_in_compare default_for runner root base branches =
     seq (lift_result (runner_for default_for runner root)) (\<lambda>git.
     seq (for_each (\<lambda>b. seq (compare_branch git base b) (\<lambda>d. ret (b, PDict d))) branches) (\<lambda>rows.
     ret [(''status'', PStr ''OK''), (''base_branch'', PStr base), (''branches'', PDict (dict_merge [] rows))]))"

definition fan_in_integrate ::
    "(string \<Rightarrow> 'w git) \<Rightarrow> 'w git option \<Rightarrow> string option \<Rightarrow> string \<Rightarrow> string \<Rightarrow> string \<Rightarrow> ('w, pydict) tree_act" where
  "fan_in_integrate default_for runner root project base chosen =
     seq (attempt_holder_merge default_for runner root (branch_scope_key project base) chosen True) (\<lambda>r.
     ret (dict_merge r [(''chosen_branch'', PStr chosen), (''base_branch'', PStr base)]))"

fun check_remotes :: "git_net \<Rightarrow> string list \<Rightarrow> exn + unit" where
  "check_remotes net [] = Inr ()"
| "check_remotes net (r # rs) = (case assert_remote_transport_safe net r of Inl e \<Rightarrow> Inl e | Inr _ \<Rightarrow> check_remotes net rs)"

definition fetched_from :: "string \<Rightarrow> string \<Rightarrow> pydict" where
  "fetched_from source remote =
     [(''status'', PStr ''OK''), (''source'', PStr source), (''remote'', PStr remote), (''fetched'', PBool True)]"

fun fetch_peers :: "'w git \<Rightarrow> nat \<Rightarrow> nat \<Rightarrow> string list \<Rightarrow> ('w, pydict) tree_act" where
  "fetch_peers git tried k [] = raise (denied2 ''DENIED_MIRROR_FETCH_FAILED''
     [(''peers_tried'', PInt (int tried)),
      (''required_action'', PStr ''verify the hub is reachable over the tailnet, or add a live peer remote'')])"
| "fetch_peers git tried k (peer # peers) =
     seq (mirror_git git [''fetch'', peer]) (\<lambda>(rc, _).
     if rc = 0 then ret (fetched_from ''peer'' (''peer['' @ int_str (int k) @ '']'')) else fetch_peers git tried (Suc k) peers)"

definition fetch_with_fallback ::
    "(string \<Rightarrow> 'w git) \<Rightarrow> 'w git option \<Rightarrow> string option \<Rightarrow> git_net \<Rightarrow> string \<Rightarrow> string list \<Rightarrow> ('w, pydict) tree_act" where
  "fetch_with_fallback default_for runner root net hub peers =
     seq (lift_result (runner_for default_for runner root)) (\<lambda>git.
     seq (lift_result (check_remotes net (hub # peers))) (\<lambda>_.
     seq (mirror_git git [''fetch'', hub]) (\<lambda>(rc, _).
     if rc = 0 then ret (fetched_from ''hub'' ''hub'') else fetch_peers git (length peers) 0 peers)))"

section \<open>Enforcement\<close>

definition record_enforcement_transition :: "string \<Rightarrow> string \<Rightarrow> string \<Rightarrow> pydict act" where
  "record_enforcement_transition scope frm to =
     seq (append_coord_event ''resolution'' ''recorded'' (''Enforcement transition '' @ frm @ ''->'' @ to @ '' for '' @ scope @ ''.'')
       (Some scope) None
       (Some [(''transition'', PStr (frm @ ''->'' @ to)), (''from'', PStr frm), (''to'', PStr to)]) None None) (\<lambda>ev.
     ret [(''status'', PStr ''OK''), (''scope_key'', PStr scope), (''transition'', PStr (frm @ ''->'' @ to)), (''id'', PStr (ar_id ev))])"

end
