(* ===== verification/Reconcile.thy ===== *)
theory Reconcile imports Mirror begin

text \<open>
  Reconnection and orphan recovery of \<open>fleet/reconcile.py\<close>: the scopes a node holds under its
  isolation sentinel, the overlap test against the fresh ledger, the reconcile sequence (pull, fetch,
  overlap, adopt, publish) and the sweep that reclaims what a heartbeat-stale node holds. Git is a
  parameter; the database columns are text and integers, so a row's epoch is an integer or absent.
\<close>

section \<open>Isolated scopes\<close>

definition iso_branch :: "pyval \<Rightarrow> pyval \<Rightarrow> int option \<Rightarrow> exn + string" where
  "iso_branch task node_id worktree =
     (case node_branch task node_id worktree of Inl e \<Rightarrow> Inl e | Inr b \<Rightarrow> Inr (b @ ''/iso''))"

definition my_iso_sentinel :: "store \<Rightarrow> pyval" where
  "my_iso_sentinel s = PStr (iso_sentinel (st_node s))"

definition iso_event :: "store \<Rightarrow> event \<Rightarrow> bool" where
  "iso_event s e \<longleftrightarrow> dget (ev_payload_dict e) ''iso_sentinel'' = my_iso_sentinel s"

definition sorted_set :: "string list \<Rightarrow> string list" where
  "sorted_set xs = sort (remdups xs)"

definition my_iso_scopes :: "store \<Rightarrow> string list" where
  "my_iso_scopes s =
     sorted_set (filter (\<lambda>x. x \<noteq> []) (map (\<lambda>e. opt_str (ev_scope e)) (filter (iso_event s) (coord_events s))))"

definition offline_status :: "pydict act" where
  "offline_status =
     seq (gets st_synced) (\<lambda>synced.
     seq (if synced then handle (seq (pull_and_reduce None) (\<lambda>_. ret False)) (\<lambda>_. ret True) else ret False) (\<lambda>isolated.
     seq (gets my_iso_scopes) (\<lambda>scopes.
     ret [(''synced'', PBool synced), (''isolated'', PBool isolated), (''can_work_local'', PBool True),
          (''authoritative_blocked'', PBool isolated), (''iso_scopes'', PList (map PStr scopes))])))"

section \<open>Overlap\<close>

text \<open>\<open>int(event.get("epoch") or 0)\<close>\<close>

definition epoch_or_zero :: "event \<Rightarrow> int" where
  "epoch_or_zero e = (if py_truthy (ev_epoch e) then event_epoch e else 0)"

definition iso_claim_info :: "store \<Rightarrow> string \<Rightarrow> string \<times> int option" where
  "iso_claim_info s scope =
     (case filter (\<lambda>e. ev_scope e = Some scope \<and> iso_event s e) (coord_events s) of
        [] \<Rightarrow> ([], None)
      | e # es \<Rightarrow> (fold (\<lambda>x m. min m (opt_str (ev_created x))) es (opt_str (ev_created e)),
                   Some (fold (\<lambda>x m. max m (epoch_or_zero x)) es (epoch_or_zero e))))"

record overlap =
  ov_other :: pyval
  ov_kind :: string
  ov_scope :: string
  ov_epoch :: "int option"
  ov_grant_seq :: "int option"
  ov_event :: "string option"

definition not_mine :: "store \<Rightarrow> pyval \<Rightarrow> bool" where
  "not_mine s v \<longleftrightarrow> v \<noteq> PNone \<and> v \<noteq> PStr (st_node s)"

definition lease_overlap :: "store \<Rightarrow> (string \<times> lease_proj) list \<Rightarrow> string \<Rightarrow> overlap option" where
  "lease_overlap s leases scope =
     (case map_of leases scope of
        None \<Rightarrow> None
      | Some l \<Rightarrow>
          if lp_state l = Held \<and> not_mine s (lp_holder l)
          then Some \<lparr>ov_other = lp_holder l, ov_kind = ''lease_held'', ov_scope = scope,
            ov_epoch = Some (lp_epoch l), ov_grant_seq = Some (lp_grant_seq l), ov_event = None\<rparr> else None)"

text \<open>One row of the scope against the clock and the fence of the isolated hold.\<close>

definition event_overlap :: "store \<Rightarrow> string \<Rightarrow> string \<Rightarrow> int option \<Rightarrow> event \<Rightarrow> overlap option" where
  "event_overlap s scope iso_at iso_epoch e =
     (let created = opt_str (ev_created e); later = (iso_at \<noteq> [] \<and> iso_at < created) in
      if ev_scope e \<noteq> Some scope then None
      else if is_event ''lease'' ''granted'' e then
        (let h = dget (ev_payload_dict e) ''holder''; other = (if py_truthy h then h else of_opt_str (ev_node e)) in
         if not_mine s other \<and> (later \<or> (case iso_epoch of None \<Rightarrow> False | Some n \<Rightarrow> n \<le> epoch_or_zero e))
         then Some \<lparr>ov_other = other, ov_kind = ''lease_granted_concurrent'', ov_scope = scope,
            ov_epoch = Some (epoch_or_zero e), ov_grant_seq = None, ov_event = ev_id e\<rparr> else None)
      else (case ev_kind e of
          None \<Rightarrow> None
        | Some kind \<Rightarrow>
            if kind \<in> {''handoff'', ''dispatch''} \<and> not_mine s (of_opt_str (ev_node e)) \<and> later
            then Some \<lparr>ov_other = of_opt_str (ev_node e), ov_kind = kind @ ''_'' @ py_str (of_opt_str (ev_marker e)), ov_scope = scope,
                       ov_epoch = None, ov_grant_seq = None, ov_event = ev_id e\<rparr>
            else None))"

fun first_some :: "('a \<Rightarrow> 'b option) \<Rightarrow> 'a list \<Rightarrow> 'b option" where
  "first_some f [] = None"
| "first_some f (x # xs) = (case f x of None \<Rightarrow> first_some f xs | Some y \<Rightarrow> Some y)"

definition leases_on :: "string option \<Rightarrow> (string \<times> lease_proj) list act" where
  "leases_on now = (case now of None \<Rightarrow> current_leases | Some t \<Rightarrow> gets (\<lambda>s. reduce_lease (coord_events s) (Some t)))"

definition overlap_in :: "store \<Rightarrow> (string \<times> lease_proj) list \<Rightarrow> string \<Rightarrow> overlap option" where
  "overlap_in s leases scope =
     (case lease_overlap s leases scope of
        Some ov \<Rightarrow> Some ov
      | None \<Rightarrow> (case iso_claim_info s scope of (iso_at, iso_epoch) \<Rightarrow>
          first_some (event_overlap s scope iso_at iso_epoch) (coord_events s)))"

definition detect_overlap :: "string option \<Rightarrow> string \<Rightarrow> overlap option act" where
  "detect_overlap now scope = seq (leases_on now) (\<lambda>leases. gets (\<lambda>s. overlap_in s leases scope))"

type_synonym signature = "string \<times> string \<times> string"

definition resolved_sources :: "event list \<Rightarrow> string list" where
  "resolved_sources es =
     map (\<lambda>e. py_str (dget (ev_payload_dict e) ''source_conflict_id''))
       (filter (\<lambda>e. is_event ''conflict'' ''resolved'' e \<and> py_truthy (dget (ev_payload_dict e) ''source_conflict_id'')) es)"

definition conflict_signature :: "event \<Rightarrow> signature" where
  "conflict_signature e =
     (opt_str (ev_scope e), str_or_empty (dget (ev_payload_dict e) ''other_node''), str_or_empty (dget (ev_payload_dict e) ''overlap_kind''))"

definition iso_conflict :: "event \<Rightarrow> bool" where
  "iso_conflict e \<longleftrightarrow> is_event ''conflict'' ''detected'' e \<and> py_truthy (dget (ev_payload_dict e) ''iso'') \<and> opt_str (ev_id e) \<noteq> []"

definition open_iso_conflicts :: "event list \<Rightarrow> (signature \<times> string) list" where
  "open_iso_conflicts es =
     fold (\<lambda>e m. if map_of m (conflict_signature e) = None then m @ [(conflict_signature e, opt_str (ev_id e))] else m)
       (filter (\<lambda>e. iso_conflict e \<and> opt_str (ev_id e) \<notin> set (resolved_sources es)) es) []"

section \<open>Publishing\<close>

definition branch_candidates :: "string \<Rightarrow> string list" where
  "branch_candidates scope =
     (case partition_at (CHR ''/'') scope of (_, slash, tail) \<Rightarrow>
        if slash \<and> tail \<noteq> [] \<and> tail \<noteq> scope then [scope, tail] else [scope])"

definition local_branch_exists :: "'w git \<Rightarrow> string \<Rightarrow> ('w, bool) prog" where
  "local_branch_exists git branch =
     seq (git [''rev-parse'', ''--verify'', ''--quiet'', branch]) (\<lambda>p. ret (go_code p = 0))"

fun first_local :: "'w git \<Rightarrow> string list \<Rightarrow> ('w, string option) prog" where
  "first_local git [] = ret None"
| "first_local git (b # bs) = seq (local_branch_exists git b) (\<lambda>here. if here then ret (Some b) else first_local git bs)"

definition listed_sha :: "string \<Rightarrow> string \<Rightarrow> bool" where
  "listed_sha sha out \<longleftrightarrow> list_ex (\<lambda>line. case split_words line of [] \<Rightarrow> False | w # _ \<Rightarrow> w = sha) (splitlines out)"

definition iso_push_and_confirm :: "'w git \<Rightarrow> string \<Rightarrow> string \<Rightarrow> ('w, string option) prog" where
  "iso_push_and_confirm git hub branch =
     seq (git [''rev-parse'', branch]) (\<lambda>rev.
     let sha = py_strip (opt_str (go_stdout rev)) in
     if go_code rev \<noteq> 0 \<or> sha = [] then ret None
     else seq (git [''push'', hub, branch]) (\<lambda>pushed.
       if go_code pushed \<noteq> 0 then ret None
       else seq (git [''ls-remote'', hub]) (\<lambda>ls.
         if go_code ls \<noteq> 0 then ret None
         else ret (if listed_sha sha (opt_str (go_stdout ls)) then Some sha else None))))"

fun publish_iso_branches :: "'w git \<Rightarrow> string \<Rightarrow> bool \<Rightarrow> string list \<Rightarrow> ('w, string list \<times> pydict list) prog" where
  "publish_iso_branches git hub allow [] = ret ([], [])"
| "publish_iso_branches git hub allow (scope # scopes) =
     seq (first_local git (branch_candidates scope)) (\<lambda>found.
     case found of
       None \<Rightarrow> publish_iso_branches git hub allow scopes
     | Some branch \<Rightarrow>
         seq (if allow then seq (iso_push_and_confirm git hub branch) (\<lambda>sha.
                  ret (if sha \<noteq> None then ([branch], []) else ([], [[(''branch'', PStr branch), (''push_failed'', PBool True)]])))
              else ret ([], [[(''branch'', PStr branch), (''reason'', PStr ''publish not enabled (owner-gated)'')]])) (\<lambda>(p, w).
         seq (publish_iso_branches git hub allow scopes) (\<lambda>(ps, ws). ret (p @ ps, w @ ws))))"

section \<open>Reconcile\<close>

text \<open>\<open>_adopted_scopes\<close> collects into a set, so a list or a dictionary in the payload raises.\<close>

definition unhashable :: "pyval \<Rightarrow> bool" where
  "unhashable v \<longleftrightarrow> (case v of PList _ \<Rightarrow> True | PDict _ \<Rightarrow> True | _ \<Rightarrow> False)"

definition adoption :: "store \<Rightarrow> event \<Rightarrow> bool" where
  "adoption s e \<longleftrightarrow> is_event ''resolution'' ''recorded'' e \<and> py_truthy (dget (ev_payload_dict e) ''iso_adopted'') \<and> iso_event s e \<and>
     py_truthy (dget (ev_payload_dict e) ''scope_key'')"

definition adopted_scopes :: "pyval list act" where
  "adopted_scopes = (\<lambda>s.
     let vs = map (\<lambda>e. dget (ev_payload_dict e) ''scope_key'') (filter (adoption s) (coord_events s)) in
     (case find unhashable vs of
        Some v \<Rightarrow> (Inl (PyError ''TypeError'' (''unhashable type: '' @ [CHR 0x27] @ (case v of PList _ \<Rightarrow> ''list'' | _ \<Rightarrow> ''dict'') @ [CHR 0x27])), s)
      | None \<Rightarrow> (Inr vs, s)))"

definition awaiting :: "store \<Rightarrow> pyval list \<Rightarrow> string list" where
  "awaiting s taken = filter (\<lambda>x. PStr x \<notin> set taken) (my_iso_scopes s)"

fun detect_all :: "string option \<Rightarrow> string list \<Rightarrow> overlap list act" where
  "detect_all now [] = ret []"
| "detect_all now (scope # scopes) =
     seq (detect_overlap now scope) (\<lambda>ov. seq (detect_all now scopes) (\<lambda>ovs. ret (case ov of None \<Rightarrow> ovs | Some x \<Rightarrow> x # ovs)))"

text \<open>A matching open conflict is reused; only a missing one is appended.\<close>

fun record_overlaps :: "(signature \<times> string) list \<Rightarrow> overlap list \<Rightarrow> (string list) act" where
  "record_overlaps known [] = ret []"
| "record_overlaps known (ov # ovs) =
     (let sig = (ov_scope ov, str_or_empty (ov_other ov), ov_kind ov) in
      seq (case map_of known sig of
             Some i \<Rightarrow> ret i
           | None \<Rightarrow> seq (record_fork_decision (ov_scope ov)
               [(''iso'', PBool True), (''other_node'', ov_other ov), (''overlap_kind'', PStr (ov_kind ov))]) (\<lambda>a. ret (ar_id a))) (\<lambda>i.
      seq (record_overlaps (if map_of known sig = None then (sig, i) # known else known) ovs) (\<lambda>is. ret (i # is))))"

definition iso_conflict_denied :: "overlap list \<Rightarrow> string list \<Rightarrow> exn" where
  "iso_conflict_denied ovs is =
     denied2 ''DENIED_ISO_CONFLICT''
       [(''scopes'', PList (map (\<lambda>ov. PStr (ov_scope ov)) ovs)), (''conflict_event_ids'', PList (map PStr is)),
        (''required_action'', PStr (''iso work overlaps another node's authoritative hold; resolve the surfaced fork ('' @
           join ''/'' fork_options @ '', recommend '' @ fork_recommendation @ '') -- the tree was NOT merged''))]"

definition adopt_scope :: "string \<Rightarrow> string act" where
  "adopt_scope scope =
     seq (request_lease scope ''advisory'' default_ttl (Some ''iso adoption request'') None) (\<lambda>_.
     seq (gets my_iso_sentinel) (\<lambda>mine.
     seq (append_coord_event ''resolution'' ''recorded'' (''Iso scope '' @ scope @ '' adopted after reconcile.'') (Some scope) None
        (Some [(''iso_adopted'', PBool True), (''scope_key'', PStr scope), (''iso_sentinel'', mine)]) None None) (\<lambda>_.
     ret scope)))"

definition blocked :: "exn \<Rightarrow> pydict" where
  "blocked e =
     [(''status'', PStr ''BLOCKED''), (''pulled'', PBool False), (''reason'', PStr (exn_code e)), (''fetched'', PNone),
      (''adopted'', PList []), (''conflicts'', PList []), (''published'', PList []), (''would_publish'', PList [])]"

definition adopt_or_refuse :: "string option \<Rightarrow> string list act" where
  "adopt_or_refuse now =
     seq adopted_scopes (\<lambda>taken.
     seq (gets (\<lambda>s. awaiting s taken)) (\<lambda>scopes.
     seq (detect_all now scopes) (\<lambda>overlaps.
     if overlaps \<noteq> [] then
       seq (gets (\<lambda>s. open_iso_conflicts (coord_events s))) (\<lambda>known.
       seq (record_overlaps known overlaps) (\<lambda>is. raise (iso_conflict_denied overlaps is)))
     else for_each adopt_scope scopes)))"

text \<open>The remote steps run only when both a runner and a hub are given.\<close>

definition remote_given :: "'w git option \<Rightarrow> string option \<Rightarrow> ('w git \<times> string) option" where
  "remote_given runner hub = (case runner of None \<Rightarrow> None | Some git \<Rightarrow> if opt_str hub = [] then None else Some (git, opt_str hub))"

definition fetch_step :: "git_net \<Rightarrow> string list \<Rightarrow> ('w git \<times> string) option \<Rightarrow> ('w, pyval) tree_act" where
  "fetch_step net peers remote =
     (case remote of
        None \<Rightarrow> ret PNone
      | Some (git, hub) \<Rightarrow> seq (fetch_with_fallback (\<lambda>_. git) (Some git) None net hub peers)
          (\<lambda>f. ret (PDict [(''fetched'', dget f ''fetched''), (''source'', dget f ''source'')])))"

definition publish_step :: "bool \<Rightarrow> string list \<Rightarrow> ('w git \<times> string) option \<Rightarrow> ('w, string list \<times> pydict list) tree_act" where
  "publish_step allow adopted remote =
     (case remote of None \<Rightarrow> ret ([], []) | Some (git, hub) \<Rightarrow> on_tree (publish_iso_branches git hub allow adopted))"

definition reconciled :: "pyval \<Rightarrow> pyval \<Rightarrow> string list \<Rightarrow> string list \<times> pydict list \<Rightarrow> pydict" where
  "reconciled pulled fetched adopted published =
     [(''status'', PStr ''OK''), (''pulled'', pulled), (''fetched'', fetched), (''adopted'', PList (map PStr adopted)), (''conflicts'', PList [])] @
     (if fst published = [] then [] else [(''published'', PList (map PStr (fst published)))]) @
     (if snd published = [] then [] else [(''would_publish'', PList (map PDict (snd published)))])"

definition reconcile_fresh ::
    "git_net \<Rightarrow> ('w git \<times> string) option \<Rightarrow> string list \<Rightarrow> bool \<Rightarrow> string option \<Rightarrow> pyval \<Rightarrow> ('w, pydict) tree_act" where
  "reconcile_fresh net remote peers allow now pulled =
     seq (fetch_step net peers remote) (\<lambda>fetched.
     seq (on_store (adopt_or_refuse now)) (\<lambda>adopted.
     seq (publish_step allow adopted remote) (\<lambda>published.
     ret (reconciled pulled fetched adopted published))))"

definition reconcile ::
    "git_net \<Rightarrow> 'w git option \<Rightarrow> string option \<Rightarrow> string list \<Rightarrow> bool \<Rightarrow> string option \<Rightarrow> ('w, pydict) tree_act" where
  "reconcile net runner hub peers allow now =
     seq (on_store (handle (seq (pull_and_reduce None) (\<lambda>_. seq (gets st_synced) (\<lambda>synced.
            ret (Inr (if synced then PBool True else PStr ''local''))))) (\<lambda>e. ret (Inl e)))) (\<lambda>pull.
     case pull of
       Inl e \<Rightarrow> ret (blocked e)
     | Inr pulled \<Rightarrow> reconcile_fresh net (remote_given runner hub) peers allow now pulled)"

section \<open>The sweep of stale nodes\<close>

text \<open>The Python floats of the two margins are exact binary fractions; a sum is rounded to a double.\<close>

type_synonym pyfloat = "int \<times> int"

definition float_add :: "pyfloat \<Rightarrow> pyfloat \<Rightarrow> pyfloat" where
  "float_add x y =
     (case (frac_of (fst x) (snd x), frac_of (fst y) (snd y)) of ((a, b), (c, d)) \<Rightarrow> double_of_frac (a * d + c * b) (b * d))"

definition float_le :: "pyfloat \<Rightarrow> pyfloat \<Rightarrow> bool" where
  "float_le x y = (case (frac_of (fst x) (snd x), frac_of (fst y) (snd y)) of ((a, b), (c, d)) \<Rightarrow> a * d \<le> c * b)"

definition default_stale_after_s :: pyfloat where
  "default_stale_after_s = (900, 0)"

definition default_skew_margin_s :: pyfloat where
  "default_skew_margin_s = (120, 0)"

definition node_last_heartbeat :: "store \<Rightarrow> string \<Rightarrow> node_proj \<Rightarrow> string option" where
  "node_last_heartbeat s node p =
     (let table = (case find (\<lambda>r. nr_id r = node) (fd_nodes (st_db s)) of None \<Rightarrow> [] | Some r \<Rightarrow> opt_str (nr_last_heartbeat r));
          reduced = opt_str (np_last_heartbeat p)
      in if table = [] \<and> reduced = [] then None else Some (max table reduced))"

definition age_s :: "string \<Rightarrow> string \<Rightarrow> pyfloat option" where
  "age_s seen now =
     (case (parse_iso (Some seen), parse_iso (Some now)) of
        (Some t, Some n) \<Rightarrow> Some (double_of_frac (instant n - instant t) 1000000)
      | _ \<Rightarrow> None)"

definition stale_age :: "store \<Rightarrow> pyfloat \<Rightarrow> bool \<Rightarrow> string \<Rightarrow> string \<times> node_proj \<Rightarrow> pyfloat option" where
  "stale_age s limit include_self now np =
     (case np of (node, p) \<Rightarrow>
        if node = st_node s \<and> \<not> include_self then None
        else if np_retired p then None
        else (case node_last_heartbeat s node p of
            None \<Rightarrow> None
          | Some seen \<Rightarrow> (case age_s seen now of None \<Rightarrow> None | Some a \<Rightarrow> if float_le a limit then None else Some a)))"

definition reclaim_one :: "string \<Rightarrow> pyfloat \<Rightarrow> string \<times> lease_proj \<Rightarrow> string act" where
  "reclaim_one node age sl =
     (case sl of (scope, l) \<Rightarrow>
        seq (append_coord_event ''lease'' ''expired''
          (''Lease reclaimed for '' @ scope @ '' at epoch '' @ int_str (lp_epoch l) @ '' (holder heartbeat-stale).'') (Some scope) (Some (lp_epoch l))
          (Some [(''grant_seq'', PInt (lp_grant_seq l)), (''reclaimed_from'', PStr node), (''reason'', PStr ''heartbeat-stale''),
                 (''age_s'', PFloat (fst age) (snd age))]) None None) (\<lambda>_. ret scope))"

definition reclaim_leases :: "string \<Rightarrow> (string \<times> lease_proj) list \<Rightarrow> pyfloat \<Rightarrow> string list act" where
  "reclaim_leases node leases age =
     for_each (reclaim_one node age)
       (filter (\<lambda>(scope, l). lp_state l = Held \<and> lp_holder l = PStr node) (sort_key fst leases))"

definition cancel_targeted_dispatches :: "string \<Rightarrow> (string \<times> dispatch_proj) list \<Rightarrow> string list act" where
  "cancel_targeted_dispatches node dispatches =
     for_each (\<lambda>(i, d). seq (cancel_dispatch i (Some ''target heartbeat-stale'') None) (\<lambda>_. ret i))
       (filter (\<lambda>(i, d). dp_target_node d = PStr node \<and> dp_state d \<in> {Some ''requested'', Some ''accepted'', Some ''started''})
          (sort_key fst dispatches))"

definition stale_coordinator_noted :: "string \<Rightarrow> int \<Rightarrow> event \<Rightarrow> bool" where
  "stale_coordinator_noted node epoch e \<longleftrightarrow>
     is_event ''divergence'' ''detected'' e \<and> dget (ev_payload_dict e) ''would_block'' = PStr ''STALE_COORDINATOR'' \<and>
     dget (ev_payload_dict e) ''node'' = PStr node \<and> py_eq (dget (ev_payload_dict e) ''epoch'') (PInt epoch)"

definition record_stale_coordinator :: "string \<Rightarrow> coord_proj \<Rightarrow> pyfloat \<Rightarrow> bool act" where
  "record_stale_coordinator node c age =
     (if cp_holder c \<noteq> PStr node then ret False
      else seq (gets (\<lambda>s. list_ex (stale_coordinator_noted node (cp_epoch c)) (coord_events s))) (\<lambda>noted.
        if noted then ret True
        else seq (append_coord_event ''divergence'' ''detected''
          (''Coordinator '' @ node @ '' heartbeat-stale at epoch '' @ int_str (cp_epoch c) @ ''; role not auto-seized.'') None None
          (Some [(''would_block'', PStr ''STALE_COORDINATOR''), (''node'', PStr node), (''epoch'', PInt (cp_epoch c)),
                 (''age_s'', PFloat (fst age) (snd age))]) None None) (\<lambda>_. ret True)))"

record stale_summary =
  ss_node :: string
  ss_age :: pyfloat
  ss_leases :: "string list"
  ss_dispatches :: "string list"
  ss_coordinator :: bool

definition sweep_node ::
    "coord_proj \<Rightarrow> (string \<times> lease_proj) list \<Rightarrow> (string \<times> dispatch_proj) list \<Rightarrow> string \<Rightarrow> pyfloat \<Rightarrow> stale_summary act" where
  "sweep_node c leases dispatches node raw =
     (let age = round3 raw in
      seq (reclaim_leases node leases age) (\<lambda>reclaimed.
      seq (cancel_targeted_dispatches node dispatches) (\<lambda>canceled.
      seq (record_stale_coordinator node c age) (\<lambda>was.
      ret \<lparr>ss_node = node, ss_age = age, ss_leases = reclaimed, ss_dispatches = canceled, ss_coordinator = was\<rparr>))))"

text \<open>The node table is read again at each node; the ledger projections are those read at the start.\<close>

fun sweep_nodes ::
    "coord_proj \<Rightarrow> (string \<times> lease_proj) list \<Rightarrow> (string \<times> dispatch_proj) list \<Rightarrow> pyfloat \<Rightarrow> bool \<Rightarrow> string \<Rightarrow> (string \<times> node_proj) list \<Rightarrow>
     (stale_summary list \<times> int) act" where
  "sweep_nodes c leases dispatches limit include_self now [] = ret ([], 0)"
| "sweep_nodes c leases dispatches limit include_self now (np # nps) =
     seq (gets (\<lambda>s. stale_age s limit include_self now np)) (\<lambda>age.
     case age of
       None \<Rightarrow> seq (sweep_nodes c leases dispatches limit include_self now nps) (\<lambda>(ss, n). ret (ss, n + 1))
     | Some a \<Rightarrow> seq (sweep_node c leases dispatches (fst np) a) (\<lambda>x.
         seq (sweep_nodes c leases dispatches limit include_self now nps) (\<lambda>(ss, n). ret (x # ss, n))))"

definition sweep_stale_nodes :: "string option \<Rightarrow> pyfloat \<Rightarrow> pyfloat \<Rightarrow> bool \<Rightarrow> (stale_summary list \<times> int) act" where
  "sweep_stale_nodes now stale_after skew include_self =
     seq (case now of None \<Rightarrow> now_iso | Some t \<Rightarrow> ret t) (\<lambda>now.
     seq (gets coord_events) (\<lambda>es.
     seq (leases_on (Some now)) (\<lambda>leases.
     seq (gets current_dispatches) (\<lambda>dispatches.
     sweep_nodes (reduce_coordinator es) leases dispatches (float_add stale_after skew) include_self now (sort_key fst (reduce_nodes es))))))"

end
