(* ===== verification/Coord_Growth.thy ===== *)
theory Coord_Growth imports Coordination Sync_Laws begin

text \<open>
  The contract all operations of the coordination engine share, as an interface: whether an
  operation returns or raises, it keeps every row of the ledger, keeps a well-kept ledger
  well-kept and leaves no transaction open. The interface is interpreted on every operation.
\<close>

section \<open>The parts of the operations\<close>

lemma grows_event [simp, intro]:
  "keeps grows (coordinator_event marker summary epoch payload)"
  "keeps grows (lease_event marker summary' scope epoch' payload')"
  "keeps grows (contested_conflict summary assumed c epoch)"
  unfolding coordinator_event_def lease_event_def contested_conflict_def by (rule append_grows)+

lemma grows_reads [simp, intro]:
  "keeps grows current_leases" "keeps grows require_coordinator" "keeps grows (expires_at now ttl)"
proof -
  show "keeps grows current_leases" unfolding current_leases_def by (intro grows_intros)
  show "keeps grows require_coordinator"
    by (simp add: keeps_def require_coordinator_def Let_def growth.refl)
  show "keeps grows (expires_at now ttl)"
    unfolding expires_at_def by (auto intro!: grows_intros split: option.split)
qed

lemma grows_fence [simp, intro]: "keeps grows (fence_check assumed current scope)"
  unfolding fence_check_def by (auto intro!: grows_intros split: option.split)

lemma grows_probe [simp, intro]:
  "keeps grows assert_isolated" "keeps grows (authoritative_freshness scope)"
  "keeps grows (assert_authoritative_free scope allowed)"
proof -
  show "keeps grows assert_isolated"
    using grows_pull_and_reduce [of None]
    by (auto simp: keeps_def assert_isolated_def growth.refl split: prod.splits sum.splits) (metis snd_conv)+
  have "keeps grows (handle (seq (pull_and_reduce None) (\<lambda>_. ret ())) (\<lambda>e. if is_denied e then raise e else raise (f e)))" for f
    by (intro grows_intros grows_pull_and_reduce)
  then show "keeps grows (authoritative_freshness scope)"
    by (simp add: keeps_def authoritative_freshness_def growth.refl)
  show "keeps grows (assert_authoritative_free scope allowed)"
    unfolding assert_authoritative_free_def by (auto intro!: grows_intros grows_reads split: option.split)
qed

lemma grows_case:
  "keeps grows m \<Longrightarrow> (\<And>l. keeps grows (f l)) \<Longrightarrow> keeps grows (case x of None \<Rightarrow> m | Some l \<Rightarrow> f l)"
  by (cases x) simp_all

lemmas op_intros = grows_case grows_intros grows_event grows_reads grows_fence grows_probe

lemma grows_claim_parts:
  "keeps grows (claim_assume summary node mode c epoch)"
  "keeps grows (claim_contested summary node mode isolated c epoch)"
  "keeps grows (claim_vacant summary node mode isolated epoch)"
  unfolding claim_assume_def claim_contested_def claim_vacant_def Let_def by (intro op_intros)+

lemma grows_append_grant: "keeps grows (append_grant c scope holder mode ttl summary)"
  unfolding append_grant_def by (intro op_intros, rule keepsI, rule keeps_at, intro op_intros)

section \<open>The interface\<close>

locale ledger_operation =
  fixes run :: "'a act"
  assumes grows: "keeps grows run"
begin

lemma step: "run s = (r, s') \<Longrightarrow> grows s s'"
  using grows by (rule keepsD)

lemma rows_stay: "ledger_ok s \<Longrightarrow> run s = (r, s') \<Longrightarrow> e \<in> set (coord_events s) \<Longrightarrow> e \<in> set (coord_events s')"
  using growsD(3) [OF step] by blast

lemma stays_ok: "ledger_ok s \<Longrightarrow> run s = (r, s') \<Longrightarrow> ledger_ok s'"
  using growsD(2) [OF step] by blast

lemma max_epoch_rises: "ledger_ok s \<Longrightarrow> run s = (r, s') \<Longrightarrow> max_epoch (coord_events s) \<le> max_epoch (coord_events s')"
  using rows_stay [of s r s'] by (auto simp: max_epoch_eq intro!: Max_mono)

end

interpretation claim: ledger_operation "claim_coordinator mode isolated summary" for mode isolated summary
proof
  have "keeps grows (claim_role mode isolated summary)"
    using grows_claim_parts by (simp add: keeps_def claim_role_def Let_def growth.refl)
  then show "keeps grows (claim_coordinator mode isolated summary)"
    unfolding claim_coordinator_def by (intro op_intros)
qed

interpretation transfer: ledger_operation "transfer_coordinator to_node isolated summary assumed"
  for to_node isolated summary assumed
  by unfold_locales
    (unfold transfer_coordinator_def Let_def, intro op_intros, rule keepsI, rule keeps_at, intro op_intros)

interpretation release_role: ledger_operation "release_coordinator summary" for summary
  by unfold_locales
    (unfold release_coordinator_def Let_def, intro op_intros, rule keepsI, rule keeps_at, intro op_intros)

interpretation request: ledger_operation "request_lease scope mode ttl summary origin"
  for scope mode ttl summary origin
  by unfold_locales (unfold request_lease_def Let_def, intro op_intros)

interpretation grant: ledger_operation "grant_lease scope holder mode ttl summary assumed"
  for scope holder mode ttl summary assumed
  by unfold_locales (unfold grant_lease_def Let_def, intro op_intros grows_append_grant)

interpretation renew: ledger_operation "renew_lease scope mode ttl summary assumed"
  for scope mode ttl summary assumed
  by unfold_locales
    (unfold renew_lease_def Let_def, intro op_intros, rule keepsI, rule keeps_at,
     intro op_intros grows_append_grant)

interpretation release: ledger_operation "release_lease scope summary origin" for scope summary origin
  by unfold_locales
    (unfold release_lease_def Let_def, intro op_intros, rule keepsI, rule keeps_at, intro op_intros)

interpretation revoke: ledger_operation "revoke_lease scope summary assumed" for scope summary assumed
  by unfold_locales (unfold revoke_lease_def, intro op_intros)

interpretation sweep: ledger_operation "sweep_expired now" for now
proof
  have one: "keeps grows (sweep_one sl)" for sl
    by (cases sl) (simp add: sweep_one_def, intro op_intros)
  show "keeps grows (sweep_expired now)"
    unfolding sweep_expired_def
    by (intro op_intros, rule keepsI, rule keeps_at, intro op_intros one)
qed

end
