(* ===== verification/Redaction_Clean.thy ===== *)
theory Redaction_Clean imports Redaction begin

text \<open>
  A cheap sufficient test that a text passes the redaction gate: a pattern cannot match in a text
  that lacks the characters it is made of. Ordinary coordination texts pass it.
\<close>

section \<open>Patterns a set of characters cannot match\<close>

primrec possible :: "string \<Rightarrow> rx \<Rightarrow> bool" where
  "possible cs Eps = True"
| "possible cs (Cls f) = list_ex f cs"
| "possible cs (Seq r s) = (possible cs r \<and> possible cs s)"
| "possible cs (Alt r s) = (possible cs r \<or> possible cs s)"
| "possible cs (Star r) = True"
| "possible cs WordB = True"
| "possible cs (NotAhead r) = True"
| "possible cs (NotBehind f) = True"

lemma step_cls_subset: "q \<in> set (step_cls f p) \<Longrightarrow> set (snd q) \<subseteq> set (snd p)"
  by (cases "(f, p)" rule: step_cls.cases) (auto split: if_splits)

lemma star_ends_subset:
  assumes "\<And>p q. q \<in> set (f p) \<Longrightarrow> set (snd q) \<subseteq> set (snd p)"
  shows "q \<in> set (star_ends f n p) \<Longrightarrow> set (snd q) \<subseteq> set (snd p)"
proof (induction n arbitrary: p)
  case (Suc n)
  then show ?case
    by (auto split: if_splits dest!: assms Suc.IH)
qed simp

lemma ends_subset: "q \<in> set (ends r p) \<Longrightarrow> set (snd q) \<subseteq> set (snd p)"
proof (induction r arbitrary: p q)
  case (Seq r s)
  then show ?case by simp (meson order_trans)
next
  case (Star r)
  from star_ends_subset [OF Star.IH] Star.prems show ?case by simp
next
  case (Cls f)
  then show ?case by (simp add: step_cls_subset)
next
  case (Alt r s)
  then show ?case by (simp only: ends.simps set_append Un_iff) blast
qed (auto split: if_splits list.splits)

lemma ends_possible: "q \<in> set (ends r p) \<Longrightarrow> set (snd p) \<subseteq> set cs \<Longrightarrow> possible cs r"
proof (induction r arbitrary: p q)
  case (Cls f)
  then show ?case by (cases "(f, p)" rule: step_cls.cases) (auto split: if_splits simp: list_ex_iff)
next
  case (Seq r s)
  then obtain m where m: "m \<in> set (ends r p)" "q \<in> set (ends s m)" by auto
  have "set (snd m) \<subseteq> set cs" using ends_subset [OF m(1)] Seq.prems(2) by blast
  with Seq.IH m Seq.prems(2) show ?case by auto
next
  case (Alt r s)
  then show ?case by (simp only: ends.simps set_append Un_iff possible.simps) blast
qed simp_all

lemma search_possible:
  assumes "rx_search r s" shows "possible s r"
proof -
  obtain pre post q where s: "s = pre @ post" "q \<in> set (ends r (rev pre, post))"
    using assms unfolding rx_search_def search_from_iff by (auto simp: neq_Nil_conv) (metis list.set_intros(1))
  with ends_possible [OF s(2), of s] show ?thesis by auto
qed

lemma find_from_possible: "find_from n r p \<noteq> [] \<Longrightarrow> set (snd p) \<subseteq> set cs \<Longrightarrow> possible cs r"
proof (induction n arbitrary: p)
  case (Suc n)
  show ?case
  proof (cases "ends r p")
    case Nil
    with Suc show ?thesis by (auto split: list.splits)
  next
    case (Cons q qs)
    with ends_possible [of q r p cs] Suc.prems(2) show ?thesis by simp
  qed
qed simp

definition harmless :: "string \<Rightarrow> bool" where
  "harmless s \<longleftrightarrow> list_all (\<lambda>(name, r). \<not> possible s r) secret_patterns \<and> \<not> possible s email_rx"

lemma find_all_possible: "find_all r s \<noteq> [] \<Longrightarrow> possible s r"
  unfolding find_all_def by (erule find_from_possible) simp

lemma harmless_clean:
  assumes "harmless s" shows "scan_for_secrets s = []"
proof -
  have "find_all email_rx s = []"
    using find_all_possible [of email_rx s] assms by (auto simp: harmless_def)
  moreover have "filter (\<lambda>(name, r). rx_search r s) secret_patterns = []"
    using search_possible [of _ s] assms by (auto simp: harmless_def list_all_iff filter_empty_conv)
  ultimately show ?thesis by (simp add: scan_for_secrets_def has_personal_email_def)
qed

section \<open>Evaluating the test\<close>

lemma possible_seqs [simp]: "possible cs (seqs rs) = list_all (possible cs) rs"
  by (induction rs) (simp_all add: seqs_def)

lemma possible_lit [simp]: "possible cs (lit s) = list_all (\<lambda>c. c \<in> set cs) s"
  by (auto simp: lit_def list_all_iff chr_rx_def list_ex_iff)

lemma possible_lit_i [simp]: "possible cs (lit_i s) = list_all (\<lambda>c. c \<in> set (map lower_char cs)) s"
  by (auto simp: lit_i_def list_all_iff chr_i_def list_ex_iff)

lemma possible_opt [simp]: "possible cs (opt_rx r)"
  by (simp add: opt_rx_def)

lemma possible_rep [simp]: "possible cs (rep n r) = (n = 0 \<or> possible cs r)"
  by (cases n) (auto simp: rep_def list_all_iff)

lemma possible_at_least [simp]: "possible cs (at_least_rx n r) = (n = 0 \<or> possible cs r)"
  by (simp add: at_least_rx_def)

lemma possible_plus [simp]: "possible cs (plus r) = possible cs r"
  by (simp add: plus_def)

text \<open>
  The characters each pattern needs; of the assignment pattern, its separator and one of its
  words; the e-mail pattern needs its sign.
\<close>

definition lacks :: "string \<Rightarrow> char list \<Rightarrow> bool" where
  "lacks s w \<longleftrightarrow> \<not> list_all (\<lambda>c. c \<in> set s) w"

definition bare_text :: "string \<Rightarrow> bool" where
  "bare_text s \<longleftrightarrow>
     lacks s ''sk-'' \<and> lacks s ''gh_'' \<and> lacks s ''AKI'' \<and> lacks s ''AIza'' \<and> lacks s ''xo-'' \<and> lacks s ''hf_'' \<and>
     lacks (map lower_char s) ''ckeyt='' \<and> lacks s ''/'' \<and> lacks s ''BEGIN-'' \<and> lacks s ''eyJ.'' \<and> CHR 0x5C \<notin> set s \<and> lacks s ''@''"

definition plain_text :: "string \<Rightarrow> bool" where
  "plain_text s \<longleftrightarrow>
     (let l = map lower_char s in
      bare_text s \<and> lacks s ''k_'' \<and>
      (lacks s '':'' \<and> lacks s ''='' \<or>
       lacks l ''paswd'' \<and> lacks l ''secrt'' \<and> lacks l ''apikey'' \<and> lacks l ''acestokn'') \<and> lacks l ''bear'')"

lemma lacks_mono: "lacks s w \<Longrightarrow> set w \<subseteq> set w' \<Longrightarrow> lacks s w'"
  by (auto simp: lacks_def list_all_iff)

lemma possible_word: "possible cs (lit_i w) = (\<not> lacks (map lower_char cs) w)"
  by (simp add: lacks_def)

lemma possible_words:
  "possible cs assigned_secret \<Longrightarrow> \<not> (lacks (map lower_char cs) ''paswd'' \<and> lacks (map lower_char cs) ''secrt'' \<and>
     lacks (map lower_char cs) ''apikey'' \<and> lacks (map lower_char cs) ''acestokn'' \<and> lacks (map lower_char cs) ''bear'')"
proof
  let ?l = "map lower_char cs"
  assume "possible cs assigned_secret"
  then have "\<not> lacks ?l ''password'' \<or> \<not> lacks ?l ''passwd'' \<or> \<not> lacks ?l ''secret'' \<or>
      \<not> lacks ?l ''key'' \<and> \<not> lacks ?l ''api'' \<or> \<not> lacks ?l ''token'' \<and> \<not> lacks ?l ''access'' \<or> \<not> lacks ?l ''bearer''"
    unfolding assigned_secret_def possible_seqs list.pred_inject alts.simps possible.simps possible_word by blast
  moreover assume "lacks ?l ''paswd'' \<and> lacks ?l ''secrt'' \<and> lacks ?l ''apikey'' \<and> lacks ?l ''acestokn'' \<and> lacks ?l ''bear''"
  moreover have "\<not> lacks ?l ''key'' \<and> \<not> lacks ?l ''api'' \<Longrightarrow> \<not> lacks ?l ''apikey''"
      "\<not> lacks ?l ''token'' \<and> \<not> lacks ?l ''access'' \<Longrightarrow> \<not> lacks ?l ''acestokn''"
    by (simp_all add: lacks_def)
  ultimately show False
    using lacks_mono [of ?l "''paswd''" "''password''"] lacks_mono [of ?l "''paswd''" "''passwd''"]
      lacks_mono [of ?l "''secrt''" "''secret''"] lacks_mono [of ?l "''bear''" "''bearer''"] by auto
qed

lemma possible_separator: "possible cs assigned_secret \<Longrightarrow> \<not> (lacks cs '':'' \<and> lacks cs ''='')"
  by (auto simp: assigned_secret_def among_def lacks_def list_ex_iff)

lemma bare_text_harmless:
  assumes "bare_text s" "(name, r) \<in> set secret_patterns" "name \<notin> {''assigned_secret'', ''bearer_header'', ''stripe_key''}"
  shows "\<not> possible s r"
proof -
  let ?l = "map lower_char s"
  have l: "lacks s ''sk-''" "lacks s ''gh_''" "lacks s ''AKI''" "lacks s ''AIza''" "lacks s ''xo-''" "lacks s ''hf_''"
      "lacks ?l ''ckeyt=''" "lacks s ''/''" "lacks s ''BEGIN-''" "lacks s ''eyJ.''" "CHR 0x5C \<notin> set s"
    using assms(1) by (simp_all add: bare_text_def)
  have "\<not> possible s anthropic_key" "\<not> possible s openai_key"
    using l(1) by (auto simp: anthropic_key_def openai_key_def lacks_def)
  moreover have "\<not> possible s github_token" using l(2) by (auto simp: github_token_def lacks_def)
  moreover have "\<not> possible s aws_access_key" using l(3) by (auto simp: aws_access_key_def lacks_def)
  moreover have "\<not> possible s google_api_key" using l(4) by (auto simp: google_api_key_def lacks_def)
  moreover have "\<not> possible s slack_token" using l(5) by (auto simp: slack_token_def lacks_def)
  moreover have "\<not> possible s huggingface_token" using l(6) by (auto simp: huggingface_token_def lacks_def)
  moreover have "\<not> possible s azure_account_key"
  proof
    assume "possible s azure_account_key"
    then have "\<not> lacks ?l ''accountkey''" "CHR ''='' \<in> set s"
      unfolding azure_account_key_def possible_seqs list.pred_inject possible_word possible_lit by auto
    moreover from this(2) have "lower_char (CHR ''='') \<in> set ?l" unfolding set_map by (rule imageI)
    moreover have "lower_char (CHR ''='') = CHR ''=''" by code_simp
    ultimately show False using l(7) by (simp add: lacks_def)
  qed
  moreover have "\<not> possible s db_url_credentials" using l(8) by (auto simp: db_url_credentials_def lacks_def)
  moreover have "\<not> possible s private_key_block" using l(9) by (auto simp: private_key_block_def lacks_def)
  moreover have "\<not> possible s jwt" using l(10) by (auto simp: jwt_def lacks_def)
  moreover have "\<not> possible s posix_home_path" using l(8) by (auto simp: posix_home_path_def lacks_def)
  moreover have "\<not> possible s user_home_path"
    using l(8,11) by (auto simp: user_home_path_def sep_rx_def among_def list_ex_iff lacks_def)
  ultimately show ?thesis using assms(2,3) by (auto simp: secret_patterns_def)
qed

lemma bare_text_email: "bare_text s \<Longrightarrow> \<not> possible s email_rx"
  by (auto simp: bare_text_def email_rx_def lacks_def)

lemma plain_text_harmless:
  assumes "plain_text s" shows "harmless s"
proof -
  let ?l = "map lower_char s"
  have l: "bare_text s" "lacks s ''k_''" "lacks ?l ''bear''" using assms by (simp_all add: plain_text_def Let_def)
  have "\<not> possible s stripe_key" using l(2) by (auto simp: stripe_key_def lacks_def)
  moreover have "\<not> possible s bearer_header"
    using l(3) lacks_mono [of ?l "''bear''" "''bearer''"]
    unfolding bearer_header_def possible_seqs list.pred_inject possible_word by auto
  moreover have "\<not> possible s assigned_secret"
    using assms possible_words [of s] possible_separator [of s] by (auto simp: plain_text_def Let_def)
  ultimately have "\<not> possible s r" if "(name, r) \<in> set secret_patterns" for name r
    using that bare_text_harmless [OF l(1) that] by (auto simp: secret_patterns_def)
  with bare_text_email [OF l(1)] show ?thesis by (auto simp: harmless_def list_all_iff)
qed

lemma plain_text_clean: "plain_text s \<Longrightarrow> scan_for_secrets s = []"
  by (rule harmless_clean) (rule plain_text_harmless)

section \<open>Words instead of characters\<close>

text \<open>
  A finer test for texts that have the characters of a pattern but not its word: the assignment, the
  bearer and the key patterns need one of these words.
\<close>

definition secret_words :: "string list" where
  "secret_words = [''password'', ''passwd'', ''secret'', ''api'', ''access'', ''bearer'', ''k_'']"

definition tame_text :: "string \<Rightarrow> bool" where
  "tame_text s \<longleftrightarrow> bare_text s \<and> list_all (\<lambda>w. \<not> contains w (map lower_char s)) secret_words"

lemma words_needed:
  "needs assigned_secret (set secret_words)" "needs bearer_header (set secret_words)" "needs stripe_key (set secret_words)"
proof -
  have word: "needs (lit_i w) (set secret_words)" if "w \<in> set secret_words" for w
    using needs_mono [OF needs_lit_i] that by simp
  have "needs (lit ''k_'') (set secret_words)"
    by (rule needs_mono [OF needs_lit]) (simp add: secret_words_def lower_char_def)
  then show "needs stripe_key (set secret_words)"
    unfolding stripe_key_def by (rule needs_seqs [rotated]) simp
  show "needs bearer_header (set secret_words)"
    unfolding bearer_header_def by (rule needs_seqs [OF _ word [of "''bearer''"]]) (simp_all add: secret_words_def)
  have "needs (seqs [lit_i ''api'', opt_rx (Cls (among ''_-'')), lit_i ''key'']) (set secret_words)"
    by (rule needs_seqs [OF _ word [of "''api''"]]) (simp_all add: secret_words_def)
  moreover have "needs (seqs [lit_i ''access'', opt_rx (Cls (among ''_-'')), lit_i ''token'']) (set secret_words)"
    by (rule needs_seqs [OF _ word [of "''access''"]]) (simp_all add: secret_words_def)
  moreover have words: "needs (lit_i ''password'') (set secret_words)" "needs (lit_i ''passwd'') (set secret_words)"
    "needs (lit_i ''secret'') (set secret_words)" "needs (lit_i ''bearer'') (set secret_words)"
    by (rule word; simp add: secret_words_def)+
  ultimately have "needs (alts [lit_i ''password'', lit_i ''passwd'', lit_i ''secret'',
           seqs [lit_i ''api'', opt_rx (Cls (among ''_-'')), lit_i ''key''],
           seqs [lit_i ''access'', opt_rx (Cls (among ''_-'')), lit_i ''token''], lit_i ''bearer'']) (set secret_words)"
    using words by (intro needs_alts) simp
  then show "needs assigned_secret (set secret_words)"
    unfolding assigned_secret_def by (rule needs_seqs [rotated]) simp
qed

lemma tame_text_clean:
  assumes "tame_text s" shows "scan_for_secrets s = []"
proof -
  have no: "\<not> rx_search r s" if "needs r (set secret_words)" for r
    using search_needs [OF _ that, of s] assms by (auto simp: tame_text_def list_all_iff)
  have "\<not> rx_search r s" if "(name, r) \<in> set secret_patterns" for name r
  proof (cases "name \<in> {''assigned_secret'', ''bearer_header'', ''stripe_key''}")
    case True
    with that have "r \<in> {assigned_secret, bearer_header, stripe_key}" by (auto simp: secret_patterns_def)
    with no words_needed show ?thesis by blast
  next
    case False
    with that assms search_possible [of r s] bare_text_harmless [of s name r] show ?thesis by (auto simp: tame_text_def)
  qed
  then have "filter (\<lambda>(name, r). rx_search r s) secret_patterns = []" by (auto simp: filter_empty_conv)
  moreover have "find_all email_rx s = []" using find_all_possible [of email_rx s] bare_text_email [of s] assms by (auto simp: tame_text_def)
  ultimately show ?thesis by (simp add: scan_for_secrets_def has_personal_email_def)
qed

end
