(* ===== verification/Gate_Laws.thy ===== *)
theory Gate_Laws imports Fleet_Store Redaction_Clean begin

text \<open>
  What the three gates of an append let through, with no accelerator installed: a registered
  pair of kind and marker, a record of the declared shape and length, and clean texts.
\<close>

lemma coord_event_schema: "get_schema ''coord_event'' = Inr schema_coord_event"
  by (simp add: get_schema_def schemas_def)

lemma coord_event_spec_ok: "spec_ok schema_coord_event"
  using registry_specs_ok by (simp add: schemas_def)

definition texts_fit :: "string \<Rightarrow> string \<Rightarrow> string option \<Rightarrow> string option \<Rightarrow> bool" where
  "texts_fit node summary scope project \<longleftrightarrow>
     py_strip node \<noteq> [] \<and> word_count node \<le> 10 \<and> py_strip summary \<noteq> [] \<and>
     sentence_count summary \<le> 2 \<and> word_count summary \<le> 80 \<and>
     word_count (opt_str scope) \<le> 40 \<and> word_count (opt_str project) \<le> 10"

lemma kinds_nonblank:
  "list_all (\<lambda>(kind, markers). py_strip kind \<noteq> [] \<and> list_all (\<lambda>m. py_strip m \<noteq> []) markers) coord_event_kind_markers"
  by code_simp

lemma kind_known:
  assumes "kind_marker_ok kind marker"
  shows "kind \<in> set (map fst coord_event_kind_markers)" "marker \<in> set coord_markers"
    "py_strip kind \<noteq> []" "py_strip marker \<noteq> []" "kind \<noteq> []" "marker \<noteq> []"
proof -
  obtain ms where ms: "(kind, ms) \<in> set coord_event_kind_markers" "marker \<in> set ms"
    using assms by (auto simp: kind_marker_ok_def split: option.splits dest: map_of_SomeD)
  then show "kind \<in> set (map fst coord_event_kind_markers)" "marker \<in> set coord_markers"
    by (force simp: coord_markers_def)+
  from ms kinds_nonblank show "py_strip kind \<noteq> []" "py_strip marker \<noteq> []"
    by (auto simp: list_all_iff)
  then show "kind \<noteq> []" "marker \<noteq> []" by (auto simp: py_strip_def)
qed

lemma map_of_filter_keys:
  assumes "distinct (map fst d)"
  shows "map_of (filter keep d) name =
    (case map_of d name of Some v \<Rightarrow> (if keep (name, v) then Some v else None) | None \<Rightarrow> None)"
  using assms
  by (induction d) (auto split: option.splits simp: map_of_eq_None_iff dest: map_of_SomeD)

lemma clean_lookup:
  "dget (clean_fields node kind marker summary scope epoch payload project) k =
     (case map_of [(''node_id'', PStr node), (''project_id'', of_opt_str project), (''event_kind'', PStr kind),
        (''marker'', PStr marker), (''scope_key'', of_opt_str scope), (''epoch'', of_opt_int epoch),
        (''payload'', opt_dict payload), (''summary'', PStr summary)] k of
        None \<Rightarrow> PNone | Some v \<Rightarrow> if v = PStr [] then PNone else v)"
  unfolding clean_fields_def dget_def
  by (subst map_of_filter_keys) (simp_all split: option.split)

lemma enum_one_of: "enum_ok (PStr s) (Some (map PStr xs)) \<longleftrightarrow> s \<in> set xs"
  by (auto simp: enum_ok_def list_ex_iff)

lemma conforms_str:
  "conforms req name (words_rule n) (case x of None \<Rightarrow> PNone | Some s \<Rightarrow> if s = [] then PNone else PStr s) \<longleftrightarrow>
     word_count (opt_str x) \<le> n" if "0 \<le> n"
  using that by (auto simp: conforms_def words_rule_def any_rule_def type_ok_def py_types_def text_conforms_def enum_ok_def
      word_count_def split_words_def split: option.split)

lemma conforms_rest:
  "conforms req name (one_of xs) (PStr t) \<longleftrightarrow> t \<in> set xs \<or> False" if "t \<noteq> []" "t \<in> set xs"
  using that by (simp add: conforms_def one_of_def any_rule_def type_ok_def py_types_def text_conforms_def enum_one_of)

lemma conforms_epoch:
  "conforms req name (at_least ''int'' 0) (of_opt_int x) \<longleftrightarrow> (case x of None \<Rightarrow> True | Some n \<Rightarrow> 0 \<le> n)"
  by (auto simp: conforms_def at_least_def any_rule_def type_ok_def py_types_def within_def py_less_def enum_ok_def of_opt_int_def
      frac_less_def split: option.split)

lemma conforms_payload: "conforms req name (typed ''dict'') (opt_dict p)"
  by (auto simp: conforms_def typed_def any_rule_def type_ok_def py_types_def enum_ok_def opt_dict_def split: option.split)

lemma conforms_summary:
  "name \<in> set req \<Longrightarrow> t \<noteq> [] \<Longrightarrow>
     conforms req name summary_rule (PStr t) \<longleftrightarrow> sentence_count t \<le> 2 \<and> word_count t \<le> 80"
  by (auto simp: conforms_def summary_rule_def any_rule_def type_ok_def py_types_def enum_ok_def text_conforms_def
      validate_summary_def Let_def)

lemma opt_int_not_str [simp]: "of_opt_int x \<noteq> PStr t" "opt_dict p \<noteq> PStr t"
  by (auto simp: of_opt_int_def opt_dict_def split: option.split)

lemma opt_str_case: "(if of_opt_str x = PStr [] then PNone else of_opt_str x) =
    (case x of None \<Rightarrow> PNone | Some s \<Rightarrow> if s = [] then PNone else PStr s)"
  by (cases x) auto

text \<open>The gates accept exactly the registered pairs with a record in shape and clean texts.\<close>

lemma append_gate_iff:
  assumes "env_jsonschema env = None"
  shows "append_gate env node kind marker summary scope epoch payload project = Inr () \<longleftrightarrow>
    kind_marker_ok kind marker \<and> texts_fit node summary scope project \<and>
    (case epoch of None \<Rightarrow> True | Some n \<Rightarrow> 0 \<le> n) \<and>
    list_all (\<lambda>(name, v). clean v) (redaction_fields summary scope payload)"
proof (cases "kind_marker_ok kind marker")
  case True
  note known = kind_known [OF True]
  define d where "d = clean_fields node kind marker summary scope epoch payload project"
  have keys: "fst ` set d \<subseteq> fst ` set (ss_fields schema_coord_event)"
    by (auto simp: d_def clean_fields_def schema_coord_event_def record_spec_def)
  have look: "dget d ''node_id'' = (if node = [] then PNone else PStr node)"
    "dget d ''project_id'' = (case project of None \<Rightarrow> PNone | Some s \<Rightarrow> if s = [] then PNone else PStr s)"
    "dget d ''event_kind'' = PStr kind" "dget d ''marker'' = PStr marker"
    "dget d ''scope_key'' = (case scope of None \<Rightarrow> PNone | Some s \<Rightarrow> if s = [] then PNone else PStr s)"
    "dget d ''epoch'' = of_opt_int epoch" "dget d ''payload'' = opt_dict payload"
    "dget d ''summary'' = (if summary = [] then PNone else PStr summary)"
    unfolding d_def using known by (simp_all add: clean_lookup flip: opt_str_case)
  have node: "conforms req ''node_id'' (words_rule 10) (dget d ''node_id'') \<longleftrightarrow> word_count node \<le> 10" for req
    using conforms_str [of 10 req "''node_id''" "Some node"] by (simp add: look)
  have "validate_record None ''coord_event'' d = Inr d \<longleftrightarrow>
      texts_fit node summary scope project \<and> (case epoch of None \<Rightarrow> True | Some n \<Rightarrow> 0 \<le> n)"
  proof -
    have "validate_record None ''coord_event'' d = Inr d \<longleftrightarrow>
        validate_against_spec (PDict d) schema_coord_event ''coord_event'' = Inr (PDict d)"
    proof (cases "validate_against_spec (PDict d) schema_coord_event ''coord_event''")
      case (Inr r)
      with accepted_unchanged [OF Inr] show ?thesis
        by (simp add: validate_record_def coord_event_schema accelerate_def)
    qed (simp add: validate_record_def coord_event_schema)
    also have "\<dots> \<longleftrightarrow> texts_fit node summary scope project \<and> (case epoch of None \<Rightarrow> True | Some n \<Rightarrow> 0 \<le> n)"
    proof (cases "py_strip node \<noteq> [] \<and> py_strip summary \<noteq> []")
      case True
      then have ne: "node \<noteq> []" "summary \<noteq> []" by (auto simp: py_strip_def)
      have "filter (field_missing d) (ss_required schema_coord_event) = []"
        using True known ne by (simp add: schema_coord_event_def record_spec_def field_missing_def look)
      moreover have "list_all (\<lambda>(name, rule). conforms (ss_required schema_coord_event) name rule (dget d name))
          (ss_fields schema_coord_event) \<longleftrightarrow> texts_fit node summary scope project \<and> (case epoch of None \<Rightarrow> True | Some n \<Rightarrow> 0 \<le> n)"
        using True known ne
        by (simp add: schema_coord_event_def record_spec_def node look(2-8) conforms_str conforms_rest conforms_epoch
            conforms_payload conforms_summary texts_fit_def) blast
      ultimately show ?thesis
        unfolding validate_ok_iff [OF coord_event_spec_ok] using keys by blast
    next
      case False
      then have "field_missing d ''node_id'' \<or> field_missing d ''summary''"
        by (auto simp: field_missing_def look)
      then have "filter (field_missing d) (ss_required schema_coord_event) \<noteq> []"
        by (auto simp: schema_coord_event_def record_spec_def filter_empty_conv)
      with False show ?thesis
        unfolding validate_ok_iff [OF coord_event_spec_ok] by (auto simp: texts_fit_def)
    qed
    finally show ?thesis .
  qed
  moreover have "validate_record None ''coord_event'' d = Inr r \<Longrightarrow> r = d" for r
    by (auto simp: validate_record_def accelerate_def split: sum.splits)
  ultimately show ?thesis
    using True assms
    by (auto simp: append_gate_def simp flip: d_def split: sum.split)
qed (simp add: append_gate_def)

end
