(* ===== verification/Ideal_Store.thy ===== *)
theory Ideal_Store imports Gate_Laws Store_Laws begin

text \<open>
  Stores on which an append that passes the gates always returns: no transaction fails, no
  accelerator is installed and the clock moves forward at every reading. Every append leaves such
  a store, so the operations composed of appends return on it too. The sample store of the
  witnesses is one.
\<close>

text \<open>\<open>ideal n s\<close>: the next \<open>n\<close> readings of the clock, after those of \<open>s\<close>, move forward.\<close>

definition ideal :: "nat \<Rightarrow> store \<Rightarrow> bool" where
  "ideal n s \<longleftrightarrow> ledger_ok s \<and> env_jsonschema (st_env s) = None \<and> (\<forall>k. env_fault (st_env s) k = None) \<and>
     (\<forall>i j. i < j \<and> j < st_clock s + n \<longrightarrow> env_clock (st_env s) i < env_clock (st_env s) j) \<and>
     (\<forall>r \<in> set (fd_events (st_db s)). cr_node r = st_node s \<longrightarrow>
        (\<exists>j < st_clock s. cr_created r = now_text (env_clock (st_env s) j)))"

lemma idealD:
  assumes "ideal n s"
  shows "ledger_ok s" "env_jsonschema (st_env s) = None" "\<And>k. env_fault (st_env s) k = None"
    "\<And>i j. i < j \<Longrightarrow> j < st_clock s + n \<Longrightarrow> env_clock (st_env s) i < env_clock (st_env s) j"
    "\<And>k. dt_in_range (env_clock (st_env s) k)"
    "\<And>r. r \<in> set (fd_events (st_db s)) \<Longrightarrow> cr_node r = st_node s \<Longrightarrow>
       \<exists>j < st_clock s. cr_created r = now_text (env_clock (st_env s) j)"
proof -
  show "ledger_ok s" using assms by (simp add: ideal_def)
  then show "\<And>k. dt_in_range (env_clock (st_env s) k)" by (simp add: ledger_ok_def env_ok_def)
qed (use assms in \<open>simp_all add: ideal_def\<close>)

lemma next_created_ahead:
  assumes "ideal n s" "st_clock s \<le> k" "k < st_clock s + n"
  shows "next_created (now_text (env_clock (st_env s) k)) (latest_created (fd_events (st_db s)) (st_node s)) =
    Inr (now_text (env_clock (st_env s) k))"
proof (cases "latest_created (fd_events (st_db s)) (st_node s)")
  case None
  moreover have "parse_iso None = None" by (simp add: parse_iso_def)
  ultimately show ?thesis using idealD(5) [OF assms(1)] by (simp add: next_created_def)
next
  case (Some l)
  then obtain r where "r \<in> set (fd_events (st_db s))" "cr_node r = st_node s" "l = cr_created r"
    by (auto simp: latest_created_def dest!: fold_best_SomeD)
  with idealD(6) [OF assms(1)] assms(2) obtain j where "j < k" "l = now_text (env_clock (st_env s) j)"
    by (metis less_le_trans)
  moreover from this(1) have "env_clock (st_env s) j < env_clock (st_env s) k"
    by (rule idealD(4) [OF assms(1)]) (rule assms(3))
  ultimately show ?thesis
    using Some idealD(5) [OF assms(1)] by (simp add: next_created_def)
qed

lemma append_runs:
  assumes s: "ideal n s" and n: "1 < n" and new: "source = None \<or> source \<notin> cr_source ` set (fd_events (st_db s))"
    and gate: "append_gate (st_env s) (st_node s) kind marker summary scope epoch payload project = Inr ()"
  obtains a row where "append_coord_event kind marker summary scope epoch payload project source s =
      (Inr a, s\<lparr>st_clock := Suc (Suc (st_clock s)), st_uuid := Suc (st_uuid s), st_fault := Suc (Suc (st_fault s)),
        st_db := (st_db s)\<lparr>fd_events := fd_events (st_db s) @ [row]\<rparr>, st_in_tx := False\<rparr>)"
    "cr_created row = now_text (env_clock (st_env s) (Suc (st_clock s)))"
proof -
  let ?env = "st_env s" and ?rows = "fd_events (st_db s)" and ?c = "now_text (env_clock (st_env s) (Suc (st_clock s)))"
  let ?i = "''ce_'' @ utc_stamp (env_clock ?env (st_clock s)) @ ''_'' @ last_chars 6 (st_node s) @ env_uuid ?env (st_uuid s)"
  define row where "row = sealed ?env \<lparr>cr_id = ?i, cr_created = ?c, cr_node = st_node s, cr_project = project,
                 cr_kind = kind, cr_marker = marker, cr_scope = scope, cr_epoch = epoch,
                 cr_payload_json = map_option (\<lambda>p. json_dumps (PDict p)) payload, cr_source = source, cr_hash = [], cr_sig = None\<rparr>"
  have created: "next_created ?c (latest_created ?rows (st_node s)) = Inr ?c"
    by (rule next_created_ahead [OF s]) (use n in simp_all)
  have row: "cr_id row = ?i" "cr_created row = ?c" "cr_source row = source" by (simp_all add: row_def)
  obtain x where x: "?i = x @ env_uuid ?env (st_uuid s)" using ends_id by metis
  have "cr_id q \<noteq> ?i" if "q \<in> set ?rows" for q
    using idealD(1) [OF s] that x unfolding ledger_ok_def rows_ok_def by (metis order_refl)
  then have fresh: "\<not> row_conflicts ?rows row"
    using new [unfolded image_iff] row unfolding row_conflicts_def list_ex_iff by auto
  show thesis
    by (rule that [of "\<lparr>ar_id = ?i, ar_created = ?c, ar_hash = cr_hash row, ar_sig = cr_sig row, ar_deduped = False\<rparr>" row, OF _ row(2)])
      (use gate created fresh idealD(3) [OF s] in \<open>simp add: append_coord_event_def coord_id_simps fleet_write_def write_attempts.simps
        tx_body_def next_fault_def seq_def append_tx_def Let_def row_def\<close>)
qed

lemma append_returns:
  assumes s: "ideal (Suc (Suc n)) s"
    and gate: "append_gate (st_env s) (st_node s) kind marker summary scope epoch payload project = Inr ()"
  obtains a s' where "append_coord_event kind marker summary scope epoch payload project None s = (Inr a, s')" "ideal n s'"
proof -
  obtain a row where run: "append_coord_event kind marker summary scope epoch payload project None s =
      (Inr a, s\<lparr>st_clock := Suc (Suc (st_clock s)), st_uuid := Suc (st_uuid s), st_fault := Suc (Suc (st_fault s)),
        st_db := (st_db s)\<lparr>fd_events := fd_events (st_db s) @ [row]\<rparr>, st_in_tx := False\<rparr>)" (is "_ = (_, ?s')")
      and row: "cr_created row = now_text (env_clock (st_env s) (Suc (st_clock s)))"
    by (rule append_runs [OF s _ _ gate, of None]) simp_all
  have ok: "ledger_ok ?s'"
    using append_new [OF run idealD(1) [OF s]] by blast
  have own: "\<exists>j < Suc (Suc (st_clock s)). cr_created r = now_text (env_clock (st_env s) j)"
    if "r \<in> set (fd_events (st_db s) @ [row])" "cr_node r = st_node s" for r
    using that idealD(6) [OF s, of r] row by (auto intro: less_SucI)
  have "ideal n ?s'"
    unfolding ideal_def
    using ok own idealD(2,3) [OF s] idealD(4) [OF s] by (simp del: set_append)
  with run show thesis by (rule that)
qed

lemma ideal_clock:
  assumes "ideal (Suc n) s" shows "ideal n (s\<lparr>st_clock := Suc (st_clock s)\<rparr>)"
proof -
  have "ledger_ok (s\<lparr>st_clock := Suc (st_clock s)\<rparr>)"
    by (rule ledger_ok_goes_on [OF idealD(1) [OF assms]]) simp_all
  moreover have "\<exists>j < Suc (st_clock s). cr_created r = now_text (env_clock (st_env s) j)"
    if "r \<in> set (fd_events (st_db s))" "cr_node r = st_node s" for r
    using idealD(6) [OF assms that] by (auto intro: less_SucI)
  ultimately show ?thesis
    unfolding ideal_def using idealD(2,3) [OF assms] idealD(4) [OF assms] by simp
qed

section \<open>The sample store\<close>

definition sample_env :: fleet_env where
  "sample_env = \<lparr>env_clock = (\<lambda>k. 63700000000000000 + int k mod 10 ^ 9), env_uuid = (\<lambda>k. CHR ''1'' # replicate k (CHR ''0'')),
     env_sha256 = (\<lambda>_. ''h''), env_sign = (\<lambda>_. None), env_jsonschema = None, env_fault = (\<lambda>_. None),
     env_pull = (\<lambda>_ d. Inr d), env_push = (\<lambda>_. Inr ()), env_checkpoint = (\<lambda>_. Inr ()), env_stats = (\<lambda>_. Inr []),
     env_settings_fault = (\<lambda>_. None), env_os = ''Linux'', env_arch = ''x86_64'', env_display_name = ''lab'',
     env_project_id = ''p'', env_project_source = ''repo-path'', env_accept_regression = False\<rparr>"

definition sample_store :: "bool \<Rightarrow> store" where
  "sample_store synced = \<lparr>st_env = sample_env, st_node = ''n1'', st_synced = synced,
     st_db = \<lparr>fd_events = [], fd_nodes = [], fd_dispatches = []\<rparr>, st_settings = [], st_in_tx = False,
     st_clock = 0, st_uuid = 0, st_fault = 0, st_sync = 0, st_settings_ops = 0\<rparr>"

lemma tail_length: "x @ CHR ''1'' # replicate i (CHR ''0'') = y @ CHR ''1'' # replicate j (CHR ''0'') \<Longrightarrow> i = j"
proof -
  assume eq: "x @ CHR ''1'' # replicate i (CHR ''0'') = y @ CHR ''1'' # replicate j (CHR ''0'')"
  have "length (takeWhile (\<lambda>c. c = CHR ''0'') (replicate k (CHR ''0'') @ CHR ''1'' # z)) = k" for z k
    by (induction k) simp_all
  then have "length (takeWhile (\<lambda>c. c = CHR ''0'') (rev (z @ CHR ''1'' # replicate k (CHR ''0'')))) = k" for z k
    by simp
  from this [of x i] this [of y j] eq show "i = j" by simp
qed

lemma sample_env_ok: "env_ok sample_env"
proof -
  have "dt_in_range (63700000000000000 + int k mod 10 ^ 9)" for k
    using pos_mod_bound [of "10 ^ 9" "int k"] pos_mod_sign [of "10 ^ 9" "int k"]
    by (simp add: dt_in_range_def max_ordinal_def us_day_def)
  then show ?thesis by (auto simp: env_ok_def sample_env_def dest: tail_length)
qed

lemma sample_ideal: "ideal 1000 (sample_store synced)"
proof -
  have "ledger_ok (sample_store synced)"
    using sample_env_ok by (simp add: ledger_ok_def sample_store_def rows_ok_def pull_merges_def) (simp add: sample_env_def)
  then show ?thesis
    by (simp add: ideal_def sample_store_def sample_env_def)
qed

lemma sample_simps [simp]:
  "st_node (sample_store synced) = ''n1''" "coord_events (sample_store synced) = []" "st_env (sample_store synced) = sample_env"
  "st_synced (sample_store synced) = synced" "env_jsonschema sample_env = None" "fd_events (st_db (sample_store synced)) = []"
  by (simp_all add: sample_store_def coord_events_def db_events_def sample_env_def)

end
