(* ===== verification/Coord_Laws.thy ===== *)
theory Coord_Laws imports Coord_Growth Ideal_Store begin

text \<open>
  What the coordinator role operations establish in the projection every node computes: a claim
  on a vacancy takes the role at an epoch above the whole ledger, a contested claim is refused or
  recorded without displacing the holder, a transfer hands the role over, a release fences the
  released epoch, and a stale or foreign grantor changes nothing.
\<close>

section \<open>One appended event\<close>

text \<open>The event a returning append adds, as the projections see it.\<close>

definition new_event ::
    "store \<Rightarrow> store \<Rightarrow> append_result \<Rightarrow> event \<Rightarrow> string \<Rightarrow> string \<Rightarrow> string option \<Rightarrow> int option \<Rightarrow> pydict \<Rightarrow> bool" where
  "new_event s s' a e kind marker scope epoch p \<longleftrightarrow>
     set (coord_events s') = insert e (set (coord_events s)) \<and> e \<notin> set (coord_events s) \<and>
     ev_kind e = Some kind \<and> ev_marker e = Some marker \<and> ev_scope e = scope \<and> ev_node e = Some (st_node s) \<and>
     ev_id e = Some (ar_id a) \<and> event_epoch e = (case epoch of None \<Rightarrow> - 1 | Some n \<Rightarrow> n) \<and>
     (\<forall>k. dget (ev_payload_dict e) k = (case map_of p k of None \<Rightarrow> PNone | Some v \<Rightarrow> canon v)) \<and>
     grows s s' \<and> ledger_ok s' \<and> st_node s' = st_node s \<and> st_env s' = st_env s \<and> st_synced s' = st_synced s"

lemma new_eventD:
  assumes "new_event s s' a e kind marker scope epoch p"
  shows "set (coord_events s') = insert e (set (coord_events s))" "e \<notin> set (coord_events s)"
    "ev_kind e = Some kind" "ev_marker e = Some marker" "ev_scope e = scope" "ev_node e = Some (st_node s)"
    "ev_id e = Some (ar_id a)" "event_epoch e = (case epoch of None \<Rightarrow> - 1 | Some n \<Rightarrow> n)"
    "dget (ev_payload_dict e) k = (case map_of p k of None \<Rightarrow> PNone | Some v \<Rightarrow> canon v)"
    "grows s s'" "ledger_ok s'" "st_node s' = st_node s" "st_env s' = st_env s" "st_synced s' = st_synced s"
    "is_event k' m' e \<longleftrightarrow> kind = k' \<and> marker = m'"
  using assms by (simp_all add: new_event_def is_event_def)

lemma event_new:
  assumes run: "append_coord_event kind marker summary scope epoch payload project None s = (Inr a, s')"
    and ok: "ledger_ok s" and p: "plain (opt_dict payload)"
  obtains e where "new_event s s' a e kind marker scope epoch (case payload of None \<Rightarrow> [] | Some p \<Rightarrow> p)"
  using run ok
proof (rule append_new)
  fix row
  assume row: "fresh_row s kind marker scope epoch payload project None row"
    "fd_events (st_db s') = fd_events (st_db s) @ [row]" "ar_id a = cr_id row" "grows s s'" "ledger_ok s'"
    "set (coord_events s') = insert (row_event row) (set (coord_events s))" "st_node s' = st_node s"
    "st_env s' = st_env s" "st_synced s' = st_synced s"
  have "row_event row \<notin> set (coord_events s)"
    using row(2,5) by (force simp: set_coord_events ledger_ok_def rows_ok_def dest: arg_cong [of _ _ ev_id])
  moreover have "dget (ev_payload_dict (row_event row)) k =
      (case map_of (case payload of None \<Rightarrow> [] | Some p \<Rightarrow> p) k of None \<Rightarrow> PNone | Some v \<Rightarrow> canon v)" for k
    using row(1) p row_payload [of s kind marker scope epoch _ project None row k] row_no_payload [of s kind marker scope epoch project None row]
    by (cases payload) (auto simp: opt_dict_def dget_def)
  ultimately show thesis
    using row fresh_row_simps [OF row(1)] fresh_row_epoch [OF row(1)]
    by (intro that [of "row_event row"]) (simp add: new_event_def)
qed

section \<open>What new rows do to the coordinator projection\<close>

lemma coordinator_granted:
  assumes wf: "wf_ledger es" and g: "g \<in> set es" "is_event ''coordinator'' ''granted'' g"
    and top: "\<And>e. e \<in> set es \<Longrightarrow> e \<noteq> g \<Longrightarrow> is_event ''coordinator'' ''granted'' e \<Longrightarrow> event_epoch e < event_epoch g"
    and open_epoch: "\<And>r. r \<in> set es \<Longrightarrow> is_event ''coordinator'' ''released'' r \<Longrightarrow> event_epoch r \<noteq> event_epoch g"
  shows "reduce_coordinator es = coord_entry g"
proof (rule reduce_coordinator_eqI [OF wf g(1)])
  show "eligible es g" using g open_epoch by (auto simp: eligible_def)
  fix e assume e: "e \<in> set es" "eligible es e"
  then have "is_event ''coordinator'' ''granted'' e" using g by (auto simp: eligible_def split: if_splits)
  with top [OF e(1)] show "coord_key e \<le> coord_key g"
    by (cases "e = g") (auto simp: coord_key_def)
qed

definition role_neutral :: "event list \<Rightarrow> event \<Rightarrow> bool" where
  "role_neutral es e \<longleftrightarrow> \<not> is_event ''coordinator'' ''granted'' e \<and> \<not> is_event ''coordinator'' ''released'' e \<and>
     (is_event ''coordinator'' ''claimed'' e \<longrightarrow> (\<exists>g \<in> set es. is_event ''coordinator'' ''granted'' g))"

lemma coordinator_unchanged:
  assumes wf: "wf_ledger es'" and sub: "set es \<subseteq> set es'"
    and new: "\<And>e. e \<in> set es' \<Longrightarrow> e \<notin> set es \<Longrightarrow> role_neutral es e"
  shows "reduce_coordinator es' = reduce_coordinator es"
proof -
  have wf_es: "wf_ledger es" using wf sub by (rule wf_ledger_subset)
  have granted: "(\<exists>g \<in> set es'. is_event ''coordinator'' ''granted'' g) \<longleftrightarrow> (\<exists>g \<in> set es. is_event ''coordinator'' ''granted'' g)"
    using sub new by (auto simp: role_neutral_def)
  have released: "(\<exists>r \<in> set es'. is_event ''coordinator'' ''released'' r \<and> event_epoch r = n) \<longleftrightarrow>
      (\<exists>r \<in> set es. is_event ''coordinator'' ''released'' r \<and> event_epoch r = n)" for n
    using sub new by (auto simp: role_neutral_def)
  have same: "eligible es' e \<longleftrightarrow> eligible es e" for e
    unfolding eligible_def granted released ..
  have old: "e \<in> set es" if "e \<in> set es'" "eligible es e" for e
    using that new [OF that(1)] by (auto simp: eligible_def role_neutral_def split: if_splits)
  from wf_es show ?thesis
  proof (cases rule: reduce_coordinator_cases)
    case (winner e)
    then have "reduce_coordinator es' = coord_entry e"
      using sub same old by (intro reduce_coordinator_eqI [OF wf]) auto
    with winner(4) show ?thesis by simp
  next
    case vacant
    with wf show ?thesis
      by (cases rule: reduce_coordinator_cases) (use same old in auto)
  qed
qed

lemma epoch_above: "e \<in> set (coord_events s) \<Longrightarrow> event_epoch e < max 1 (store_max_epoch s + 1)"
  using max_epoch_ge [of e "coord_events s"] by (simp add: store_max_epoch_def)

section \<open>Claiming\<close>

lemma plain_coordinator_payload: "plain (opt_dict (Some (coordinator_payload node mode isolated to_node)))"
  by (auto simp: coordinator_payload_def opt_dict_def)

lemma canon_str [simp]: "canon (PStr s) = PStr s" "canon (PInt i) = PInt i" "canon (PBool b) = PBool b" "canon PNone = PNone"
  by simp_all

text \<open>The two rows of a successful claim make the node the holder.\<close>

lemma claimed_and_granted:
  assumes ok: "ledger_ok s" and node: "st_node s \<noteq> []"
    and claimed: "coordinator_event ''claimed'' s1 n (Some (coordinator_payload node mode isolated None)) s = (Inr a, t)"
    and granted: "coordinator_event ''granted'' s2 n (Some (coordinator_payload node mode isolated None)) t = (Inr b, s')"
    and n: "n = max 1 (store_max_epoch s + 1)"
  obtains "ledger_ok s'" "goes_on s s'" "grows s s'" "cp_holder (current_coordinator s') = PStr (st_node s)"
    "cp_epoch (current_coordinator s') = n" "cp_mode (current_coordinator s') = (if mode = ''pinned'' then ''pinned'' else ''roaming'')"
    "cp_id (current_coordinator s') = Some (ar_id b)" "store_max_epoch s' = n" "cp_iso (current_coordinator s') = isolated"
    "\<exists>c g. set (coord_events s') = {c, g} \<union> set (coord_events s) \<and> is_event ''coordinator'' ''claimed'' c \<and>
       is_event ''coordinator'' ''granted'' g \<and> event_epoch c = n \<and> event_epoch g = n"
proof -
  let ?p = "coordinator_payload node mode isolated None"
  obtain ec where ec: "new_event s t a ec ''coordinator'' ''claimed'' None (Some n) ?p"
    using event_new [OF claimed [unfolded coordinator_event_def] ok plain_coordinator_payload] by auto
  note c = new_eventD [OF ec]
  obtain eg where eg: "new_event t s' b eg ''coordinator'' ''granted'' None (Some n) ?p"
    using event_new [OF granted [unfolded coordinator_event_def] c(11) plain_coordinator_payload] by auto
  note g = new_eventD [OF eg]
  have low: "event_epoch e < n" if "e \<in> set (coord_events s)" for e
    using epoch_above [OF that] n by simp
  have win: "current_coordinator s' = coord_entry eg"
    unfolding current_coordinator_def
  proof (rule coordinator_granted)
    show "wf_ledger (coord_events s')" using g(11) by (rule wf_coord_events)
    show "eg \<in> set (coord_events s')" by (simp add: g(1))
    show "is_event ''coordinator'' ''granted'' eg" by (simp add: g(15))
    fix e assume e: "e \<in> set (coord_events s')"
    consider "e = eg" | "e = ec" | "e \<in> set (coord_events s)" using e unfolding g(1) c(1) by blast
    note by_source = this
    have eg_n: "event_epoch eg = n" by (simp add: g(8))
    show "event_epoch e < event_epoch eg" if "e \<noteq> eg" "is_event ''coordinator'' ''granted'' e"
      using that by_source low [of e] unfolding eg_n by (cases "e = ec") (auto simp: c(15))
    show "event_epoch e \<noteq> event_epoch eg" if "is_event ''coordinator'' ''released'' e"
      using that by_source low [of e] unfolding eg_n by (cases "e = ec"; cases "e = eg") (auto simp: c(15) g(15))
  qed
  have payload: "dget (ev_payload_dict eg) ''to_node'' = PNone" "dget (ev_payload_dict eg) ''mode'' = PStr mode"
      "dget (ev_payload_dict eg) ''iso'' = (if isolated then PBool True else PNone)"
    by (simp_all add: g(9) coordinator_payload_def)
  have grow: "grows s s'" using c(10) g(10) by (rule growth.trans)
  show thesis
  proof (rule that)
    show "cp_holder (current_coordinator s') = PStr (st_node s)"
      by (simp add: win coordinator_holder_def payload g(6) c(12) Let_def)
    show "cp_mode (current_coordinator s') = (if mode = ''pinned'' then ''pinned'' else ''roaming'')"
      by (simp add: win coordinator_mode_def payload Let_def)
    show "cp_iso (current_coordinator s') = isolated"
      by (simp add: win coord_entry_def payload Let_def)
    show "store_max_epoch s' = n"
      unfolding store_max_epoch_def max_epoch_eq g(1) c(1) using low n
      by (intro Max_eqI) (auto simp: g(8) c(8) intro: less_imp_le)
    show "\<exists>c g. set (coord_events s') = {c, g} \<union> set (coord_events s) \<and> is_event ''coordinator'' ''claimed'' c \<and>
       is_event ''coordinator'' ''granted'' g \<and> event_epoch c = n \<and> event_epoch g = n"
      by (intro exI [of _ ec] exI [of _ eg]) (auto simp: g(1,8,15) c(1,8,15))
  qed (use win g(7,8,11) grow in \<open>simp_all add: growsD\<close>)
qed

lemma append_raised:
  "append_coord_event kind marker summary scope epoch payload project source s = (Inl e, s') \<Longrightarrow>
     coord_events s' = coord_events s"
  by (erule append_coord_event_cases) (auto simp: coord_events_def)

lemma claim_vacant_takes:
  assumes ok: "ledger_ok s" and node: "st_node s \<noteq> []"
    and run: "claim_vacant summary (st_node s) mode isolated (max 1 (store_max_epoch s + 1)) s = (Inr r, s')"
  obtains "ledger_ok s'" "goes_on s s'" "grows s s'" "cp_holder (current_coordinator s') = PStr (st_node s)"
    "cp_epoch (current_coordinator s') = max 1 (store_max_epoch s + 1)"
    "cp_mode (current_coordinator s') = (if mode = ''pinned'' then ''pinned'' else ''roaming'')"
    "cp_iso (current_coordinator s') = isolated" "store_max_epoch s' = max 1 (store_max_epoch s + 1)"
    "dget r ''epoch'' = PInt (max 1 (store_max_epoch s + 1))" "dget r ''status'' = PStr ''OK''"
    "\<exists>c g. set (coord_events s') = {c, g} \<union> set (coord_events s) \<and> is_event ''coordinator'' ''claimed'' c \<and>
       is_event ''coordinator'' ''granted'' g \<and> event_epoch c = max 1 (store_max_epoch s + 1) \<and>
       event_epoch g = max 1 (store_max_epoch s + 1)"
proof -
  let ?n = "max 1 (store_max_epoch s + 1)" and ?p = "Some (coordinator_payload (st_node s) mode isolated None)"
  obtain a b t s1 s2 where
    c: "coordinator_event ''claimed'' s1 ?n ?p s = (Inr a, t)" and
    g: "coordinator_event ''granted'' s2 ?n ?p t = (Inr b, s')" and
    r: "dget r ''epoch'' = PInt ?n" "dget r ''status'' = PStr ''OK''"
    using run unfolding claim_vacant_def Let_def
    by (elim seq_InrE) (auto simp: dget_def)
  from claimed_and_granted [OF ok node c g refl] r show thesis by (metis that)
qed

lemma claim_runs: "(isolated \<longrightarrow> \<not> st_synced s) \<Longrightarrow> claim_coordinator mode isolated summary s = claim_role mode isolated summary s"
  by (auto simp: claim_coordinator_def seq_def assert_isolated_def)

lemma claim_takes:
  assumes "ledger_ok s" "st_node s \<noteq> []" "isolated \<longrightarrow> \<not> st_synced s"
    and "cp_holder (current_coordinator s) = PNone \<or> cp_holder (current_coordinator s) = PStr (st_node s)"
    and "claim_coordinator mode isolated summary s = (Inr r, s')"
  shows "cp_holder (current_coordinator s') = PStr (st_node s)"
    "cp_epoch (current_coordinator s') = max 1 (store_max_epoch s + 1)"
    "cp_mode (current_coordinator s') = (if mode = ''pinned'' then ''pinned'' else ''roaming'')"
    "cp_iso (current_coordinator s') = isolated" "store_max_epoch s' = max 1 (store_max_epoch s + 1)"
    "ledger_ok s'" "goes_on s s'"
    "\<exists>c g. set (coord_events s') = {c, g} \<union> set (coord_events s) \<and> is_event ''coordinator'' ''claimed'' c \<and>
       is_event ''coordinator'' ''granted'' g \<and> event_epoch c = max 1 (store_max_epoch s + 1) \<and>
       event_epoch g = max 1 (store_max_epoch s + 1)"
proof -
  let ?mode = "if mode = ''roaming'' \<or> mode = ''pinned'' then mode else ''roaming''"
  have run: "claim_vacant summary (st_node s) ?mode isolated (max 1 (store_max_epoch s + 1)) s = (Inr r, s')"
    using assms(5) assms(4) unfolding claim_runs [OF assms(3)] claim_role_def Let_def by auto
  have mode: "(if ?mode = ''pinned'' then ''pinned'' else ''roaming'') = (if mode = ''pinned'' then ''pinned'' else ''roaming'')"
    by simp
  from claim_vacant_takes [OF assms(1,2) run, unfolded mode]
  show "cp_holder (current_coordinator s') = PStr (st_node s)"
    "cp_epoch (current_coordinator s') = max 1 (store_max_epoch s + 1)"
    "cp_mode (current_coordinator s') = (if mode = ''pinned'' then ''pinned'' else ''roaming'')"
    "cp_iso (current_coordinator s') = isolated" "store_max_epoch s' = max 1 (store_max_epoch s + 1)"
    "ledger_ok s'" "goes_on s s'"
    "\<exists>c g. set (coord_events s') = {c, g} \<union> set (coord_events s) \<and> is_event ''coordinator'' ''claimed'' c \<and>
       is_event ''coordinator'' ''granted'' g \<and> event_epoch c = max 1 (store_max_epoch s + 1) \<and>
       event_epoch g = max 1 (store_max_epoch s + 1)"
    by blast+
qed

text \<open>The same without the payload: whatever an append does, at most one row of its kind is new.\<close>

lemma append_any:
  assumes run: "append_coord_event kind marker summary scope epoch payload project None s = (r, s')" and ok: "ledger_ok s"
  obtains "coord_events s' = coord_events s" "isl r" "ledger_ok s'" "goes_on s s'"
  | e where "set (coord_events s') = insert e (set (coord_events s))" "ev_kind e = Some kind" "ev_marker e = Some marker"
      "ev_scope e = scope" "event_epoch e = (case epoch of None \<Rightarrow> - 1 | Some n \<Rightarrow> n)" "ledger_ok s'" "goes_on s s'" "\<not> isl r"
proof (cases r)
  case (Inl e)
  have "grows s s'" using append_grows run by (rule keepsD)
  with Inl run ok append_raised show thesis by (intro that(1)) (auto dest: growsD)
next
  case (Inr a)
  show thesis
    using run [unfolded Inr] ok
  proof (rule append_new)
    fix row assume row: "fresh_row s kind marker scope epoch payload project None row" "ledger_ok s'" "grows s s'"
      "set (coord_events s') = insert (row_event row) (set (coord_events s))"
    then show thesis
      using Inr fresh_row_simps [OF row(1)] fresh_row_epoch [OF row(1)]
      by (intro that(2) [of "row_event row"]) (auto dest: growsD)
  qed
qed

lemma contested_keeps:
  assumes ok: "ledger_ok s" and granted: "\<exists>g \<in> set (coord_events s). is_event ''coordinator'' ''granted'' g"
    and run: "claim_contested summary node mode isolated c n s = (r, s')"
  shows "current_coordinator s' = current_coordinator s"
proof -
  let ?p = "Some (coordinator_payload node mode isolated None)"
  define first where "first = str_or summary (''Coordinator claim (contested) at epoch '' @ int_str n @ ''.'')"
  obtain r1 t where one: "append_coord_event ''coordinator'' ''claimed'' first None (Some n) ?p None None s = (r1, t)" by fastforce
  have t: "ledger_ok t" "set (coord_events s) \<subseteq> set (coord_events t)"
    "\<And>e. e \<in> set (coord_events t) \<Longrightarrow> e \<notin> set (coord_events s) \<Longrightarrow> role_neutral (coord_events s) e"
    using one ok by (auto elim!: append_any simp: role_neutral_def is_event_def granted [unfolded is_event_def])
  show ?thesis
  proof (cases r1)
    case (Inl e)
    then have "s' = t" using run one by (auto simp: claim_contested_def coordinator_event_def first_def seq_def)
    with t show ?thesis
      unfolding current_coordinator_def by (intro coordinator_unchanged wf_coord_events) auto
  next
    case (Inr a)
    obtain r2 u where two: "contested_conflict ''Contested coordinator claim recorded; current holder unchanged (roaming).'' False c n t = (r2, u)"
      by fastforce
    have "s' = u" using run one two Inr
      by (auto simp: claim_contested_def coordinator_event_def first_def seq_def split: sum.splits)
    with two t show ?thesis
      unfolding current_coordinator_def contested_conflict_def
      by (intro coordinator_unchanged wf_coord_events) (auto elim!: append_any simp: role_neutral_def is_event_def)
  qed
qed

lemma claim_against_holder:
  assumes ok: "ledger_ok s" and granted: "\<exists>g \<in> set (coord_events s). is_event ''coordinator'' ''granted'' g"
    and holder: "cp_holder (current_coordinator s) \<noteq> PNone" "cp_holder (current_coordinator s) \<noteq> PStr (st_node s)"
    and run: "claim_coordinator mode False summary s = (r, s')"
  shows "current_coordinator s' = current_coordinator s"
    and "cp_mode (current_coordinator s) = ''pinned'' \<Longrightarrow> r = Inl (diverged (st_node s) (current_coordinator s)) \<and> s' = s"
    and "r = Inr v \<Longrightarrow> dget v ''status'' = PStr ''RECORDED'' \<and> dget v ''contested'' = PBool True"
proof -
  have claim: "claim_coordinator mode False summary s = claim_role mode False summary s"
    by (simp add: claim_runs)
  show "cp_mode (current_coordinator s) = ''pinned'' \<Longrightarrow> r = Inl (diverged (st_node s) (current_coordinator s)) \<and> s' = s"
    using run holder by (auto simp: claim claim_role_def Let_def)
  show "current_coordinator s' = current_coordinator s"
    using run holder contested_keeps [OF ok granted]
    by (auto simp: claim claim_role_def Let_def split: if_splits)
  show "r = Inr v \<Longrightarrow> dget v ''status'' = PStr ''RECORDED'' \<and> dget v ''contested'' = PBool True"
    using run holder
    by (auto simp: claim claim_role_def claim_contested_def Let_def dget_def split: if_splits elim!: seq_InrE)
qed

section \<open>Transfer and release\<close>

lemma require_ok: "require_coordinator s = (Inr c, t) \<Longrightarrow> t = s \<and> c = current_coordinator s \<and> cp_holder c = PStr (st_node s)"
  by (auto simp: require_coordinator_def Let_def split: if_splits)

lemma fence_ok: "fence_check assumed n scope s = (Inr u, t) \<Longrightarrow> t = s \<and> (assumed = None \<or> assumed = Some n)"
  by (auto simp: fence_check_def split: option.splits if_splits elim!: seq_InrE)

lemma transfer_hands_over:
  assumes ok: "ledger_ok s" and to_node: "to_node \<noteq> []"
    and run: "transfer_coordinator to_node isolated summary assumed s = (Inr r, s')"
  shows "cp_holder (current_coordinator s) = PStr (st_node s)"
    and "assumed = None \<or> assumed = Some (cp_epoch (current_coordinator s))"
    and "cp_holder (current_coordinator s') = PStr to_node"
    and "cp_epoch (current_coordinator s') = store_max_epoch s + 1"
    and "cp_mode (current_coordinator s') = (if cp_mode (current_coordinator s) = ''pinned'' then ''pinned'' else ''roaming'')"
    and "ledger_ok s'"
proof -
  let ?c = "current_coordinator s" and ?p = "Some (coordinator_payload (st_node s) (cp_mode (current_coordinator s)) isolated (Some to_node))"
  define n where "n = max (cp_epoch ?c) (store_max_epoch s) + 1"
  obtain a b t s1 s2 where first: "coordinator_event ''released'' s1 (cp_epoch ?c) (Some [(''to_node'', PStr to_node)]) s = (Inr a, t)"
    and second: "coordinator_event ''granted'' s2 n ?p t = (Inr b, s')"
    and gate: "cp_holder ?c = PStr (st_node s)" "assumed = None \<or> assumed = Some (cp_epoch ?c)"
    using run unfolding transfer_coordinator_def Let_def n_def
    by (elim seq_InrE) (auto dest!: require_ok fence_ok)
  have cur: "cp_epoch ?c \<le> store_max_epoch s"
    using wf_coord_events [OF ok] gate(1)
    by (cases rule: reduce_coordinator_cases) (auto simp: current_coordinator_def store_max_epoch_def max_epoch_ge)
  then have n: "n = store_max_epoch s + 1" by (simp add: n_def)
  have low: "event_epoch e < n" if "e \<in> set (coord_events s)" for e
    using max_epoch_ge [OF that] by (simp add: n store_max_epoch_def)
  obtain er where er: "new_event s t a er ''coordinator'' ''released'' None (Some (cp_epoch ?c)) [(''to_node'', PStr to_node)]"
    using event_new [OF first [unfolded coordinator_event_def] ok] by (auto simp: opt_dict_def)
  note r = new_eventD [OF er]
  obtain eg where eg: "new_event t s' b eg ''coordinator'' ''granted'' None (Some n)
      (coordinator_payload (st_node s) (cp_mode ?c) isolated (Some to_node))"
    using event_new [OF second [unfolded coordinator_event_def] r(11) plain_coordinator_payload] by auto
  note g = new_eventD [OF eg]
  have win: "current_coordinator s' = coord_entry eg"
    unfolding current_coordinator_def
  proof (rule coordinator_granted)
    show "wf_ledger (coord_events s')" using g(11) by (rule wf_coord_events)
    show "eg \<in> set (coord_events s')" by (simp add: g(1))
    show "is_event ''coordinator'' ''granted'' eg" by (simp add: g(15))
    fix e assume e: "e \<in> set (coord_events s')"
    consider "e = eg" | "e = er" | "e \<in> set (coord_events s)" using e unfolding g(1) r(1) by blast
    note by_source = this
    have eg_n: "event_epoch eg = n" and er_n: "event_epoch er < n" using cur by (simp_all add: g(8) r(8) n)
    show "event_epoch e < event_epoch eg" if "e \<noteq> eg"
      using that by_source low [of e] er_n unfolding eg_n by blast
    show "event_epoch e \<noteq> event_epoch eg" if "is_event ''coordinator'' ''released'' e"
      using that by_source low [of e] er_n unfolding eg_n by (cases "e = eg") (auto simp: g(15))
  qed
  have payload: "dget (ev_payload_dict eg) ''to_node'' = PStr to_node" "dget (ev_payload_dict eg) ''mode'' = PStr (cp_mode ?c)"
    using to_node by (simp_all add: g(9) coordinator_payload_def)
  show "cp_holder (current_coordinator s) = PStr (st_node s)" "assumed = None \<or> assumed = Some (cp_epoch ?c)" "ledger_ok s'"
    using gate g(11) by blast+
  show "cp_holder (current_coordinator s') = PStr to_node" "cp_epoch (current_coordinator s') = store_max_epoch s + 1"
    using to_node by (simp_all add: win coordinator_holder_def payload Let_def g(8) n)
  show "cp_mode (current_coordinator s') = (if cp_mode ?c = ''pinned'' then ''pinned'' else ''roaming'')"
    by (simp add: win coordinator_mode_def payload Let_def)
qed

text \<open>After a release of epoch \<open>n\<close> the projection is that of the ledger without the claims of \<open>n\<close>.\<close>

lemma release_fences:
  assumes ok: "ledger_ok s" and run: "release_coordinator summary s = (Inr r, s')"
  shows "cp_holder (current_coordinator s) = PStr (st_node s)" and "ledger_ok s'"
    and "cp_epoch (current_coordinator s') < cp_epoch (current_coordinator s) \<or> current_coordinator s' = no_coordinator"
    and "\<exists>e. set (coord_events s') = insert e (set (coord_events s)) \<and> is_event ''coordinator'' ''released'' e \<and>
      event_epoch e = cp_epoch (current_coordinator s)"
proof -
  let ?c = "current_coordinator s"
  obtain a s1 where one: "coordinator_event ''released'' s1 (cp_epoch ?c) None s = (Inr a, s')"
    and gate: "cp_holder ?c = PStr (st_node s)"
    using run unfolding release_coordinator_def Let_def by (elim seq_InrE) (auto dest!: require_ok)
  obtain er where er: "new_event s s' a er ''coordinator'' ''released'' None (Some (cp_epoch ?c)) []"
    using event_new [OF one [unfolded coordinator_event_def] ok] by (auto simp: opt_dict_def)
  note r = new_eventD [OF er]
  show "cp_holder ?c = PStr (st_node s)" "ledger_ok s'" using gate r(11) by blast+
  show "\<exists>e. set (coord_events s') = insert e (set (coord_events s)) \<and> is_event ''coordinator'' ''released'' e \<and> event_epoch e = cp_epoch ?c"
    by (rule exI [of _ er]) (simp add: r(1,8,15))
  have elig: "eligible (coord_events s') e \<longleftrightarrow> eligible (coord_events s) e \<and> event_epoch e \<noteq> cp_epoch ?c" for e
    unfolding eligible_def r(1) by (auto simp: r(8,15))
  have w: "event_epoch e \<le> cp_epoch ?c" if "e \<in> set (coord_events s)" "eligible (coord_events s) e" for e
    using wf_coord_events [OF ok] gate that
    by (cases rule: reduce_coordinator_cases) (force simp: current_coordinator_def coord_key_def)+
  show "cp_epoch (current_coordinator s') < cp_epoch ?c \<or> current_coordinator s' = no_coordinator"
    using wf_coord_events [OF r(11)]
  proof (cases rule: reduce_coordinator_cases)
    case (winner e)
    then have "e \<in> set (coord_events s)" "eligible (coord_events s) e" "event_epoch e \<noteq> cp_epoch ?c"
      using elig [of e] r(8) by (auto simp: r(1) eligible_def is_event_def r(3,4))
    with w [of e] winner(4) show ?thesis by (simp add: current_coordinator_def)
  next
    case vacant
    then show ?thesis by (simp add: current_coordinator_def)
  qed
qed

section \<open>Refusals\<close>

lemma grantor_only:
  assumes "cp_holder (current_coordinator s) \<noteq> PStr (st_node s)"
    and "op \<in> {transfer_coordinator to_node isolated summary assumed, release_coordinator summary,
       grant_lease scope holder mode ttl summary assumed, renew_lease scope mode ttl summary assumed,
       revoke_lease scope summary assumed}"
  shows "op s = (Inl (not_coordinator (st_node s) (current_coordinator s)), s)"
proof -
  have "require_coordinator s = (Inl (not_coordinator (st_node s) (current_coordinator s)), s)"
    using assms(1) by (simp add: require_coordinator_def Let_def)
  then show ?thesis
    using assms(2) by (auto simp: transfer_coordinator_def release_coordinator_def grant_lease_def renew_lease_def revoke_lease_def)
qed

lemma fence_stale:
  assumes run: "fence_check (Some a) n scope s = (r, t)" and stale: "a \<noteq> n" and ok: "ledger_ok s"
  shows "isl r \<and> (coord_events t = coord_events s \<or>
    (\<exists>e. set (coord_events t) = insert e (set (coord_events s)) \<and> is_event ''conflict'' ''detected'' e \<and>
       ev_scope e = scope \<and> r = Inl (stale_fence a n scope)))"
proof -
  let ?p = "Some ([(''would_block'', PStr ''DENIED_STALE_FENCE''), (''assumed_epoch'', PInt a),
                      (''current_epoch'', PInt n)] @ scope_entry scope)"
  obtain q u where append: "append_coord_event ''conflict'' ''detected''
      ''Epoch-fence denied (stale assumed epoch); split-brain control refused.'' scope None ?p None None s = (q, u)"
    by fastforce
  have r: "t = u" "case q of Inl e \<Rightarrow> r = Inl e | Inr _ \<Rightarrow> r = Inl (stale_fence a n scope)"
    using run stale append by (auto simp: fence_check_def seq_def split: sum.splits)
  from append ok show ?thesis
  proof (rule append_any)
    assume "coord_events u = coord_events s" "isl q"
    with r show ?thesis by (cases q) auto
  next
    fix e assume "set (coord_events u) = insert e (set (coord_events s))" "ev_kind e = Some ''conflict''"
      "ev_marker e = Some ''detected''" "ev_scope e = scope" "\<not> isl q"
    with r show ?thesis by (cases q) (auto simp: is_event_def)
  qed
qed

lemma fence_first:
  assumes run: "seq (fence_check (Some a) n scope) k s = (r, s')" and stale: "a \<noteq> n" and ok: "ledger_ok s"
  shows "isl r \<and> (coord_events s' = coord_events s \<or>
    (\<exists>e. set (coord_events s') = insert e (set (coord_events s)) \<and> is_event ''conflict'' ''detected'' e \<and>
       r = Inl (stale_fence a n scope)))"
proof -
  obtain q t where f: "fence_check (Some a) n scope s = (q, t)" by fastforce
  note stale = fence_stale [OF f stale ok]
  then obtain e where q: "q = Inl e" by (cases q) auto
  with run f have "r = Inl e" "s' = t" by (auto simp: seq_def)
  with stale q show ?thesis by auto
qed

lemma stale_grantor:
  assumes ok: "ledger_ok s" and holder: "cp_holder (current_coordinator s) = PStr (st_node s)"
    and stale: "a \<noteq> cp_epoch (current_coordinator s)"
    and op: "op \<in> {transfer_coordinator to_node isolated summary (Some a),
       grant_lease scope holder mode ttl summary (Some a), renew_lease scope mode ttl summary (Some a),
       revoke_lease scope summary (Some a)}"
    and run: "op s = (r, s')"
  shows "isl r \<and> (coord_events s' = coord_events s \<or>
    (\<exists>e. set (coord_events s') = insert e (set (coord_events s)) \<and> is_event ''conflict'' ''detected'' e \<and>
       exn_code (projl r) = ''DENIED_STALE_FENCE''))"
proof -
  let ?n = "cp_epoch (current_coordinator s)"
  have req: "seq require_coordinator k s = k (current_coordinator s) s" for k :: "coord_proj \<Rightarrow> pydict act"
    using holder by (simp add: seq_def require_coordinator_def Let_def)
  from op consider "op = transfer_coordinator to_node isolated summary (Some a)"
    | "op = grant_lease scope holder mode ttl summary (Some a)" | "op = renew_lease scope mode ttl summary (Some a)"
    | "op = revoke_lease scope summary (Some a)" by blast
  then obtain sc k where "op s = seq (fence_check (Some a) ?n sc) k s"
    by cases (simp_all only: transfer_coordinator_def grant_lease_def renew_lease_def revoke_lease_def req)
  with run have "seq (fence_check (Some a) ?n sc) k s = (r, s')" by simp
  from fence_first [OF this stale ok] show ?thesis by (auto simp: stale_fence_def denied2_def)
qed

section \<open>Claiming twice and releasing once\<close>

text \<open>
  A holder that claims again appends a second grant, at the next epoch; its release fences that
  epoch only, so the first grant is the winner again.
\<close>

lemma double_claim:
  assumes ok: "ledger_ok s" and node: "st_node s \<noteq> []" and vacant: "cp_holder (current_coordinator s) = PNone"
    and one: "claim_coordinator m1 False x1 s = (Inr r1, s1)"
    and two: "claim_coordinator m2 False x2 s1 = (Inr r2, s2)"
    and rel: "release_coordinator x3 s2 = (Inr r3, s3)"
  shows "current_coordinator s3 = current_coordinator s1"
    and "cp_holder (current_coordinator s1) = PStr (st_node s)"
proof -
  note a = claim_takes [OF ok node _ _ one, simplified, OF disjI1 [OF vacant]]
  have node1: "st_node s1 = st_node s" using a(7) by (simp add: goes_on_def)
  note b = claim_takes [OF a(6) _ _ _ two, simplified, unfolded node1, OF node disjI2 [OF a(1)]]
  have node2: "st_node s2 = st_node s" using b(7) node1 by (simp add: goes_on_def)
  note c = release_fences [OF b(6) rel, unfolded node2]
  show "cp_holder (current_coordinator s1) = PStr (st_node s)" by (rule a(1))
  let ?n = "store_max_epoch s1"
  obtain c1 g1 where one': "set (coord_events s1) = {c1, g1} \<union> set (coord_events s)" "is_event ''coordinator'' ''claimed'' c1"
    "is_event ''coordinator'' ''granted'' g1" "event_epoch g1 = ?n" using a(8) unfolding a(5) by blast
  obtain c2 g2 where two': "set (coord_events s2) = {c2, g2} \<union> set (coord_events s1)" "is_event ''coordinator'' ''claimed'' c2"
    "is_event ''coordinator'' ''granted'' g2" "event_epoch g2 = ?n + 1" using b(8) a(5) by auto
  obtain r where rel': "set (coord_events s3) = insert r (set (coord_events s2))" "is_event ''coordinator'' ''released'' r"
    "event_epoch r = ?n + 1" using c(4) b(2) a(5) by auto
  have s3: "set (coord_events s3) = {r, c2, g2, c1, g1} \<union> set (coord_events s)"
    unfolding rel'(1) two'(1) one'(1) by blast
  have low: "event_epoch e < ?n" if "e \<in> set (coord_events s)" for e
    using epoch_above [OF that] a(5) by simp
  have not_released: "\<not> is_event ''coordinator'' ''released'' e" if "e \<in> {c1, g1, c2, g2}" for e
    using that one'(2,3) two'(2,3) by (auto simp: is_event_def)
  have not_granted: "\<not> is_event ''coordinator'' ''granted'' e" if "e \<in> {c1, c2, r}" for e
    using that one'(2) two'(2) rel'(2) by (auto simp: is_event_def)
  have "current_coordinator s1 = coord_entry g1"
    unfolding current_coordinator_def
  proof (rule coordinator_granted [OF wf_coord_events [OF a(6)]])
    fix e assume e: "e \<in> set (coord_events s1)"
    then have cases: "e = c1 \<or> e = g1 \<or> e \<in> set (coord_events s)" by (simp add: one'(1))
    show "event_epoch e < event_epoch g1" if "e \<noteq> g1" "is_event ''coordinator'' ''granted'' e"
      using cases that low [of e] not_granted [of e] one'(4) by auto
    show "event_epoch e \<noteq> event_epoch g1" if "is_event ''coordinator'' ''released'' e"
      using cases that low [of e] not_released [of e] one'(4) by auto
  qed (simp_all add: one'(1,3))
  moreover have "current_coordinator s3 = coord_entry g1"
    unfolding current_coordinator_def
  proof (rule reduce_coordinator_eqI [OF wf_coord_events [OF c(2)]])
    show g1: "g1 \<in> set (coord_events s3)" by (simp add: s3)
    have open_g1: "event_epoch e \<noteq> ?n" if "e \<in> set (coord_events s3)" "is_event ''coordinator'' ''released'' e" for e
      using that low [of e] not_released [of e] rel'(3) by (auto simp: s3)
    show "eligible (coord_events s3) g1"
      using g1 one'(3,4) open_g1 by (auto simp: eligible_def)
    fix e assume e: "e \<in> set (coord_events s3)" "eligible (coord_events s3) e"
    then have "is_event ''coordinator'' ''granted'' e" "event_epoch e \<noteq> ?n + 1"
      using g1 one'(3) rel' by (auto simp: eligible_def split: if_splits)
    then consider "e = g1" | "event_epoch e < ?n"
      using e(1) low [of e] not_granted [of e] two'(4) by (auto simp: s3)
    then show "coord_key e \<le> coord_key g1"
      by cases (auto simp: coord_key_def one'(4))
  qed
  ultimately show "current_coordinator s3 = current_coordinator s1" by simp
qed

end
