(* ===== verification/Coord_Theorems.thy ===== *)
theory Coord_Theorems imports Coord_Laws begin

text \<open>
  The properties of the coordinator role, each with a run of the sample store that meets its
  hypotheses.
\<close>

section \<open>Runs of the ideal stores\<close>

lemma append_goes:
  assumes s: "ideal (Suc (Suc n)) s" and km: "kind_marker_ok kind marker"
    and fit: "texts_fit (st_node s) summary scope project" and e: "case epoch of None \<Rightarrow> True | Some m \<Rightarrow> 0 \<le> m"
    and c: "list_all (\<lambda>(name, v). clean v) (redaction_fields summary scope payload)"
  obtains a s' where "append_coord_event kind marker summary scope epoch payload project None s = (Inr a, s')" "ideal n s'"
    "goes_on s s'"
proof -
  have "append_gate (st_env s) (st_node s) kind marker summary scope epoch payload project = Inr ()"
    using append_gate_iff idealD(2) [OF s] km fit e c by blast
  from append_returns [OF s this] obtain a s' where
    run: "append_coord_event kind marker summary scope epoch payload project None s = (Inr a, s')" "ideal n s'" .
  have "goes_on s s'" using growsD(1) [OF keepsD [OF append_grows run(1)]] .
  with run show thesis by (rule that)
qed

lemma role_pairs: "kind_marker_ok ''coordinator'' ''claimed''" "kind_marker_ok ''coordinator'' ''granted''"
    "kind_marker_ok ''coordinator'' ''released''" "kind_marker_ok ''conflict'' ''detected''"
    "kind_marker_ok ''lease'' ''granted''" "kind_marker_ok ''lease'' ''released''" "kind_marker_ok ''lease'' ''revoked''"
    "kind_marker_ok ''lease'' ''requested''" "kind_marker_ok ''lease'' ''expired''"
  by code_simp+

lemma clean_plain: "plain_text s \<Longrightarrow> clean (PStr s)"
  by (simp add: clean_def plain_text_clean)

lemmas field_simps_redaction = redaction_fields_def payload_redaction_fields_def note_field_def rendered_def dict_merge_def
  coordinator_payload_def scope_entry_def grant_payload_def

lemma claim_fields:
  assumes "plain_text x" "mode = ''roaming'' \<or> mode = ''pinned''"
  shows "list_all (\<lambda>(name, v). clean v) (redaction_fields x None (Some (coordinator_payload node mode False None)))"
proof -
  have "plain_text ''roaming''" "plain_text ''pinned''" "plain_text ''mode: roaming''" "plain_text ''mode: pinned''"
    by code_simp+
  with assms show ?thesis by (auto simp: field_simps_redaction clean_plain)
qed

text \<open>On an ideal store the claim of a vacant or own role always returns.\<close>

lemma claim_returns:
  assumes s: "ideal (n + 4) s" and free: "cp_holder (current_coordinator s) = PNone \<or> cp_holder (current_coordinator s) = PStr (st_node s)"
    and fit: "texts_fit (st_node s) x None None" "plain_text x"
  obtains r s' where "claim_coordinator mode False (Some x) s = (Inr r, s')" "ideal n s'" "goes_on s s'"
proof -
  define m where "m = (if mode = ''roaming'' \<or> mode = ''pinned'' then mode else ''roaming'')"
  define e where "e = max 1 (store_max_epoch s + 1)"
  have m: "m = ''roaming'' \<or> m = ''pinned''" and e: "0 \<le> e" by (auto simp: m_def e_def)
  have x: "str_or (Some x) d = x" for d using fit(1) by (auto simp: str_or_def texts_fit_def py_strip_def)
  have "ideal (Suc (Suc (n + 2))) s" using s by (simp add: numeral_eq_Suc)
  from append_goes [OF this role_pairs(1) fit(1) _ claim_fields [OF fit(2) m], of "Some e" "st_node s"] e
  obtain a t where one: "append_coord_event ''coordinator'' ''claimed'' x None (Some e) (Some (coordinator_payload (st_node s) m False None)) None None s = (Inr a, t)"
      "ideal (n + 2) t" "goes_on s t" by auto
  have "ideal (Suc (Suc n)) t" "st_node t = st_node s" using one by (simp_all add: numeral_eq_Suc goes_on_def)
  from append_goes [OF this(1) role_pairs(2) _ _ claim_fields [OF fit(2) m], of None "Some e" "st_node s"] e fit(1) this(2)
  obtain b u where two: "append_coord_event ''coordinator'' ''granted'' x None (Some e) (Some (coordinator_payload (st_node s) m False None)) None None t = (Inr b, u)"
      "ideal n u" "goes_on t u" by auto
  have "\<exists>r. claim_coordinator mode False (Some x) s = (Inr r, u)"
    using free one(1) two(1)
    by (auto simp: claim_runs claim_role_def claim_vacant_def coordinator_event_def Let_def x simp flip: m_def e_def)
  with two one(3) goes_on_trans show thesis by (auto intro: that)
qed

text \<open>The same for the transfer and the release by the holder.\<close>

lemma str_or_some: "texts_fit node x scope project \<Longrightarrow> str_or (Some x) d = x"
  by (auto simp: str_or_def texts_fit_def py_strip_def)

lemma epoch_of_holder:
  assumes "ledger_ok s" "cp_holder (current_coordinator s) \<noteq> PNone"
  shows "\<exists>e \<in> set (coord_events s). cp_epoch (current_coordinator s) = event_epoch e \<and> eligible (coord_events s) e \<and>
    cp_epoch (current_coordinator s) \<le> store_max_epoch s"
  using wf_coord_events [OF assms(1)] assms(2)
  by (cases rule: reduce_coordinator_cases) (auto simp: current_coordinator_def store_max_epoch_def max_epoch_ge)

lemma holder_required: "cp_holder (current_coordinator s) = PStr (st_node s) \<Longrightarrow>
    seq require_coordinator k s = k (current_coordinator s) s"
  by (simp add: seq_def require_coordinator_def Let_def)

lemma fence_open: "seq (fence_check None n scope) k = k ()"
  by (simp add: fence_check_def)

lemma transfer_returns:
  assumes s: "ideal (n + 4) s" and own: "cp_holder (current_coordinator s) = PStr (st_node s)"
    and epoch: "0 \<le> cp_epoch (current_coordinator s)"
    and mode: "cp_mode (current_coordinator s) = ''roaming'' \<or> cp_mode (current_coordinator s) = ''pinned''"
    and fit: "texts_fit (st_node s) x None None" "plain_text x" "plain_text to_node" "plain_text (''to_node: '' @ to_node)"
    and to_node: "to_node \<noteq> []"
  obtains r s' where "transfer_coordinator to_node False (Some x) None s = (Inr r, s')" "ideal n s'" "goes_on s s'"
proof -
  let ?c = "current_coordinator s"
  define e where "e = max (cp_epoch ?c) (store_max_epoch s) + 1"
  have e: "0 \<le> e" using epoch by (simp add: e_def)
  have words: "plain_text ''roaming''" "plain_text ''pinned''" "plain_text ''mode: roaming''" "plain_text ''mode: pinned''"
    by code_simp+
  have f1: "list_all (\<lambda>(name, v). clean v) (redaction_fields x None (Some [(''to_node'', PStr to_node)]))"
    using fit by (simp add: field_simps_redaction clean_plain)
  have f2: "list_all (\<lambda>(name, v). clean v)
      (redaction_fields x None (Some (coordinator_payload (st_node s) (cp_mode ?c) False (Some to_node))))"
    using fit to_node mode words by (auto simp: field_simps_redaction clean_plain)
  have "ideal (Suc (Suc (n + 2))) s" using s by (simp add: numeral_eq_Suc)
  from append_goes [OF this role_pairs(3) fit(1) _ f1, of "Some (cp_epoch ?c)"] epoch
  obtain a t where one: "append_coord_event ''coordinator'' ''released'' x None (Some (cp_epoch ?c)) (Some [(''to_node'', PStr to_node)]) None None s = (Inr a, t)"
      "ideal (n + 2) t" "goes_on s t" by auto
  have "ideal (Suc (Suc n)) t" "st_node t = st_node s" using one by (simp_all add: numeral_eq_Suc goes_on_def)
  from append_goes [OF this(1) role_pairs(2) _ _ f2, of None "Some e"] e fit(1) this(2)
  obtain b u where two: "append_coord_event ''coordinator'' ''granted'' x None (Some e)
        (Some (coordinator_payload (st_node s) (cp_mode ?c) False (Some to_node))) None None t = (Inr b, u)"
      "ideal n u" "goes_on t u" by auto
  have "\<exists>r. transfer_coordinator to_node False (Some x) None s = (Inr r, u)"
    using one(1) two(1)
    by (simp add: transfer_coordinator_def holder_required [OF own] fence_open coordinator_event_def Let_def
        str_or_some [OF fit(1)] flip: e_def)
  with two one(3) goes_on_trans show thesis by (auto intro: that)
qed

lemma release_returns:
  assumes s: "ideal (n + 2) s" and own: "cp_holder (current_coordinator s) = PStr (st_node s)"
    and epoch: "0 \<le> cp_epoch (current_coordinator s)" and fit: "texts_fit (st_node s) x None None" "plain_text x"
  obtains r s' where "release_coordinator (Some x) s = (Inr r, s')" "ideal n s'" "goes_on s s'"
proof -
  let ?c = "current_coordinator s"
  have f: "list_all (\<lambda>(name, v). clean v) (redaction_fields x None None)"
    using fit by (simp add: field_simps_redaction clean_plain)
  have "ideal (Suc (Suc n)) s" using s by (simp add: numeral_eq_Suc)
  from append_goes [OF this role_pairs(3) fit(1) _ f, of "Some (cp_epoch ?c)"] epoch
  obtain a t where "append_coord_event ''coordinator'' ''released'' x None (Some (cp_epoch ?c)) None None None s = (Inr a, t)"
      "ideal n t" "goes_on s t" by auto
  moreover from this(1) have "\<exists>r. release_coordinator (Some x) s = (Inr r, t)"
    by (simp add: release_coordinator_def holder_required [OF own] coordinator_event_def Let_def str_or_some [OF fit(1)])
  ultimately show thesis by (auto intro: that)
qed

section \<open>Claiming\<close>

text \<open>A claim that returns, on a ledger whose role is vacant or already the node's own, makes the
  node the coordinator in the projection every node computes, at an epoch above every row of the
  ledger, in the mode it asked for.\<close>

theorem claim_takes_role:
  assumes "ledger_ok s" "st_node s \<noteq> []" "isolated \<longrightarrow> \<not> st_synced s"
    and "cp_holder (current_coordinator s) = PNone \<or> cp_holder (current_coordinator s) = PStr (st_node s)"
    and "claim_coordinator mode isolated summary s = (Inr r, s')"
  shows "cp_holder (current_coordinator s') = PStr (st_node s) \<and>
    cp_epoch (current_coordinator s') = max 1 (store_max_epoch s + 1) \<and>
    (\<forall>e \<in> set (coord_events s). event_epoch e < cp_epoch (current_coordinator s')) \<and>
    cp_mode (current_coordinator s') = (if mode = ''pinned'' then ''pinned'' else ''roaming'') \<and>
    cp_iso (current_coordinator s') = isolated"
  using claim_takes(1-4) [OF assms] epoch_above by simp

lemma sample_start: "current_coordinator (sample_store synced) = no_coordinator" "ledger_ok (sample_store synced)"
    "store_max_epoch (sample_store synced) = - 1" "texts_fit ''n1'' ''ok'' None None" "plain_text ''ok''"
proof -
  show "texts_fit ''n1'' ''ok'' None None" "plain_text ''ok''" by code_simp+
  have "wf_ledger []" by (simp add: wf_ledger_def)
  then show "current_coordinator (sample_store synced) = no_coordinator"
    unfolding current_coordinator_def by (cases rule: reduce_coordinator_cases) simp_all
qed (simp_all add: idealD(1) [OF sample_ideal] store_max_epoch_def)

theorem claim_takes_role_witness:
  "\<exists>r s'. claim_coordinator ''pinned'' False (Some ''ok'') (sample_store False) = (Inr r, s') \<and>
     cp_holder (current_coordinator s') = PStr ''n1'' \<and> cp_epoch (current_coordinator s') = 1 \<and>
     cp_mode (current_coordinator s') = ''pinned''"
proof -
  have "ideal (996 + 4) (sample_store False)" using sample_ideal by simp
  then obtain r s' where
    run: "claim_coordinator ''pinned'' False (Some ''ok'') (sample_store False) = (Inr r, s')"
    by (rule claim_returns [where x = "''ok''" and mode = "''pinned''"]) (simp_all add: sample_start)
  from claim_takes_role [OF _ _ _ _ run] run show ?thesis by (auto simp: sample_start)
qed




text \<open>The sample store after its node has claimed the role.\<close>

lemma sample_own:
  assumes "mode = ''roaming'' \<or> mode = ''pinned''"
  obtains s where "ideal 996 s" "st_node s = ''n1''" "cp_holder (current_coordinator s) = PStr ''n1''"
    "cp_epoch (current_coordinator s) = 1" "cp_mode (current_coordinator s) = mode" "st_synced s = False"
    "store_max_epoch s = 1" "\<exists>g \<in> set (coord_events s). is_event ''coordinator'' ''granted'' g" "st_env s = sample_env"
    "\<forall>e \<in> set (coord_events s). ev_kind e = Some ''coordinator''" "\<not> cp_iso (current_coordinator s)"
proof -
  have "ideal (996 + 4) (sample_store False)" using sample_ideal by simp
  then obtain r t where one: "claim_coordinator mode False (Some ''ok'') (sample_store False) = (Inr r, t)" "ideal 996 t"
      "goes_on (sample_store False) t"
    by (rule claim_returns [where x = "''ok''" and mode = mode]) (simp_all add: sample_start)
  note c = claim_takes [OF _ _ _ _ one(1), simplified sample_start sample_simps, simplified]
  show thesis
  proof (rule that [of t])
    show "st_node t = ''n1''" "st_synced t = False" "st_env t = sample_env" using one(3) by (simp_all add: goes_on_def)
    show "\<forall>e \<in> set (coord_events t). ev_kind e = Some ''coordinator''"
      using c(8) by (auto simp: is_event_def)
    show "\<exists>g \<in> set (coord_events t). is_event ''coordinator'' ''granted'' g" using c(8) by blast
  qed (use one(2) c assms in auto)
qed

text \<open>A run that leaves the role with another node: claim it and transfer it to \<open>n2\<close>.\<close>

lemma sample_foreign:
  assumes "mode = ''roaming'' \<or> mode = ''pinned''"
  obtains s where "ideal 900 s" "st_node s = ''n1''" "cp_holder (current_coordinator s) = PStr ''n2''"
    "cp_epoch (current_coordinator s) = 2" "cp_mode (current_coordinator s) = mode" "st_synced s = False"
    "\<exists>g \<in> set (coord_events s). is_event ''coordinator'' ''granted'' g"
proof -
  obtain t where t: "ideal 996 t" "st_node t = ''n1''" "cp_holder (current_coordinator t) = PStr ''n1''"
    "cp_epoch (current_coordinator t) = 1" "cp_mode (current_coordinator t) = mode" "st_synced t = False"
    "store_max_epoch t = 1" "\<exists>g \<in> set (coord_events t). is_event ''coordinator'' ''granted'' g"
    by (rule sample_own [OF assms])
  have words: "plain_text ''n2''" "plain_text ''to_node: n2''" by code_simp+
  have "ideal (992 + 4) t" using t(1) by simp
  then obtain r' u where two: "transfer_coordinator ''n2'' False (Some ''ok'') None t = (Inr r', u)" "ideal 992 u" "goes_on t u"
    by (rule transfer_returns [where x = "''ok''" and to_node = "''n2''"])
      (use assms t words in \<open>auto simp: sample_start\<close>)
  note x = transfer_hands_over [OF idealD(1) [OF t(1)] _ two(1)]
  have "\<exists>g \<in> set (coord_events u). is_event ''coordinator'' ''granted'' g"
    using transfer.rows_stay [OF idealD(1) [OF t(1)] two(1)] t(8) by blast
  moreover have "ideal 900 u" using two(2) by (simp add: ideal_def)
  ultimately show thesis
    using x t two(3) assms by (intro that [of u]) (auto simp: goes_on_def)
qed


section \<open>Transfer and release\<close>

text \<open>A transfer that returns was made by the holder, at the epoch it assumed if it assumed one; it
  hands the role to the target in one higher epoch than the whole ledger, and keeps the mode.\<close>

theorem transfer_hands_role_over:
  assumes "ledger_ok s" "to_node \<noteq> []" "transfer_coordinator to_node isolated summary assumed s = (Inr r, s')"
  shows "cp_holder (current_coordinator s) = PStr (st_node s) \<and>
    (assumed = None \<or> assumed = Some (cp_epoch (current_coordinator s))) \<and>
    cp_holder (current_coordinator s') = PStr to_node \<and>
    cp_epoch (current_coordinator s') = store_max_epoch s + 1 \<and>
    (cp_mode (current_coordinator s') = ''pinned'' \<longleftrightarrow> cp_mode (current_coordinator s) = ''pinned'')"
  using transfer_hands_over(1-5) [OF assms] by simp

theorem transfer_hands_role_over_witness:
  "\<exists>s r s'. transfer_coordinator ''n2'' False (Some ''ok'') None s = (Inr r, s') \<and>
     cp_holder (current_coordinator s) = PStr ''n1'' \<and> cp_holder (current_coordinator s') = PStr ''n2'' \<and>
     cp_epoch (current_coordinator s') = 2"
proof -
  obtain s where s: "ideal 996 s" "st_node s = ''n1''" "cp_holder (current_coordinator s) = PStr ''n1''"
    "cp_epoch (current_coordinator s) = 1" "cp_mode (current_coordinator s) = ''pinned''" "store_max_epoch s = 1"
    by (rule sample_own [of "''pinned''"]) simp
  have words: "plain_text ''n2''" "plain_text ''to_node: n2''" by code_simp+
  have "ideal (992 + 4) s" using s(1) by simp
  then obtain r u where run: "transfer_coordinator ''n2'' False (Some ''ok'') None s = (Inr r, u)"
    by (rule transfer_returns [where x = "''ok''" and to_node = "''n2''"]) (use s words in \<open>auto simp: sample_start\<close>)
  from transfer_hands_role_over [OF idealD(1) [OF s(1)] _ run] run s show ?thesis by auto
qed

text \<open>C4. After a release of the role the projection has no coordinator, or one at an epoch strictly
  below the released one: the released epoch never rules again.\<close>

theorem release_fences_epoch:
  assumes "ledger_ok s" "release_coordinator summary s = (Inr r, s')"
  shows "cp_holder (current_coordinator s) = PStr (st_node s) \<and>
    (current_coordinator s' = no_coordinator \<or> cp_epoch (current_coordinator s') < cp_epoch (current_coordinator s)) \<and>
    (\<forall>es. wf_ledger es \<longrightarrow> set (coord_events s') \<subseteq> set es \<longrightarrow>
       cp_holder (reduce_coordinator es) = PNone \<or> cp_epoch (reduce_coordinator es) \<noteq> cp_epoch (current_coordinator s))"
proof -
  note r = release_fences [OF assms]
  have "cp_holder (reduce_coordinator es) = PNone \<or> cp_epoch (reduce_coordinator es) \<noteq> cp_epoch (current_coordinator s)"
    if es: "wf_ledger es" "set (coord_events s') \<subseteq> set es" for es
    using es(1)
  proof (cases rule: reduce_coordinator_cases)
    case (winner e)
    obtain q where "q \<in> set es" "is_event ''coordinator'' ''released'' q" "event_epoch q = cp_epoch (current_coordinator s)"
      using r(4) es(2) by blast
    with winner have "event_epoch e \<noteq> cp_epoch (current_coordinator s)" by (auto simp: eligible_def)
    with winner(4) show ?thesis by simp
  qed simp
  with r(1,3) show ?thesis by blast
qed

theorem release_fences_epoch_witness:
  "\<exists>s r s'. release_coordinator (Some ''ok'') s = (Inr r, s') \<and> cp_epoch (current_coordinator s) = 1 \<and>
     (cp_holder (reduce_coordinator (coord_events s')) = PNone \<or> cp_epoch (reduce_coordinator (coord_events s')) \<noteq> 1)"
proof -
  obtain s where s: "ideal 996 s" "st_node s = ''n1''" "cp_holder (current_coordinator s) = PStr ''n1''"
    "cp_epoch (current_coordinator s) = 1" by (rule sample_own [of "''pinned''"]) simp
  have "ideal (994 + 2) s" using s(1) by simp
  then obtain r u where run: "release_coordinator (Some ''ok'') s = (Inr r, u)" "ideal 994 u"
    by (rule release_returns [where x = "''ok''"]) (use s in \<open>auto simp: sample_start\<close>)
  have "cp_holder (reduce_coordinator (coord_events u)) = PNone \<or> cp_epoch (reduce_coordinator (coord_events u)) \<noteq> 1"
    using release_fences_epoch [OF idealD(1) [OF s(1)] run(1)] wf_coord_events [OF idealD(1) [OF run(2)]] s(4) by auto
  with run(1) s(4) show ?thesis by blast
qed

text \<open>A holder that claims its own role again and then releases it is still the coordinator: the
  second claim adds a grant at the next epoch, the release fences that epoch only, and the first
  grant rules again.\<close>

theorem claim_twice_release_once:
  assumes "ledger_ok s" "st_node s \<noteq> []" "cp_holder (current_coordinator s) = PNone"
    and "claim_coordinator m1 False x1 s = (Inr r1, s1)" "claim_coordinator m2 False x2 s1 = (Inr r2, s2)"
    and "release_coordinator x3 s2 = (Inr r3, s3)"
  shows "current_coordinator s3 = current_coordinator s1 \<and> cp_holder (current_coordinator s3) = PStr (st_node s)"
  using double_claim [OF assms] by simp

theorem claim_twice_release_once_witness:
  "\<exists>s1 r2 s2 r3 s3. claim_coordinator ''pinned'' False (Some ''ok'') s1 = (Inr r2, s2) \<and>
     release_coordinator (Some ''ok'') s2 = (Inr r3, s3) \<and> dget r3 ''status'' = PStr ''OK'' \<and>
     cp_holder (current_coordinator s3) = PStr ''n1''"
proof -
  have "ideal (996 + 4) (sample_store False)" using sample_ideal by simp
  then obtain r1 s1 where one: "claim_coordinator ''pinned'' False (Some ''ok'') (sample_store False) = (Inr r1, s1)"
      "ideal 996 s1" "goes_on (sample_store False) s1"
    by (rule claim_returns [where x = "''ok''" and mode = "''pinned''"]) (simp_all add: sample_start)
  note a = claim_takes [OF _ _ _ _ one(1), simplified sample_start sample_simps, simplified]
  have n1: "st_node s1 = ''n1''" using one(3) by (simp add: goes_on_def)
  have "ideal (992 + 4) s1" using one(2) by simp
  then obtain r2 s2 where two: "claim_coordinator ''pinned'' False (Some ''ok'') s1 = (Inr r2, s2)" "ideal 992 s2" "goes_on s1 s2"
    by (rule claim_returns [where x = "''ok''" and mode = "''pinned''"]) (use a n1 in \<open>simp_all add: sample_start\<close>)
  note b = claim_takes [OF a(6) _ _ _ two(1), unfolded n1, simplified, OF disjI2 [OF a(1)]]
  have n2: "st_node s2 = ''n1''" using two(3) n1 by (simp add: goes_on_def)
  have "ideal (990 + 2) s2" using two(2) by simp
  then obtain r3 s3 where three: "release_coordinator (Some ''ok'') s2 = (Inr r3, s3)"
    by (rule release_returns [where x = "''ok''"]) (use b n2 in \<open>simp_all add: sample_start\<close>)
  then have "dget r3 ''status'' = PStr ''OK''"
    by (auto simp: release_coordinator_def Let_def dget_def elim!: seq_InrE)
  moreover have "cp_holder (current_coordinator s3) = PStr ''n1''"
    using claim_twice_release_once [OF _ _ _ one(1) two(1) three] by (simp add: sample_start a(1))
  ultimately show ?thesis using two(1) three by blast
qed

section \<open>Refusals\<close>

text \<open>Every operation reserved to the coordinator, run on another node, is refused with
  \<open>DENIED_NOT_COORDINATOR\<close> and leaves the whole store as it was.\<close>

theorem only_coordinator_grants:
  assumes "cp_holder (current_coordinator s) \<noteq> PStr (st_node s)"
    and "op \<in> {transfer_coordinator to_node isolated summary assumed, release_coordinator summary,
       grant_lease scope holder mode ttl summary assumed, renew_lease scope mode ttl summary assumed,
       revoke_lease scope summary assumed}"
  shows "op s = (Inl (not_coordinator (st_node s) (current_coordinator s)), s)"
  by (rule grantor_only [OF assms])

theorem only_coordinator_grants_witness:
  "grant_lease ''repo.a'' ''n1'' ''authoritative'' 60 None None (sample_store False) =
     (Inl (not_coordinator ''n1'' no_coordinator), sample_store False)"
  using only_coordinator_grants [of "sample_store False" "grant_lease ''repo.a'' ''n1'' ''authoritative'' 60 None None"
    "[]" False None None "''repo.a''" "''n1''" "''authoritative''" 60]
  by (simp add: sample_start)

text \<open>C7. A coordinator that acts on a stale epoch grants nothing: every fenced operation raises, and
  the ledger gains at most the conflict that records the refused attempt.\<close>

theorem stale_epoch_is_fenced:
  assumes "ledger_ok s" "cp_holder (current_coordinator s) = PStr (st_node s)" "a \<noteq> cp_epoch (current_coordinator s)"
    and "op \<in> {transfer_coordinator to_node isolated summary (Some a),
       grant_lease scope holder mode ttl summary (Some a), renew_lease scope mode ttl summary (Some a),
       revoke_lease scope summary (Some a)}"
    and "op s = (r, s')"
  shows "isl r \<and> (coord_events s' = coord_events s \<or>
    (\<exists>e. set (coord_events s') = insert e (set (coord_events s)) \<and> is_event ''conflict'' ''detected'' e \<and>
       exn_code (projl r) = ''DENIED_STALE_FENCE''))"
  by (rule stale_grantor [OF assms])

theorem stale_epoch_is_fenced_witness:
  "\<exists>s r s'. grant_lease ''repo.a'' ''n1'' ''advisory'' 60 None (Some 7) s = (r, s') \<and>
     cp_epoch (current_coordinator s) = 1 \<and> cp_holder (current_coordinator s) = PStr (st_node s) \<and> isl r"
proof -
  obtain s where s: "ideal 996 s" "st_node s = ''n1''" "cp_holder (current_coordinator s) = PStr ''n1''"
    "cp_epoch (current_coordinator s) = 1" by (rule sample_own [of "''pinned''"]) simp
  obtain r s' where run: "grant_lease ''repo.a'' ''n1'' ''advisory'' 60 None (Some 7) s = (r, s')" by fastforce
  have "isl r"
    using stale_epoch_is_fenced [where s = s and r = r and s' = s' and a = 7 and holder = "''n1''" and mode = "''advisory''"
      and ttl = 60 and scope = "''repo.a''" and summary = None and op = "grant_lease ''repo.a'' ''n1'' ''advisory'' 60 None (Some 7)"]
      idealD(1) [OF s(1)] s run by simp
  moreover have "cp_holder (current_coordinator s) = PStr (st_node s)" using s by simp
  ultimately show ?thesis using run s(4) by blast
qed

end
