(* ===== verification/Lease_Laws.thy ===== *)
theory Lease_Laws imports Coord_Theorems begin

text \<open>
  What the lease operations establish in the projection of their scope: a grant or a renewal is
  the top grant of its scope, a release and a revocation free the lease they name, a held lease
  keeps the authoritative mode exclusive, and a sweep frees exactly the expired scopes.
\<close>

section \<open>The next sequence number\<close>

definition grants_at :: "event list \<Rightarrow> string \<Rightarrow> int \<Rightarrow> event list" where
  "grants_at es scope epoch = filter (\<lambda>e. is_event ''lease'' ''granted'' e \<and> ev_scope e = Some scope \<and> event_epoch e = epoch) es"

lemma fold_max_ge: "(m::int) \<le> fold (\<lambda>e h. max h (f e)) es m \<and> (\<forall>e \<in> set es. f e \<le> fold (\<lambda>e h. max h (f e)) es m)"
proof (induction es arbitrary: m)
  case (Cons x es)
  from Cons [of "max m (f x)"] show ?case by auto
qed simp

lemma next_grant_seq_above:
  assumes "e \<in> set es" "scope_grant scope e" "event_epoch e = epoch"
  shows "grant_seq e < next_grant_seq es scope epoch"
  using assms fold_max_ge [of 0 grant_seq "grants_at es scope epoch"]
  by (auto simp: next_grant_seq_def grants_at_def scope_grant_def is_grant_def)

lemma next_grant_seq_pos: "1 \<le> next_grant_seq es scope epoch"
  using fold_max_ge [of 0 grant_seq "grants_at es scope epoch"] by (simp add: next_grant_seq_def grants_at_def)

section \<open>A new grant\<close>

lemma expires_returns:
  "expires_at now ttl s = (Inr x, t) \<Longrightarrow> goes_on s t \<and> coord_events t = coord_events s \<and> st_db t = st_db s \<and> st_synced t = st_synced s"
  by (auto simp: expires_at_def coord_events_def split: option.splits elim!: seq_InrE)

text \<open>The row of a grant that returns.\<close>

definition new_grant :: "store \<Rightarrow> store \<Rightarrow> coord_proj \<Rightarrow> string \<Rightarrow> pyval \<Rightarrow> string \<Rightarrow> pydict \<Rightarrow> event \<Rightarrow> string \<Rightarrow> bool" where
  "new_grant s s' c scope holder mode r e x \<longleftrightarrow>
     set (coord_events s') = insert e (set (coord_events s)) \<and> e \<notin> set (coord_events s) \<and>
     ledger_ok s' \<and> scope_grant scope e \<and> event_epoch e = cp_epoch c \<and>
     grant_seq e = next_grant_seq (coord_events s) scope (cp_epoch c) \<and>
     dget (ev_payload_dict e) ''holder'' = canon holder \<and> dget (ev_payload_dict e) ''mode'' = PStr mode \<and>
     dget (ev_payload_dict e) ''expires_at'' = PStr x \<and> ev_node e = Some (st_node s) \<and>
     dget r ''expires_at'' = PStr x"

lemma new_grantD:
  assumes "new_grant s s' c scope holder mode r e x"
  shows "set (coord_events s') = insert e (set (coord_events s))" "ledger_ok s'" "scope_grant scope e" "event_epoch e = cp_epoch c"
    "grant_seq e = next_grant_seq (coord_events s) scope (cp_epoch c)"
    "dget (ev_payload_dict e) ''holder'' = canon holder" "dget (ev_payload_dict e) ''mode'' = PStr mode"
    "dget (ev_payload_dict e) ''expires_at'' = PStr x" "dget r ''expires_at'' = PStr x"
    "e \<notin> set (coord_events s)" "ev_node e = Some (st_node s)"
  using assms by (simp_all add: new_grant_def)

lemma append_grant_new:
  assumes run: "append_grant c scope holder mode ttl summary s = (Inr r, s')" and ok: "ledger_ok s"
    and plain: "plain holder" "plain (cp_iso_sentinel c)"
  obtains e x where "new_grant s s' c scope holder mode r e x"
proof -
  let ?n = "next_grant_seq (coord_events s) scope (cp_epoch c)"
  obtain now expires t a x where
    t: "expires_at now ttl (s\<lparr>st_clock := Suc (st_clock s)\<rparr>) = (Inr expires, t)"
    and a: "lease_event ''granted'' x scope (Some (cp_epoch c)) (grant_payload ?n holder mode ttl expires c (st_node t)) t = (Inr a, s')"
    and r: "r = grant_result scope holder (cp_epoch c) ?n mode ttl expires (ar_id a)"
    using run unfolding append_grant_def by (auto elim!: seq_InrE simp: gets_def)
  have t': "ledger_ok t" "coord_events t = coord_events s" "st_node t = st_node s"
  proof -
    have "ledger_ok (s\<lparr>st_clock := Suc (st_clock s)\<rparr>)"
      by (rule ledger_ok_goes_on [OF ok]) simp_all
    then show "ledger_ok t" using expires_returns [OF t] by (auto intro: ledger_ok_goes_on)
  qed (use expires_returns [OF t] in \<open>simp_all add: coord_events_def goes_on_def\<close>)
  have p: "plain (opt_dict (Some (grant_payload ?n holder mode ttl expires c (st_node t))))"
    using plain by (auto simp: opt_dict_def grant_payload_def)
  obtain e where e: "new_event t s' a e ''lease'' ''granted'' (Some scope) (Some (cp_epoch c))
      (grant_payload ?n holder mode ttl expires c (st_node t))"
    using event_new [OF a [unfolded lease_event_def] t'(1) p] by auto
  note g = new_eventD [OF e]
  have "grant_seq e = ?n" by (simp add: grant_seq_def g(9) grant_payload_def)
  then show thesis
    using g(1,2,5,6,8,11,15) t' r
    by (intro that [of e expires])
      (simp add: new_grant_def scope_grant_def is_grant_def grant_result_def dget_def [of r] g(9), simp add: grant_payload_def dget_def)
qed

lemma grant_on_top:
  assumes wf: "wf_ledger es'" and new: "set es' = insert g (set es)" and g: "scope_grant scope g" "event_epoch g = epoch"
    and seq: "grant_seq g = next_grant_seq es scope epoch"
    and low: "\<And>e. e \<in> set es \<Longrightarrow> scope_grant scope e \<Longrightarrow> event_epoch e \<le> epoch"
  shows "map_of (reduce_lease es' now) scope = Some (lease_entry now (released_up_to (canonical es')) scope g)"
proof (rule lookup_lease_eqI [OF wf])
  fix e assume "e \<in> set es'" "scope_grant scope e"
  then consider "e = g" | "e \<in> set es" "event_epoch e < epoch" | "e \<in> set es" "event_epoch e = epoch" "grant_seq e < grant_seq g"
    using low [of e] next_grant_seq_above [of e es scope epoch] seq new by fastforce
  then show "lease_key e \<le> lease_key g" by cases (auto simp: lease_key_def g)
qed (use g new in auto)

section \<open>Granting and renewing\<close>

text \<open>Off the hub, or in advisory mode, the gates of a grant only read the clock.\<close>

definition local_mode :: "string \<Rightarrow> store \<Rightarrow> bool" where
  "local_mode mode s \<longleftrightarrow> normalize_lease_mode mode = ''authoritative'' \<longrightarrow> \<not> st_synced s"

lemma free_check:
  "assert_authoritative_free scope allowed s = (Inr u, t) \<Longrightarrow> t = s\<lparr>st_clock := Suc (st_clock s)\<rparr>"
  by (auto simp: assert_authoritative_free_def current_leases_def gets_def split: option.splits if_splits elim!: seq_InrE)

lemma local_freshness: "\<not> st_synced s \<Longrightarrow> authoritative_freshness scope s = (Inr (), s)"
  by (simp add: authoritative_freshness_def)

text \<open>\<open>only_clock s t\<close>: between \<open>s\<close> and \<open>t\<close> the clock was read, at most.\<close>

definition only_clock :: "store \<Rightarrow> store \<Rightarrow> bool" where
  "only_clock s t \<longleftrightarrow> (\<exists>n. t = s\<lparr>st_clock := st_clock s + n\<rparr>)"

lemma only_clock_refl [simp]: "only_clock s s"
  by (auto simp: only_clock_def intro: exI [of _ 0])

lemma only_clock_Suc: "only_clock s t \<Longrightarrow> only_clock s (t\<lparr>st_clock := Suc (st_clock t)\<rparr>)"
  by (auto simp: only_clock_def intro: exI [of _ "Suc _"])

lemma only_clockD:
  assumes "only_clock s t"
  shows "coord_events t = coord_events s" "st_node t = st_node s" "ledger_ok s \<Longrightarrow> ledger_ok t" "st_synced t = st_synced s"
    "current_coordinator t = current_coordinator s"
proof -
  obtain n where t: "t = s\<lparr>st_clock := st_clock s + n\<rparr>" using assms by (auto simp: only_clock_def)
  show "ledger_ok s \<Longrightarrow> ledger_ok t" unfolding t by (erule ledger_ok_goes_on) (simp_all add: goes_on_def)
qed (use assms in \<open>auto simp: only_clock_def coord_events_def current_coordinator_def\<close>)

lemma gate_step:
  assumes "(if m = ''authoritative'' then seq (authoritative_freshness scope) (\<lambda>_. assert_authoritative_free scope allowed)
      else ret ()) s = (Inr u, t)" "m = ''authoritative'' \<longrightarrow> \<not> st_synced s"
  shows "only_clock s t"
proof (cases "m = ''authoritative''")
  case True
  with assms have "assert_authoritative_free scope allowed s = (Inr u, t)"
    by (simp add: seq_def local_freshness)
  from free_check [OF this] show ?thesis by (simp add: only_clock_Suc)
qed (use assms in simp)

lemma grant_steps:
  assumes run: "grant_lease scope holder mode ttl summary assumed s = (Inr r, s')" and here: "local_mode mode s"
  obtains t where "only_clock s t" "cp_holder (current_coordinator s) = PStr (st_node s)"
    "assumed = None \<or> assumed = Some (cp_epoch (current_coordinator s))"
    "append_grant (current_coordinator s) scope (PStr holder) (normalize_lease_mode mode) ttl
       (\<lambda>n. str_or summary (''Lease granted to '' @ holder @ '' for '' @ scope @ '' at epoch '' @ int_str (cp_epoch (current_coordinator s)) @ ''.'')) t
     = (Inr r, s')"
  using run unfolding grant_lease_def Let_def
proof (elim seq_InrE, goal_cases)
  case (1 c s1 u s2 v t)
  from require_ok [OF 1(2)] fence_ok [OF 1(3)] 1 show ?case
    using gate_step [OF 1(4)] here by (intro that [of t]) (auto simp: local_mode_def)
qed

text \<open>The projection of the scope after a new grant, at any time.\<close>

lemma granted_entry:
  assumes new: "new_grant s s' c scope holder mode r g x"
    and low: "\<And>e. e \<in> set (coord_events s) \<Longrightarrow> scope_grant scope e \<Longrightarrow> event_epoch e \<le> cp_epoch c"
    and unreleased: "\<And>q. q \<in> set (coord_events s) \<Longrightarrow> is_release q \<Longrightarrow> ev_scope q = Some scope \<Longrightarrow>
      event_epoch q = cp_epoch c \<Longrightarrow> release_seq q < next_grant_seq (coord_events s) scope (cp_epoch c)"
  obtains l where "map_of (reduce_lease (coord_events s') now) scope = Some l" "lp_epoch l = cp_epoch c"
    "lp_grant_seq l = next_grant_seq (coord_events s) scope (cp_epoch c)"
    "lp_mode l = (if mode = ''authoritative'' then ''authoritative'' else ''advisory'')"
    "lp_state l = (if \<exists>t. now = Some t \<and> x \<noteq> [] \<and> x < t then Expired else Held)"
    "lp_holder l = (if lp_state l = Held then py_or (canon holder) (PStr (st_node s)) else PNone)"
proof -
  note g = new_grantD [OF new]
  have wf: "wf_ledger (coord_events s')" using g(2) by (rule wf_coord_events)
  let ?l = "lease_entry now (released_up_to (canonical (coord_events s'))) scope g"
  note l = lease_entry_simps [OF wf, of ?l, OF refl]
  have "\<not> freed (coord_events s') scope g"
    using g(1,3,4,5) unreleased next_grant_seq_pos [of "coord_events s" scope "cp_epoch c"]
    by (force simp: freed_def scope_grant_def is_grant_def is_event_def is_release_def)
  then have state: "lease_state_of now (coord_events s') scope g = (if \<exists>t. now = Some t \<and> x \<noteq> [] \<and> x < t then Expired else Held)"
    by (auto simp: lease_state_of_def grant_expired_def g(8) split: option.split)
  have "lease_mode g = (if mode = ''authoritative'' then ''authoritative'' else ''advisory'')"
      "lease_holder g = py_or (canon holder) (PStr (st_node s))"
    by (auto simp: lease_mode_def g(6,7,11) lease_holder_def)
  with l state g(4,5) grant_on_top [OF wf g(1,3,4,5) low, of now] show thesis
    by (intro that [of ?l]) simp_all
qed


section \<open>Rows of other scopes\<close>

lemma lookup_frame:
  assumes wf: "wf_ledger es'" and sub: "set es \<subseteq> set es'"
    and other: "\<And>e. e \<in> set es' \<Longrightarrow> e \<notin> set es \<Longrightarrow> \<not> scope_grant scope e \<and> \<not> (is_release e \<and> ev_scope e = Some scope)"
  shows "map_of (reduce_lease es' now) scope = map_of (reduce_lease es now) scope"
proof -
  have wf_es: "wf_ledger es" using wf sub by (rule wf_ledger_subset)
  have freed: "freed es' scope g = freed es scope g" for g
    using sub other by (auto simp: freed_def)
  have entry: "lease_entry now (released_up_to (canonical es')) scope g = lease_entry now (released_up_to (canonical es)) scope g" for g
    by (simp add: lease_entry_def grant_freed_iff wf wf_es freed)
  from wf_es show ?thesis
  proof (cases rule: lookup_lease_cases [where scope = scope and now = now])
    case none
    with other have "\<not> scope_grant scope e" if "e \<in> set es'" for e using that by (cases "e \<in> set es") auto
    with wf have "map_of (reduce_lease es' now) scope = None"
      by (cases rule: lookup_lease_cases [where scope = scope and now = now]) auto
    with none show ?thesis by simp
  next
    case (top g)
    have "lease_key e \<le> lease_key g" if "e \<in> set es'" "scope_grant scope e" for e
      using that other [of e] top(3) by (cases "e \<in> set es") auto
    with top sub lookup_lease_eqI [OF wf, of g scope now] show ?thesis by (auto simp: entry)
  qed
qed

text \<open>A row that frees the lease the projection reports.\<close>

lemma freed_entry:
  assumes look: "map_of (reduce_lease (coord_events s) t) scope = Some l" and ok: "ledger_ok s"
    and new: "new_event s s' a e ''lease'' marker (Some scope) (Some (lp_epoch l)) ((''grant_seq'', PInt (lp_grant_seq l)) # rest)"
    and marker: "marker = ''released'' \<or> marker = ''revoked'' \<or> marker = ''expired''"
  obtains l' where "map_of (reduce_lease (coord_events s') now) scope = Some l'" "lp_state l' = Free" "lp_holder l' = PNone"
      "lp_epoch l' = lp_epoch l" "lp_grant_seq l' = lp_grant_seq l" "lp_id l' = lp_id l"
      "\<And>q now'. q \<noteq> scope \<Longrightarrow> map_of (reduce_lease (coord_events s') now') q = map_of (reduce_lease (coord_events s) now') q"
proof -
  note n = new_eventD [OF new]
  have wf: "wf_ledger (coord_events s')" and wf_s: "wf_ledger (coord_events s)" using n(11) ok by (auto intro: wf_coord_events)
  from wf_s show thesis
  proof (cases rule: lookup_lease_cases [where scope = scope and now = t])
    case none
    with look show thesis by simp
  next
    case (top g)
    note l = lease_entry_simps [OF wf_s, of l t scope g]
    have rel: "is_release e" "ev_scope e = Some scope" "event_epoch e = lp_epoch l" "release_seq e = lp_grant_seq l"
      using marker n(3-5,8) by (auto simp: is_release_def release_seq_def grant_seq_def n(9))
    have not_grant: "\<not> scope_grant q e" for q using marker n(15) by (auto simp: scope_grant_def is_grant_def)
    have "lease_key q \<le> lease_key g" if "q \<in> set (coord_events s')" "scope_grant scope q" for q
      using that top(3) not_grant [of scope] by (auto simp: n(1))
    then have found: "map_of (reduce_lease (coord_events s') now) scope =
        Some (lease_entry now (released_up_to (canonical (coord_events s'))) scope g)"
      using top(1,2) by (intro lookup_lease_eqI [OF wf]) (auto simp: n(1))
    have g: "lp_epoch l = event_epoch g" "lp_grant_seq l = grant_seq g" "lp_id l = ev_id g"
      using l look top(4) by simp_all
    have "freed (coord_events s') scope g"
      using rel g by (auto simp: freed_def n(1))
    note l' = lease_entry_simps [OF wf, of _ now scope g, OF refl]
    have frame: "map_of (reduce_lease (coord_events s') now') q = map_of (reduce_lease (coord_events s) now') q" if "q \<noteq> scope" for q now'
      by (rule lookup_frame [OF wf]) (use that not_grant n(5) in \<open>auto simp: n(1)\<close>)
    show thesis
      by (rule that [OF found])
        (use l' g \<open>freed (coord_events s') scope g\<close> in \<open>simp_all add: lease_state_of_def frame\<close>)
  qed
qed

section \<open>Runs of the ideal stores\<close>

text \<open>A text over the alphabet of a plain text is plain.\<close>

lemma plain_text_subset:
  assumes "plain_text a" "set s \<subseteq> set a" shows "plain_text s"
proof -
  have l: "lacks a w \<Longrightarrow> lacks s w" for w using assms(2) by (auto simp: lacks_def list_all_iff)
  have "set (map lower_char s) \<subseteq> set (map lower_char a)" using assms(2) by auto
  then have m: "lacks (map lower_char a) w \<Longrightarrow> lacks (map lower_char s) w" for w by (auto simp: lacks_def list_all_iff)
  show ?thesis
    using assms unfolding plain_text_def bare_text_def Let_def by (auto intro!: l m)
qed

definition stamp_chars :: string where
  "stamp_chars = ''0123456789-:.+T''"

lemma stamp_punctuation: "list_all (\<lambda>c. c \<in> set stamp_chars) ''-:.+T0''" "plain_text (''expires_at: '' @ stamp_chars)"
  by code_simp+

lemma digit_stamp: "is_digit c \<Longrightarrow> c \<in> set stamp_chars"
proof -
  assume "is_digit c"
  then have "(of_char c :: nat) \<in> {48..<58}" by (auto simp: is_digit_def)
  then have "char_of (of_char c :: nat) \<in> char_of ` set [48..<58 :: nat]" unfolding set_upt by (rule imageI)
  moreover have "list_all (\<lambda>c. c \<in> set stamp_chars) (map char_of [48..<58 :: nat])" by code_simp
  ultimately show ?thesis unfolding list_all_iff set_map by (metis char_of_char)
qed

lemma now_text_chars:
  assumes l: "dt_in_range l" shows "set (now_text l) \<subseteq> set stamp_chars"
proof -
  note r = in_range_parts [OF l]
  obtain y m d where ymd: "ord2ymd (l div us_day + 1) = (y, m, d)" by (cases "ord2ymd (l div us_day + 1)")
  have digits: "set (fixed k n) \<subseteq> set stamp_chars" for k n
    using fixed_digits [of k n] digit_stamp by (auto simp: list_all_iff)
  note p = stamp_punctuation(1) [simplified]
  have "c \<in> set stamp_chars" if "c \<in> set (clock_text (l mod us_day))" for c
    using clock_text_chars [OF _ _ that] digit_stamp [of c] p by (auto simp: us_day_def)
  moreover have "set (date_text (l div us_day + 1)) \<subseteq> set stamp_chars"
    using digits [of 4 y] digits [of 2 m] digits [of 2 d] p by (simp add: date_text_def ymd)
  ultimately show ?thesis using p by (simp add: now_text_parts subset_iff)
qed

lemma expiry_plain:
  assumes "dt_in_range l"
  shows "plain_text (now_text l)" "plain_text (''expires_at: '' @ now_text l)"
  by (rule plain_text_subset [OF stamp_punctuation(2)], use now_text_chars [OF assms] in \<open>simp add: subset_iff\<close>)+

lemma int_plain:
  "plain_text (''grant_seq: '' @ int_str i)" "plain_text (''ttl_s: '' @ int_str i)" "plain_text (int_str i)"
proof -
  have "c \<in> set stamp_chars" if "c \<in> set (int_str i)" for c
    using that pos_str_digits [of i] pos_str_digits [of "- i"] digit_stamp stamp_punctuation(1)
    by (auto simp: int_str_def list_all_iff split: if_splits)
  then have i: "set (int_str i) \<subseteq> set stamp_chars" by auto
  have a: "plain_text (''grant_seq: '' @ stamp_chars)" "plain_text (''ttl_s: '' @ stamp_chars)" by code_simp+
  show "plain_text (''grant_seq: '' @ int_str i)" by (rule plain_text_subset [OF a(1)]) (use i in auto)
  show "plain_text (''ttl_s: '' @ int_str i)" "plain_text (int_str i)"
    by (rule plain_text_subset [OF a(2)], use i in auto)+
qed

lemma grant_fields:
  assumes "plain_text x" "plain_text scope" "scope \<noteq> []" "plain_text holder" "plain_text (''holder: '' @ holder)" "dt_in_range l"
    and "mode = ''advisory'' \<or> mode = ''authoritative''" "\<not> cp_iso c"
  shows "list_all (\<lambda>(name, v). clean v)
    (redaction_fields x (Some scope) (Some (grant_payload n (PStr holder) mode ttl (now_text l) c node)))"
proof -
  have words: "plain_text ''advisory''" "plain_text ''mode: advisory''" "plain_text ''authoritative''" "plain_text ''mode: authoritative''"
    by code_simp+
  have num: "json_dumps (PInt i) = int_str i" for i by (simp add: json_dumps_def)
  show ?thesis
    using assms words int_plain expiry_plain [OF assms(6)]
    by (auto simp: field_simps_redaction clean_plain num)
qed

lemma expires_at_now:
  assumes "dt_in_range l" "dt_in_range (l + max 0 ttl * 1000000)"
  shows "expires_at (now_text l) ttl s = (Inr (now_text (l + max 0 ttl * 1000000)), s)"
  using assms by (simp add: expires_at_def fromisoformat_now_text)

text \<open>On an ideal store the coordinator's advisory grant returns.\<close>

lemma append_grant_returns:
  assumes s: "ideal (n + 3) s" and epoch: "0 \<le> cp_epoch c" "\<not> cp_iso c"
    and fit: "texts_fit (st_node s) x (Some scope) None" "plain_text x" "plain_text scope" "scope \<noteq> []" "plain_text holder"
      "plain_text (''holder: '' @ holder)"
    and ttl: "dt_in_range (env_clock (st_env s) (st_clock s) + max 0 ttl * 1000000)"
  obtains r s' where "append_grant c scope (PStr holder) ''advisory'' ttl (\<lambda>n. str_or (Some x) (f n)) s = (Inr r, s')" "ideal n s'"
    "goes_on s s'" "dget r ''expires_at'' = PStr (now_text (env_clock (st_env s) (st_clock s) + max 0 ttl * 1000000))"
proof -
  let ?k = "next_grant_seq (coord_events s) scope (cp_epoch c)"
    and ?t = "s\<lparr>st_clock := Suc (st_clock s)\<rparr>"
    and ?x = "env_clock (st_env s) (st_clock s) + max 0 ttl * 1000000"
  have t: "ideal (n + 2) ?t" by (rule ideal_clock) (use s in \<open>simp add: numeral_eq_Suc\<close>)
  then have t': "ideal (Suc (Suc n)) ?t" by (simp add: numeral_eq_Suc)
  have "list_all (\<lambda>(name, v). clean v) (redaction_fields x (Some scope)
      (Some (grant_payload ?k (PStr holder) ''advisory'' ttl (now_text ?x) c (st_node s))))"
    by (rule grant_fields) (use fit ttl epoch in simp_all)
  from append_goes [OF t' role_pairs(5) _ _ this, of None "Some (cp_epoch c)"] fit(1) epoch(1)
  obtain a u where a: "append_coord_event ''lease'' ''granted'' x (Some scope) (Some (cp_epoch c))
      (Some (grant_payload ?k (PStr holder) ''advisory'' ttl (now_text ?x) c (st_node s))) None None ?t = (Inr a, u)"
      "ideal n u" "goes_on ?t u" by auto
  have "append_grant c scope (PStr holder) ''advisory'' ttl (\<lambda>n. str_or (Some x) (f n)) s =
      (Inr (grant_result scope (PStr holder) (cp_epoch c) ?k ''advisory'' ttl (now_text ?x) (ar_id a)), u)"
    using a(1) ttl idealD(5) [OF s]
    by (simp add: append_grant_def gets_def seq_def lease_event_def expires_at_now str_or_some [OF fit(1)])
  then show thesis
    using a(2,3) by (intro that) (auto simp: grant_result_def dget_def goes_on_def)
qed

lemma grant_returns:
  assumes "ideal (n + 3) s" and own: "cp_holder (current_coordinator s) = PStr (st_node s)"
    and "0 \<le> cp_epoch (current_coordinator s)" "\<not> cp_iso (current_coordinator s)"
    and "texts_fit (st_node s) x (Some scope) None" "plain_text x" "plain_text scope" "scope \<noteq> []" "plain_text holder"
      "plain_text (''holder: '' @ holder)"
    and "dt_in_range (env_clock (st_env s) (st_clock s) + max 0 ttl * 1000000)"
  obtains r s' where "grant_lease scope holder ''advisory'' ttl (Some x) None s = (Inr r, s')" "ideal n s'" "goes_on s s'"
    "dget r ''expires_at'' = PStr (now_text (env_clock (st_env s) (st_clock s) + max 0 ttl * 1000000))"
proof -
  let ?c = "current_coordinator s"
  obtain r s' where run: "append_grant ?c scope (PStr holder) ''advisory'' ttl (\<lambda>n. str_or (Some x)
      (''Lease granted to '' @ holder @ '' for '' @ scope @ '' at epoch '' @ int_str (cp_epoch ?c) @ ''.'')) s = (Inr r, s')" "ideal n s'" "goes_on s s'"
    "dget r ''expires_at'' = PStr (now_text (env_clock (st_env s) (st_clock s) + max 0 ttl * 1000000))"
    by (rule append_grant_returns [OF assms(1,3-)])
  have "grant_lease scope holder ''advisory'' ttl (Some x) None s = (Inr r, s')"
    using run(1) by (simp add: grant_lease_def holder_required [OF own] fence_open normalize_lease_mode_def Let_def)
  with run(2-) show thesis by (intro that)
qed

text \<open>The sample store after its coordinator granted itself the lease of a scope for 2,000 seconds.\<close>

lemma sample_range: "0 \<le> d \<Longrightarrow> d \<le> 10 ^ 10 \<Longrightarrow> dt_in_range (env_clock sample_env k + d)"
    "env_clock sample_env j < env_clock sample_env k + 2000000000"
proof -
  have b: "0 \<le> int m mod 10 ^ 9 \<and> int m mod 10 ^ 9 < 10 ^ 9" for m by simp
  show "0 \<le> d \<Longrightarrow> d \<le> 10 ^ 10 \<Longrightarrow> dt_in_range (env_clock sample_env k + d)"
    using b [of k] by (simp add: sample_env_def dt_in_range_def max_ordinal_def us_day_def)
  show "env_clock sample_env j < env_clock sample_env k + 2000000000"
    using b [of j] b [of k] by (simp add: sample_env_def)
qed

lemma scope_words: "texts_fit ''n1'' ''ok'' (Some ''repo.a'') None" "plain_text ''repo.a''" "plain_text ''n1''" "plain_text ''holder: n1''"
  by code_simp+

lemma sample_grant:
  obtains s r s' where "grant_lease ''repo.a'' ''n1'' ''advisory'' 2000 (Some ''ok'') None s = (Inr r, s')"
    "ideal 996 s" "ideal 900 s'" "st_node s = ''n1''" "st_synced s = False" "cp_holder (current_coordinator s) = PStr ''n1''"
    "cp_epoch (current_coordinator s) = 1" "\<not> cp_iso (current_coordinator s)" "cp_iso_sentinel (current_coordinator s) = PNone"
    "\<forall>e \<in> set (coord_events s). ev_kind e = Some ''coordinator''" "st_env s = sample_env" "goes_on s s'"
    "dget r ''expires_at'' = PStr (now_text (env_clock sample_env (st_clock s) + 2000000000))"
proof -
  obtain s where s: "ideal 996 s" "st_node s = ''n1''" "cp_holder (current_coordinator s) = PStr ''n1''"
    "cp_epoch (current_coordinator s) = 1" "st_synced s = False" "st_env s = sample_env"
    "\<forall>e \<in> set (coord_events s). ev_kind e = Some ''coordinator''" "\<not> cp_iso (current_coordinator s)"
    by (rule sample_own [of "''pinned''"]) simp
  have sentinel: "cp_iso_sentinel (current_coordinator s) = PNone"
    using wf_coord_events [OF idealD(1) [OF s(1)]] s(8)
    by (cases rule: reduce_coordinator_cases) (auto simp: current_coordinator_def coord_entry_def Let_def)
  have "ideal (993 + 3) s" using s(1) by simp
  then obtain r s' where run: "grant_lease ''repo.a'' ''n1'' ''advisory'' 2000 (Some ''ok'') None s = (Inr r, s')" "ideal 993 s'"
      "goes_on s s'" "dget r ''expires_at'' = PStr (now_text (env_clock (st_env s) (st_clock s) + max 0 2000 * 1000000))"
    by (rule grant_returns [where x = "''ok''" and scope = "''repo.a''" and holder = "''n1''" and ttl = 2000])
      (use s scope_words sample_start sample_range(1) in simp_all)
  moreover have "ideal 900 s'" using run(2) by (simp add: ideal_def)
  ultimately show thesis using that [OF run(1) s(1) _ s(2,5,3,4,8) sentinel s(7,6) run(3)] s(6) by simp
qed


section \<open>The authoritative mode is exclusive\<close>

lemma fence_passes: "assumed = None \<or> assumed = Some n \<Longrightarrow> fence_check assumed n scope s = (Inr (), s)"
  by (auto simp: fence_check_def)

text \<open>C6. The coordinator's grant of a scope in authoritative mode is refused with
  \<open>DENIED_LEASE_HELD\<close>, naming the lease that is held, whenever the freshness check passes and the
  projection it leaves holds the scope at the time the clock then reads; nothing is appended.\<close>

theorem held_lease_excludes:
  assumes "cp_holder (current_coordinator s) = PStr (st_node s)"
    and "assumed = None \<or> assumed = Some (cp_epoch (current_coordinator s))"
    and "authoritative_freshness scope s = (Inr (), t)"
    and "map_of (reduce_lease (coord_events t) (Some (now_text (env_clock (st_env t) (st_clock t))))) scope = Some l"
    and "lp_state l = Held"
  shows "grant_lease scope holder ''authoritative'' ttl summary assumed s =
    (Inl (lease_held scope l), t\<lparr>st_clock := Suc (st_clock t)\<rparr>)"
proof -
  have "assert_authoritative_free scope None t = (Inl (lease_held scope l), t\<lparr>st_clock := Suc (st_clock t)\<rparr>)"
    using assms(4,5) by (simp add: assert_authoritative_free_def current_leases_def gets_def seq_def coord_events_def)
  then show ?thesis
    using assms(1-3) fence_passes [of assumed "cp_epoch (current_coordinator s)" "Some scope" s]
    by (simp add: grant_lease_def seq_def [of "require_coordinator"] require_coordinator_def Let_def normalize_lease_mode_def)
qed

text \<open>The sample store with a lease held at every reading of its clock.\<close>

definition late :: int where
  "late = 63700000000000000 + 4000000000"

lemma sample_held:
  obtains s c where "ideal 900 s" "st_node s = ''n1''" "st_synced s = False" "st_env s = sample_env"
    "cp_holder (current_coordinator s) = PStr ''n1''" "cp_epoch (current_coordinator s) = 1"
    "\<forall>k. \<exists>l. map_of (reduce_lease (coord_events s) (Some (now_text (env_clock sample_env k)))) ''repo.a'' = Some l \<and>
       lp_state l = Held \<and> lp_holder l = PStr ''n1'' \<and> lp_epoch l = 1 \<and> lp_grant_seq l = 1"
    "\<forall>e \<in> set (coord_events s). \<not> is_release e \<and> (\<forall>q. scope_grant q e \<longrightarrow> event_epoch e = 1 \<and> q = ''repo.a'')"
    "current_coordinator s = c" "\<not> cp_iso c" "cp_iso_sentinel c = PNone"
    "\<exists>l. map_of (reduce_lease (coord_events s) (Some (now_text late))) ''repo.a'' = Some l \<and> lp_state l = Expired \<and>
       lp_epoch l = 1 \<and> lp_grant_seq l = 1"
proof -
  obtain s r s' where s: "grant_lease ''repo.a'' ''n1'' ''advisory'' 2000 (Some ''ok'') None s = (Inr r, s')" "ideal 996 s"
    "ideal 900 s'" "st_node s = ''n1''" "st_synced s = False" "cp_holder (current_coordinator s) = PStr ''n1''"
    "cp_epoch (current_coordinator s) = 1" "\<not> cp_iso (current_coordinator s)" "cp_iso_sentinel (current_coordinator s) = PNone"
    "\<forall>e \<in> set (coord_events s). ev_kind e = Some ''coordinator''" "st_env s = sample_env" "goes_on s s'"
    "dget r ''expires_at'' = PStr (now_text (env_clock sample_env (st_clock s) + 2000000000))"
    by (rule sample_grant)
  have none: "\<not> scope_grant q e" "\<not> is_release e" if "e \<in> set (coord_events s)" for e q
    using bspec [OF s(10) that] by (auto simp: scope_grant_def is_grant_def is_event_def is_release_def)
  then have "filter (\<lambda>e. is_event ''lease'' ''granted'' e \<and> ev_scope e = Some ''repo.a'' \<and> event_epoch e = 1) (coord_events s) = []"
    by (auto simp: filter_empty_conv scope_grant_def is_grant_def)
  then have first: "next_grant_seq (coord_events s) ''repo.a'' 1 = 1" by (simp add: next_grant_seq_def)
  obtain t where t: "only_clock s t" and a: "append_grant (current_coordinator s) ''repo.a'' (PStr ''n1'') (normalize_lease_mode ''advisory'') 2000
       (\<lambda>n. str_or (Some ''ok'') (''Lease granted to '' @ ''n1'' @ '' for '' @ ''repo.a'' @ '' at epoch '' @ int_str (cp_epoch (current_coordinator s)) @ ''.'')) t
     = (Inr r, s')" by (rule grant_steps [OF s(1)]) (simp_all add: local_mode_def s(5))
  note t = only_clockD [OF t]
  obtain g x where new: "new_grant t s' (current_coordinator s) ''repo.a'' (PStr ''n1'') (normalize_lease_mode ''advisory'') r g x"
    by (rule append_grant_new [OF a t(3) [OF idealD(1) [OF s(2)]]]) (simp_all add: s(9))
  have x: "x = now_text (env_clock sample_env (st_clock s) + 2000000000)"
    using new_grantD(9) [OF new] s(13) by simp
  have held: "\<exists>l. map_of (reduce_lease (coord_events s') (Some (now_text (env_clock sample_env k)))) ''repo.a'' = Some l \<and>
      lp_state l = Held \<and> lp_holder l = PStr ''n1'' \<and> lp_epoch l = 1 \<and> lp_grant_seq l = 1" for k
  proof -
    have "\<not> x < now_text (env_clock sample_env k)"
      using sample_range [of 2000000000 "st_clock s"] sample_range(1) [of 0 k] sample_range(2) [of k "st_clock s"]
      by (simp add: x)
    then show ?thesis
      by (rule_tac granted_entry [OF new, where now = "Some (now_text (env_clock sample_env k))"])
        (use none first s(7) t in \<open>auto simp: py_or_def\<close>)
  qed
  have expired: "\<exists>l. map_of (reduce_lease (coord_events s') (Some (now_text late))) ''repo.a'' = Some l \<and> lp_state l = Expired \<and>
       lp_epoch l = 1 \<and> lp_grant_seq l = 1"
  proof -
    have "env_clock sample_env (st_clock s) + 2000000000 < late" "dt_in_range late"
      using pos_mod_bound [of "10 ^ 9" "int (st_clock s)"] by (simp_all add: sample_env_def late_def dt_in_range_def max_ordinal_def us_day_def)
    then have "x < now_text late" "x \<noteq> []"
      using sample_range(1) [of 2000000000 "st_clock s"] by (simp_all add: x) (simp add: now_text_parts)
    then show ?thesis
      by (rule_tac granted_entry [OF new, where now = "Some (now_text late)"]) (use none first s(7) t in auto)
  qed
  have rows: "\<forall>e \<in> set (coord_events s'). \<not> is_release e \<and> (\<forall>q. scope_grant q e \<longrightarrow> event_epoch e = 1 \<and> q = ''repo.a'')"
    using none s(7) new_grantD(1,3,4) [OF new] t(1)
    by (auto simp: scope_grant_def is_grant_def is_event_def is_release_def)
  have "current_coordinator s' = current_coordinator s"
    unfolding current_coordinator_def
  proof (rule coordinator_unchanged [OF wf_coord_events [OF new_grantD(2) [OF new]]])
    show "set (coord_events s) \<subseteq> set (coord_events s')" using new_grantD(1) [OF new] t(1) by auto
    show "role_neutral (coord_events s) e" if "e \<in> set (coord_events s')" "e \<notin> set (coord_events s)" for e
      using that new_grantD(1,3) [OF new] t(1) by (auto simp: role_neutral_def scope_grant_def is_grant_def is_event_def)
  qed
  with s held rows expired show thesis by (intro that [of s' "current_coordinator s"]) (auto simp: goes_on_def)
qed

theorem held_lease_excludes_witness:
  "\<exists>s l s'. grant_lease ''repo.a'' ''n2'' ''authoritative'' 60 None None s = (Inl (lease_held ''repo.a'' l), s') \<and>
     lp_holder l = PStr ''n1'' \<and> coord_events s' = coord_events s"
proof -
  obtain s where s: "ideal 900 s" "st_node s = ''n1''" "st_synced s = False" "st_env s = sample_env"
    "cp_holder (current_coordinator s) = PStr ''n1''"
    "\<forall>k. \<exists>l. map_of (reduce_lease (coord_events s) (Some (now_text (env_clock sample_env k)))) ''repo.a'' = Some l \<and>
       lp_state l = Held \<and> lp_holder l = PStr ''n1'' \<and> lp_epoch l = 1 \<and> lp_grant_seq l = 1"
    by (rule sample_held)
  then obtain l where l: "map_of (reduce_lease (coord_events s) (Some (now_text (env_clock (st_env s) (st_clock s))))) ''repo.a'' = Some l"
      "lp_state l = Held" "lp_holder l = PStr ''n1''" by metis
  have "grant_lease ''repo.a'' ''n2'' ''authoritative'' 60 None None s =
      (Inl (lease_held ''repo.a'' l), s\<lparr>st_clock := Suc (st_clock s)\<rparr>)"
    using held_lease_excludes [OF _ _ local_freshness l(1,2), of None] s(2,3,5) by simp
  moreover have "coord_events (s\<lparr>st_clock := Suc (st_clock s)\<rparr>) = coord_events s" by (simp add: coord_events_def)
  ultimately show ?thesis using l(3) by blast
qed

section \<open>Releasing and revoking\<close>

lemma leases_read: "seq current_leases k s =
    k (reduce_lease (coord_events s) (Some (now_text (env_clock (st_env s) (st_clock s))))) (s\<lparr>st_clock := Suc (st_clock s)\<rparr>)"
  by (simp add: current_leases_def gets_def seq_def coord_events_def)

lemma leases_at: "current_leases s = (Inr x, t) \<longleftrightarrow>
    x = reduce_lease (coord_events s) (Some (now_text (env_clock (st_env s) (st_clock s)))) \<and> t = s\<lparr>st_clock := Suc (st_clock s)\<rparr>"
  by (auto simp: current_leases_def gets_def seq_def coord_events_def)

lemma clock_step:
  "coord_events (s\<lparr>st_clock := n\<rparr>) = coord_events s" "ledger_ok s \<Longrightarrow> ledger_ok (s\<lparr>st_clock := Suc (st_clock s)\<rparr>)"
  by (simp add: coord_events_def, erule ledger_ok_goes_on) simp_all

lemma lease_freed:
  assumes run: "lease_event marker summary scope (Some (lp_epoch l)) ((''grant_seq'', PInt (lp_grant_seq l)) # rest) s = (Inr a, s')"
    and ok: "ledger_ok s" and look: "map_of (reduce_lease (coord_events s) t) scope = Some l"
    and marker: "marker = ''released'' \<or> marker = ''revoked'' \<or> marker = ''expired''"
    and plain: "list_all (\<lambda>(k, v). plain v) rest" "distinct (map fst rest)" "''grant_seq'' \<notin> fst ` set rest"
  shows "\<exists>l'. map_of (reduce_lease (coord_events s') now) scope = Some l' \<and> lp_state l' = Free \<and> lp_id l' = lp_id l"
    and "q \<noteq> scope \<Longrightarrow> map_of (reduce_lease (coord_events s') now) q = map_of (reduce_lease (coord_events s) now) q"
    and "ledger_ok s'"
proof -
  have "plain (opt_dict (Some ((''grant_seq'', PInt (lp_grant_seq l)) # rest)))"
    using plain by (simp add: opt_dict_def)
  then obtain e where e: "new_event s s' a e ''lease'' marker (Some scope) (Some (lp_epoch l)) ((''grant_seq'', PInt (lp_grant_seq l)) # rest)"
    using event_new [OF run [unfolded lease_event_def] ok] by auto
  show "ledger_ok s'" by (rule new_eventD(11) [OF e])
  from look ok e marker
  show "\<exists>l'. map_of (reduce_lease (coord_events s') now) scope = Some l' \<and> lp_state l' = Free \<and> lp_id l' = lp_id l"
    and "q \<noteq> scope \<Longrightarrow> map_of (reduce_lease (coord_events s') now) q = map_of (reduce_lease (coord_events s) now) q"
    by (rule freed_entry [where now = now], auto)+
qed

lemmas lease_freed_by = lease_freed(1,2) [where s = "s\<lparr>st_clock := Suc (st_clock s)\<rparr>" for s, unfolded clock_step(1), OF _ clock_step(2)]

text \<open>A lease is released only by the node that holds it at the time the clock reads: any other
  release leaves the ledger as it was, and a release that returns frees that grant in every later
  projection and touches no other scope.\<close>

theorem release_only_by_holder:
  assumes "ledger_ok s" "release_lease scope summary origin s = (r, s')"
  shows "let found = map_of (reduce_lease (coord_events s) (Some (now_text (env_clock (st_env s) (st_clock s))))) scope in
    (case r of
       Inl e \<Rightarrow> coord_events s' = coord_events s
     | Inr v \<Rightarrow> \<exists>l l'. found = Some l \<and> lp_holder l = PStr (str_or origin (st_node s)) \<and>
         map_of (reduce_lease (coord_events s') now) scope = Some l' \<and> lp_state l' = Free \<and> lp_id l' = lp_id l \<and>
         (\<forall>q. q \<noteq> scope \<longrightarrow> map_of (reduce_lease (coord_events s') now) q = map_of (reduce_lease (coord_events s) now) q))"
proof -
  let ?t = "s\<lparr>st_clock := Suc (st_clock s)\<rparr>"
    and ?found = "map_of (reduce_lease (coord_events s) (Some (now_text (env_clock (st_env s) (st_clock s))))) scope"
  note run = assms(2) [unfolded release_lease_def leases_read]
  show ?thesis
  proof (cases r)
    case (Inl e)
    have "coord_events s' = coord_events s"
      using run Inl append_raised [of "''lease''" "''released''"]
      by (auto simp: Let_def lease_event_def clock_step(1) split: option.splits if_splits elim!: seq_InlE)
    with Inl show ?thesis by simp
  next
    case (Inr v)
    with run obtain l a x where l: "?found = Some l" "lp_holder l = PStr (str_or origin (st_node s))" and
      e: "lease_event ''released'' x scope (Some (lp_epoch l)) ([(''grant_seq'', PInt (lp_grant_seq l))] @ origin_entry origin) ?t = (Inr a, s')"
      by (auto simp: Let_def split: option.splits if_splits elim!: seq_InrE)
    have "list_all (\<lambda>(k, v). plain v) (origin_entry origin)" "distinct (map fst (origin_entry origin))"
        "''grant_seq'' \<notin> fst ` set (origin_entry origin)"
      by (simp_all add: origin_entry_def)
    from lease_freed_by [OF e [simplified] assms(1) l(1) _ this] l Inr show ?thesis by (auto simp: Let_def)
  qed
qed

text \<open>A revocation that returns was made by the coordinator at the epoch it assumed, if it assumed
  one; it frees the lease of its scope in every later projection and touches no other scope.\<close>

theorem revoke_frees_lease:
  assumes "ledger_ok s" "revoke_lease scope summary assumed s = (Inr r, s')"
  shows "cp_holder (current_coordinator s) = PStr (st_node s) \<and>
    (assumed = None \<or> assumed = Some (cp_epoch (current_coordinator s))) \<and>
    (\<exists>l. map_of (reduce_lease (coord_events s') now) scope = Some l \<and> lp_state l = Free) \<and>
    (\<forall>q. q \<noteq> scope \<longrightarrow> map_of (reduce_lease (coord_events s') now) q = map_of (reduce_lease (coord_events s) now) q)"
proof -
  obtain c t u v leases w where steps: "require_coordinator s = (Inr c, t)" "fence_check assumed (cp_epoch c) (Some scope) t = (Inr u, v)"
      "current_leases v = (Inr leases, w)"
    and rest: "(case map_of leases scope of
       None \<Rightarrow> raise (not_held scope ''there is no active lease on this scope to revoke'')
     | Some l \<Rightarrow>
         if lp_state l = Free then raise (not_held scope ''there is no active lease on this scope to revoke'')
         else
           seq (lease_event ''revoked'' (str_or summary (''Lease revoked for '' @ scope @ '' at epoch '' @ int_str (lp_epoch l) @ ''.''))
               scope (Some (lp_epoch l)) [(''grant_seq'', PInt (lp_grant_seq l))])
             (\<lambda>ev. ret [(''status'', PStr ''OK''), (''scope_key'', PStr scope), (''epoch'', PInt (lp_epoch l)), (''id'', PStr (ar_id ev))])) w
       = (Inr r, s')"
    using assms(2) unfolding revoke_lease_def by (elim seq_InrE)
  note gate = require_ok [OF steps(1)] fence_ok [OF steps(2)]
  have w: "leases = reduce_lease (coord_events s) (Some (now_text (env_clock (st_env s) (st_clock s))))" "w = s\<lparr>st_clock := Suc (st_clock s)\<rparr>"
    using steps(3) gate by (simp_all add: leases_at)
  from rest obtain l a x where l: "map_of leases scope = Some l"
    and e: "lease_event ''revoked'' x scope (Some (lp_epoch l)) [(''grant_seq'', PInt (lp_grant_seq l))] w = (Inr a, s')"
    by (auto split: option.splits if_splits elim!: seq_InrE)
  note l = l [unfolded w(1)] and e = e [unfolded w(2)]
  from lease_freed_by [OF e assms(1) l, simplified] gate show ?thesis by blast
qed

lemma freeing_returns:
  assumes s: "ideal (n + 2) s" and marker: "marker = ''released'' \<or> marker = ''revoked'' \<or> marker = ''expired''"
    and fit: "texts_fit (st_node s) x (Some scope) None" "plain_text x" "plain_text scope" "scope \<noteq> []" and e: "0 \<le> e"
  obtains a s' where "lease_event marker x scope (Some e) [(''grant_seq'', PInt k)] s = (Inr a, s')" "ideal n s'" "goes_on s s'"
proof -
  have num: "json_dumps (PInt i) = int_str i" for i by (simp add: json_dumps_def)
  have f: "list_all (\<lambda>(name, v). clean v) (redaction_fields x (Some scope) (Some [(''grant_seq'', PInt k)]))"
    using fit int_plain by (simp add: field_simps_redaction clean_plain num)
  have s2: "ideal (Suc (Suc n)) s" and km: "kind_marker_ok ''lease'' marker"
    using s marker role_pairs by (auto simp: numeral_eq_Suc)
  obtain a s' where "append_coord_event ''lease'' marker x (Some scope) (Some e) (Some [(''grant_seq'', PInt k)]) None None s = (Inr a, s')"
      "ideal n s'" "goes_on s s'"
    by (rule append_goes [OF s2 km fit(1) _ f, where epoch = "Some e"]) (use e in simp)
  then show thesis by (intro that) (simp_all add: lease_event_def)
qed

theorem release_only_by_holder_witness:
  "\<exists>s v s' l. release_lease ''repo.a'' (Some ''ok'') None s = (Inr v, s') \<and>
     map_of (reduce_lease (coord_events s') None) ''repo.a'' = Some l \<and> lp_state l = Free"
proof -
  obtain s where s: "ideal 900 s" "st_node s = ''n1''" "st_synced s = False" "st_env s = sample_env"
    "\<forall>k. \<exists>l. map_of (reduce_lease (coord_events s) (Some (now_text (env_clock sample_env k)))) ''repo.a'' = Some l \<and>
       lp_state l = Held \<and> lp_holder l = PStr ''n1'' \<and> lp_epoch l = 1 \<and> lp_grant_seq l = 1"
    by (rule sample_held)
  then obtain l where l: "map_of (reduce_lease (coord_events s) (Some (now_text (env_clock (st_env s) (st_clock s))))) ''repo.a'' = Some l"
      "lp_state l = Held" "lp_holder l = PStr ''n1''" "lp_epoch l = 1" "lp_grant_seq l = 1" by metis
  have "ideal (897 + 2) (s\<lparr>st_clock := Suc (st_clock s)\<rparr>)" by (rule ideal_clock) (use s(1) in simp)
  then obtain a s' where "lease_event ''released'' ''ok'' ''repo.a'' (Some 1) [(''grant_seq'', PInt 1)] (s\<lparr>st_clock := Suc (st_clock s)\<rparr>) = (Inr a, s')"
    by (rule freeing_returns [where x = "''ok''" and scope = "''repo.a''" and e = 1 and k = 1 and marker = "''released''"])
      (use s(2) scope_words sample_start in simp_all)
  then obtain v where run: "release_lease ''repo.a'' (Some ''ok'') None s = (Inr v, s')"
    using l s(2) str_or_some [OF scope_words(1)] by (simp add: release_lease_def leases_read str_or_def origin_entry_def)
  from release_only_by_holder [OF idealD(1) [OF s(1)] run, where now = None] run show ?thesis by (auto simp: Let_def)
qed

theorem revoke_frees_lease_witness:
  "\<exists>s v s' l. revoke_lease ''repo.a'' (Some ''ok'') (Some 1) s = (Inr v, s') \<and>
     map_of (reduce_lease (coord_events s') None) ''repo.a'' = Some l \<and> lp_state l = Free"
proof -
  obtain s where s: "ideal 900 s" "st_node s = ''n1''" "st_synced s = False" "st_env s = sample_env"
    "cp_holder (current_coordinator s) = PStr ''n1''" "cp_epoch (current_coordinator s) = 1"
    "\<forall>k. \<exists>l. map_of (reduce_lease (coord_events s) (Some (now_text (env_clock sample_env k)))) ''repo.a'' = Some l \<and>
       lp_state l = Held \<and> lp_holder l = PStr ''n1'' \<and> lp_epoch l = 1 \<and> lp_grant_seq l = 1"
    by (rule sample_held)
  then obtain l where l: "map_of (reduce_lease (coord_events s) (Some (now_text (env_clock (st_env s) (st_clock s))))) ''repo.a'' = Some l"
      "lp_state l = Held" "lp_holder l = PStr ''n1''" "lp_epoch l = 1" "lp_grant_seq l = 1" by metis
  have "ideal (897 + 2) (s\<lparr>st_clock := Suc (st_clock s)\<rparr>)" by (rule ideal_clock) (use s(1) in simp)
  then obtain a s' where "lease_event ''revoked'' ''ok'' ''repo.a'' (Some 1) [(''grant_seq'', PInt 1)] (s\<lparr>st_clock := Suc (st_clock s)\<rparr>) = (Inr a, s')"
    by (rule freeing_returns [where x = "''ok''" and scope = "''repo.a''" and e = 1 and k = 1 and marker = "''revoked''"])
      (use s(2) scope_words sample_start in simp_all)
  then obtain v where run: "revoke_lease ''repo.a'' (Some ''ok'') (Some 1) s = (Inr v, s')"
    using l s str_or_some [OF scope_words(1)]
    by (simp add: revoke_lease_def holder_required fence_check_def leases_read)
  from revoke_frees_lease [OF idealD(1) [OF s(1)] run, where now = None] run show ?thesis by blast
qed

section \<open>Renewing\<close>

lemma renew_steps:
  assumes run: "renew_lease scope mode ttl summary assumed s = (Inr r, s')" and here: "local_mode mode s"
  obtains l t summ where "only_clock s t" "cp_holder (current_coordinator s) = PStr (st_node s)"
    "assumed = None \<or> assumed = Some (cp_epoch (current_coordinator s))"
    "map_of (reduce_lease (coord_events s) (Some (now_text (env_clock (st_env s) (st_clock s))))) scope = Some l" "lp_state l \<noteq> Free"
    "append_grant (current_coordinator s) scope (py_or (lp_holder l) (PStr (st_node s))) (normalize_lease_mode mode) ttl summ t = (Inr r, s')"
  using run unfolding renew_lease_def Let_def
proof (elim seq_InrE, goal_cases)
  case (1 c s1 u s2 v s3 leases s4)
  note gate = require_ok [OF 1(2)] fence_ok [OF 1(3)]
  have s3: "s3 = s"
    using 1(4) gate here by (auto simp: local_mode_def local_freshness split: if_splits)
  have w: "leases = reduce_lease (coord_events s) (Some (now_text (env_clock (st_env s) (st_clock s))))" "s4 = s\<lparr>st_clock := Suc (st_clock s)\<rparr>"
    using 1(5) by (simp_all add: s3 leases_at)
  obtain l where l: "map_of leases scope = Some l" "lp_state l \<noteq> Free"
    using 1(6) by (auto split: option.splits if_splits)
  have only: "only_clock s s4" by (simp add: w(2) only_clock_Suc)
  let ?m = "normalize_lease_mode mode" and ?h = "py_or (lp_holder l) (PStr (st_node s4))"
  obtain u t summ where t: "(if ?m = ''authoritative'' then assert_authoritative_free scope (Some ?h) else ret ()) s4 = (Inr u, t)"
      "append_grant c scope ?h ?m ttl summ t = (Inr r, s')"
    using 1(6) unfolding l(1) option.case if_not_P [OF l(2)] by (elim seq_InrE)
  have "only_clock s t"
    using t(1) only free_check [of scope "Some ?h" s4 u t] by (auto simp: only_clock_Suc split: if_splits)
  then show ?case
    using t(2) l gate w by (intro 1(1)) auto
qed

text \<open>A renewal that returns was made by the coordinator on a lease that is not free; it is the
  top grant of its scope at the coordinator's epoch with the next sequence number and a new expiry,
  and while it lasts the holder is the one the lease had, or the renewing node when the lease had
  expired.\<close>

theorem renew_extends_lease:
  assumes "ledger_ok s" "renew_lease scope mode ttl summary assumed s = (Inr r, s')" "local_mode mode s"
    and "map_of (reduce_lease (coord_events s) (Some (now_text (env_clock (st_env s) (st_clock s))))) scope = Some l0"
    and "lp_holder l0 = PNone \<or> lp_holder l0 = PStr h" "h \<noteq> []" "st_node s \<noteq> []" "plain (cp_iso_sentinel (current_coordinator s))"
    and "\<And>e. e \<in> set (coord_events s) \<Longrightarrow> scope_grant scope e \<Longrightarrow> event_epoch e \<le> cp_epoch (current_coordinator s)"
    and "\<And>q. q \<in> set (coord_events s) \<Longrightarrow> is_release q \<Longrightarrow> ev_scope q = Some scope \<Longrightarrow>
      event_epoch q = cp_epoch (current_coordinator s) \<Longrightarrow>
      release_seq q < next_grant_seq (coord_events s) scope (cp_epoch (current_coordinator s))"
  shows "\<exists>l x. map_of (reduce_lease (coord_events s') now) scope = Some l \<and>
    cp_holder (current_coordinator s) = PStr (st_node s) \<and> lp_state l0 \<noteq> Free \<and>
    lp_epoch l = cp_epoch (current_coordinator s) \<and>
    lp_grant_seq l = next_grant_seq (coord_events s) scope (cp_epoch (current_coordinator s)) \<and>
    dget r ''expires_at'' = PStr x \<and>
    lp_state l = (if \<exists>t. now = Some t \<and> x \<noteq> [] \<and> x < t then Expired else Held) \<and>
    lp_holder l = (if lp_state l = Expired then PNone
      else if lp_holder l0 = PNone then PStr (st_node s) else lp_holder l0)"
proof -
  let ?c = "current_coordinator s" and ?h = "py_or (lp_holder l0) (PStr (st_node s))"
  obtain t summ where t: "only_clock s t" and gate: "cp_holder ?c = PStr (st_node s)" "lp_state l0 \<noteq> Free" and
    a: "append_grant ?c scope ?h (normalize_lease_mode mode) ttl summ t = (Inr r, s')"
    using assms(4) by (rule_tac renew_steps [OF assms(2,3)]) simp
  note t = only_clockD [OF t]
  have h: "?h = (if lp_holder l0 = PNone then PStr (st_node s) else lp_holder l0)" "plain ?h" "canon ?h = ?h" "py_or ?h z = ?h" for z
    using assms(5-7) by (auto simp: py_or_def)
  obtain g x where new: "new_grant t s' ?c scope ?h (normalize_lease_mode mode) r g x"
    by (rule append_grant_new [OF a t(3) [OF assms(1)] h(2) assms(8)])
  obtain l where "map_of (reduce_lease (coord_events s') now) scope = Some l" "lp_epoch l = cp_epoch ?c"
    "lp_grant_seq l = next_grant_seq (coord_events t) scope (cp_epoch ?c)"
    "lp_state l = (if \<exists>t. now = Some t \<and> x \<noteq> [] \<and> x < t then Expired else Held)"
    "lp_holder l = (if lp_state l = Held then py_or (canon ?h) (PStr (st_node t)) else PNone)"
    by (rule granted_entry [OF new, where now = now]) (use assms(9,10) t in auto)
  then show ?thesis
    using gate new_grantD(9) [OF new] t(1) h by (intro exI [of _ l] exI [of _ x]) auto
qed

section \<open>Sweeping\<close>

definition swept :: "string option \<Rightarrow> (string \<times> lease_proj) list \<Rightarrow> store \<Rightarrow> store \<Rightarrow> bool" where
  "swept now xs s s' \<longleftrightarrow>
     (\<forall>(q, l) \<in> set xs. \<exists>l'. map_of (reduce_lease (coord_events s') now) q = Some l' \<and> lp_state l' = Free \<and> lp_id l' = lp_id l) \<and>
     (\<forall>q. q \<notin> fst ` set xs \<longrightarrow> map_of (reduce_lease (coord_events s') now) q = map_of (reduce_lease (coord_events s) now) q)"

lemma distinct_map_sort_fst: "distinct (map fst (sort_key f xs)) = distinct (map fst xs)"
  by (simp add: distinct_map)

lemma sweep_each:
  assumes "for_each sweep_one xs s = (Inr rs, s')" "ledger_ok s" "distinct (map fst xs)"
    and "\<And>q l. (q, l) \<in> set xs \<Longrightarrow> map_of (reduce_lease (coord_events s) now) q = Some l"
  shows "swept now xs s s' \<and> length rs = length xs"
  using assms
proof (induction xs arbitrary: s rs)
  case Nil
  then show ?case by (simp add: swept_def)
next
  case (Cons x xs)
  obtain q l where x: "x = (q, l)" by (cases x)
  from Cons.prems(1) obtain y t ys where one: "sweep_one x s = (Inr y, t)" and rest: "for_each sweep_one xs t = (Inr ys, s')"
    and rs: "rs = y # ys" by (auto elim!: seq_InrE)
  from one obtain a z where a: "lease_event ''expired'' z q (Some (lp_epoch l)) [(''grant_seq'', PInt (lp_grant_seq l))] s = (Inr a, t)"
    by (auto simp: sweep_one_def x elim!: seq_InrE)
  have look: "map_of (reduce_lease (coord_events s) now) q = Some l" using Cons.prems(4) x by simp
  note freed = lease_freed(1,2) [where now = now, OF a Cons.prems(2) look, simplified] lease_freed(3) [OF a Cons.prems(2) look, simplified]
  have fresh: "q \<notin> fst ` set xs" using Cons.prems(3) x by auto
  have "map_of (reduce_lease (coord_events t) now) p = Some m" if "(p, m) \<in> set xs" for p m
    using that Cons.prems(4) [of p m] freed(2) [of p] fresh by force
  with Cons.IH [OF rest freed(3)] Cons.prems(3) have "swept now xs t s'" "length ys = length xs" by auto
  with freed(1,2) fresh rs show ?case by (auto simp: swept_def x)
qed

text \<open>A sweep at time \<open>t\<close> that returns frees exactly the scopes whose lease had expired at \<open>t\<close>: their
  grants are free in the new projection, one row per scope, every other scope is as before, and
  sweeping again at \<open>t\<close> finds nothing and writes nothing.\<close>

theorem sweep_frees_expired:
  assumes "ledger_ok s" "sweep_expired (Some t) s = (Inr rs, s')"
  shows "(\<forall>q. map_of (reduce_lease (coord_events s') (Some t)) q =
      (case map_of (reduce_lease (coord_events s) (Some t)) q of
         None \<Rightarrow> None
       | Some l \<Rightarrow> if lp_state l = Expired then map_of (reduce_lease (coord_events s') (Some t)) q else Some l)) \<and>
    (\<forall>q l. map_of (reduce_lease (coord_events s) (Some t)) q = Some l \<longrightarrow> lp_state l = Expired \<longrightarrow>
      (\<exists>l'. map_of (reduce_lease (coord_events s') (Some t)) q = Some l' \<and> lp_state l' = Free \<and> lp_id l' = lp_id l)) \<and>
    sweep_expired (Some t) s' = (Inr [], s')"
proof -
  let ?all = "sort_key fst (reduce_lease (coord_events s) (Some t))"
  let ?xs = "filter (\<lambda>(q, l). lp_state l = Expired) ?all"
  have look: "map_of (reduce_lease (coord_events u) (Some t)) q = Some l \<longleftrightarrow> (q, l) \<in> set (reduce_lease (coord_events u) (Some t))" for u q l
    by (simp add: distinct_reduce_lease)
  have run: "for_each sweep_one ?xs s = (Inr rs, s')" using assms(2) by (simp add: sweep_expired_def)
  have d: "distinct (map fst ?xs)"
    by (intro distinct_map_filter) (simp add: distinct_map_sort_fst distinct_reduce_lease)
  have sw: "swept (Some t) ?xs s s'"
    using sweep_each [OF run assms(1) d, of "Some t"] by (auto simp: distinct_reduce_lease)
  have free: "\<exists>l'. map_of (reduce_lease (coord_events s') (Some t)) q = Some l' \<and> lp_state l' = Free \<and> lp_id l' = lp_id l"
    if "map_of (reduce_lease (coord_events s) (Some t)) q = Some l" "lp_state l = Expired" for q l
    using that sw unfolding swept_def look by fastforce
  have same: "map_of (reduce_lease (coord_events s') (Some t)) q = map_of (reduce_lease (coord_events s) (Some t)) q"
    if "\<And>l. map_of (reduce_lease (coord_events s) (Some t)) q = Some l \<Longrightarrow> lp_state l \<noteq> Expired" for q
  proof -
    have "q \<notin> fst ` set ?xs" using that unfolding look by force
    with sw show ?thesis by (simp add: swept_def)
  qed
  have none: "lp_state m \<noteq> Expired" if "map_of (reduce_lease (coord_events s') (Some t)) q = Some m" for q m
  proof (cases "\<exists>l. map_of (reduce_lease (coord_events s) (Some t)) q = Some l \<and> lp_state l = Expired")
    case True
    then obtain l where "map_of (reduce_lease (coord_events s) (Some t)) q = Some l" "lp_state l = Expired" by blast
    from free [OF this] that show ?thesis by auto
  next
    case False
    with same [of q] that show ?thesis by auto
  qed
  then have "filter (\<lambda>(q, l). lp_state l = Expired) (sort_key fst (reduce_lease (coord_events s') (Some t))) = []"
    unfolding look by (auto simp: filter_empty_conv)
  then have "sweep_expired (Some t) s' = (Inr [], s')" by (simp add: sweep_expired_def)
  moreover have "map_of (reduce_lease (coord_events s') (Some t)) q =
      (case map_of (reduce_lease (coord_events s) (Some t)) q of
         None \<Rightarrow> None
       | Some l \<Rightarrow> if lp_state l = Expired then map_of (reduce_lease (coord_events s') (Some t)) q else Some l)" for q
    using same [of q] by (cases "map_of (reduce_lease (coord_events s) (Some t)) q") auto
  ultimately show ?thesis using free by blast
qed

theorem sweep_frees_expired_witness:
  "\<exists>s rs s' l. sweep_expired (Some (now_text late)) s = (Inr rs, s') \<and> length rs = 1 \<and>
     map_of (reduce_lease (coord_events s) (Some (now_text late))) ''repo.a'' = Some l \<and> lp_state l = Expired \<and>
     sweep_expired (Some (now_text late)) s' = (Inr [], s')"
proof -
  obtain s c where s: "ideal 900 s" "st_node s = ''n1''"
    "\<forall>e \<in> set (coord_events s). \<not> is_release e \<and> (\<forall>q. scope_grant q e \<longrightarrow> event_epoch e = 1 \<and> q = ''repo.a'')"
    "current_coordinator s = c"
    "\<exists>l. map_of (reduce_lease (coord_events s) (Some (now_text late))) ''repo.a'' = Some l \<and> lp_state l = Expired \<and>
       lp_epoch l = 1 \<and> lp_grant_seq l = 1" by (rule sample_held)
  then obtain l where l: "map_of (reduce_lease (coord_events s) (Some (now_text late))) ''repo.a'' = Some l" "lp_state l = Expired"
      "lp_epoch l = 1" "lp_grant_seq l = 1" by blast
  let ?d = "sort_key fst (reduce_lease (coord_events s) (Some (now_text late)))"
  note wf = wf_coord_events [OF idealD(1) [OF s(1)]]
  have "map_of (reduce_lease (coord_events s) (Some (now_text late))) q = None" if "q \<noteq> ''repo.a''" for q
    using wf by (cases rule: lookup_lease_cases [where scope = q and now = "Some (now_text late)"]) (use s(3) that in auto)
  then have keys: "set (map fst ?d) = {''repo.a''}"
    using l(1) by (auto simp: map_of_eq_None_iff) (metis map_of_eq_None_iff option.distinct(1))+
  moreover have "distinct (map fst ?d)" by (simp add: distinct_map_sort_fst distinct_reduce_lease)
  ultimately have "length ?d = 1" using distinct_card [of "map fst ?d"] by (simp del: set_map)
  then obtain y where y: "?d = [y]" by (cases ?d) auto
  have "map_of ?d ''repo.a'' = Some l" using l(1) distinct_reduce_lease by (simp add: map_of_sort_key_fst)
  with y have d: "?d = [(''repo.a'', l)]" by (auto split: if_splits prod.splits)
  have words: "texts_fit ''n1'' (''Lease expired for '' @ ''repo.a'' @ '' at epoch 1 (ttl elapsed).'') (Some ''repo.a'') None"
      "plain_text (''Lease expired for '' @ ''repo.a'' @ '' at epoch 1 (ttl elapsed).'')" "int_str 1 = ''1''" by code_simp+
  have "ideal (898 + 2) s" using s(1) by simp
  then obtain a s' where "lease_event ''expired'' (''Lease expired for '' @ ''repo.a'' @ '' at epoch 1 (ttl elapsed).'') ''repo.a''
      (Some 1) [(''grant_seq'', PInt 1)] s = (Inr a, s')"
    by (rule freeing_returns [where x = "''Lease expired for '' @ ''repo.a'' @ '' at epoch 1 (ttl elapsed).''"
        and scope = "''repo.a''" and e = 1 and k = 1 and marker = "''expired''"])
      (use s(2) scope_words words in simp_all)
  then obtain rs where run: "sweep_expired (Some (now_text late)) s = (Inr rs, s')" "length rs = 1"
    using l(2-4) words(3) by (simp add: sweep_expired_def d sweep_one_def)
  from sweep_frees_expired [OF idealD(1) [OF s(1)] run(1)] run l show ?thesis by blast
qed

theorem renew_extends_lease_witness:
  "\<exists>s r s' l. renew_lease ''repo.a'' ''advisory'' 2000 (Some ''ok'') None s = (Inr r, s') \<and>
     map_of (reduce_lease (coord_events s') None) ''repo.a'' = Some l \<and> lp_state l = Held \<and> lp_holder l = PStr ''n1''"
proof -
  obtain s c where s: "ideal 900 s" "st_node s = ''n1''" "st_synced s = False" "st_env s = sample_env"
    "cp_holder (current_coordinator s) = PStr ''n1''" "cp_epoch (current_coordinator s) = 1"
    "\<forall>k. \<exists>l. map_of (reduce_lease (coord_events s) (Some (now_text (env_clock sample_env k)))) ''repo.a'' = Some l \<and>
       lp_state l = Held \<and> lp_holder l = PStr ''n1'' \<and> lp_epoch l = 1 \<and> lp_grant_seq l = 1"
    "\<forall>e \<in> set (coord_events s). \<not> is_release e \<and> (\<forall>q. scope_grant q e \<longrightarrow> event_epoch e = 1 \<and> q = ''repo.a'')"
    "current_coordinator s = c" "\<not> cp_iso c" "cp_iso_sentinel c = PNone" by (rule sample_held)
  then obtain l where l: "map_of (reduce_lease (coord_events s) (Some (now_text (env_clock (st_env s) (st_clock s))))) ''repo.a'' = Some l"
      "lp_state l = Held" "lp_holder l = PStr ''n1''" by metis
  let ?t = "s\<lparr>st_clock := Suc (st_clock s)\<rparr>"
  have t: "current_coordinator ?t = c" "st_env ?t = sample_env" using s(4,9) by (simp_all add: current_coordinator_def coord_events_def)
  have "ideal (896 + 3) ?t" by (rule ideal_clock) (use s(1) in simp)
  then obtain r s' where "append_grant c ''repo.a'' (PStr ''n1'') ''advisory'' 2000 (\<lambda>n. str_or (Some ''ok'')
       (''Lease renewed for '' @ ''repo.a'' @ '' at epoch '' @ int_str (cp_epoch c) @ '' seq '' @ int_str n @ ''.'')) ?t = (Inr r, s')"
    by (rule append_grant_returns [where x = "''ok''" and scope = "''repo.a''" and holder = "''n1''" and ttl = 2000 and c = c
        and f = "\<lambda>n. ''Lease renewed for '' @ ''repo.a'' @ '' at epoch '' @ int_str (cp_epoch c) @ '' seq '' @ int_str n @ ''.''"])
      (use s scope_words sample_start sample_range(1) in simp_all)
  then have run: "renew_lease ''repo.a'' ''advisory'' 2000 (Some ''ok'') None s = (Inr r, s')"
    using l s(2,5,9)
    by (simp add: renew_lease_def holder_required fence_open leases_read normalize_lease_mode_def Let_def py_or_def)
  have here: "local_mode ''advisory'' s" using s(3) by (simp add: local_mode_def)
  from renew_extends_lease [OF idealD(1) [OF s(1)] run here l(1), of "''n1''" None] s l(3) run show ?thesis
    by (auto split: if_splits)
qed

end
