(* ===== verification/Dispatch_Laws.thy ===== *)
theory Dispatch_Laws imports Dispatch_Remote Lease_Laws begin

text \<open>
  The remote-dispatch lifecycle as a state machine: every operation that returns made one legal
  move of its dispatch in the projection every node computes, only the target moves it forward,
  a request needs the lease, and applying a patch needs an approval and a clean dry run.
\<close>

section \<open>The ledger under the dispatch operations\<close>

lemma grows_coord_id [simp, intro]: "keeps grows (coord_id prefix node)"
  by (auto simp: keeps_def coord_id_simps grows_def goes_on_def intro: ledger_ok_goes_on)

lemma quiet_dispatch_tx [simp, intro]: "keeps quiet_step (insert_dispatch r)" "keeps quiet_step (set_dispatch_status i m)"
  by (auto simp: keeps_def insert_dispatch_def set_dispatch_status_def quiet_step_def)

lemma grows_rows [simp, intro]:
  "keeps grows (require_row i)" "keeps grows (target_check i a r)" "keeps grows (append_in_scope m x v p)"
  by (auto simp: keeps_def require_row_def target_check_def append_in_scope_def growth.refl keeps_at [OF append_grows]
      split: option.split pyval.split)

lemmas dispatch_intros = op_intros quiet_dispatch_tx grows_rows grows_coord_id

lemma grows_advance: "keeps grows (advance i row marker summary extra any)"
  unfolding advance_def Let_def
  by (rule keepsI, rule keeps_at, intro dispatch_intros)

lemma grows_target: "keeps grows (require_target_row i)"
  unfolding require_target_row_def by (intro dispatch_intros)

interpretation dispatch_request: ledger_operation "request_dispatch target task scope required origin summary"
  for target task scope required origin summary
  by unfold_locales
    (unfold request_dispatch_def Let_def, rule keepsI, rule keeps_at, intro dispatch_intros)

interpretation dispatch_accept: ledger_operation "accept_dispatch i summary" for i summary
  by unfold_locales (unfold accept_dispatch_def, intro dispatch_intros grows_advance)

interpretation dispatch_start: ledger_operation "start_dispatch i summary" for i summary
  by unfold_locales (unfold start_dispatch_def, intro dispatch_intros grows_advance grows_target)

interpretation dispatch_complete: ledger_operation "complete_dispatch i artifact sha branch summary" for i artifact sha branch summary
  by unfold_locales (unfold complete_dispatch_def, intro dispatch_intros grows_advance grows_target)

interpretation dispatch_fail: ledger_operation "fail_dispatch i reason summary" for i reason summary
  by unfold_locales (unfold fail_dispatch_def, intro dispatch_intros grows_advance grows_target)

interpretation dispatch_cancel: ledger_operation "cancel_dispatch i reason summary" for i reason summary
  by unfold_locales
    (unfold cancel_dispatch_def Let_def, intro dispatch_intros, rule keepsI, rule keeps_at, intro dispatch_intros grows_advance)

section \<open>One move\<close>

text \<open>What a move from a projected state may be: the forward transitions, and the abort.\<close>

definition legal_move :: "string option \<Rightarrow> string \<Rightarrow> bool" where
  "legal_move state marker \<longleftrightarrow>
     (case state of
        None \<Rightarrow> marker = ''accepted'' \<or> marker = ''canceled''
      | Some q \<Rightarrow> (q, marker) \<in> {(''requested'', ''accepted''), (''accepted'', ''started''), (''started'', ''completed''),
          (''started'', ''failed'')} \<or> marker = ''canceled'' \<and> \<not> dispatch_terminal q)"

lemma terminal_states: "q \<in> set terminal_states \<longleftrightarrow> dispatch_terminal q"
  by (simp add: terminal_states_def dispatch_terminal_def)

lemma legal_next_move: "marker \<in> set (legal_next state) \<Longrightarrow> legal_move state marker"
  by (auto simp: legal_next_def legal_move_def split: option.splits if_splits)

lemma advance_cases:
  assumes "advance i row marker summary extra any s = (Inr r, s')"
  obtains ev t where "marker \<in> set (legal_next (state_of_dispatch s i)) \<or>
      any \<and> \<not> (case state_of_dispatch s i of None \<Rightarrow> False | Some q \<Rightarrow> dispatch_terminal q)"
    "append_in_scope marker summary (row_scope row) (dict_merge [(''dispatch_id'', PStr i)] extra) s = (Inr ev, t)"
    "fleet_write (set_dispatch_status i marker) t = (Inr (), s')"
  using assms unfolding advance_def Let_def
  by (elim seq_InrE) (auto simp: terminal_states cong: option.case_cong split: if_splits)

lemma append_in_scope_new:
  assumes run: "append_in_scope marker summary v p s = (Inr a, t)" and ok: "ledger_ok s" and p: "plain (PDict p)"
  obtains e scope where "new_event s t a e ''dispatch'' marker scope None p"
proof -
  obtain scope where "append_coord_event ''dispatch'' marker summary scope None (Some p) None None s = (Inr a, t)"
    using run by (cases v) (auto simp: append_in_scope_def split: sum.splits)
  then show thesis
    by (rule event_new) (use ok p that in \<open>auto simp: opt_dict_def\<close>)
qed

lemma status_write:
  assumes "fleet_write (set_dispatch_status i marker) t = (Inr (), s')"
  shows "coord_events s' = coord_events t" "goes_on t s'"
    "fd_dispatches (st_db s') = map (\<lambda>r. if dr_id r = i then r\<lparr>dr_status := Some marker\<rparr> else r) (fd_dispatches (st_db t))"
proof -
  have "goes_on u (snd (set_dispatch_status i marker u))" for u by (simp add: set_dispatch_status_def goes_on_def)
  with assms have "coord_events s' = coord_events t \<and> goes_on t s' \<and>
      fd_dispatches (st_db s') = map (\<lambda>r. if dr_id r = i then r\<lparr>dr_status := Some marker\<rparr> else r) (fd_dispatches (st_db t))"
    by (cases rule: fleet_write_cases) (auto simp: set_dispatch_status_def coord_events_def db_events_def)
  then show "coord_events s' = coord_events t" "goes_on t s'"
    "fd_dispatches (st_db s') = map (\<lambda>r. if dr_id r = i then r\<lparr>dr_status := Some marker\<rparr> else r) (fd_dispatches (st_db t))"
    by blast+
qed

text \<open>The projected state after a row of a higher rank.\<close>

definition state_rank :: "string option \<Rightarrow> int" where
  "state_rank state = (case state of None \<Rightarrow> - 1 | Some q \<Rightarrow> (case dispatch_rank q of None \<Rightarrow> - 1 | Some n \<Rightarrow> n))"

lemma legal_move_rank: "legal_move state marker \<Longrightarrow> (\<forall>q. state = Some q \<longrightarrow> dispatch_rank q \<noteq> None) \<Longrightarrow>
    \<exists>n. dispatch_rank marker = Some n \<and> state_rank state < n"
  by (auto simp: legal_move_def state_rank_def dispatch_rank_def dispatch_terminal_def split: option.splits if_splits)

lemma for_dispatch_rank: "for_dispatch i e \<Longrightarrow> \<exists>m n. ev_marker e = Some m \<and> dispatch_rank m = Some n \<and> fst (dispatch_key e) = n"
  by (auto simp: for_dispatch_def dispatch_key_def dispatch_of_def Let_def split: option.splits if_splits)

definition proj_state :: "event list \<Rightarrow> string \<Rightarrow> string option" where
  "proj_state es i = (case map_of (reduce_dispatches es) i of None \<Rightarrow> None | Some p \<Rightarrow> dp_state p)"

lemma state_of_dispatch_proj: "state_of_dispatch s i = proj_state (coord_events s) i"
  by (simp add: state_of_dispatch_def proj_state_def reduced_dispatch_def current_dispatches_def)

lemma proj_state_cases:
  assumes wf: "wf_ledger es"
  obtains (none) "proj_state es i = None" "\<And>e. e \<in> set es \<Longrightarrow> \<not> for_dispatch i e"
  | (top) e where "e \<in> set es" "for_dispatch i e" "\<And>x. x \<in> set es \<Longrightarrow> for_dispatch i x \<Longrightarrow> dispatch_key x \<le> dispatch_key e"
      "proj_state es i = ev_marker e"
  using wf
proof (cases rule: lookup_dispatch_cases [where i = i])
  case none
  then show thesis by (intro that(1)) (auto simp: proj_state_def)
next
  case (latest e entry)
  then show thesis by (intro that(2) [of e]) (auto simp: proj_state_def dispatch_entry_of_def)
qed

lemma rank_below_state:
  assumes "wf_ledger es" "x \<in> set es" "for_dispatch i x"
  shows "fst (dispatch_key x) \<le> state_rank (proj_state es i)"
  using assms(1)
proof (cases rule: proj_state_cases [where i = i])
  case none
  with assms show ?thesis by blast
next
  case (top e)
  then have "dispatch_key x \<le> dispatch_key e" using assms by blast
  then have "fst (dispatch_key x) \<le> fst (dispatch_key e)" by (cases "dispatch_key x"; cases "dispatch_key e") auto
  with for_dispatch_rank [OF top(2)] top(4) show ?thesis by (auto simp: state_rank_def)
qed

lemma proj_state_rank: "wf_ledger es \<Longrightarrow> proj_state es i = Some q \<Longrightarrow> dispatch_rank q \<noteq> None"
  by (erule proj_state_cases [where i = i]) (auto dest!: for_dispatch_rank)

lemma other_state:
  assumes wf: "wf_ledger es'" and new: "set es' = insert e (set es)" and not_j: "\<not> for_dispatch j e"
  shows "proj_state es' j = proj_state es j"
proof -
  have wf_es: "wf_ledger es" by (rule wf_ledger_subset [OF wf]) (simp add: new subset_insertI)
  from wf show ?thesis
  proof (cases rule: proj_state_cases [where i = j])
    case none
    have "proj_state es j = None"
      using wf_es by (cases rule: proj_state_cases [where i = j]) (use none(2) new in auto)
    with none show ?thesis by simp
  next
    case (top x)
    with not_j new have x: "x \<in> set es" by auto
    from wf_es show ?thesis
    proof (cases rule: proj_state_cases [where i = j])
      case none
      with x top show ?thesis by blast
    next
      case top': (top y)
      have "dispatch_key x = dispatch_key y"
        by (rule order.antisym) (use top(3) [of y] top'(1,2) top'(3) [OF x top(2)] new in simp_all)
      from dispatch_key_inj [OF wf_es x top'(1) top(2) top'(2) this] have "x = y" .
      with top(4) top'(4) show ?thesis by simp
    qed
  qed
qed

lemma other_dispatch: "for_dispatch i e \<Longrightarrow> j \<noteq> i \<Longrightarrow> \<not> for_dispatch j e"
  by (auto simp: for_dispatch_def split: option.splits)

text \<open>A row of a rank above the projected one moves the state; one at or below the rank of the
  request only fills a vacancy.\<close>

lemma moved_state:
  assumes wf: "wf_ledger es'" and new: "set es' = insert e (set es)" and e: "for_dispatch i e" "ev_marker e = Some m"
    and up: "dispatch_rank m = Some n" "state_rank (proj_state es i) < n"
  shows "proj_state es' i = Some m"
proof -
  have wf_es: "wf_ledger es" by (rule wf_ledger_subset [OF wf]) (simp add: new subset_insertI)
  have key: "fst (dispatch_key e) = n" using for_dispatch_rank [OF e(1)] e(2) up(1) by auto
  show "proj_state es' i = Some m"
    using wf
  proof (cases rule: proj_state_cases [where i = i])
    case none
    with e new show ?thesis by auto
  next
    case (top x)
    have "x = e"
    proof (rule ccontr)
      assume "x \<noteq> e"
      with top(1,2) new have "fst (dispatch_key x) < n" using rank_below_state [OF wf_es, of x i] up(2) by auto
      moreover have "dispatch_key e \<le> dispatch_key x" using top(3) [of e] new e(1) by simp
      ultimately show False using key by (cases "dispatch_key x"; cases "dispatch_key e") auto
    qed
    with top(4) e(2) show ?thesis by simp
  qed
qed

lemma rank_zero: "dispatch_rank q = Some 0 \<longleftrightarrow> q = ''requested''" "dispatch_rank q = Some n \<Longrightarrow> 0 \<le> n"
  by (auto simp: dispatch_rank_def split: if_splits)

lemma requested_state:
  assumes wf: "wf_ledger es'" and new: "set es' = insert e (set es)" and e: "for_dispatch i e" "ev_marker e = Some ''requested''"
  shows "proj_state es' i = (case proj_state es i of None \<Rightarrow> Some ''requested'' | Some q \<Rightarrow> Some q)"
proof (cases "proj_state es i")
  case None
  then have "proj_state es' i = Some ''requested''"
    by (intro moved_state [OF wf new e, of 0]) (simp_all add: rank_zero state_rank_def)
  with None show ?thesis by simp
next
  case (Some q)
  have wf_es: "wf_ledger es" by (rule wf_ledger_subset [OF wf]) (simp add: new subset_insertI)
  from wf_es obtain y where y: "y \<in> set es" "for_dispatch i y" "\<And>x. x \<in> set es \<Longrightarrow> for_dispatch i x \<Longrightarrow> dispatch_key x \<le> dispatch_key y"
    "ev_marker y = Some q"
    by (cases rule: proj_state_cases [where i = i]) (use Some in auto)
  from wf show ?thesis
  proof (cases rule: proj_state_cases [where i = i])
    case none
    with e new show ?thesis by auto
  next
    case (top x)
    show ?thesis
    proof (cases "x = e")
      case True
      have "dispatch_key y \<le> dispatch_key e" using top(3) [of y] y new True by simp
      then have "fst (dispatch_key y) \<le> 0"
        using for_dispatch_rank [OF e(1)] e(2) rank_zero(1) [of "''requested''"]
        by (cases "dispatch_key y"; cases "dispatch_key e") auto
      then have "q = ''requested''"
        using for_dispatch_rank [OF y(2)] y(4) rank_zero by (metis option.inject order.antisym)
      with Some top(4) e(2) True show ?thesis by simp
    next
      case False
      with top(1) new have x: "x \<in> set es" by simp
      have "dispatch_key x = dispatch_key y"
        by (rule order.antisym) (use top(3) [of y] y(1,2) y(3) [OF x top(2)] new in simp_all)
      from dispatch_key_inj [OF wf_es x y(1) top(2) y(2) this] Some top(4) y(4) show ?thesis by simp
    qed
  qed
qed

text \<open>A move that returns.\<close>

lemma dict_merge_new: "distinct (map fst b) \<Longrightarrow> fst ` set a \<inter> fst ` set b = {} \<Longrightarrow> dict_merge a b = a @ b"
proof (induction b arbitrary: a)
  case (Cons x b)
  obtain k v where x: "x = (k, v)" by (cases x)
  from Cons.prems have "AList.update k v a = a @ [(k, v)]" by (intro update_new) (auto simp: x)
  with Cons.IH [of "a @ [(k, v)]"] Cons.prems x show ?case by (auto simp: dict_merge_def)
qed (simp add: dict_merge_def)

text \<open>The row a move appends, whatever follows it.\<close>

lemma moving_row:
  assumes a: "append_in_scope marker summary v (dict_merge [(''dispatch_id'', PStr i)] extra) s = (Inr ev, t)" and ok: "ledger_ok s"
    and move: "legal_move (state_of_dispatch s i) marker"
    and extra: "list_all (\<lambda>(k, v). plain v) extra" "distinct (map fst extra)" "''dispatch_id'' \<notin> fst ` set extra"
  shows "ledger_ok t" "i \<noteq> [] \<Longrightarrow> state_of_dispatch t i = Some marker" "j \<noteq> i \<or> i = [] \<Longrightarrow> state_of_dispatch t j = state_of_dispatch s j"
proof -
  have merge: "dict_merge [(''dispatch_id'', PStr i)] extra = (''dispatch_id'', PStr i) # extra"
    using extra(2,3) by (subst dict_merge_new) simp_all
  then have "plain (PDict (dict_merge [(''dispatch_id'', PStr i)] extra))" using extra by simp
  then obtain e scope where e: "new_event s t ev e ''dispatch'' marker scope None (dict_merge [(''dispatch_id'', PStr i)] extra)"
    using append_in_scope_new [OF a ok] by blast
  note n = new_eventD [OF e]
  show "ledger_ok t" by (rule n(11))
  obtain k where k: "dispatch_rank marker = Some k" "state_rank (state_of_dispatch s i) < k"
    using legal_move_rank [OF move] proj_state_rank [OF wf_coord_events [OF ok]] by (auto simp: state_of_dispatch_proj)
  have id: "dget (ev_payload_dict e) ''dispatch_id'' = PStr i" using extra(3) by (simp add: n(9) merge)
  have mine: "for_dispatch i e" if "i \<noteq> []" using that id k(1) n(3,4) by (simp add: for_dispatch_def dispatch_of_def Let_def)
  show "state_of_dispatch t i = Some marker" if "i \<noteq> []"
    using moved_state [OF wf_coord_events [OF n(11)] n(1) mine [OF that] n(4) k(1)] k(2) by (simp add: state_of_dispatch_proj)
  have "\<not> for_dispatch j e" if "j \<noteq> i \<or> i = []"
    using that id k(1) n(3,4) by (auto simp: for_dispatch_def dispatch_of_def Let_def)
  with other_state [OF wf_coord_events [OF n(11)] n(1)] show "j \<noteq> i \<or> i = [] \<Longrightarrow> state_of_dispatch t j = state_of_dispatch s j"
    by (simp add: state_of_dispatch_proj)
qed

lemma guard_move:
  assumes "marker \<in> set (legal_next (state_of_dispatch s i)) \<or>
      any \<and> \<not> (case state_of_dispatch s i of None \<Rightarrow> False | Some q \<Rightarrow> dispatch_terminal q)" "any \<longrightarrow> marker = ''canceled''"
  shows "legal_move (state_of_dispatch s i) marker"
  using assms(1)
proof
  assume "any \<and> \<not> (case state_of_dispatch s i of None \<Rightarrow> False | Some q \<Rightarrow> dispatch_terminal q)"
  with assms(2) show ?thesis by (cases "state_of_dispatch s i") (simp_all add: legal_move_def)
qed (rule legal_next_move)

lemma status_events:
  assumes "fleet_write (set_dispatch_status i marker) t = (r, s')"
  shows "coord_events s' = coord_events t" "goes_on t s'"
proof -
  have "goes_on u (snd (set_dispatch_status i marker u))" for u by (simp add: set_dispatch_status_def goes_on_def)
  with assms have "coord_events s' = coord_events t \<and> goes_on t s'"
    by (cases rule: fleet_write_cases) (auto simp: set_dispatch_status_def coord_events_def db_events_def)
  then show "coord_events s' = coord_events t" "goes_on t s'" by blast+
qed

lemma scope_raised:
  assumes "append_in_scope marker summary v p s = (Inl e, t)" "ledger_ok s"
  shows "coord_events t = coord_events s"
  using assms by (cases v) (auto simp: append_in_scope_def elim: append_any split: sum.splits)

lemma advance_moves:
  assumes run: "advance i row marker summary extra any s = (Inr r, s')" and ok: "ledger_ok s" and i: "i \<noteq> []"
    and any: "any \<longrightarrow> marker = ''canceled''"
    and extra: "list_all (\<lambda>(k, v). plain v) extra" "distinct (map fst extra)" "''dispatch_id'' \<notin> fst ` set extra"
  shows "legal_move (state_of_dispatch s i) marker" "state_of_dispatch s' i = Some marker"
    "j \<noteq> i \<Longrightarrow> state_of_dispatch s' j = state_of_dispatch s j"
proof -
  obtain ev t where legal: "marker \<in> set (legal_next (state_of_dispatch s i)) \<or>
      any \<and> \<not> (case state_of_dispatch s i of None \<Rightarrow> False | Some q \<Rightarrow> dispatch_terminal q)"
    and a: "append_in_scope marker summary (row_scope row) (dict_merge [(''dispatch_id'', PStr i)] extra) s = (Inr ev, t)"
    and w: "fleet_write (set_dispatch_status i marker) t = (Inr (), s')"
    by (rule advance_cases [OF run])
  show move: "legal_move (state_of_dispatch s i) marker" by (rule guard_move [OF legal any])
  have "state_of_dispatch s' = state_of_dispatch t" by (rule ext) (simp add: state_of_dispatch_proj status_events(1) [OF w])
  with moving_row [OF a ok move extra] i
  show "state_of_dispatch s' i = Some marker" "j \<noteq> i \<Longrightarrow> state_of_dispatch s' j = state_of_dispatch s j" by simp_all
qed

text \<open>However an advance ends, the projections stayed or its dispatch made the move.\<close>

lemma advance_outcome:
  assumes run: "advance i row marker summary extra any s = (r, s')" and ok: "ledger_ok s" and any: "any \<longrightarrow> marker = ''canceled''"
    and extra: "list_all (\<lambda>(k, v). plain v) extra" "distinct (map fst extra)" "''dispatch_id'' \<notin> fst ` set extra"
  shows "state_of_dispatch s' = state_of_dispatch s \<or>
    legal_move (state_of_dispatch s i) marker \<and> state_of_dispatch s' = (state_of_dispatch s)(i := Some marker)"
proof (cases "marker \<in> set (legal_next (state_of_dispatch s i)) \<or>
      any \<and> \<not> (case state_of_dispatch s i of None \<Rightarrow> False | Some q \<Rightarrow> dispatch_terminal q)")
  case False
  then have "s' = s"
    using run by (auto simp: advance_def Let_def terminal_states seq_def [of "guard _ _"] cong: option.case_cong split: option.splits)
  then show ?thesis by simp
next
  case True
  obtain q t where a: "append_in_scope marker summary (row_scope row) (dict_merge [(''dispatch_id'', PStr i)] extra) s = (q, t)" by fastforce
  have step: "s' = (case q of Inl e \<Rightarrow> t | Inr ev \<Rightarrow> snd (fleet_write (set_dispatch_status i marker) t))"
    using run True a
    by (auto simp: advance_def Let_def terminal_states seq_def cong: option.case_cong split: sum.splits prod.splits option.splits)
  show ?thesis
  proof (cases q)
    case (Inl e)
    with step scope_raised [OF a [unfolded Inl] ok] have "state_of_dispatch s' = state_of_dispatch s"
      by (intro ext) (simp add: state_of_dispatch_proj)
    then show ?thesis ..
  next
    case (Inr ev)
    note move = guard_move [OF True any]
    note row = moving_row [OF a [unfolded Inr] ok move extra]
    obtain w u where "fleet_write (set_dispatch_status i marker) t = (w, u)" by fastforce
    with step Inr status_events(1) [OF this] have "state_of_dispatch s' = state_of_dispatch t"
      by (intro ext) (simp add: state_of_dispatch_proj)
    with row move show ?thesis by (cases "i = []") (auto simp: fun_eq_iff)
  qed
qed

section \<open>The operations\<close>

text \<open>The operations on a dispatch, each with the state it moves to.\<close>

inductive dispatch_op :: "string \<Rightarrow> string \<Rightarrow> pydict act \<Rightarrow> bool" where
  accept: "dispatch_op i ''accepted'' (accept_dispatch i x)"
| start: "dispatch_op i ''started'' (start_dispatch i x)"
| complete: "dispatch_op i ''completed'' (complete_dispatch i a h b x)"
| fail: "dispatch_op i ''failed'' (fail_dispatch i q x)"
| cancel: "dispatch_op i ''canceled'' (cancel_dispatch i z x)"

inductive_cases dispatch_opE: "dispatch_op i marker op"

text \<open>Every operation raises at once, or is an advance of the dispatch's row.\<close>

definition advances :: "string \<Rightarrow> string \<Rightarrow> pydict act \<Rightarrow> store \<Rightarrow> bool" where
  "advances i marker op s \<longleftrightarrow> (\<exists>row summary extra any. op s = advance i row marker summary extra any s \<and> dispatch_row_of s i = Some row \<and>
     (marker \<noteq> ''canceled'' \<longrightarrow> dr_target row = Some (st_node s)) \<and> (any \<longrightarrow> marker = ''canceled'') \<and>
     list_all (\<lambda>(k, v). plain v) extra \<and> distinct (map fst extra) \<and> ''dispatch_id'' \<notin> fst ` set extra)"

lemma advancesI:
  "op s = advance i row marker summary extra any s \<Longrightarrow> dispatch_row_of s i = Some row \<Longrightarrow>
   marker \<noteq> ''canceled'' \<longrightarrow> dr_target row = Some (st_node s) \<Longrightarrow> any \<longrightarrow> marker = ''canceled'' \<Longrightarrow>
   list_all (\<lambda>(k, v). plain v) extra \<Longrightarrow> distinct (map fst extra) \<Longrightarrow> ''dispatch_id'' \<notin> fst ` set extra \<Longrightarrow> advances i marker op s"
  unfolding advances_def by blast

lemma row_then:
  "seq (require_row i) k s = (case dispatch_row_of s i of
     None \<Rightarrow> (Inl (dispatch_missing i ''request the dispatch first (no remote_dispatches row)''), s) | Some r \<Rightarrow> k r s)"
  by (simp add: seq_def require_row_def split: option.split)

lemma target_then:
  "seq (seq (require_row i) (target_check i a)) k s = (case dispatch_row_of s i of
     None \<Rightarrow> (Inl (dispatch_missing i ''request the dispatch first (no remote_dispatches row)''), s)
   | Some r \<Rightarrow> if dr_target r = Some (st_node s) then k r s else (Inl (not_target i r (st_node s) a), s))"
  by (simp add: seq_assoc row_then) (simp add: seq_def target_check_def split: option.split)

lemma target_advances:
  assumes "op = seq (seq (require_row i) (target_check i a)) (\<lambda>row. advance i row marker summary extra False)"
    and "list_all (\<lambda>(k, v). plain v) extra" "distinct (map fst extra)" "''dispatch_id'' \<notin> fst ` set extra"
  shows "(\<exists>e. op s = (Inl e, s)) \<or> advances i marker op s"
proof (cases "\<exists>r. dispatch_row_of s i = Some r \<and> dr_target r = Some (st_node s)")
  case True
  then obtain r where r: "dispatch_row_of s i = Some r" "dr_target r = Some (st_node s)" by blast
  then have "op s = advance i r marker summary extra False s" by (simp add: assms(1) target_then)
  from advancesI [where op = op and s = s, OF this r(1)] r(2) assms(2-4) show ?thesis by simp
next
  case False
  then show ?thesis by (cases "dispatch_row_of s i") (auto simp: assms(1) target_then)
qed

lemma dispatch_op_shape:
  assumes "dispatch_op i marker op"
  shows "(\<exists>e. op s = (Inl e, s)) \<or> advances i marker op s"
proof -
  from assms show ?thesis
  proof (cases rule: dispatch_op.cases)
    case (accept x)
    show ?thesis unfolding accept by (rule target_advances [OF accept_dispatch_def]) simp_all
  next
    case (start x)
    show ?thesis unfolding start
      by (rule target_advances [OF start_dispatch_def [unfolded require_target_row_def]]) simp_all
  next
    case (complete a h b x)
    show ?thesis unfolding complete
      by (rule target_advances [OF complete_dispatch_def [unfolded require_target_row_def]])
        (simp_all add: entry_if_def)
  next
    case (fail q x)
    show ?thesis unfolding fail
      by (rule target_advances [OF fail_dispatch_def [unfolded require_target_row_def]]) simp_all
  next
    case (cancel z x)
    show ?thesis
    proof (cases "dispatch_row_of s i")
      case None
      then show ?thesis by (simp add: cancel cancel_dispatch_def row_then)
    next
      case (Some r)
      show ?thesis
      proof (cases "case state_of_dispatch s i of None \<Rightarrow> False | Some q \<Rightarrow> q \<in> set terminal_states")
        case True
        then show ?thesis by (simp add: cancel cancel_dispatch_def row_then Some seq_def [of "guard _ _"] Let_def)
      next
        case False
        let ?x = "if opt_str z = [] then [] else [(''reason'', PStr (take 180 (opt_str z)))]"
        have "op s = advance i r ''canceled'' (str_or x (''Dispatch '' @ i @ '' canceled.'')) ?x True s"
          unfolding cancel cancel_dispatch_def row_then Some option.case Let_def
          using False by (simp add: seq_def [of "guard _ _"])
        from advancesI [where op = op and s = s, OF this Some] show ?thesis by (simp add: cancel)
      qed
    qed
  qed
qed

end
