(* ===== verification/Dispatch_Theorems.thy ===== *)
theory Dispatch_Theorems imports Dispatch_Laws begin

text \<open>
  The properties of remote dispatch: the operations refine an abstract lifecycle of one state per
  dispatch, a request needs the lease of its scope, only the target moves a dispatch forward, and
  a patch reaches the work tree only when it is approved and its dry run is clean.
\<close>

section \<open>Requests\<close>

lemma request_runs:
  "request_dispatch target task scope required origin summary s =
     (let o' = str_or origin (st_node s);
          l = map_of (reduce_lease (coord_events s) (Some (now_text (env_clock (st_env s) (st_clock s))))) scope;
          t = s\<lparr>st_clock := Suc (st_clock s)\<rparr>
      in if case l of None \<Rightarrow> False | Some l \<Rightarrow> lp_state l = Held \<and> lp_holder l = PStr o'
         then seq (coord_id ''rd'' (st_node s)) (\<lambda>i.
           let leases = (case required of None \<Rightarrow> [scope] | Some ls \<Rightarrow> ls) in
           seq (append_coord_event ''dispatch'' ''requested''
               (str_or summary (''Dispatch requested to '' @ target @ '' for '' @ scope @ ''.'')) (Some scope) None
               (Some [(''dispatch_id'', PStr i), (''target_node'', PStr target), (''task'', PStr task),
                (''scope_key'', PStr scope), (''origin_node'', PStr o')]) None None) (\<lambda>ev.
           seq (fleet_write (insert_dispatch
             \<lparr>dr_id = i, dr_created = Some (ar_created ev), dr_target = Some target,
              dr_leases = Some (json_dumps (PList (map PStr leases))), dr_status = Some ''requested'',
              dr_payload = Some (json_dumps (PDict [(''task'', PStr task), (''scope_key'', PStr scope), (''origin_node'', PStr o')]))\<rparr>)) (\<lambda>_.
           ret [(''status'', PStr ''OK''), (''dispatch_id'', PStr i), (''target_node'', PStr target), (''scope_key'', PStr scope),
             (''task'', PStr task), (''origin_node'', PStr o'), (''required_leases'', PList (map PStr leases)),
             (''state'', PStr ''requested''), (''coord_event_id'', PStr (ar_id ev))]))) t
         else (Inl (unleased scope o' l), t))"
  by (simp add: request_dispatch_def leases_read seq_def [of "guard _ _"] Let_def)

lemma find_snoc: "find P xs = None \<Longrightarrow> P x \<Longrightarrow> find P (xs @ [x]) = Some x"
  by (induction xs) (auto split: if_splits)

lemma insert_events:
  assumes "fleet_write (insert_dispatch row) t = (r, s')"
  shows "coord_events s' = coord_events t"
proof -
  have "goes_on u (snd (insert_dispatch row u))" for u by (simp add: insert_dispatch_def goes_on_def)
  with assms show ?thesis
    by (cases rule: fleet_write_cases) (auto simp: insert_dispatch_def coord_events_def db_events_def split: if_splits)
qed

lemma insert_row:
  assumes "fleet_write (insert_dispatch row) t = (Inr x, s')"
  shows "fd_dispatches (st_db s') = fd_dispatches (st_db t) @ [row]" "dispatch_row_of t (dr_id row) = None"
proof -
  have "goes_on u (snd (insert_dispatch row u))" for u by (simp add: insert_dispatch_def goes_on_def)
  with assms have "fd_dispatches (st_db s') = fd_dispatches (st_db t) @ [row] \<and> dispatch_row_of t (dr_id row) = None"
    by (cases rule: fleet_write_cases) (auto simp: insert_dispatch_def dispatch_row_of_def split: if_splits)
  then show "fd_dispatches (st_db s') = fd_dispatches (st_db t) @ [row]" "dispatch_row_of t (dr_id row) = None" by blast+
qed

lemma requested_row:
  assumes a: "append_coord_event ''dispatch'' ''requested'' x (Some scope) None
      (Some [(''dispatch_id'', PStr i), (''target_node'', PStr target), (''task'', PStr task),
        (''scope_key'', PStr scope), (''origin_node'', PStr q)]) None None s = (Inr ev, t)"
    and ok: "ledger_ok s" and i: "i \<noteq> []"
  shows "state_of_dispatch t = (state_of_dispatch s)(i := Some (case state_of_dispatch s i of None \<Rightarrow> ''requested'' | Some q \<Rightarrow> q))"
proof -
  obtain e where e: "new_event s t ev e ''dispatch'' ''requested'' (Some scope) None
      [(''dispatch_id'', PStr i), (''target_node'', PStr target), (''task'', PStr task), (''scope_key'', PStr scope), (''origin_node'', PStr q)]"
    using event_new [OF a ok] by (auto simp: opt_dict_def)
  note n = new_eventD [OF e]
  have mine: "for_dispatch i e" using i n(3,4) rank_zero(1) [of "''requested''"]
    by (simp add: for_dispatch_def dispatch_of_def Let_def n(9))
  note wf = wf_coord_events [OF n(11)]
  show ?thesis
    using requested_state [OF wf n(1) mine n(4)] other_state [OF wf n(1) other_dispatch [OF mine]]
    by (auto simp: fun_eq_iff state_of_dispatch_proj split: option.splits)
qed

text \<open>A request is refused, or its append raised, or its row was appended and its insert tried.\<close>

definition has_lease :: "store \<Rightarrow> string \<Rightarrow> string \<Rightarrow> bool" where
  "has_lease s scope node \<longleftrightarrow>
     (\<exists>l. map_of (reduce_lease (coord_events s) (Some (now_text (env_clock (st_env s) (st_clock s))))) scope = Some l \<and>
        lp_state l = Held \<and> lp_holder l = PStr node)"

definition drawn :: "store \<Rightarrow> store" where
  "drawn s = s\<lparr>st_clock := Suc (Suc (st_clock s)), st_uuid := Suc (st_uuid s)\<rparr>"

definition dispatch_payload :: "string \<Rightarrow> string \<Rightarrow> string \<Rightarrow> string \<Rightarrow> string \<Rightarrow> pydict" where
  "dispatch_payload i target task scope origin = [(''dispatch_id'', PStr i), (''target_node'', PStr target), (''task'', PStr task),
     (''scope_key'', PStr scope), (''origin_node'', PStr origin)]"

lemma request_cases:
  assumes run: "request_dispatch target task scope required origin summary s = (r, s')"
  obtains (refused) l where "\<not> has_lease s scope (str_or origin (st_node s))" "r = Inl (unleased scope (str_or origin (st_node s)) l)"
      "s' = s\<lparr>st_clock := Suc (st_clock s)\<rparr>"
  | (raised) e i x where "has_lease s scope (str_or origin (st_node s))" "r = Inl e"
      "append_coord_event ''dispatch'' ''requested'' x (Some scope) None
         (Some (dispatch_payload i target task scope (str_or origin (st_node s)))) None None (drawn s) = (Inl e, s')"
  | (asked) i x ev v row z where "has_lease s scope (str_or origin (st_node s))" "i \<noteq> []"
      "append_coord_event ''dispatch'' ''requested'' x (Some scope) None
         (Some (dispatch_payload i target task scope (str_or origin (st_node s)))) None None (drawn s) = (Inr ev, v)"
      "fleet_write (insert_dispatch row) v = (z, s')" "dr_id row = i" "dr_target row = Some target"
      "isl r = isl z" "\<And>d. r = Inr d \<Longrightarrow> dget d ''dispatch_id'' = PStr i"
proof -
  define o' where "o' = str_or origin (st_node s)"
  define x where "x = str_or summary (''Dispatch requested to '' @ target @ '' for '' @ scope @ ''.'')"
  define i where "i = ''rd_'' @ utc_stamp (env_clock (st_env s) (Suc (st_clock s))) @ ''_'' @ last_chars 6 (st_node s) @ env_uuid (st_env s) (st_uuid s)"
  let ?t = "s\<lparr>st_clock := Suc (st_clock s)\<rparr>" and ?p = "Some (dispatch_payload i target task scope o')"
  let ?l = "map_of (reduce_lease (coord_events s) (Some (now_text (env_clock (st_env s) (st_clock s))))) scope"
  have id: "coord_id ''rd'' (st_node s) ?t = (Inr i, drawn s)" by (simp add: coord_id_simps i_def drawn_def)
  have i: "i \<noteq> []" by (simp add: i_def)
  have held: "(case ?l of None \<Rightarrow> False | Some l \<Rightarrow> lp_state l = Held \<and> lp_holder l = PStr o') \<longleftrightarrow> has_lease s scope o'"
    by (simp add: has_lease_def split: option.split)
  show thesis
  proof (cases "has_lease s scope o'")
    case False
    with run have "r = Inl (unleased scope o' ?l) \<and> s' = ?t"
      unfolding request_runs Let_def o'_def [symmetric] held by simp
    with False that(1) show thesis unfolding o'_def by blast
  next
    case True
    obtain q v where a: "append_coord_event ''dispatch'' ''requested'' x (Some scope) None ?p None None (drawn s) = (q, v)" by fastforce
    have "(case q of Inl e \<Rightarrow> r = Inl e \<and> s' = v
        | Inr ev \<Rightarrow> \<exists>row z. fleet_write (insert_dispatch row) v = (z, s') \<and> dr_id row = i \<and> dr_target row = Some target \<and>
            isl r = isl z \<and> (\<forall>d. r = Inr d \<longrightarrow> dget d ''dispatch_id'' = PStr i))"
    proof (cases q)
      case (Inl e)
      with run a show ?thesis
        unfolding request_runs Let_def o'_def [symmetric] x_def [symmetric] held if_P [OF True] dispatch_payload_def
        by (simp add: seq_def id)
    next
      case (Inr ev)
      define row where "row = \<lparr>dr_id = i, dr_created = Some (ar_created ev), dr_target = Some target,
        dr_leases = Some (json_dumps (PList (map PStr (case required of None \<Rightarrow> [scope] | Some ls \<Rightarrow> ls)))), dr_status = Some ''requested'',
        dr_payload = Some (json_dumps (PDict [(''task'', PStr task), (''scope_key'', PStr scope), (''origin_node'', PStr o')]))\<rparr>"
      obtain z u where w: "fleet_write (insert_dispatch row) v = (z, u)" by fastforce
      with run a Inr have "u = s' \<and> isl r = isl z \<and> (\<forall>d. r = Inr d \<longrightarrow> dget d ''dispatch_id'' = PStr i)"
        unfolding request_runs Let_def o'_def [symmetric] x_def [symmetric] held if_P [OF True] dispatch_payload_def
        by (cases z) (auto simp: seq_def id row_def dget_def)
      with w Inr show ?thesis by (auto simp: row_def intro!: exI [of _ row])
    qed
    with that(2,3) True a i show thesis unfolding o'_def by (cases q) auto
  qed
qed

lemma drawn_simps: "coord_events (drawn s) = coord_events s" "state_of_dispatch (drawn s) = state_of_dispatch s"
    "ledger_ok s \<Longrightarrow> ledger_ok (drawn s)" "fd_dispatches (st_db (drawn s)) = fd_dispatches (st_db s)"
  by (auto simp: drawn_def fun_eq_iff state_of_dispatch_proj coord_events_def goes_on_def intro: ledger_ok_goes_on)

text \<open>However a request ends, the projections stayed or a new dispatch is requested.\<close>

lemma request_outcome:
  assumes run: "request_dispatch target task scope required origin summary s = (r, s')" and ok: "ledger_ok s"
  shows "state_of_dispatch s' = state_of_dispatch s \<or>
    (\<exists>i. state_of_dispatch s i = None \<and> state_of_dispatch s' = (state_of_dispatch s)(i := Some ''requested''))"
  using run
proof (cases rule: request_cases)
  case refused
  then show ?thesis by (auto simp: fun_eq_iff state_of_dispatch_proj coord_events_def)
next
  case (raised e i x)
  then have "coord_events s' = coord_events s" using drawn_simps(1,3) [of s] ok by (auto elim: append_any)
  then show ?thesis by (auto simp: fun_eq_iff state_of_dispatch_proj)
next
  case (asked i x ev v row z)
  have "state_of_dispatch s' = state_of_dispatch v" using insert_events [OF asked(4)] by (auto simp: fun_eq_iff state_of_dispatch_proj)
  then have "state_of_dispatch s' = (state_of_dispatch s)(i := Some (case state_of_dispatch s i of None \<Rightarrow> ''requested'' | Some q \<Rightarrow> q))"
    using requested_row [OF asked(3) [unfolded dispatch_payload_def] drawn_simps(3) [OF ok] asked(2)] drawn_simps(2) by simp
  then show ?thesis by (cases "state_of_dispatch s i") (auto simp: fun_eq_iff)
qed

section \<open>The lifecycle\<close>

text \<open>The abstract machine: one state per dispatch, a request of a new one, and the legal moves.\<close>

inductive lifecycle :: "(string \<Rightarrow> string option) \<Rightarrow> (string \<Rightarrow> string option) \<Rightarrow> bool" where
  request: "f i = None \<Longrightarrow> lifecycle f (f(i := Some ''requested''))"
| move: "legal_move (f i) m \<Longrightarrow> lifecycle f (f(i := Some m))"

text \<open>The steps of the engine: any operation on any dispatch, whether it returns or raises.\<close>

inductive dispatch_step :: "store \<Rightarrow> store \<Rightarrow> bool" where
  request: "request_dispatch target task scope required origin summary t = (r, u) \<Longrightarrow> dispatch_step t u"
| operation: "dispatch_op i marker op \<Longrightarrow> op t = (r, u) \<Longrightarrow> dispatch_step t u"

lemma dispatch_op_grows: "dispatch_op i marker op \<Longrightarrow> op s = (r, s') \<Longrightarrow> grows s s'"
  by (erule dispatch_opE)
    (auto intro: dispatch_accept.step dispatch_start.step dispatch_complete.step dispatch_fail.step dispatch_cancel.step)

lemma dispatch_op_outcome:
  assumes "dispatch_op i marker op" "op s = (r, s')" "ledger_ok s"
  shows "state_of_dispatch s' = state_of_dispatch s \<or>
    legal_move (state_of_dispatch s i) marker \<and> state_of_dispatch s' = (state_of_dispatch s)(i := Some marker)"
  using dispatch_op_shape [OF assms(1), of s]
proof
  assume "advances i marker op s"
  then obtain row summary extra any where a: "op s = advance i row marker summary extra any s" "any \<longrightarrow> marker = ''canceled''"
    "list_all (\<lambda>(k, v). plain v) extra" "distinct (map fst extra)" "''dispatch_id'' \<notin> fst ` set extra"
    unfolding advances_def by blast
  show ?thesis by (rule advance_outcome [OF a(1) [symmetric, unfolded assms(2)] assms(3) a(2-)])
qed (use assms(2) in auto)

lemma dispatch_step_grows: "dispatch_step s s' \<Longrightarrow> grows s s'"
  by (induction rule: dispatch_step.induct) (auto intro: dispatch_op_grows dispatch_request.step)

lemma dispatch_run_ok: "dispatch_step\<^sup>*\<^sup>* s t \<Longrightarrow> ledger_ok s \<Longrightarrow> ledger_ok t"
  by (induction rule: rtranclp_induct) (auto dest: growsD(2) [OF dispatch_step_grows])

lemma dispatch_step_simulates:
  assumes "dispatch_step s s'" "ledger_ok s"
  shows "lifecycle\<^sup>=\<^sup>= (state_of_dispatch s) (state_of_dispatch s')"
  using assms
proof (induction rule: dispatch_step.induct)
  case (request target task scope required origin summary t r u)
  from request_outcome [OF request.hyps request.prems]
  have "state_of_dispatch u = state_of_dispatch t \<or> lifecycle (state_of_dispatch t) (state_of_dispatch u)"
    by (elim disjE exE conjE) (simp_all add: lifecycle.request)
  then show ?case by auto
next
  case (operation i marker op t r u)
  from dispatch_op_outcome [OF operation.hyps operation.prems]
  have "state_of_dispatch u = state_of_dispatch t \<or> lifecycle (state_of_dispatch t) (state_of_dispatch u)"
    by (elim disjE conjE) (simp_all add: lifecycle.move)
  then show ?case by auto
qed

lemma dispatch_run_simulates:
  "dispatch_step\<^sup>*\<^sup>* s t \<Longrightarrow> ledger_ok s \<Longrightarrow> lifecycle\<^sup>*\<^sup>* (state_of_dispatch s) (state_of_dispatch t)"
proof (induction rule: rtranclp_induct)
  case (step t u)
  from dispatch_step_simulates [OF step.hyps(2) dispatch_run_ok [OF step.hyps(1) step.prems]] step.IH [OF step.prems]
  show ?case by (auto intro: rtranclp.rtrancl_into_rtrancl)
qed simp

lemma terminal_stuck: "dispatch_terminal q \<Longrightarrow> \<not> legal_move (Some q) m"
  by (auto simp: legal_move_def dispatch_terminal_def)

lemma lifecycle_terminal_step: "lifecycle f g \<Longrightarrow> f i = Some q \<Longrightarrow> dispatch_terminal q \<Longrightarrow> g i = Some q"
  by (induction rule: lifecycle.induct) (auto simp: terminal_stuck)

lemma lifecycle_terminal: "lifecycle\<^sup>*\<^sup>* f g \<Longrightarrow> f i = Some q \<Longrightarrow> dispatch_terminal q \<Longrightarrow> g i = Some q"
  by (induction rule: rtranclp_induct) (simp_all add: lifecycle_terminal_step)

section \<open>Runs that return\<close>

lemma dispatch_pairs: "kind_marker_ok ''dispatch'' ''requested''" "kind_marker_ok ''dispatch'' ''accepted''"
    "kind_marker_ok ''dispatch'' ''started''" "kind_marker_ok ''dispatch'' ''completed''" "kind_marker_ok ''dispatch'' ''canceled''"
    "kind_marker_ok ''resolution'' ''recorded''"
  by code_simp+

lemma ideal_dispatches:
  assumes "ideal n s" shows "ideal n (s\<lparr>st_db := (st_db s)\<lparr>fd_dispatches := d\<rparr>, st_fault := f, st_in_tx := b\<rparr>)"
proof -
  have "ledger_ok (s\<lparr>st_db := (st_db s)\<lparr>fd_dispatches := d\<rparr>, st_fault := f, st_in_tx := b\<rparr>)"
    using idealD(1) [OF assms] by (simp add: ledger_ok_def rows_ok_def)
  then show ?thesis using assms unfolding ideal_def by simp
qed

lemma write_returns:
  assumes "ideal n s" "op (s\<lparr>st_in_tx := True, st_fault := Suc (st_fault s)\<rparr>) =
      (Inr x, s\<lparr>st_in_tx := True, st_fault := Suc (st_fault s), st_db := (st_db s)\<lparr>fd_dispatches := d\<rparr>\<rparr>)"
  shows "\<exists>s'. fleet_write op s = (Inr x, s') \<and> ideal n s' \<and> coord_events s' = coord_events s \<and> st_node s' = st_node s \<and>
    st_env s' = st_env s \<and> fd_dispatches (st_db s') = d"
proof -
  let ?s = "s\<lparr>st_db := (st_db s)\<lparr>fd_dispatches := d\<rparr>, st_fault := Suc (Suc (st_fault s)), st_in_tx := False\<rparr>"
  have "fleet_write op s = (Inr x, ?s)"
    using assms(2) idealD(3) [OF assms(1)]
    by (simp add: fleet_write_def write_attempts.simps tx_body_def next_fault_def seq_def)
  then show ?thesis
    by (intro exI [of _ ?s]) (simp add: ideal_dispatches [OF assms(1)] coord_events_def db_events_def)
qed

lemma append_dispatches:
  assumes "append_coord_event kind marker summary scope epoch payload project source s = (r, s')"
  shows "fd_dispatches (st_db s') = fd_dispatches (st_db s)"
  using assms by (cases rule: append_coord_event_cases) auto

lemma advance_returns:
  assumes s: "ideal (n + 2) s" and scope: "row_scope row = PNone"
    and legal: "marker \<in> set (legal_next (state_of_dispatch s i)) \<or> any \<and> state_of_dispatch s i = None"
    and km: "kind_marker_ok ''dispatch'' marker"
    and fit: "texts_fit (st_node s) x None None" "plain_text x" "plain_text i" "plain_text (''dispatch_id: '' @ i)"
  obtains r s' where "advance i row marker x [] any s = (Inr r, s')" "ideal n s'" "st_node s' = st_node s"
    "fd_dispatches (st_db s') = map (\<lambda>r. if dr_id r = i then r\<lparr>dr_status := Some marker\<rparr> else r) (fd_dispatches (st_db s))"
proof -
  have f: "list_all (\<lambda>(name, v). clean v) (redaction_fields x None (Some [(''dispatch_id'', PStr i)]))"
    using fit by (simp add: field_simps_redaction clean_plain)
  have "ideal (Suc (Suc n)) s" using s by (simp add: numeral_eq_Suc)
  from append_goes [OF this km fit(1) _ f, of None]
  obtain a t where a: "append_coord_event ''dispatch'' marker x None None (Some [(''dispatch_id'', PStr i)]) None None s = (Inr a, t)"
      "ideal n t" "goes_on s t" by auto
  from write_returns [OF a(2), of "set_dispatch_status i marker" "()"
      "map (\<lambda>r. if dr_id r = i then r\<lparr>dr_status := Some marker\<rparr> else r) (fd_dispatches (st_db t))"]
  obtain s' where w: "fleet_write (set_dispatch_status i marker) t = (Inr (), s')" "ideal n s'" "st_node s' = st_node t"
    "fd_dispatches (st_db s') = map (\<lambda>r. if dr_id r = i then r\<lparr>dr_status := Some marker\<rparr> else r) (fd_dispatches (st_db t))"
    by (auto simp: set_dispatch_status_def)
  have open_move: "\<not> (case state_of_dispatch s i of None \<Rightarrow> False | Some q \<Rightarrow> q \<in> set terminal_states) \<and> any \<or> marker \<in> set (legal_next (state_of_dispatch s i))"
    using legal by auto
  have "\<exists>r. advance i row marker x [] any s = (Inr r, s')"
    using open_move a(1) w(1) scope
    by (auto simp: advance_def Let_def seq_def [of "guard _ _"] append_in_scope_def dict_merge_def seq_def)
  then show thesis
    using w a(3) append_dispatches [OF a(1)] by (auto intro: that simp: goes_on_def)
qed

definition sample_dispatch :: store where
  "sample_dispatch = (sample_store False)\<lparr>st_db := \<lparr>fd_events = [], fd_nodes = [],
     fd_dispatches = [\<lparr>dr_id = ''d1'', dr_created = None, dr_target = Some ''n1'', dr_leases = None, dr_status = Some ''requested'', dr_payload = None\<rparr>]\<rparr>\<rparr>"

lemma sample_dispatch_ideal: "ideal 1000 sample_dispatch"
  using ideal_dispatches [OF sample_ideal [of False], where f = 0 and b = False
      and d = "[\<lparr>dr_id = ''d1'', dr_created = None, dr_target = Some ''n1'', dr_leases = None, dr_status = Some ''requested'', dr_payload = None\<rparr>]"]
  by (simp add: sample_dispatch_def sample_store_def)

lemma no_dispatches: "proj_state [] i = None"
proof -
  have "reduce_dispatches [] = []" by code_simp
  then show ?thesis by (simp add: proj_state_def)
qed

lemma sample_dispatch_simps: "state_of_dispatch sample_dispatch i = None" "st_node sample_dispatch = ''n1''"
    "dispatch_row_of sample_dispatch ''d1'' = Some \<lparr>dr_id = ''d1'', dr_created = None, dr_target = Some ''n1'', dr_leases = None, dr_status = Some ''requested'', dr_payload = None\<rparr>"
    "coord_events sample_dispatch = []"
  by (simp_all add: sample_dispatch_def sample_store_def state_of_dispatch_proj coord_events_def db_events_def
      no_dispatches dispatch_row_of_def)

lemma dispatch_words: "texts_fit ''n1'' ''ok'' None None" "plain_text ''ok''" "plain_text ''d1''" "plain_text (''dispatch_id: '' @ ''d1'')"
  by code_simp+

lemma sample_accept:
  obtains r s' where "accept_dispatch ''d1'' (Some ''ok'') sample_dispatch = (Inr r, s')" "ideal 998 s'" "st_node s' = ''n1''"
    "state_of_dispatch s' ''d1'' = Some ''accepted''"
    "dispatch_row_of s' ''d1'' = Some \<lparr>dr_id = ''d1'', dr_created = None, dr_target = Some ''n1'', dr_leases = None, dr_status = Some ''accepted'', dr_payload = None\<rparr>"
proof -
  let ?row = "\<lparr>dr_id = ''d1'', dr_created = None, dr_target = Some ''n1'', dr_leases = None, dr_status = Some ''requested'', dr_payload = None\<rparr>"
  have "ideal (998 + 2) sample_dispatch" using sample_dispatch_ideal by simp
  then obtain r s' where a: "advance ''d1'' ?row ''accepted'' ''ok'' [] False sample_dispatch = (Inr r, s')" "ideal 998 s'" "st_node s' = st_node sample_dispatch"
    "fd_dispatches (st_db s') = map (\<lambda>r. if dr_id r = ''d1'' then r\<lparr>dr_status := Some ''accepted''\<rparr> else r) (fd_dispatches (st_db sample_dispatch))"
    by (rule advance_returns [where marker = "''accepted''" and x = "''ok''" and row = ?row and i = "''d1''" and any = False])
      (use dispatch_words in \<open>simp_all add: sample_dispatch_simps legal_next_def dispatch_pairs row_scope_def\<close>)
  have run: "accept_dispatch ''d1'' (Some ''ok'') sample_dispatch = (Inr r, s')"
    using a(1) by (simp add: accept_dispatch_def target_then sample_dispatch_simps str_or_def)
  have "state_of_dispatch s' ''d1'' = Some ''accepted''"
    by (rule advance_moves(2) [OF a(1) idealD(1) [OF sample_dispatch_ideal]]) simp_all
  moreover have "fd_dispatches (st_db s') = [?row\<lparr>dr_status := Some ''accepted''\<rparr>]" by (simp add: a(4)) (simp add: sample_dispatch_def)
  then have "dispatch_row_of s' ''d1'' = Some (?row\<lparr>dr_status := Some ''accepted''\<rparr>)" by (simp only: dispatch_row_of_def) simp
  ultimately show thesis
    using run a(2,3) by (intro that) (simp_all add: sample_dispatch_simps)
qed

section \<open>The properties\<close>

text \<open>C8. However dispatch operations are interleaved, and whether each returns or raises, every single one
  leaves the projected states every node computes as they were or makes one step of the abstract
  lifecycle: a new dispatch is requested, or one state moves along a legal transition. So whole runs
  refine runs of the lifecycle, and a dispatch that has terminated stays as it ended.\<close>

theorem dispatch_refines_lifecycle:
  assumes "dispatch_step\<^sup>*\<^sup>* s t" "dispatch_step t u" "ledger_ok s"
  shows "lifecycle\<^sup>=\<^sup>= (state_of_dispatch t) (state_of_dispatch u) \<and>
    lifecycle\<^sup>*\<^sup>* (state_of_dispatch s) (state_of_dispatch u) \<and>
    (\<forall>i q. state_of_dispatch t i = Some q \<and> dispatch_terminal q \<longrightarrow> state_of_dispatch u i = Some q)"
proof -
  have step: "lifecycle\<^sup>=\<^sup>= (state_of_dispatch t) (state_of_dispatch u)"
    by (rule dispatch_step_simulates [OF assms(2) dispatch_run_ok [OF assms(1,3)]])
  then have "lifecycle\<^sup>*\<^sup>* (state_of_dispatch t) (state_of_dispatch u)" by auto
  with step lifecycle_terminal [OF this] rtranclp_trans [OF dispatch_run_simulates [OF assms(1,3)]] show ?thesis by blast
qed

theorem dispatch_refines_lifecycle_witness:
  "\<exists>s' s''. dispatch_step sample_dispatch s' \<and> s'' = snd (start_dispatch ''d1'' None s') \<and> state_of_dispatch s' ''d1'' = Some ''accepted'' \<and>
     lifecycle\<^sup>=\<^sup>= (state_of_dispatch s') (state_of_dispatch s'')"
proof -
  obtain r s' where a: "accept_dispatch ''d1'' (Some ''ok'') sample_dispatch = (Inr r, s')" "state_of_dispatch s' ''d1'' = Some ''accepted''"
    by (rule sample_accept)
  obtain q s'' where b: "start_dispatch ''d1'' None s' = (q, s'')" by fastforce
  have one: "dispatch_step sample_dispatch s'" by (rule dispatch_step.operation [OF dispatch_op.accept a(1)])
  have two: "dispatch_step s' s''" by (rule dispatch_step.operation [OF dispatch_op.start b])
  have "lifecycle\<^sup>=\<^sup>= (state_of_dispatch s') (state_of_dispatch s'')"
    using dispatch_refines_lifecycle [OF r_into_rtranclp [of dispatch_step, OF one] two idealD(1) [OF sample_dispatch_ideal]] by (rule conjunct1)
  with one a(2) b show ?thesis by (intro exI [of _ s'] exI [of _ s'']) simp
qed

text \<open>Every dispatch operation that returns made exactly one legal move of its dispatch, from the
  state the projection had to its own marker, leaves every other dispatch where it was, and, the
  cancellation aside, ran on the dispatch's target node.\<close>

theorem dispatch_moves_legally:
  assumes "dispatch_op i marker op" "op s = (Inr r, s')" "ledger_ok s" "i \<noteq> []"
  shows "legal_move (state_of_dispatch s i) marker \<and> state_of_dispatch s' i = Some marker \<and>
    (\<forall>j. j \<noteq> i \<longrightarrow> state_of_dispatch s' j = state_of_dispatch s j) \<and>
    (marker = ''canceled'' \<or> (\<exists>row. dispatch_row_of s i = Some row \<and> dr_target row = Some (st_node s)))"
proof -
  have "advances i marker op s" using dispatch_op_shape [OF assms(1), of s] assms(2) by auto
  then obtain row summary extra any where a: "op s = advance i row marker summary extra any s" "dispatch_row_of s i = Some row"
    "marker \<noteq> ''canceled'' \<longrightarrow> dr_target row = Some (st_node s)" "any \<longrightarrow> marker = ''canceled''"
    "list_all (\<lambda>(k, v). plain v) extra" "distinct (map fst extra)" "''dispatch_id'' \<notin> fst ` set extra"
    unfolding advances_def by blast
  from advance_moves [OF a(1) [symmetric, unfolded assms(2)] assms(3,4) a(4-7)] a(2,3) show ?thesis by blast
qed

theorem dispatch_moves_legally_witness:
  "\<exists>r s'. accept_dispatch ''d1'' (Some ''ok'') sample_dispatch = (Inr r, s') \<and> legal_move None ''accepted'' \<and>
     state_of_dispatch s' ''d1'' = Some ''accepted''"
proof -
  obtain r s' where a: "accept_dispatch ''d1'' (Some ''ok'') sample_dispatch = (Inr r, s')" by (rule sample_accept)
  have "dispatch_op ''d1'' ''accepted'' (accept_dispatch ''d1'' (Some ''ok''))" by (rule dispatch_op.intros)
  from dispatch_moves_legally [OF this a idealD(1) [OF sample_dispatch_ideal]] a show ?thesis by (simp add: sample_dispatch_simps)
qed

text \<open>An operation on a dispatch that has terminated, on one with no row, or, the cancellation
  aside, on any node but the target, raises and leaves the store exactly as it was.\<close>

theorem dispatch_refusals_leave_no_trace:
  assumes "dispatch_op i marker op"
    and "state_of_dispatch s i = Some q \<and> dispatch_terminal q \<or> dispatch_row_of s i = None \<or>
      marker \<noteq> ''canceled'' \<and> dispatch_row_of s i = Some row \<and> dr_target row \<noteq> Some (st_node s)"
  shows "\<exists>e. op s = (Inl e, s)"
  using dispatch_op_shape [OF assms(1), of s]
proof
  assume "advances i marker op s"
  then obtain row' summary extra any where a: "op s = advance i row' marker summary extra any s" "dispatch_row_of s i = Some row'"
    "marker \<noteq> ''canceled'' \<longrightarrow> dr_target row' = Some (st_node s)"
    unfolding advances_def by blast
  with assms(2) have q: "state_of_dispatch s i = Some q" "dispatch_terminal q" by auto
  moreover have "\<not> marker \<in> set (legal_next (Some q))" "q \<in> set terminal_states"
    using q(2) by (auto simp: dispatch_terminal_def legal_next_def terminal_states_def)
  ultimately show ?thesis using a(1) by (simp add: advance_def seq_def [of "guard _ _"] Let_def)
qed

theorem dispatch_refusals_leave_no_trace_witness:
  "\<exists>e. fail_dispatch ''d2'' ''no'' None sample_dispatch = (Inl e, sample_dispatch)"
proof -
  have "dispatch_op ''d2'' ''failed'' (fail_dispatch ''d2'' ''no'' None)" by (rule dispatch_op.intros)
  moreover have "dispatch_row_of sample_dispatch ''d2'' = None" by (simp add: dispatch_row_of_def sample_dispatch_def)
  ultimately show ?thesis by (rule dispatch_refusals_leave_no_trace [OF _ disjI2 [OF disjI1]])
qed

text \<open>C9. A request is granted only under the lease: unless the origin holds the lease of the scope at the
  instant of the request, it raises and no table changes. One that returns names a dispatch that every
  node now projects, and whose row asks the target it was given.\<close>

theorem dispatch_needs_lease:
  assumes "request_dispatch target task scope required origin summary s = (r, s')" "ledger_ok s"
  shows "(\<not> has_lease s scope (str_or origin (st_node s)) \<longrightarrow>
        (\<exists>l. r = Inl (unleased scope (str_or origin (st_node s)) l)) \<and> st_db s' = st_db s) \<and>
     (\<forall>v. r = Inr v \<longrightarrow> (\<exists>i row. dget v ''dispatch_id'' = PStr i \<and> state_of_dispatch s' i \<noteq> None \<and>
        dispatch_row_of s i = None \<and> dispatch_row_of s' i = Some row \<and> dr_target row = Some target))"
  using assms(1)
proof (cases rule: request_cases)
  case (asked i x ev v row z)
  have "\<exists>i row. dget d ''dispatch_id'' = PStr i \<and> state_of_dispatch s' i \<noteq> None \<and>
        dispatch_row_of s i = None \<and> dispatch_row_of s' i = Some row \<and> dr_target row = Some target" if "r = Inr d" for d
  proof -
    have "\<not> isl z" using asked(7) that by simp
    then obtain y where "fleet_write (insert_dispatch row) v = (Inr y, s')" using asked(4) by (cases z) auto
    note w = insert_row [OF this]
    have "fd_dispatches (st_db v) = fd_dispatches (st_db s)" using append_dispatches [OF asked(3)] drawn_simps(4) by simp
    with w asked(5) have "dispatch_row_of s i = None" "dispatch_row_of s' i = Some row"
      by (simp_all add: dispatch_row_of_def find_snoc)
    moreover have "state_of_dispatch s' i \<noteq> None"
      using requested_row [OF asked(3) [unfolded dispatch_payload_def] drawn_simps(3) [OF assms(2)] asked(2)] insert_events [OF asked(4)]
      by (simp add: state_of_dispatch_proj) (metis fun_upd_same option.distinct(1) state_of_dispatch_proj)
    ultimately show ?thesis using asked(6) asked(8) [OF that] by blast
  qed
  with asked(1) show ?thesis by blast
qed auto

theorem dispatch_needs_lease_witness:
  "\<exists>l s'. request_dispatch ''n2'' ''t'' ''repo.b'' None None None (sample_store False) = (Inl (unleased ''repo.b'' ''n1'' l), s') \<and>
     st_db s' = st_db (sample_store False)"
proof -
  obtain r s' where run: "request_dispatch ''n2'' ''t'' ''repo.b'' None None None (sample_store False) = (r, s')" by fastforce
  have "reduce_lease [] now = []" for now by (simp add: reduce_lease_def canonical_def)
  then have "\<not> has_lease (sample_store False) ''repo.b'' ''n1''" by (simp add: has_lease_def)
  with dispatch_needs_lease [OF run idealD(1) [OF sample_ideal]] run show ?thesis
    by (auto simp: str_or_def)
qed

text \<open>C10. A patch reaches the work tree only after an approval and a clean dry run: without the approval no
  git command runs, after a failed dry run nothing else runs, and an application that returns ran the
  dry run and then the application, both with exit code zero, and recorded the resolution.\<close>

theorem apply_needs_approval_and_dry_run:
  assumes "apply_dispatch git lookup i path approval summary (s, w) = (r, (s', w'))" "ledger_ok s"
  shows "(dget (dict_or_empty (case lookup of None \<Rightarrow> PNone | Some f \<Rightarrow> f approval)) ''state'' \<noteq> PStr ''approved'' \<longrightarrow>
        isl r \<and> s' = s \<and> w' = w) \<and>
     (\<forall>out v. git [''apply'', ''--check'', ''--'', path] w = (Inr out, v) \<and> go_code out \<noteq> 0 \<longrightarrow> isl r \<and> s' = s \<and> w' \<in> {w, v}) \<and>
     (\<not> isl r \<longrightarrow> (\<exists>out v out'. git [''apply'', ''--check'', ''--'', path] w = (Inr out, v) \<and> go_code out = 0 \<and>
        git [''apply'', ''--'', path] v = (Inr out', w') \<and> go_code out' = 0 \<and>
        (\<exists>e \<in> set (coord_events s'). is_event ''resolution'' ''recorded'' e)))"
proof -
  let ?ok = "dget (dict_or_empty (case lookup of None \<Rightarrow> PNone | Some f \<Rightarrow> f approval)) ''state'' = PStr ''approved''"
  obtain out v where check: "git [''apply'', ''--check'', ''--'', path] w = (out, v)" by fastforce
  show ?thesis
  proof (cases "?ok \<and> (\<exists>x. out = Inr x \<and> go_code x = 0)")
    case False
    with assms check have "isl r \<and> s' = s \<and> w' \<in> {w, v} \<and> (\<not> ?ok \<longrightarrow> w' = w)"
      by (cases out) (auto simp: apply_dispatch_def Let_def seq_def on_tree_def split: if_splits)
    with False check show ?thesis by auto
  next
    case True
    then obtain x where x: "out = Inr x" "go_code x = 0" by blast
    obtain out' u where apply': "git [''apply'', ''--'', path] v = (out', u)" by fastforce
    define y where "y = str_or summary (''Dispatch '' @ i @ '' patch applied to worktree ('' @ approval @ '').'')"
    let ?p = "[(''dispatch_id'', PStr i), (''applied'', PBool True), (''artifact'', PStr (path_name path)), (''approval_id'', PStr approval)]"
    obtain q t where a: "append_coord_event ''resolution'' ''recorded'' y None None (Some ?p) None None s = (q, t)" by fastforce
    have "(\<not> isl r \<longrightarrow> (\<exists>z. out' = Inr z \<and> go_code z = 0) \<and> w' = u \<and> s' = t \<and> \<not> isl q)"
      using assms(1) True x check apply' a unfolding apply_dispatch_def Let_def y_def [symmetric]
      by (cases q; cases out') (auto simp: seq_def on_tree_def on_store_def split: if_splits)
    moreover have "\<not> isl q \<Longrightarrow> \<exists>e \<in> set (coord_events t). is_event ''resolution'' ''recorded'' e"
      using a assms(2) by (elim append_any) (auto simp: is_event_def)
    ultimately show ?thesis using True x check apply' by auto
  qed
qed

theorem apply_needs_approval_and_dry_run_witness:
  "\<exists>r s' w'. apply_dispatch (\<lambda>args w. (Inr \<lparr>go_code = 0, go_stdout = None, go_stderr = None\<rparr>, args # w)) None ''d1'' ''p'' ''a1'' None
     (sample_store False, []) = (r, (s', w')) \<and> isl r \<and> w' = []"
proof -
  obtain r s' w' where run: "apply_dispatch (\<lambda>args w. (Inr \<lparr>go_code = 0, go_stdout = None, go_stderr = None\<rparr>, args # w)) None ''d1'' ''p'' ''a1'' None
     (sample_store False, []) = (r, (s', w'))" by (metis prod.exhaust)
  from apply_needs_approval_and_dry_run [OF run idealD(1) [OF sample_ideal]] run show ?thesis
    by (auto simp: dget_def)
qed

end
