(* ===== verification/Sample_Ledgers.thy ===== *)
theory Sample_Ledgers imports Reconcile Lease_Laws Dispatch_Theorems begin

text \<open>
  Small concrete ledgers on which the properties of reconnection are exercised: a node's own isolated
  lease, a competing lease of another node, and a node whose heartbeat is a day old.
\<close>

section \<open>A pull without a hub\<close>

lemma local_watermark:
  assumes "\<And>k. env_settings_fault (st_env s) k = None"
  obtains t where "record_watermark p n s = (Inr (), t)" "st_db t = st_db s" "st_node t = st_node s" "st_env t = st_env s" "st_uuid t = st_uuid s"
    "st_synced t = st_synced s" "st_in_tx t = st_in_tx s" "st_clock t = st_clock s"
proof -
  have "\<exists>t. record_watermark p n s = (Inr (), t) \<and> st_db t = st_db s \<and> st_node t = st_node s \<and> st_env t = st_env s \<and>
      st_uuid t = st_uuid s \<and> st_synced t = st_synced s \<and> st_in_tx t = st_in_tx s \<and> st_clock t = st_clock s"
    using assms
    by (simp add: record_watermark_def watermark_def get_setting_def set_setting_def settings_fault_def handle_def seq_def gets_def ret_def
        modify_def)
  then show thesis using that by blast
qed

lemma local_pull:
  assumes "\<not> st_synced s" "\<not> st_in_tx s" "\<And>k. env_settings_fault (st_env s) k = None"
  obtains x t where "pull_and_reduce None s = (Inr x, t)" "st_db t = st_db s" "st_node t = st_node s" "st_env t = st_env s" "st_uuid t = st_uuid s"
    "st_synced t = st_synced s" "st_in_tx t = st_in_tx s" "st_clock t = Suc (Suc (st_clock s))"
proof -
  define u where "u = s\<lparr>st_clock := Suc (Suc (st_clock s))\<rparr>"
  obtain t where t: "record_watermark (env_project_id (st_env u)) (max_epoch (coord_events s)) u = (Inr (), t)" "st_db t = st_db u" "st_node t = st_node u"
      "st_env t = st_env u" "st_uuid t = st_uuid u" "st_synced t = st_synced u" "st_in_tx t = st_in_tx u" "st_clock t = st_clock u"
    by (rule local_watermark [of u]) (use assms(3) in \<open>simp add: u_def\<close>)
  have "\<exists>x. pull_and_reduce None s = (Inr x, t)"
    using assms(1,2) t(1)
    by (simp add: pull_and_reduce_def pull_def sync_op_def sync_guard_def guard_def digest_def seq_def gets_def ret_def now_iso_def next_clock_def
        Let_def u_def)
  with t show thesis using that by (auto simp: u_def)
qed

section \<open>Ledgers\<close>

definition row_of :: "string \<Rightarrow> string \<Rightarrow> string \<Rightarrow> string \<Rightarrow> string \<Rightarrow> int \<Rightarrow> pydict \<Rightarrow> coord_row" where
  "row_of i created node kind marker epoch payload =
     \<lparr>cr_id = i, cr_created = created, cr_node = node, cr_project = None, cr_kind = kind, cr_marker = marker,
      cr_scope = Some ''repo.a'', cr_epoch = Some epoch, cr_payload_json = Some (json_dumps (PDict payload)), cr_source = None,
      cr_hash = ''h'', cr_sig = None\<rparr>"

definition own_time :: string where
  "own_time = ''2019-07-29T12:26:40+00:00''"

definition later_time :: string where
  "later_time = ''2019-07-30T12:26:40+00:00''"

lemma own_time: "own_time = now_text (env_clock sample_env 0)"
  by code_simp

definition mine :: coord_row where
  "mine = row_of ''a'' own_time ''n1'' ''lease'' ''granted'' 1
     [(''holder'', PStr ''n1''), (''grant_seq'', PInt 1), (''iso_sentinel'', PStr ''iso:n1'')]"

definition theirs :: coord_row where
  "theirs = row_of ''b'' own_time ''n2'' ''lease'' ''granted'' 2 [(''holder'', PStr ''n2''), (''grant_seq'', PInt 1)]"

text \<open>The same row with a hash that is not its own.\<close>

definition forged :: coord_row where
  "forged = theirs\<lparr>cr_hash := ''x''\<rparr>"

definition beaten :: node_row where
  "beaten = \<lparr>nr_id = ''n2'', nr_role = None, nr_tailnet = None, nr_os = None, nr_arch = None, nr_capabilities = None, nr_pubkey = None,
     nr_last_heartbeat = Some own_time, nr_registered = None, nr_updated = None\<rparr>"

definition store_of :: "coord_row list \<Rightarrow> store" where
  "store_of rows = (sample_store False)\<lparr>st_db := \<lparr>fd_events = rows, fd_nodes = [beaten], fd_dispatches = []\<rparr>, st_clock := 1\<rparr>"

lemma store_of_ideal:
  assumes "rows \<in> {[mine], [theirs], [mine, theirs], [forged]}" "st_env t = sample_env" "st_db t = st_db (store_of rows)" "st_node t = ''n1''"
    and "\<not> st_synced t" "st_uuid t = 0" "1 \<le> st_clock t" "st_clock t \<le> 1000"
  shows "ideal 1000 t"
proof -
  have rows: "r \<in> set rows \<Longrightarrow> cr_id r \<in> {''a'', ''b''} \<and> cr_created r = now_text (env_clock sample_env 0)" for r
    using assms(1) by (auto simp: mine_def theirs_def forged_def row_of_def own_time)
  have "distinct (map cr_id rows)" using assms(1) by (auto simp: mine_def theirs_def forged_def row_of_def)
  moreover have "cr_id r \<noteq> x @ env_uuid sample_env j" if "r \<in> set rows" for r x j
  proof
    assume eq: "cr_id r = x @ env_uuid sample_env j"
    have "last (cr_id r) \<in> {CHR ''a'', CHR ''b''}" using rows [OF that] by auto
    moreover have "last (x @ env_uuid sample_env j) \<in> {CHR ''0'', CHR ''1''}" by (cases j) (auto simp: sample_env_def)
    ultimately show False using eq by auto
  qed
  moreover have "dt_in_range (env_clock sample_env 0)" using sample_env_ok by (simp add: env_ok_def)
  ultimately have "ledger_ok t"
    using assms(2-6) sample_env_ok rows by (auto simp: ledger_ok_def rows_ok_def store_of_def)
  moreover have "env_clock sample_env i < env_clock sample_env j" if "i < j" "j < st_clock t + 1000" for i j
    using that assms(8) by (simp add: sample_env_def)
  moreover have "\<exists>j < st_clock t. cr_created r = now_text (env_clock sample_env j)" if "r \<in> set rows" for r
    using rows [OF that] assms(7) by (intro exI [of _ 0]) auto
  ultimately show ?thesis
    using assms(2-4) by (auto simp: ideal_def store_of_def) (simp_all add: sample_env_def)
qed

section \<open>Appending to them\<close>

fun plain_field :: "string \<times> pyval \<Rightarrow> bool" where
  "plain_field (name, PStr t) = tame_text t"
| "plain_field f = False"

lemma plain_fields_clean: "list_all plain_field fs \<Longrightarrow> list_all (\<lambda>(name, v). clean v) fs"
proof (induction fs)
  case (Cons f fs)
  obtain name v where f: "f = (name, v)" by (cases f)
  from Cons.prems have "clean v" by (cases v) (auto simp: f clean_def tame_text_clean)
  with Cons f show ?case by simp
qed simp

lemma tame_fields: "map snd fs = map PStr ts \<Longrightarrow> list_all tame_text ts \<Longrightarrow> list_all plain_field fs"
proof (induction fs arbitrary: ts)
  case (Cons f fs)
  then show ?case by (cases f) (auto simp: Cons_eq_map_conv)
qed simp

lemma sample_appends:
  assumes "ideal (n + 2) t" "st_node t = ''n1''" "kind_marker_ok kind marker" "texts_fit ''n1'' x scope project"
    and "case epoch of None \<Rightarrow> True | Some m \<Rightarrow> 0 \<le> m" "list_all plain_field (redaction_fields x scope payload)"
  obtains a u where "append_coord_event kind marker x scope epoch payload project None t = (Inr a, u)" "ideal n u" "st_node u = ''n1''"
proof -
  obtain a u where "append_coord_event kind marker x scope epoch payload project None t = (Inr a, u)" "ideal n u" "goes_on t u"
    by (rule append_goes [where n = n and s = t and kind = kind and marker = marker and summary = x and scope = scope and project = project and
        epoch = epoch and payload = payload]) (use assms plain_fields_clean in \<open>simp_all add: numeral_eq_Suc\<close>)
  with that assms(2) show thesis by (simp add: goes_on_def)
qed

text \<open>The fields are computed first, so that each text is tested on its own.\<close>

lemma request_fields:
  "redaction_fields ''iso adoption request'' (Some ''repo.a'') (Some [(''mode'', PStr ''advisory''), (''ttl_s'', PInt 900)]) =
   [(''summary'', PStr ''iso adoption request''), (''scope_key'', PStr ''repo.a''), (''payload.mode'', PStr ''advisory''),
    (''payload.mode.pair'', PStr ''mode: advisory''), (''payload.ttl_s'', PStr ''900''), (''payload.ttl_s.pair'', PStr ''ttl_s: 900'')]"
  by code_simp

lemma adopted_fields:
  "redaction_fields ''Iso scope repo.a adopted after reconcile.'' (Some ''repo.a'')
     (Some [(''iso_adopted'', PBool True), (''scope_key'', PStr ''repo.a''), (''iso_sentinel'', PStr ''iso:n1'')]) =
   [(''summary'', PStr ''Iso scope repo.a adopted after reconcile.''), (''scope_key'', PStr ''repo.a''),
    (''payload.iso_adopted'', PStr ''true''), (''payload.iso_adopted.pair'', PStr ''iso_adopted: true''),
    (''payload.scope_key'', PStr ''repo.a''), (''payload.scope_key.pair'', PStr ''scope_key: repo.a''),
    (''payload.iso_sentinel'', PStr ''iso:n1''), (''payload.iso_sentinel.pair'', PStr ''iso_sentinel: iso:n1'')]"
  by code_simp

lemma tame_texts_1: "tame_text ''iso adoption request''" "tame_text ''repo.a''"
  by code_simp+

lemma tame_texts_2: "tame_text ''advisory''" "tame_text ''mode: advisory''"
  by code_simp+

lemma tame_texts_3: "tame_text ''900''" "tame_text ''ttl_s: 900''"
  by code_simp+

lemma tame_texts_4: "tame_text ''Iso scope repo.a adopted after reconcile.''" "tame_text ''true''"
  by code_simp+

lemma tame_texts_5: "tame_text ''iso_adopted: true''" "tame_text ''scope_key: repo.a''"
  by code_simp+

lemma tame_texts_6: "tame_text ''iso:n1''" "tame_text ''iso_sentinel: iso:n1''"
  by code_simp+

lemmas tame_texts = tame_texts_1 tame_texts_2 tame_texts_3 tame_texts_4 tame_texts_5 tame_texts_6

lemma adopting_texts:
  "texts_fit ''n1'' ''iso adoption request'' (Some ''repo.a'') None"
  "texts_fit ''n1'' ''Iso scope repo.a adopted after reconcile.'' (Some ''repo.a'') None"
  "list_all plain_field (redaction_fields ''iso adoption request'' (Some ''repo.a'') (Some [(''mode'', PStr ''advisory''), (''ttl_s'', PInt 900)]))"
  "list_all plain_field (redaction_fields ''Iso scope repo.a adopted after reconcile.'' (Some ''repo.a'')
     (Some [(''iso_adopted'', PBool True), (''scope_key'', PStr ''repo.a''), (''iso_sentinel'', PStr ''iso:n1'')]))"
  "kind_marker_ok ''resolution'' ''recorded''"
proof -
  show "texts_fit ''n1'' ''iso adoption request'' (Some ''repo.a'') None"
    "texts_fit ''n1'' ''Iso scope repo.a adopted after reconcile.'' (Some ''repo.a'') None" "kind_marker_ok ''resolution'' ''recorded''"
    by code_simp+
qed (simp_all only: request_fields adopted_fields list.pred_inject plain_field.simps tame_texts simp_thms)

end
