(* ===== verification/Ledger_Verify.thy ===== *)
theory Ledger_Verify imports Sample_Ledgers begin

text \<open>
  The tamper-evidence pass of \<open>fleet/ledger_verify.py\<close>: every stored row is hashed again from its raw
  columns and its signature is checked against every key its node ever published; bad rows may be
  recorded as advisory divergences, one per row. The Ed25519 check of PyNaCl is a parameter, false
  on malformed keys and signatures as on bad ones.
\<close>

section \<open>The key history and one row\<close>

definition note_key :: "string list \<Rightarrow> pyval \<Rightarrow> string list" where
  "note_key keys v = (if py_truthy v \<and> py_str v \<notin> set keys then keys @ [py_str v] else keys)"

definition key_history :: "store \<Rightarrow> string \<Rightarrow> string list" where
  "key_history s node =
     (let table = (case find_node (st_db s) node of None \<Rightarrow> [] | Some r \<Rightarrow> if opt_str (nr_pubkey r) = [] then [] else [opt_str (nr_pubkey r)]);
          own = filter (\<lambda>e. ev_kind e = Some ''node'' \<and> ev_node e = Some node) (coord_events s)
      in fold (\<lambda>e keys. note_key keys (dget (ev_payload_dict e) ''pubkey'')) own table)"

definition recompute_hash :: "fleet_env \<Rightarrow> coord_row \<Rightarrow> string" where
  "recompute_hash env r = utc_text_hash env (row_core r)"

type_synonym sig_check = "string \<Rightarrow> string \<Rightarrow> string \<Rightarrow> bool"

definition verify_sig :: "sig_check \<Rightarrow> string \<Rightarrow> string \<Rightarrow> string list \<Rightarrow> bool" where
  "verify_sig check sig_hex message pubkeys = list_ex (\<lambda>pub. check pub message sig_hex) pubkeys"

datatype row_status = Verified | Unsigned | Tampered | Invalid_Sig | Unknown_Key

definition row_status :: "sig_check \<Rightarrow> store \<Rightarrow> coord_row \<Rightarrow> row_status" where
  "row_status check s r =
     (let recomputed = recompute_hash (st_env s) r; sig = opt_str (cr_sig r) in
      if cr_hash r = [] then (if sig \<noteq> [] then Tampered else Unsigned)
      else if recomputed \<noteq> cr_hash r then Tampered
      else if sig = [] then Unsigned
      else (let keys = key_history s (cr_node r) in
        if keys = [] then Unknown_Key
        else if verify_sig check sig recomputed keys then Verified else Invalid_Sig))"

section \<open>The pass\<close>

definition raw_rows :: "store \<Rightarrow> coord_row list" where
  "raw_rows s = sort_key (\<lambda>r. (cr_created r, cr_id r)) (fd_events (st_db s))"

definition flagged_by :: "event \<Rightarrow> string option" where
  "flagged_by e =
     (let d = ev_payload_dict e in
      if is_event ''divergence'' ''detected'' e \<and> dget d ''would_block'' = PStr ''LEDGER_SIG_INVALID'' \<and> py_truthy (dget d ''event_id'')
      then Some (py_str (dget d ''event_id'')) else None)"

definition existing_divergence_event_ids :: "store \<Rightarrow> string list" where
  "existing_divergence_event_ids s = List.map_filter flagged_by (coord_events s)"

record verify_report =
  vr_checked :: int
  vr_verified :: int
  vr_unsigned :: int
  vr_tampered :: "string list"
  vr_invalid :: "string list"
  vr_unknown :: "string list"
  vr_recorded :: "string list"

definition advisory :: "string \<Rightarrow> coord_row \<Rightarrow> append_result act" where
  "advisory reason r =
     append_coord_event ''divergence'' ''detected''
       (''Ledger row '' @ cr_id r @ '' failed signature verification ('' @ reason @ '').'') None None
       (Some [(''would_block'', PStr ''LEDGER_SIG_INVALID''), (''event_id'', PStr (cr_id r)), (''node'', PStr (cr_node r)), (''reason'', PStr reason)])
       None (Some (''ledger-verify:'' @ cr_id r @ '':LEDGER_SIG_INVALID''))"

definition advise_all :: "(string \<times> coord_row) list \<Rightarrow> string list act" where
  "advise_all bad = for_each (\<lambda>(reason, r). seq (advisory reason r) (\<lambda>a. ret (ar_id a))) bad"

definition verify_ledger :: "sig_check \<Rightarrow> bool \<Rightarrow> verify_report act" where
  "verify_ledger check rec =
     seq (gets (\<lambda>s. map (\<lambda>r. (row_status check s r, r)) (raw_rows s))) (\<lambda>judged.
     let of_status = (\<lambda>st. map snd (filter (\<lambda>(x, r). x = st) judged));
         tampered = of_status Tampered; invalid = of_status Invalid_Sig in
     seq (gets existing_divergence_event_ids) (\<lambda>already.
     seq (if rec then
            advise_all (filter (\<lambda>(_, r). cr_id r \<notin> set already)
                (map (Pair ''tampered_content'') tampered @ map (Pair ''invalid_sig'') invalid))
          else ret []) (\<lambda>recorded.
     ret \<lparr>vr_checked = int (length judged), vr_verified = int (length (of_status Verified)),
           vr_unsigned = int (length (of_status Unsigned)), vr_tampered = map cr_id tampered, vr_invalid = map cr_id invalid,
           vr_unknown = map cr_id (of_status Unknown_Key), vr_recorded = recorded\<rparr>)))"

section \<open>What the pass says of a row\<close>

lemma row_core_values: "plain (PDict (row_core r))"
  by (simp add: row_core_def of_opt_int_def of_opt_str_def split: option.split)

lemma core_text_eq: "json_compact (PDict (row_core r)) = json_compact (PDict (row_core q)) \<longleftrightarrow> row_core r = row_core q"
proof
  assume eq: "json_compact (PDict (row_core r)) = json_compact (PDict (row_core q))"
  have read: "json_loads (json_compact (PDict (row_core x))) = Some (canon (PDict (row_core x)))" for x
    using read_print [OF separators_program(2) plain_canon [OF row_core_values [of x]]] by (simp add: json_compact_def)
  from eq have "canon (PDict (row_core r)) = canon (PDict (row_core q))" using read [of r] read [of q] by simp
  moreover have vals: "map (\<lambda>(k, v). (k, canon v)) (row_core x) = row_core x" for x
    by (simp add: row_core_def of_opt_int_def of_opt_str_def split: option.split)
  ultimately have "sort_key fst (row_core r) = sort_key fst (row_core q)" by simp
  then have m: "map_of (row_core r) k = map_of (row_core q) k" for k
    by (metis map_of_sort_key_fst)
  show "row_core r = row_core q"
    using m [of "''node_id''"] m [of "''project_id''"] m [of "''event_kind''"] m [of "''marker''"] m [of "''scope_key''"]
      m [of "''epoch''"] m [of "''payload_json''"] m [of "''created_at''"]
    by (simp add: row_core_def)
qed simp

text \<open>C31. Changing a hashed column of a row is detected: when a row's stored hash is that of its columns, any
  row with the same stored hash and another node, project, kind, marker, scope, epoch, payload text or
  time is reported as tampered, unless the two texts collide under the hash.\<close>

theorem tampering_detected:
  assumes "cr_hash r = recompute_hash (st_env s) r" "cr_hash r \<noteq> []" "cr_hash q = cr_hash r" "row_core q \<noteq> row_core r"
    and "json_compact (PDict (row_core q)) \<noteq> json_compact (PDict (row_core r)) \<longrightarrow> recompute_hash (st_env s) q \<noteq> recompute_hash (st_env s) r"
  shows "row_status check s q = Tampered"
  using assms core_text_eq [of q r] by (simp add: row_status_def Let_def)

definition hashing_store :: store where
  "hashing_store = (store_of [])\<lparr>st_env := sample_env\<lparr>env_sha256 := (\<lambda>x. x)\<rparr>\<rparr>"

theorem tampering_detected_witness:
  "row_status (\<lambda>_ _ _. True) hashing_store ((sealed (st_env hashing_store) theirs)\<lparr>cr_epoch := Some 9\<rparr>) = Tampered"
proof (rule tampering_detected [where r = "sealed (st_env hashing_store) theirs"])
  let ?r = "sealed (st_env hashing_store) theirs" and ?q = "(sealed (st_env hashing_store) theirs)\<lparr>cr_epoch := Some 9\<rparr>"
  show "cr_hash ?r = recompute_hash (st_env hashing_store) ?r" by (simp add: recompute_hash_def)
  have plain: "recompute_hash (st_env hashing_store) x = json_compact (PDict (row_core x))" for x
    by (simp add: recompute_hash_def utc_text_hash_def hashing_store_def)
  then show "json_compact (PDict (row_core ?q)) \<noteq> json_compact (PDict (row_core ?r)) \<longrightarrow>
      recompute_hash (st_env hashing_store) ?q \<noteq> recompute_hash (st_env hashing_store) ?r" by simp
  show "cr_hash ?q = cr_hash ?r" by (simp add: sealed_def Let_def)
  show "cr_hash ?r \<noteq> []" by (simp add: utc_text_hash_def hashing_store_def json_compact_def)
  show "row_core ?q \<noteq> row_core ?r" by (simp add: row_core_def of_opt_int_def theirs_def row_of_def)
qed

definition own_key_known :: "sig_check \<Rightarrow> store \<Rightarrow> bool" where
  "own_key_known check s \<longleftrightarrow> (\<forall>x. env_sha256 (st_env s) x \<noteq> []) \<and>
     (\<forall>h sg. env_sign (st_env s) h = Some sg \<longrightarrow> sg \<noteq> [] \<and> (\<exists>pub \<in> set (key_history s (st_node s)). check pub h sg))"

lemma fresh_row_status:
  assumes "fresh_row s kind marker scope epoch payload project source row" "own_key_known check s'" "st_env s' = st_env s" "st_node s' = st_node s"
  shows "row_status check s' row = (if cr_sig row = None then Unsigned else Verified)"
proof -
  have hash: "cr_hash row = recompute_hash (st_env s') row" and sg: "cr_sig row = env_sign (st_env s') (cr_hash row)" and node: "cr_node row = st_node s'"
    using assms(1,3,4) by (simp_all add: fresh_row_def recompute_hash_def)
  have non: "cr_hash row \<noteq> []" using assms(2) hash by (simp add: own_key_known_def recompute_hash_def utc_text_hash_def)
  show ?thesis
  proof (cases "env_sign (st_env s') (cr_hash row)")
    case (Some g)
    with assms(2) obtain pub where "g \<noteq> []" "pub \<in> set (key_history s' (st_node s'))" "check pub (cr_hash row) g"
      unfolding own_key_known_def by blast
    with Some non sg node hash [symmetric] show ?thesis
      by (auto simp: row_status_def Let_def verify_sig_def list_ex_iff)
  qed (use sg hash [symmetric] in \<open>simp add: row_status_def Let_def\<close>)
qed

text \<open>What the store itself appends passes the check: the new row of an append that returns is reported as
  unsigned when the node has no signing seed, and as verified when it has one and its key is among
  those it published; it is never reported as tampered, invalid or unknown.\<close>

theorem appended_row_verifies:
  assumes "append_coord_event kind marker summary scope epoch payload project None s = (Inr a, s')" "ledger_ok s" "own_key_known check s'"
  shows "\<exists>r \<in> set (fd_events (st_db s')). cr_id r = ar_id a \<and> row_status check s' r = (if cr_sig r = None then Unsigned else Verified)"
proof -
  obtain row where "fresh_row s kind marker scope epoch payload project None row" "fd_events (st_db s') = fd_events (st_db s) @ [row]"
      "ar_id a = cr_id row" "st_env s' = st_env s" "st_node s' = st_node s"
    using append_new [OF assms(1,2)] by metis
  with fresh_row_status [OF this(1) assms(3) this(4,5)] show ?thesis by auto
qed

lemma sample_key_known: "st_env s = sample_env \<Longrightarrow> own_key_known check s"
  by (simp add: own_key_known_def) (simp add: sample_env_def)

theorem appended_row_verifies_witness:
  "\<exists>a u. append_coord_event ''resolution'' ''recorded'' ''iso adoption request'' (Some ''repo.a'') None
      (Some [(''mode'', PStr ''advisory''), (''ttl_s'', PInt 900)]) None None (store_of [theirs]) = (Inr a, u) \<and>
     (\<exists>r \<in> set (fd_events (st_db u)). cr_id r = ar_id a \<and>
       row_status (\<lambda>_ _ _. False) u r = (if cr_sig r = None then Unsigned else Verified))"
proof -
  have ideal: "ideal (998 + 2) (store_of [theirs])"
    using store_of_ideal [of "[theirs]" "store_of [theirs]"] by (simp add: store_of_def sample_store_def)
  obtain a u where run: "append_coord_event ''resolution'' ''recorded'' ''iso adoption request'' (Some ''repo.a'') None
      (Some [(''mode'', PStr ''advisory''), (''ttl_s'', PInt 900)]) None None (store_of [theirs]) = (Inr a, u)"
    by (rule sample_appends [OF ideal, where epoch = None and project = None and kind = "''resolution''" and marker = "''recorded''"
      and x = "''iso adoption request''" and scope = "Some ''repo.a''" and payload = "Some [(''mode'', PStr ''advisory''), (''ttl_s'', PInt 900)]"])
      (use adopting_texts in \<open>simp_all add: store_of_def sample_store_def\<close>)
  have ok: "ledger_ok (store_of [theirs])" by (rule idealD(1) [OF ideal])
  have "st_env u = sample_env" using append_new [OF run ok] by (simp add: store_of_def sample_store_def) metis
  from appended_row_verifies [OF run ok sample_key_known [OF this]] run show ?thesis by blast
qed

section \<open>A second pass adds nothing\<close>

definition advisory_source :: "coord_row \<Rightarrow> string option" where
  "advisory_source r = Some (''ledger-verify:'' @ cr_id r @ '':LEDGER_SIG_INVALID'')"

definition advised :: "store \<Rightarrow> coord_row \<Rightarrow> bool" where
  "advised s r \<longleftrightarrow> (\<exists>q \<in> set (fd_events (st_db s)). cr_source q = advisory_source r)"

text \<open>What advisories do to the tables: rows are added at the end, each sealed by this node and of kind divergence.\<close>

definition own_divergence :: "store \<Rightarrow> coord_row \<Rightarrow> bool" where
  "own_divergence s n \<longleftrightarrow> (\<exists>u payload source. st_env u = st_env s \<and> st_node u = st_node s \<and>
     fresh_row u ''divergence'' ''detected'' None None payload None source n)"

definition advises :: "store \<Rightarrow> store \<Rightarrow> bool" where
  "advises s t \<longleftrightarrow> st_env t = st_env s \<and> st_node t = st_node s \<and> fd_nodes (st_db t) = fd_nodes (st_db s) \<and>
     (\<exists>new. fd_events (st_db t) = fd_events (st_db s) @ new \<and> list_all (own_divergence s) new)"

interpretation advising: state_preorder advises
proof unfold_locales
  fix s t u assume st: "advises s t" and tu: "advises t u"
  then have "own_divergence t = own_divergence s" by (intro ext) (simp add: advises_def own_divergence_def)
  with st tu show "advises s u" by (auto simp: advises_def)
qed (simp add: advises_def)

lemma advisory_cases:
  assumes "advisory reason r s = (x, t)"
  shows "advises s t \<and> (\<not> isl x \<longrightarrow> advised t r) \<and> (advised s r \<longrightarrow> st_db t = st_db s)"
  using assms unfolding advisory_def
proof (cases rule: append_coord_event_cases)
  case (raised e)
  then show ?thesis by (simp add: advises_def goes_on_def)
next
  case (added a row)
  have "own_divergence s row" using added(2) unfolding own_divergence_def by blast
  moreover have "cr_source row = advisory_source r" "\<not> row_conflicts (fd_events (st_db s)) row"
    using added(2) by (simp_all add: fresh_row_def advisory_source_def)
  ultimately show ?thesis
    using added(3,10) by (auto simp: advises_def goes_on_def advised_def row_conflicts_def list_ex_iff advisory_source_def)
next
  case (replayed a q)
  then show ?thesis by (auto simp: advises_def goes_on_def advised_def advisory_source_def)
qed

lemma advise_one: "keeps advises (case b of (reason, r) \<Rightarrow> seq (advisory reason r) (\<lambda>a. ret (ar_id a)))"
proof -
  have "keeps advises (advisory reason r)" for reason r
    by (rule keepsI) (metis advisory_cases prod.collapse)
  then show ?thesis by (cases b) (auto intro!: advising.keeps_intros)
qed

lemma advise_all_keeps: "keeps advises (advise_all bad)"
  unfolding advise_all_def by (intro advising.keeps_for_each advise_one)

lemma advised_stays: "advised s r \<Longrightarrow> advises s t \<Longrightarrow> advised t r"
  by (auto simp: advised_def advises_def)

lemma advise_all_advises: "advise_all bad s = (Inr ids, t) \<Longrightarrow> (reason, r) \<in> set bad \<Longrightarrow> advised t r"
proof (induction bad arbitrary: s ids)
  case (Cons b bad)
  obtain reason' r' where b: "b = (reason', r')" by (cases b)
  obtain a u where one: "advisory reason' r' s = (Inr a, u)" and rest: "\<exists>ids. advise_all bad u = (Inr ids, t)"
    using Cons.prems(1) by (auto simp: advise_all_def b elim!: seq_InrE)
  show ?case
  proof (cases "(reason, r) \<in> set bad")
    case True
    with rest Cons.IH show ?thesis by blast
  next
    case False
    with Cons.prems(2) b advisory_cases [OF one] have "advised u r" by simp
    moreover from rest obtain js where "advise_all bad u = (Inr js, t)" ..
    then have "advises u t" by (rule keepsD [OF advise_all_keeps])
    ultimately show ?thesis by (rule advised_stays)
  qed
qed simp

lemma advise_all_again: "\<forall>(reason, r) \<in> set bad. advised s r \<Longrightarrow> st_db (snd (advise_all bad s)) = st_db s"
proof (induction bad arbitrary: s)
  case Nil
  then show ?case by (simp add: advise_all_def ret_def)
next
  case (Cons b bad)
  obtain reason r where b: "b = (reason, r)" by (cases b)
  obtain x u where one: "advisory reason r s = (x, u)" by fastforce
  have u: "st_db u = st_db s" using advisory_cases [OF one] Cons.prems b by auto
  then have "\<forall>(reason, r) \<in> set bad. advised u r" using Cons.prems by (auto simp: advised_def)
  from Cons.IH [OF this] u one b show ?case
    by (cases x) (auto simp: advise_all_def seq_def ret_def split: prod.splits sum.splits)
qed

section \<open>The judgement of old and new rows\<close>

lemma key_history_advises: "advises s t \<Longrightarrow> key_history t node = key_history s node"
proof -
  assume a: "advises s t"
  then obtain new where new: "fd_events (st_db t) = fd_events (st_db s) @ new" "list_all (own_divergence s) new" and nodes: "fd_nodes (st_db t) = fd_nodes (st_db s)"
    by (auto simp: advises_def)
  let ?own = "\<lambda>e. ev_kind e = Some ''node'' \<and> ev_node e = Some node"
  have "filter (?own \<circ> row_event) new = []"
    using new(2) by (auto simp: filter_empty_conv list_all_iff own_divergence_def fresh_row_def)
  then have "filter ?own (coord_events t) = filter ?own (coord_events s)"
    by (simp add: coord_events_def db_events_def filter_map filter_sort new(1))
  with nodes show ?thesis by (simp add: key_history_def find_node_def Let_def)
qed

lemma status_advises: "advises s t \<Longrightarrow> row_status check t r = row_status check s r"
proof -
  assume a: "advises s t"
  have "key_history t = key_history s" by (intro ext key_history_advises a)
  moreover have "st_env t = st_env s" using a by (simp add: advises_def)
  ultimately show ?thesis by (simp only: row_status_def)
qed

lemma own_key_advises: "advises s t \<Longrightarrow> own_key_known check s \<Longrightarrow> own_key_known check t"
  using key_history_advises [of s t] by (simp add: own_key_known_def advises_def)

lemma own_divergence_new: "list_all (own_divergence s) new \<Longrightarrow> n \<in> set new \<Longrightarrow> own_divergence s n"
  by (simp add: list_all_iff)

definition bad_rows :: "sig_check \<Rightarrow> store \<Rightarrow> coord_row list" where
  "bad_rows check s = filter (\<lambda>r. row_status check s r \<in> {Tampered, Invalid_Sig}) (fd_events (st_db s))"

lemma bad_rows_advises:
  assumes "advises s t" "own_key_known check s" shows "bad_rows check t = bad_rows check s"
proof -
  from assms(1) obtain new where new: "fd_events (st_db t) = fd_events (st_db s) @ new" "list_all (own_divergence s) new"
    and same: "st_env t = st_env s" "st_node t = st_node s" by (auto simp: advises_def)
  have "row_status check t n \<notin> {Tampered, Invalid_Sig}" if n: "n \<in> set new" for n
  proof -
    obtain u payload source where u: "st_env u = st_env s" "st_node u = st_node s" and "fresh_row u ''divergence'' ''detected'' None None payload None source n"
      using own_divergence_new [OF new(2) n] unfolding own_divergence_def by blast
    from fresh_row_status [OF this(3) own_key_advises [OF assms]] u same show ?thesis by simp
  qed
  then have "filter (\<lambda>r. row_status check t r \<in> {Tampered, Invalid_Sig}) new = []" by (auto simp: filter_empty_conv)
  then show ?thesis by (simp add: bad_rows_def new(1) status_advises [OF assms(1)])
qed

lemma marked_rows: "snd ` set (filter (\<lambda>(_, r). P r) (map (Pair a) xs @ map (Pair b) ys)) = {r \<in> set xs \<union> set ys. P r}"
  by force

lemma verify_parts:
  assumes "verify_ledger check True s = (x, t)"
  obtains bad where "snd ` set bad \<subseteq> set (bad_rows check s)" "t = snd (advise_all bad s)"
    "isl (fst (advise_all bad s)) = isl x" "\<And>r. r \<in> snd ` set bad \<Longrightarrow> cr_id r \<notin> set (existing_divergence_event_ids s)"
    "\<And>r. r \<in> set (bad_rows check s) \<Longrightarrow> cr_id r \<notin> set (existing_divergence_event_ids s) \<Longrightarrow> r \<in> snd ` set bad"
proof -
  let ?judged = "map (\<lambda>r. (row_status check s r, r)) (raw_rows s)"
  let ?of = "\<lambda>st. map snd (filter (\<lambda>(x, r). x = st) ?judged)"
  let ?bad = "filter (\<lambda>(_, r). cr_id r \<notin> set (existing_divergence_event_ids s))
    (map (Pair ''tampered_content'') (?of Tampered) @ map (Pair ''invalid_sig'') (?of Invalid_Sig))"
  have of: "set (?of st) = {r \<in> set (fd_events (st_db s)). row_status check s r = st}" for st
    by (force simp: raw_rows_def)
  have bad: "set (?of Tampered) \<union> set (?of Invalid_Sig) = set (bad_rows check s)" unfolding of by (auto simp: bad_rows_def)
  have "snd ` set ?bad = {r \<in> set (bad_rows check s). cr_id r \<notin> set (existing_divergence_event_ids s)}"
    unfolding marked_rows bad ..
  then have "snd ` set ?bad \<subseteq> set (bad_rows check s)" "\<And>r. r \<in> snd ` set ?bad \<Longrightarrow> cr_id r \<notin> set (existing_divergence_event_ids s)"
    "\<And>r. r \<in> set (bad_rows check s) \<Longrightarrow> cr_id r \<notin> set (existing_divergence_event_ids s) \<Longrightarrow> r \<in> snd ` set ?bad"
    by blast+
  moreover have "t = snd (advise_all ?bad s) \<and> isl (fst (advise_all ?bad s)) = isl x"
    using assms by (auto simp: verify_ledger_def seq_def gets_def ret_def Let_def split: prod.splits sum.splits)
  ultimately show thesis by (intro that [of ?bad]) blast+
qed

lemma flagged_grows: "advises s t \<Longrightarrow> set (existing_divergence_event_ids s) \<subseteq> set (existing_divergence_event_ids t)"
  by (auto simp: existing_divergence_event_ids_def List.map_filter_def advises_def set_coord_events)

text \<open>C32. Recording is idempotent: when a recording pass returned, another one leaves the tables exactly as they
  are, however it ends; provided this node's own signatures, if it signs, verify against its published keys.\<close>

theorem second_pass_adds_nothing:
  assumes "verify_ledger check True s = (Inr v, t)" "own_key_known check s" "verify_ledger check True t = (x, u)"
  shows "st_db u = st_db t"
proof -
  have returned: "isl (Inr v :: exn + verify_report) = False" by simp
  obtain first where first: "t = snd (advise_all first s)" "isl (fst (advise_all first s)) = False"
      "\<And>r. r \<in> set (bad_rows check s) \<Longrightarrow> cr_id r \<notin> set (existing_divergence_event_ids s) \<Longrightarrow> r \<in> snd ` set first"
    by (rule verify_parts [OF assms(1), unfolded returned]) (rule that; assumption)
  obtain second where second: "snd ` set second \<subseteq> set (bad_rows check t)" "u = snd (advise_all second t)"
    and fresh: "\<And>r. r \<in> snd ` set second \<Longrightarrow> cr_id r \<notin> set (existing_divergence_event_ids t)"
    by (rule verify_parts [OF assms(3)]) blast
  obtain ids where run: "advise_all first s = (Inr ids, t)"
    using first(1,2) by (cases "advise_all first s"; cases "fst (advise_all first s)") auto
  have adv: "advises s t" by (rule keepsD [OF advise_all_keeps run])
  have "advised t r" if "(reason, r) \<in> set second" for reason r
  proof -
    have r: "r \<in> snd ` set second" using that by force
    then have "r \<in> set (bad_rows check s)" using second(1) bad_rows_advises [OF adv assms(2)] by auto
    moreover have "cr_id r \<notin> set (existing_divergence_event_ids s)" using fresh [OF r] flagged_grows [OF adv] by blast
    ultimately obtain reason' where "(reason', r) \<in> set first" using first(3) by force
    with run show ?thesis by (rule advise_all_advises)
  qed
  then have "st_db (snd (advise_all second t)) = st_db t" by (intro advise_all_again) auto
  with second(2) show ?thesis by simp
qed

text \<open>The sample ledger has one row with a wrong hash; its advisory passes the gates.\<close>

definition forged_summary :: string where
  "forged_summary = ''Ledger row b failed signature verification (tampered_content).''"

definition forged_payload :: pydict where
  "forged_payload = [(''would_block'', PStr ''LEDGER_SIG_INVALID''), (''event_id'', PStr ''b''), (''node'', PStr ''n2''), (''reason'', PStr ''tampered_content'')]"

lemma forged_fields:
  "map snd (redaction_fields forged_summary None (Some forged_payload)) =
   map PStr [forged_summary, ''LEDGER_SIG_INVALID'', ''would_block: LEDGER_SIG_INVALID'', ''b'', ''event_id: b'', ''n2'', ''node: n2'',
     ''tampered_content'', ''reason: tampered_content'']"
  by code_simp

lemma forged_tame_1: "tame_text forged_summary" by code_simp
lemma forged_tame_2: "list_all tame_text [''LEDGER_SIG_INVALID'', ''would_block: LEDGER_SIG_INVALID'', ''b'', ''event_id: b'']" by code_simp
lemma forged_tame_3: "list_all tame_text [''n2'', ''node: n2'', ''tampered_content'', ''reason: tampered_content'']" by code_simp

lemma forged_texts: "texts_fit ''n1'' forged_summary None None" "kind_marker_ok ''divergence'' ''detected''"
  by code_simp+

lemma forged_pass:
  obtains v t where "verify_ledger check True (store_of [forged]) = (Inr v, t)"
proof -
  let ?s = "store_of [forged]"
  have s: "ideal 1000 ?s" using store_of_ideal [of "[forged]" ?s] by (simp add: store_of_def sample_store_def)
  have env: "st_env ?s = sample_env" "st_node ?s = ''n1''" by (simp_all add: store_of_def sample_store_def)
  have "list_all plain_field (redaction_fields forged_summary None (Some forged_payload))"
    by (rule tame_fields [OF forged_fields]) (use forged_tame_1 forged_tame_2 forged_tame_3 in simp)
  then have "list_all (\<lambda>(name, v). clean v) (redaction_fields forged_summary None (Some forged_payload))" by (rule plain_fields_clean)
  then have gate: "append_gate (st_env ?s) (st_node ?s) ''divergence'' ''detected'' forged_summary None None (Some forged_payload) None = Inr ()"
    using append_gate_iff [of "st_env ?s"] idealD(2) [OF s] forged_texts by (simp add: env)
  obtain a t where run: "append_coord_event ''divergence'' ''detected'' forged_summary None None (Some forged_payload) None
      (Some ''ledger-verify:b:LEDGER_SIG_INVALID'') ?s = (Inr a, t)"
    by (rule append_runs [OF s _ _ gate, of "Some ''ledger-verify:b:LEDGER_SIG_INVALID''"])
      (simp_all add: store_of_def forged_def theirs_def row_of_def)
  moreover have "''Ledger row '' @ cr_id forged @ '' failed signature verification ('' @ ''tampered_content'' @ '').'' = forged_summary"
    "[(''would_block'', PStr ''LEDGER_SIG_INVALID''), (''event_id'', PStr (cr_id forged)), (''node'', PStr (cr_node forged)), (''reason'', PStr ''tampered_content'')] = forged_payload"
    "''ledger-verify:'' @ cr_id forged @ '':LEDGER_SIG_INVALID'' = ''ledger-verify:b:LEDGER_SIG_INVALID''"
    by code_simp+
  ultimately have one: "advisory ''tampered_content'' forged ?s = (Inr a, t)" by (simp only: advisory_def)
  have rows: "raw_rows ?s = [forged]" by (simp add: raw_rows_def store_of_def)
  have bad: "row_status check ?s forged = Tampered"
    by (simp add: row_status_def Let_def recompute_hash_def utc_text_hash_def env) (simp add: forged_def sample_env_def)
  have none: "existing_divergence_event_ids ?s = []" by code_simp
  have "\<exists>v. verify_ledger check True ?s = (Inr v, t)"
    by (simp add: verify_ledger_def seq_def gets_def ret_def Let_def rows bad none advise_all_def one)
  then show thesis using that by blast
qed

theorem second_pass_adds_nothing_witness:
  "\<exists>v t. verify_ledger (\<lambda>_ _ _. False) True (store_of [forged]) = (Inr v, t) \<and>
     st_db (snd (verify_ledger (\<lambda>_ _ _. False) True t)) = st_db t"
proof -
  obtain v t where run: "verify_ledger (\<lambda>_ _ _. False) True (store_of [forged]) = (Inr v, t)" by (rule forged_pass)
  have known: "own_key_known (\<lambda>_ _ _. False) (store_of [forged])" by (rule sample_key_known) (simp add: store_of_def sample_store_def)
  obtain x u where "verify_ledger (\<lambda>_ _ _. False) True t = (x, u)" by fastforce
  from second_pass_adds_nothing [OF run known this] run this show ?thesis by (intro exI [of _ v] exI [of _ t]) simp
qed

end
