(* ===== verification/Policy_Paths.thy ===== *)
theory Policy_Paths imports Py_Text Fleet_Store begin

text \<open>
  The texts \<open>orchestration/policy.py\<close> compares: canonical paths with their prefix test, and what the
  scan of a shell string finds in it (segments, tokens, a git push, the targets of a write). Case folding
  is that of ASCII.
\<close>

section \<open>Canonical paths\<close>

definition drive_like :: "string \<Rightarrow> bool" where
  "drive_like s \<longleftrightarrow> (case s of c # d # _ \<Rightarrow> is_alpha c \<and> d = CHR '':'' | _ \<Rightarrow> False)"

text \<open>\<open>_MNT_RE\<close>: the drive letter and the path of a WSL mount; \<open>.\<close> stops at a line feed and \<open>$\<close> matches before a final one.\<close>

definition at_end :: "string \<Rightarrow> bool" where
  "at_end t \<longleftrightarrow> t = [] \<or> t = [CHR 0x0A]"

definition mnt_drive :: "string \<Rightarrow> (char \<times> string) option" where
  "mnt_drive s =
     (if \<not> starts_with ''/mnt/'' s then None
      else (case drop 5 s of
          [] \<Rightarrow> None
        | c # t \<Rightarrow>
            if \<not> is_alpha c then None
            else if starts_with ''/'' t \<and> at_end (dropWhile (\<lambda>x. x \<noteq> CHR 0x0A) t) then Some (c, takeWhile (\<lambda>x. x \<noteq> CHR 0x0A) t)
            else if at_end t then Some (c, []) else None))"

definition long_unc :: string where
  "long_unc = [bslash, bslash, CHR ''?'', bslash] @ ''UNC'' @ [bslash]"

definition long_prefix :: string where
  "long_prefix = [bslash, bslash, CHR ''?'', bslash]"

definition strip_long :: "string \<Rightarrow> string" where
  "strip_long s =
     (if starts_with long_unc s \<or> starts_with ''//?/UNC/'' s then [bslash, bslash] @ drop (length long_unc) s
      else if starts_with long_prefix s \<or> starts_with ''//?/'' s then drop (length long_prefix) s
      else s)"

definition looks_windows :: "string \<Rightarrow> bool" where
  "looks_windows s \<longleftrightarrow> drive_like s \<or> starts_with [bslash, bslash] s \<or> bslash \<in> set s \<and> \<not> starts_with ''/'' s"

definition unquoted :: "string \<Rightarrow> string" where
  "unquoted raw = strip_char (CHR 0x27) (strip_char (CHR 0x22) (py_strip raw))"

text \<open>
  \<open>canonicalize_path(raw, cwd)\<close>. The calls on the directory and on the joined path pass no
  directory, so the function nests at most twice: \<open>canonical_with\<close> is its body over the treatment
  of a relative path.
\<close>

definition canonical_with :: "(string \<Rightarrow> string) \<Rightarrow> string \<Rightarrow> string" where
  "canonical_with relative raw =
     (let s = unquoted raw in
      if s = [] then s
      else (case mnt_drive s of
          Some (drive, rest) \<Rightarrow> lower (nt_normpath (drive # '':'' @ rest))
        | None \<Rightarrow>
            let s = strip_long s in
            if starts_with ''/'' s \<and> \<not> looks_windows s then posix_normpath s
            else if \<not> (starts_with ''/'' s \<or> drive_like s \<or> starts_with [bslash, bslash] s) then relative s
            else lower (nt_normpath s)))"

definition canonical_path :: "string \<Rightarrow> string" where
  "canonical_path raw = canonical_with (\<lambda>s. lower (nt_normpath s)) raw"

definition canonical_in :: "string option \<Rightarrow> string \<Rightarrow> string" where
  "canonical_in cwd raw =
     canonical_with (\<lambda>s.
       if opt_str cwd = [] then lower (nt_normpath s)
       else (let base = canonical_path (opt_str cwd) in
             canonical_path (if bslash \<in> set base then nt_join base (to_backslashes s) else posix_join base s))) raw"

definition canonicalize_path :: "string option \<Rightarrow> string option \<Rightarrow> string option" where
  "canonicalize_path raw cwd = map_option (canonical_in cwd) raw"

definition prefix_sep :: "string \<Rightarrow> char" where
  "prefix_sep p = (if bslash \<in> set p then bslash else CHR ''/'')"

definition prefix_match :: "string \<Rightarrow> string \<Rightarrow> bool" where
  "prefix_match target p \<longleftrightarrow>
     target \<noteq> [] \<and> p \<noteq> [] \<and>
     (target = p \<or> starts_with (if ends_with [prefix_sep p] p then p else p @ [prefix_sep p]) target)"

section \<open>Shell strings\<close>

definition split_segments :: "string \<Rightarrow> string list" where
  "split_segments command =
     (let nl = [CHR 0x0A];
          t = replace_text ''&'' nl (replace_text '';'' nl (replace_text ''|'' nl (replace_text ''||'' nl (replace_text ''&&'' nl command))))
      in filter (\<lambda>s. s \<noteq> []) (map py_strip (splitlines t)))"

text \<open>Both views of a segment: \<open>shlex\<close>, or the words where it raises, and the words.\<close>

definition segment_tokens :: "string \<Rightarrow> string list \<times> string list" where
  "segment_tokens segment =
     (case shlex_split segment of None \<Rightarrow> split_words segment | Some ts \<Rightarrow> ts, split_words segment)"

definition basename_low :: "string \<Rightarrow> string" where
  "basename_low token = lower (nt_basename token)"

definition is_git :: "string \<Rightarrow> bool" where
  "is_git token \<longleftrightarrow> basename_low token \<in> {''git'', ''git.exe''}"

definition tokens_have_git_push :: "string list \<Rightarrow> bool" where
  "tokens_have_git_push tokens =
     (case dropWhile (\<lambda>t. \<not> is_git t) tokens of [] \<Rightarrow> False | _ # later \<Rightarrow> list_ex (\<lambda>t. lower t = ''push'') later)"

definition command_has_git_push :: "string \<Rightarrow> bool" where
  "command_has_git_push command =
     list_ex (\<lambda>segment. case segment_tokens segment of (a, b) \<Rightarrow> tokens_have_git_push a \<or> tokens_have_git_push b)
       (split_segments command)"

text \<open>
  \<open>_REDIRECT_RE\<close>: the target after \<open>>\<close> or \<open>>>\<close> and white space. Where nothing follows a double sign
  the match falls back to the single one, and the second sign is then the target.
\<close>

definition target_char :: "char \<Rightarrow> bool" where
  "target_char c \<longleftrightarrow> \<not> is_space c \<and> c \<notin> set '';|&''"

definition redirect_after :: "string \<Rightarrow> (string \<times> string) option" where
  "redirect_after rest =
     (let double = (case rest of c # r \<Rightarrow> if c = CHR ''>'' then Some (dropWhile is_space r) else None | [] \<Rightarrow> None);
          single = dropWhile is_space rest;
          found = (case double of Some r \<Rightarrow> if takeWhile target_char r \<noteq> [] then r else single | None \<Rightarrow> single)
      in if takeWhile target_char found = [] then None
         else Some (takeWhile target_char found, dropWhile target_char found))"

lemma redirect_after_shorter: "redirect_after rest = Some (t, r) \<Longrightarrow> length r \<le> length rest"
proof -
  assume a: "redirect_after rest = Some (t, r)"
  have "length (dropWhile target_char (dropWhile is_space x)) \<le> length x" for x
    using length_dropWhile_le [of target_char "dropWhile is_space x"] length_dropWhile_le [of is_space x] by linarith
  then have "length (dropWhile target_char (dropWhile is_space (tl rest))) \<le> length rest"
    "length (dropWhile target_char (dropWhile is_space rest)) \<le> length rest"
    by (metis le_trans length_tl diff_le_self, blast)
  with a show ?thesis by (auto simp: redirect_after_def Let_def split: list.splits if_splits)
qed

function redirects :: "string \<Rightarrow> string list" where
  "redirects [] = []"
| "redirects (c # cs) =
     (if c = CHR ''>'' then (case redirect_after cs of Some (t, r) \<Rightarrow> t # redirects r | None \<Rightarrow> redirects cs) else redirects cs)"
  by pat_completeness auto
termination
  by (relation "measure length") (auto simp: less_Suc_eq_le dest: redirect_after_shorter)

definition mutator_tokens :: "string list" where
  "mutator_tokens = [''rm'', ''del'', ''erase'', ''rmdir'', ''rd'', ''mv'', ''move'', ''cp'', ''copy'', ''mkdir'', ''md'', ''touch'',
     ''tee'', ''truncate'', ''dd'', ''robocopy'', ''xcopy'', ''new-item'', ''set-content'', ''add-content'', ''out-file'',
     ''remove-item'', ''move-item'', ''copy-item'']"

definition segment_write_targets :: "string \<Rightarrow> string list \<times> bool" where
  "segment_write_targets segment =
     (redirects segment,
      (case segment_tokens segment of (a, b) \<Rightarrow> list_ex (\<lambda>t. basename_low t \<in> set mutator_tokens) (a @ b)))"

definition path_like :: "string \<Rightarrow> bool" where
  "path_like t \<longleftrightarrow> drive_like t \<or> starts_with [bslash, bslash] t \<or> starts_with ''/'' t \<or> bslash \<in> set t \<or> CHR ''/'' \<in> set t"

definition segment_path_tokens :: "string \<Rightarrow> string list" where
  "segment_path_tokens segment =
     (case segment_tokens segment of (a, b) \<Rightarrow> filter path_like (a @ b) @ redirects segment)"

end
