(* ===== verification/Policy.thy ===== *)
theory Policy imports Policy_Paths begin

text \<open>
  The default-deny decision seam of \<open>orchestration/policy.py\<close>: the four code invariants, the permission
  modes, the authority rules, and \<open>decide\<close> with its cache, in the order the code evaluates them. What
  depends on the machine (its kind, \<open>APPDATA\<close> and \<open>os.path.expanduser\<close>) is a record, and the rows a
  database query returns are arguments.
\<close>

section \<open>Requests and decisions\<close>

datatype verdict = Allow | Ask | Deny

record actor =
  at_engine :: string
  at_session :: string
  at_epoch :: int
  at_thread :: "string option"

record action =
  ac_actor :: actor
  ac_verb :: string
  ac_targets :: "string list"
  ac_command :: "string option"
  ac_raw :: pyval

record decision =
  de_result :: verdict
  de_reason :: string
  de_key :: string
  de_rule :: "string option"
  de_invariant :: "string option"

definition action_verbs :: "string list" where
  "action_verbs = [''tool'', ''file_read'', ''file_write'', ''net'', ''git'', ''exec'', ''spawn'']"

definition mutating_verbs :: "string set" where
  "mutating_verbs = {''file_write'', ''git'', ''exec'', ''spawn'', ''net''}"

definition shell_verbs :: "string set" where
  "shell_verbs = {''exec'', ''spawn''}"

definition action_cwd :: "action \<Rightarrow> string option" where
  "action_cwd a =
     (case ac_raw a of
        PDict d \<Rightarrow> (let v = dget d ''cwd'' in if py_truthy v then Some (py_str v) else None)
      | _ \<Rightarrow> None)"

definition canonical_targets :: "action \<Rightarrow> string list" where
  "canonical_targets a = filter (\<lambda>c. c \<noteq> []) (map (canonical_in (action_cwd a)) (ac_targets a))"

definition normal_form :: "action \<Rightarrow> string" where
  "normal_form a =
     (case ac_command a of
        Some c \<Rightarrow> join '' '' (split_words c)
      | None \<Rightarrow> join '' '' (ac_verb a # sort (canonical_targets a)))"

definition unit_sep :: string where
  "unit_sep = [CHR 0x1F]"

definition dedupe_key :: "action \<Rightarrow> string" where
  "dedupe_key a = opt_str (at_thread (ac_actor a)) @ unit_sep @ int_str (at_epoch (ac_actor a)) @ unit_sep @ normal_form a"

definition correlation_hash :: "fleet_env \<Rightarrow> decision \<Rightarrow> string" where
  "correlation_hash env d = utc_text_hash env [(''dedupe_key'', PStr (de_key d))]"

section \<open>The permission modes\<close>

datatype cell = Read_In | Read_Out | Write_Designated | Write_Workspace | Write_Out | Exec_Cell | Net_Cell | Git_Cell

definition cell_text :: "cell \<Rightarrow> string" where
  "cell_text c =
     (case c of Read_In \<Rightarrow> ''read_in'' | Read_Out \<Rightarrow> ''read_out'' | Write_Designated \<Rightarrow> ''write_designated''
      | Write_Workspace \<Rightarrow> ''write_workspace'' | Write_Out \<Rightarrow> ''write_out'' | Exec_Cell \<Rightarrow> ''exec'' | Net_Cell \<Rightarrow> ''net''
      | Git_Cell \<Rightarrow> ''git'')"

definition permission_modes :: "string list" where
  "permission_modes = [''plan'', ''ask'', ''agent'', ''full'']"

definition mode_matrix :: "(string \<times> (cell \<times> verdict) list) list" where
  "mode_matrix =
    [(''plan'', [(Read_In, Allow), (Read_Out, Ask), (Write_Designated, Allow), (Write_Workspace, Deny), (Write_Out, Deny),
       (Exec_Cell, Deny), (Net_Cell, Deny), (Git_Cell, Deny)]),
     (''ask'', [(Read_In, Allow), (Read_Out, Ask), (Write_Designated, Ask), (Write_Workspace, Ask), (Write_Out, Ask),
       (Exec_Cell, Ask), (Net_Cell, Ask), (Git_Cell, Ask)]),
     (''agent'', [(Read_In, Allow), (Read_Out, Ask), (Write_Designated, Allow), (Write_Workspace, Allow), (Write_Out, Ask),
       (Exec_Cell, Ask), (Net_Cell, Ask), (Git_Cell, Ask)]),
     (''full'', [(Read_In, Allow), (Read_Out, Allow), (Write_Designated, Allow), (Write_Workspace, Allow), (Write_Out, Allow),
       (Exec_Cell, Allow), (Net_Cell, Allow), (Git_Cell, Allow)])]"

text \<open>Every mode has every cell, so the defaults of this lookup are never reached.\<close>

definition cell_verdict :: "string \<Rightarrow> cell \<Rightarrow> verdict" where
  "cell_verdict mode c =
     (case map_of mode_matrix mode of
        None \<Rightarrow> Deny
      | Some row \<Rightarrow> (case map_of row c of None \<Rightarrow> Deny | Some v \<Rightarrow> v))"

section \<open>The protected floor\<close>

record host =
  ho_windows :: bool
  ho_posix :: bool
  ho_appdata :: "string option"
  ho_expand :: "string \<Rightarrow> string"

definition os_roots :: "string list" where
  "os_roots =
    [''C:'' @ [bslash] @ ''Windows'', ''C:'' @ [bslash] @ ''Program Files'', ''C:'' @ [bslash] @ ''Program Files (x86)'',
     ''C:'' @ [bslash] @ ''ProgramData'', ''/etc'', ''/usr'', ''/boot'', ''/bin'', ''/sbin'', ''/lib'', ''/var'']"

definition nt_join_all :: "string \<Rightarrow> string list \<Rightarrow> string" where
  "nt_join_all p qs = foldl nt_join p qs"

definition user_protected :: "host \<Rightarrow> string list" where
  "user_protected h =
     (let home = ho_expand h ''~'' in
      if ho_windows h then
        (let documents = (if home \<noteq> [] then Some (nt_join home ''Documents'') else None);
             roaming = (if opt_str (ho_appdata h) \<noteq> [] then ho_appdata h
                        else if home \<noteq> [] then Some (nt_join_all home [''AppData'', ''Roaming'']) else None)
         in (if opt_str roaming \<noteq> [] then
               [nt_join_all (opt_str roaming) [''Microsoft'', ''Windows'', ''Start Menu'', ''Programs'', ''Startup'']] else []) @
            (if opt_str documents \<noteq> [] then
               [nt_join_all (opt_str documents) [''WindowsPowerShell'', ''Microsoft.PowerShell_profile.ps1''],
                nt_join_all (opt_str documents) [''PowerShell'', ''Microsoft.PowerShell_profile.ps1'']] else []))
      else if ho_posix h \<and> home \<noteq> [] then
        map (posix_join home) [''.bashrc'', ''.profile'', ''.zshrc'', ''.bash_profile'', ''.zprofile'']
      else [])"

definition shipped_protected_paths :: "host \<Rightarrow> string list" where
  "shipped_protected_paths h = filter (\<lambda>p. p \<noteq> []) (map canonical_path (os_roots @ user_protected h))"

definition default_vendor_config_paths :: "host \<Rightarrow> string list" where
  "default_vendor_config_paths h = [ho_expand h ''~/.claude/settings.json'', ho_expand h ''~/.codex/config.toml'']"

section \<open>Rules and the engine\<close>

text \<open>An authority rule as \<open>_rule_from_row\<close> builds it.\<close>

record authority_rule =
  ru_id :: string
  ru_type :: string
  ru_verb :: string
  ru_kind :: string
  ru_pattern :: "string option"
  ru_engine :: "string option"
  ru_enabled :: int

text \<open>\<open>load_protected_paths\<close> on the bodies its query returns.\<close>

definition load_protected_paths :: "string option list \<Rightarrow> string list" where
  "load_protected_paths bodies =
     filter (\<lambda>p. p \<noteq> []) (map canonical_path (concat (map (\<lambda>b. splitlines (opt_str b)) bodies)))"

text \<open>\<open>_load_rules_with_count\<close> on the rows its query returns: a row that does not validate is dropped and counted.\<close>

definition rule_record :: "authority_rule \<Rightarrow> pydict" where
  "rule_record r =
     [(''rule_type'', PStr (ru_type r)), (''verb'', PStr (ru_verb r)), (''match_kind'', PStr (ru_kind r)),
      (''pattern'', of_opt_str (ru_pattern r)), (''engine'', of_opt_str (ru_engine r)), (''summary'', PStr ''loaded authority rule'')]"

definition rule_valid :: "accelerator \<Rightarrow> authority_rule \<Rightarrow> bool" where
  "rule_valid jsonschema r \<longleftrightarrow> \<not> isl (validate_record jsonschema ''authority_rule'' (rule_record r))"

definition load_rules :: "accelerator \<Rightarrow> authority_rule list \<Rightarrow> authority_rule list \<times> int" where
  "load_rules jsonschema rows =
     (filter (rule_valid jsonschema) rows, int (length (filter (\<lambda>r. \<not> rule_valid jsonschema r) rows)))"

record policy_engine =
  pe_protected :: "string list"
  pe_rules :: "authority_rule list"
  pe_vendor :: "string list"
  pe_mode :: string
  pe_workspace :: "string option"
  pe_designated :: "string list"
  pe_cache :: "(string \<times> decision) list"

definition non_empty :: "string list \<Rightarrow> string list" where
  "non_empty = filter (\<lambda>p. p \<noteq> [])"

definition new_policy_engine ::
    "host \<Rightarrow> string list \<Rightarrow> authority_rule list \<Rightarrow> string list option \<Rightarrow> string \<Rightarrow> string option \<Rightarrow> string list \<Rightarrow> policy_engine" where
  "new_policy_engine h protected rules vendor mode workspace designated =
     \<lparr>pe_protected = first_uniq (non_empty (shipped_protected_paths h @ map canonical_path protected)),
      pe_rules = rules,
      pe_vendor = non_empty (map (\<lambda>p. canonical_path (ho_expand h p)) (case vendor of None \<Rightarrow> default_vendor_config_paths h | Some v \<Rightarrow> v)),
      pe_mode = (if mode \<in> fst ` set mode_matrix then mode else ''ask''),
      pe_workspace = (if opt_str workspace = [] then None else Some (canonical_path (opt_str workspace))),
      pe_designated = first_uniq (non_empty (map canonical_path designated)),
      pe_cache = []\<rparr>"

definition build_engine_from_db :: "host \<Rightarrow> accelerator \<Rightarrow> string option list \<Rightarrow> authority_rule list \<Rightarrow> policy_engine" where
  "build_engine_from_db h jsonschema bodies rows =
     new_policy_engine h (load_protected_paths bodies) (fst (load_rules jsonschema rows)) (Some (default_vendor_config_paths h)) ''ask'' None []"

section \<open>The code invariants\<close>

definition is_protected :: "policy_engine \<Rightarrow> string \<Rightarrow> bool" where
  "is_protected pe t \<longleftrightarrow> list_ex (prefix_match t) (pe_protected pe)"

definition is_vendor_config :: "policy_engine \<Rightarrow> string \<Rightarrow> bool" where
  "is_vendor_config pe t \<longleftrightarrow> t \<in> set (pe_vendor pe)"

definition is_guarded_target :: "policy_engine \<Rightarrow> string \<Rightarrow> bool" where
  "is_guarded_target pe t \<longleftrightarrow> is_protected pe t \<or> is_vendor_config pe t"

definition command_write_hits :: "string \<Rightarrow> (string \<Rightarrow> bool) \<Rightarrow> string option \<Rightarrow> bool" where
  "command_write_hits command hit cwd \<longleftrightarrow>
     list_ex (\<lambda>segment. case segment_write_targets segment of (targets, mutator) \<Rightarrow>
         list_ex (\<lambda>t. hit (canonical_in cwd t)) targets \<or>
         mutator \<and> list_ex (\<lambda>t. hit (canonical_in cwd t)) (segment_path_tokens segment))
       (split_segments command)"

definition raw_push :: "pyval \<Rightarrow> bool" where
  "raw_push raw = (case raw of PDict d \<Rightarrow> list_ex (\<lambda>(_, v). case v of PStr s \<Rightarrow> lower (py_strip s) = ''push'' | _ \<Rightarrow> False) d | _ \<Rightarrow> False)"

definition push_forbidden :: string where
  "push_forbidden = ''git push is never permitted (non-removable invariant)''"

definition check_invariants :: "policy_engine \<Rightarrow> action \<Rightarrow> int \<Rightarrow> (string \<times> string) option" where
  "check_invariants pe a current_epoch =
     (let verb = ac_verb a; command = opt_str (ac_command a); canon = canonical_targets a; cwd = action_cwd a;
          shell = (verb \<in> shell_verbs \<and> command \<noteq> []) in
      if verb = ''git'' \<and> list_ex (\<lambda>t. lower t = ''push'') (ac_targets a) then Some (''INV_GIT_PUSH'', push_forbidden)
      else if verb = ''git'' \<and> raw_push (ac_raw a) then Some (''INV_GIT_PUSH'', push_forbidden)
      else if verb = ''git'' \<and> command \<noteq> [] \<and> command_has_git_push command then Some (''INV_GIT_PUSH'', push_forbidden)
      else if (verb \<in> shell_verbs \<or> verb = ''tool'') \<and> command \<noteq> [] \<and> command_has_git_push command then
        Some (''INV_GIT_PUSH'', ''shell string contains a git push invocation (non-removable invariant)'')
      else if verb = ''file_write'' \<and> list_ex (is_protected pe) canon then
        Some (''INV_PROTECTED_PATH'', ''write targets a protected path (non-removable invariant)'')
      else if shell \<and> command_write_hits command (is_protected pe) cwd then
        Some (''INV_PROTECTED_PATH'', ''shell write targets a protected path (non-removable invariant)'')
      else if verb = ''file_write'' \<and> list_ex (is_vendor_config pe) canon then
        Some (''INV_VENDOR_CONFIG'', ''write targets a vendor global-config file (non-removable invariant)'')
      else if shell \<and> command_write_hits command (is_vendor_config pe) cwd then
        Some (''INV_VENDOR_CONFIG'', ''shell write targets a vendor global-config file (non-removable invariant)'')
      else if at_epoch (ac_actor a) \<noteq> current_epoch \<and> verb \<in> mutating_verbs then
        Some (''INV_STALE_EPOCH'', ''mutating action from a stale epoch (non-removable invariant)'')
      else None)"

section \<open>Ceilings and defaults of the modes\<close>

definition in_workspace :: "policy_engine \<Rightarrow> string \<Rightarrow> bool" where
  "in_workspace pe t = (case pe_workspace pe of None \<Rightarrow> False | Some w \<Rightarrow> prefix_match t w)"

definition in_designated :: "policy_engine \<Rightarrow> string \<Rightarrow> bool" where
  "in_designated pe t = list_ex (prefix_match t) (pe_designated pe)"

definition classify_cell :: "policy_engine \<Rightarrow> action \<Rightarrow> cell" where
  "classify_cell pe a =
     (let verb = ac_verb a; canon = canonical_targets a in
      if verb \<in> shell_verbs then Exec_Cell
      else if verb = ''net'' then Net_Cell
      else if verb = ''git'' then Git_Cell
      else if verb = ''file_read'' then (if canon \<noteq> [] \<and> list_all (in_workspace pe) canon then Read_In else Read_Out)
      else if verb = ''file_write'' then
        (if canon \<noteq> [] \<and> list_all (in_designated pe) canon then Write_Designated
         else if canon \<noteq> [] \<and> list_all (in_workspace pe) canon then Write_Workspace
         else Write_Out)
      else Exec_Cell)"

definition mode_cell_result :: "policy_engine \<Rightarrow> action \<Rightarrow> verdict" where
  "mode_cell_result pe a = cell_verdict (pe_mode pe) (classify_cell pe a)"

definition check_mode_ceiling :: "policy_engine \<Rightarrow> action \<Rightarrow> (cell \<times> string) option" where
  "check_mode_ceiling pe a =
     (let c = classify_cell pe a in
      if cell_verdict (pe_mode pe) c = Deny
      then Some (c, pe_mode pe @ '' mode denies '' @ [CHR 0x27] @ cell_text c @ [CHR 0x27] @ '' (mode ceiling)'')
      else None)"

section \<open>The authority rules\<close>

definition rule_in_scope :: "authority_rule \<Rightarrow> action \<Rightarrow> bool" where
  "rule_in_scope r a \<longleftrightarrow>
     ru_enabled r \<noteq> 0 \<and> (opt_str (ru_engine r) = [] \<or> opt_str (ru_engine r) = at_engine (ac_actor a)) \<and>
     (ru_verb r = ''any'' \<or> ru_verb r = ac_verb a)"

definition exact_hit :: "authority_rule \<Rightarrow> action \<Rightarrow> bool" where
  "exact_hit r a \<longleftrightarrow> normal_form a = join '' '' (split_words (opt_str (ru_pattern r)))"

definition under_pattern :: "authority_rule \<Rightarrow> string \<Rightarrow> bool" where
  "under_pattern r t = (case canonicalize_path (ru_pattern r) None of None \<Rightarrow> False | Some p \<Rightarrow> prefix_match t p)"

definition rule_pattern_hits :: "authority_rule \<Rightarrow> action \<Rightarrow> bool" where
  "rule_pattern_hits r a =
     (if ru_kind r = ''exact_command'' then exact_hit r a else list_ex (under_pattern r) (canonical_targets a))"

definition rule_allows :: "authority_rule \<Rightarrow> action \<Rightarrow> bool" where
  "rule_allows r a \<longleftrightarrow>
     (if ru_kind r = ''exact_command'' then exact_hit r a
      else ru_kind r = ''path_prefix'' \<and> ac_verb a \<notin> shell_verbs \<and>
        canonical_targets a \<noteq> [] \<and> list_all (under_pattern r) (canonical_targets a))"

definition allow_reason :: "authority_rule \<Rightarrow> string" where
  "allow_reason r = (if ru_kind r = ''exact_command'' then ''matched an exact_command allow rule'' else ''matched a path_prefix allow rule'')"

definition eval_rules :: "policy_engine \<Rightarrow> action \<Rightarrow> bool \<Rightarrow> (verdict \<times> string \<times> string) option" where
  "eval_rules pe a suppress_allow =
     (case find (\<lambda>r. ru_type r = ''deny'' \<and> rule_in_scope r a \<and> rule_pattern_hits r a) (pe_rules pe) of
        Some r \<Rightarrow> Some (Deny, ru_id r, ''matched a DB deny rule'')
      | None \<Rightarrow>
     (case find (\<lambda>r. ru_type r = ''ask'' \<and> rule_in_scope r a \<and> rule_pattern_hits r a) (pe_rules pe) of
        Some r \<Rightarrow> Some (Ask, ru_id r, ''matched a DB ask rule'')
      | None \<Rightarrow>
        if suppress_allow then None
        else (case find (\<lambda>r. ru_type r = ''allow'' \<and> rule_in_scope r a \<and> rule_allows r a) (pe_rules pe) of
            Some r \<Rightarrow> Some (Allow, ru_id r, allow_reason r)
          | None \<Rightarrow> None)))"

section \<open>The decision\<close>

definition verdict_text :: "verdict \<Rightarrow> string" where
  "verdict_text v = (case v of Allow \<Rightarrow> ''allow'' | Ask \<Rightarrow> ''ask'' | Deny \<Rightarrow> ''deny'')"

text \<open>What an engine decides when its cache has no entry.\<close>

definition decide_anew :: "policy_engine \<Rightarrow> action \<Rightarrow> int \<Rightarrow> decision" where
  "decide_anew pe a current_epoch =
     (let key = dedupe_key a; stale = (at_epoch (ac_actor a) \<noteq> current_epoch) in
      case check_invariants pe a current_epoch of
        Some (name, reason) \<Rightarrow> \<lparr>de_result = Deny, de_reason = reason, de_key = key, de_rule = None, de_invariant = Some name\<rparr>
      | None \<Rightarrow>
     (case check_mode_ceiling pe a of
        Some (c, reason) \<Rightarrow>
          \<lparr>de_result = Deny, de_reason = reason, de_key = key, de_rule = None, de_invariant = Some (''MODE_CEILING:'' @ cell_text c)\<rparr>
      | None \<Rightarrow>
     (case eval_rules pe a stale of
        Some (result, rule, reason) \<Rightarrow> \<lparr>de_result = result, de_reason = reason, de_key = key, de_rule = Some rule, de_invariant = None\<rparr>
      | None \<Rightarrow>
          let default = (if stale \<and> mode_cell_result pe a = Allow then Ask else mode_cell_result pe a) in
          \<lparr>de_result = default,
           de_reason = (if stale then ''stale epoch (non-mutating): defer to approval''
             else ''no rule matched: '' @ pe_mode pe @ '' mode default '' @ [CHR 0x27] @ cell_text (classify_cell pe a) @ [CHR 0x27] @
               '' ('' @ verdict_text default @ '')''),
           de_key = key, de_rule = None, de_invariant = None\<rparr>)))"

definition cache_key :: "action \<Rightarrow> int \<Rightarrow> string" where
  "cache_key a current_epoch =
     at_engine (ac_actor a) @ unit_sep @ at_session (ac_actor a) @ unit_sep @ int_str current_epoch @ unit_sep @ dedupe_key a"

definition decide :: "policy_engine \<Rightarrow> action \<Rightarrow> int \<Rightarrow> decision \<times> policy_engine" where
  "decide pe a current_epoch =
     (case map_of (pe_cache pe) (cache_key a current_epoch) of
        Some d \<Rightarrow> (d, pe)
      | None \<Rightarrow>
          let d = decide_anew pe a current_epoch
          in (d, pe\<lparr>pe_cache := AList.update (cache_key a current_epoch) d (pe_cache pe)\<rparr>))"

end
