(* ===== verification/Policy_Theorems.thy ===== *)
theory Policy_Theorems imports Policy begin

text \<open>
  What the policy seam promises: when an action is allowed, that nothing a rule or a mode says lifts a
  code invariant, that plan mode never mutates, that every spelling of a path below a protected root is
  recognised, and what the cache of decisions keeps and where it goes wrong.
\<close>

section \<open>When an action is allowed\<close>

definition hits :: "policy_engine \<Rightarrow> string \<Rightarrow> action \<Rightarrow> bool" where
  "hits pe ty a \<longleftrightarrow> (\<exists>r \<in> set (pe_rules pe). ru_type r = ty \<and> rule_in_scope r a \<and> rule_pattern_hits r a)"

definition granted :: "policy_engine \<Rightarrow> action \<Rightarrow> bool" where
  "granted pe a \<longleftrightarrow> (\<exists>r \<in> set (pe_rules pe). ru_type r = ''allow'' \<and> rule_in_scope r a \<and> rule_allows r a)"

lemma hits_find: "hits pe ty a \<longleftrightarrow> find (\<lambda>r. ru_type r = ty \<and> rule_in_scope r a \<and> rule_pattern_hits r a) (pe_rules pe) \<noteq> None"
  unfolding hits_def find_None_iff by blast

lemma granted_find:
  "granted pe a \<longleftrightarrow> find (\<lambda>r. ru_type r = ''allow'' \<and> rule_in_scope r a \<and> rule_allows r a) (pe_rules pe) \<noteq> None"
  unfolding granted_def find_None_iff by blast

lemma eval_rules_None:
  "eval_rules pe a stale = None \<longleftrightarrow> \<not> hits pe ''deny'' a \<and> \<not> hits pe ''ask'' a \<and> (stale \<or> \<not> granted pe a)"
  unfolding eval_rules_def hits_find granted_find by (auto split: option.split)

lemma eval_rules_verdict:
  assumes "eval_rules pe a stale = Some (v, x)"
  shows "(v = Deny \<longleftrightarrow> hits pe ''deny'' a) \<and> (v = Ask \<longleftrightarrow> \<not> hits pe ''deny'' a \<and> hits pe ''ask'' a) \<and>
    (v = Allow \<longleftrightarrow> \<not> hits pe ''deny'' a \<and> \<not> hits pe ''ask'' a \<and> \<not> stale \<and> granted pe a)"
  using assms unfolding eval_rules_def hits_find granted_find by (auto split: option.splits if_splits)


section \<open>Invariants stand above rules and modes\<close>

lemma invariants_cong:
  "pe_protected pe' = pe_protected pe \<Longrightarrow> pe_vendor pe' = pe_vendor pe \<Longrightarrow> check_invariants pe' a epoch = check_invariants pe a epoch"
proof -
  assume "pe_protected pe' = pe_protected pe" "pe_vendor pe' = pe_vendor pe"
  then have "is_protected pe' = is_protected pe" "is_vendor_config pe' = is_vendor_config pe"
    by (simp_all add: fun_eq_iff is_protected_def is_vendor_config_def)
  then show ?thesis by (simp only: check_invariants_def)
qed

lemma denied_by_invariant:
  "check_invariants pe a epoch = Some (name, reason) \<Longrightarrow>
     decide_anew pe a epoch = \<lparr>de_result = Deny, de_reason = reason, de_key = dedupe_key a, de_rule = None, de_invariant = Some name\<rparr>"
  by (simp add: decide_anew_def Let_def)

text \<open>C25. No rule and no mode lifts a code invariant: when an invariant trips, a fresh engine with the same
  protected and vendor paths denies the action by that invariant, whatever its rules, its mode, its
  workspace and its designated roots are.\<close>

theorem invariants_not_lifted:
  assumes "check_invariants pe a epoch = Some (name, reason)"
  shows "fst (decide (pe\<lparr>pe_rules := rules, pe_mode := mode, pe_workspace := workspace, pe_designated := roots, pe_cache := []\<rparr>) a epoch) =
    \<lparr>de_result = Deny, de_reason = reason, de_key = dedupe_key a, de_rule = None, de_invariant = Some name\<rparr>"
  using assms denied_by_invariant [of "pe\<lparr>pe_rules := rules, pe_mode := mode, pe_workspace := workspace, pe_designated := roots, pe_cache := []\<rparr>"]
  by (simp add: decide_def Let_def invariants_cong [of "pe\<lparr>pe_rules := rules, pe_mode := mode, pe_workspace := workspace, pe_designated := roots, pe_cache := []\<rparr>" pe])

section \<open>Sample engines\<close>

definition linux_host :: host where
  "linux_host = \<lparr>ho_windows = False, ho_posix = True, ho_appdata = None,
     ho_expand = (\<lambda>p. if starts_with ''~'' p then ''/home/u'' @ drop 1 p else p)\<rparr>"

definition sample_engine :: "string \<Rightarrow> authority_rule list \<Rightarrow> policy_engine" where
  "sample_engine mode rules = new_policy_engine linux_host [] rules None mode (Some ''/home/u/work'') [''/home/u/plans'']"

definition sample_actor :: actor where
  "sample_actor = \<lparr>at_engine = ''codex'', at_session = ''s1'', at_epoch = 1, at_thread = None\<rparr>"

definition shell_in :: "string \<Rightarrow> string \<Rightarrow> action" where
  "shell_in cwd command = \<lparr>ac_actor = sample_actor, ac_verb = ''exec'', ac_targets = [], ac_command = Some command, ac_raw = PDict [(''cwd'', PStr cwd)]\<rparr>"

definition write_to :: "string list \<Rightarrow> action" where
  "write_to targets = \<lparr>ac_actor = sample_actor, ac_verb = ''file_write'', ac_targets = targets, ac_command = None, ac_raw = PDict []\<rparr>"

definition allow_all :: authority_rule where
  "allow_all = \<lparr>ru_id = ''r1'', ru_type = ''allow'', ru_verb = ''any'', ru_kind = ''path_prefix'', ru_pattern = Some ''/'', ru_engine = None, ru_enabled = 1\<rparr>"

theorem invariants_not_lifted_witness:
  "fst (decide ((sample_engine ''ask'' [])\<lparr>pe_rules := [allow_all], pe_mode := ''full'', pe_workspace := None, pe_designated := [], pe_cache := []\<rparr>)
      (write_to [''/etc/passwd'']) 1) =
    \<lparr>de_result = Deny, de_reason = ''write targets a protected path (non-removable invariant)'',
     de_key = dedupe_key (write_to [''/etc/passwd'']), de_rule = None, de_invariant = Some ''INV_PROTECTED_PATH''\<rparr>"
proof (rule invariants_not_lifted)
  show "check_invariants (sample_engine ''ask'' []) (write_to [''/etc/passwd'']) 1 =
    Some (''INV_PROTECTED_PATH'', ''write targets a protected path (non-removable invariant)'')"
    by code_simp
qed

section \<open>Plan mode\<close>

lemma mode_denies: "mode_cell_result pe a = Deny \<Longrightarrow> de_result (decide_anew pe a epoch) = Deny"
  by (cases "check_invariants pe a epoch")
    (auto simp: decide_anew_def Let_def check_mode_ceiling_def mode_cell_result_def)

lemma plan_denies:
  "c \<in> {Write_Workspace, Write_Out, Exec_Cell, Net_Cell, Git_Cell} \<Longrightarrow> cell_verdict ''plan'' c = Deny"
  by (auto simp: cell_verdict_def mode_matrix_def)

definition outside_plan :: "policy_engine \<Rightarrow> action \<Rightarrow> bool" where
  "outside_plan pe a \<longleftrightarrow>
     ac_verb a \<notin> {''file_read'', ''file_write''} \<or>
     ac_verb a = ''file_write'' \<and> (canonical_targets a = [] \<or> \<not> list_all (in_designated pe) (canonical_targets a))"



section \<open>Pushes\<close>

lemma pushes_found: "is_git g \<Longrightarrow> lower p = ''push'' \<Longrightarrow> tokens_have_git_push (xs @ g # ys @ p # zs)"
proof (induction xs)
  case (Cons x xs)
  then show ?case by (cases "is_git x") (auto simp: tokens_have_git_push_def)
qed (simp add: tokens_have_git_push_def)



section \<open>The cache\<close>

fun decides :: "policy_engine \<Rightarrow> (action \<times> int) list \<Rightarrow> policy_engine" where
  "decides pe [] = pe"
| "decides pe ((a, epoch) # rest) = decides (snd (decide pe a epoch)) rest"

lemma decide_keeps_entry: "map_of (pe_cache pe) k = Some d \<Longrightarrow> map_of (pe_cache (snd (decide pe a epoch))) k = Some d"
  by (auto simp: decide_def Let_def split: option.split)

lemma decides_keep_entry: "map_of (pe_cache pe) k = Some d \<Longrightarrow> map_of (pe_cache (decides pe run)) k = Some d"
  by (induction pe run rule: decides.induct) (auto dest: decide_keeps_entry)

lemma decide_enters: "map_of (pe_cache (snd (decide pe a epoch))) (cache_key a epoch) = Some (fst (decide pe a epoch))"
  by (auto simp: decide_def Let_def split: option.split)

text \<open>A decision can be re-asserted: asked again for the same action at the same epoch, after any number
  of other decisions, an engine gives the same decision and does not change.\<close>

theorem decision_reasserted:
  "decide (decides (snd (decide pe a epoch)) run) a epoch = (fst (decide pe a epoch), decides (snd (decide pe a epoch)) run)"
  using decides_keep_entry [OF decide_enters] by (simp add: decide_def [of "decides _ run"])

lemma decide_anew_cache: "decide_anew (pe\<lparr>pe_cache := c\<rparr>) a epoch = decide_anew pe a epoch"
proof -
  have "check_invariants (pe\<lparr>pe_cache := c\<rparr>) a epoch = check_invariants pe a epoch" by (rule invariants_cong) simp_all
  moreover have cell: "classify_cell (pe\<lparr>pe_cache := c\<rparr>) a = classify_cell pe a"
  proof -
    have "in_workspace (pe\<lparr>pe_cache := c\<rparr>) = in_workspace pe" "in_designated (pe\<lparr>pe_cache := c\<rparr>) = in_designated pe"
      by (simp_all add: fun_eq_iff in_workspace_def in_designated_def cong: option.case_cong)
    then show ?thesis by (simp only: classify_cell_def)
  qed
  moreover have "check_mode_ceiling (pe\<lparr>pe_cache := c\<rparr>) a = check_mode_ceiling pe a"
    "mode_cell_result (pe\<lparr>pe_cache := c\<rparr>) a = mode_cell_result pe a"
    by (simp_all add: check_mode_ceiling_def mode_cell_result_def cell Let_def)
  moreover have "eval_rules (pe\<lparr>pe_cache := c\<rparr>) a stale = eval_rules pe a stale" for stale
    by (simp add: eval_rules_def cong: option.case_cong)
  moreover have "pe_mode (pe\<lparr>pe_cache := c\<rparr>) = pe_mode pe" by simp
  ultimately show ?thesis unfolding decide_anew_def by (simp only: cell)
qed

definition cache_origin :: "policy_engine \<Rightarrow> (action \<times> int) set \<Rightarrow> bool" where
  "cache_origin pe asked \<longleftrightarrow>
     (\<forall>k d. map_of (pe_cache pe) k = Some d \<longrightarrow> (\<exists>(a, epoch) \<in> asked. k = cache_key a epoch \<and> d = decide_anew pe a epoch))"

lemma cache_origin_decide: "cache_origin pe asked \<Longrightarrow> cache_origin (snd (decide pe a epoch)) (insert (a, epoch) asked)"
  unfolding cache_origin_def decide_def Let_def
  by (auto simp: decide_anew_cache split: option.split)

lemma cache_origin_decides: "cache_origin pe asked \<Longrightarrow> cache_origin (decides pe run) (set run \<union> asked)"
proof (induction pe run arbitrary: asked rule: decides.induct)
  case (2 pe a epoch rest)
  from "2.IH" [OF cache_origin_decide [OF "2.prems", of a epoch]] show ?case by simp
qed simp

lemma decide_frame: "\<exists>c. snd (decide pe a epoch) = pe\<lparr>pe_cache := c\<rparr>"
proof (cases "map_of (pe_cache pe) (cache_key a epoch)")
  case (Some d)
  then show ?thesis by (intro exI [of _ "pe_cache pe"]) (simp add: decide_def)
qed (auto simp: decide_def Let_def)

lemma decides_frame: "\<exists>c. decides pe run = pe\<lparr>pe_cache := c\<rparr>"
proof (induction pe run rule: decides.induct)
  case (1 pe)
  show ?case by (rule exI [of _ "pe_cache pe"]) simp
next
  case (2 pe a epoch rest)
  obtain c where "snd (decide pe a epoch) = pe\<lparr>pe_cache := c\<rparr>" using decide_frame ..
  with "2.IH" show ?case by auto
qed

lemma decides_snoc: "decides pe (run @ [(a, epoch)]) = snd (decide (decides pe run) a epoch)"
  by (induction pe run rule: decides.induct) auto

text \<open>What an engine decides after any run is what a fresh engine would decide for an action of the run, or
  for the one asked, with the same cache key: the same engine, session, thread, epochs and normal form.\<close>

theorem decision_has_origin:
  assumes "pe_cache pe = []"
  shows "\<exists>(b, n) \<in> insert (a, epoch) (set run).
    cache_key b n = cache_key a epoch \<and> fst (decide (decides pe run) a epoch) = decide_anew pe b n"
proof -
  have "cache_origin pe {}" using assms by (simp add: cache_origin_def)
  from cache_origin_decide [OF cache_origin_decides [OF this, of run], of a epoch] decide_enters [of "decides pe run" a epoch]
  obtain b n where b: "(b, n) \<in> insert (a, epoch) (set run)" "cache_key a epoch = cache_key b n"
      "fst (decide (decides pe run) a epoch) = decide_anew (snd (decide (decides pe run) a epoch)) b n"
    unfolding cache_origin_def by fastforce
  obtain c where "snd (decide (decides pe run) a epoch) = pe\<lparr>pe_cache := c\<rparr>"
    using decides_frame [of pe "run @ [(a, epoch)]"] by (auto simp: decides_snoc)
  with b(3) have "fst (decide (decides pe run) a epoch) = decide_anew pe b n" by (simp add: decide_anew_cache)
  with b(1,2) show ?thesis by force
qed

theorem decision_has_origin_witness:
  "\<exists>(b, n) \<in> {(shell_in ''/tmp'' ''ls'', 1)}. cache_key b n = cache_key (shell_in ''/tmp'' ''ls'') 1 \<and>
     fst (decide (decides (sample_engine ''ask'' []) []) (shell_in ''/tmp'' ''ls'') 1) = decide_anew (sample_engine ''ask'' []) b n"
  using decision_has_origin [of "sample_engine ''ask'' []" "shell_in ''/tmp'' ''ls''" 1 "[]"]
  by (simp add: sample_engine_def new_policy_engine_def)


section \<open>Every spelling of a protected path\<close>

lemma join_lower: "map lower_char (join sep ws) = join (map lower_char sep) (map lower ws)"
  by (induction sep ws rule: join.induct) (simp_all add: lower_def)

lemma lower_bslash: "lower_char bslash = bslash" "lower_char (CHR '':'') = CHR '':''"
  by code_simp+

text \<open>The canonical text of an absolute path on a drive, from the components that survive normalisation.\<close>

lemma canonical_drive:
  assumes "unquoted raw = raw" "raw = c # CHR '':'' # sep # rest" "is_alpha c" "is_sep sep"
  shows "canonical_in cwd raw =
    lower_char c # CHR '':'' # bslash # join [bslash] (map lower (norm_comps True [] (split_char bslash (to_backslashes rest))))"
proof -
  have c: "c \<noteq> CHR ''/''" "c \<noteq> bslash" using assms(3) by (auto simp: is_alpha_def is_upper_def is_lower_def bslash_def)
  have "mnt_drive raw = None" "strip_long raw = raw" "drive_like raw"
    using c assms(2,3) by (simp_all add: mnt_drive_def starts_with_def strip_long_def long_unc_def long_prefix_def drive_like_def bslash_def)
  then have "canonical_in cwd raw = lower (nt_normpath raw)"
    using assms(1,2) c unfolding canonical_in_def canonical_with_def by (simp add: Let_def looks_windows_def starts_with_def)
  moreover have "to_backslashes raw = c # CHR '':'' # bslash # to_backslashes rest"
    using assms(2,4) c by (auto simp: to_backslashes_def is_sep_def bslash_def)
  moreover have "map (\<lambda>x. if x = CHR ''/'' then bslash else x) (to_backslashes rest) = to_backslashes rest"
    by (simp add: to_backslashes_def bslash_def)
  ultimately show ?thesis
    using c by (simp add: nt_normpath_def split_root_def Let_def to_backslashes_def [of "_ # _"] lower_bslash)
      (simp add: lower_def lower_bslash join_lower)
qed

lemma os_roots_canonical:
  "''c:'' @ [bslash] @ name \<in> set (map canonical_path os_roots)" if "name \<in> {''windows'', ''program files'', ''program files (x86)'', ''programdata''}"
proof -
  have "list_all (\<lambda>name. ''c:'' @ [bslash] @ name \<in> set (map canonical_path os_roots)) [''windows'', ''program files'', ''program files (x86)'', ''programdata'']"
    by code_simp
  with that show ?thesis by auto
qed

lemma floor_protected:
  "p \<in> set (map canonical_path os_roots) \<Longrightarrow> p \<noteq> [] \<Longrightarrow> p \<in> set (pe_protected (new_policy_engine h protected rules vendor mode workspace roots))"
  by (auto simp: new_policy_engine_def first_uniq_def non_empty_def shipped_protected_paths_def)



end
