(* ===== verification/Policy_Snapshot.thy ===== *)
theory Policy_Snapshot imports Policy_Theorems Ideal_Store "HOL-Library.Multiset" begin

text \<open>
  The session snapshots of \<open>orchestration/policy.py\<close>: the hash of a policy profile, the immutable
  capture of an engine's inputs, the engine rebuilt from it, and its JSON text. A frozen rule is the
  rule's dictionary with its items in key order. Texts are ASCII without the delete character, for which
  \<open>ensure_ascii\<close> changes nothing.
\<close>

section \<open>The profile hash\<close>

definition rule_dict :: "authority_rule \<Rightarrow> pydict" where
  "rule_dict r =
     [(''id'', PStr (ru_id r)), (''rule_type'', PStr (ru_type r)), (''verb'', PStr (ru_verb r)), (''match_kind'', PStr (ru_kind r)),
      (''pattern'', of_opt_str (ru_pattern r)), (''engine'', of_opt_str (ru_engine r)), (''enabled'', PInt (ru_enabled r))]"

definition rule_identity :: "authority_rule \<Rightarrow> string \<times> string \<times> string" where
  "rule_identity r = (ru_id r, ru_type r, py_str (of_opt_str (ru_pattern r)))"

definition permission_mode_version :: int where
  "permission_mode_version = 1"

definition protected_path_version :: int where
  "protected_path_version = 1"

definition strings :: "string list \<Rightarrow> pyval" where
  "strings xs = PList (map PStr xs)"

definition compute_profile_hash ::
    "fleet_env \<Rightarrow> string \<Rightarrow> string \<Rightarrow> string option \<Rightarrow> string list \<Rightarrow> authority_rule list \<Rightarrow> string" where
  "compute_profile_hash env engine mode workspace roots rules =
     utc_text_hash env
       [(''engine'', PStr engine), (''permission_mode'', PStr mode), (''permission_mode_version'', PInt permission_mode_version),
        (''workspace_root'', if opt_str workspace = [] then PNone else PStr (canonical_path (opt_str workspace))),
        (''designated_write_roots'', strings (sort (remdups (non_empty (map canonical_path roots))))),
        (''rules'', PList (map (\<lambda>(i, ty, p). strings [i, ty, p]) (sort (map rule_identity rules)))),
        (''protected_path_version'', PInt protected_path_version)]"

section \<open>Snapshots\<close>

record policy_snapshot =
  sn_engine :: string
  sn_mode :: string
  sn_workspace :: "string option"
  sn_designated :: "string list"
  sn_rules :: "pydict list"
  sn_protected :: "string list"
  sn_vendor :: "string list"
  sn_mode_version :: int
  sn_path_version :: int
  sn_hash :: string

definition frozen_rule :: "authority_rule \<Rightarrow> pydict" where
  "frozen_rule r = sort_key fst (rule_dict r)"

text \<open>\<open>protected\<close> and \<open>vendor\<close> default to what the database and the host give.\<close>

definition build_policy_snapshot ::
    "fleet_env \<Rightarrow> host \<Rightarrow> string option list \<Rightarrow> string \<Rightarrow> string \<Rightarrow> string option \<Rightarrow> string list \<Rightarrow> authority_rule list \<Rightarrow>
     string list option \<Rightarrow> string list option \<Rightarrow> policy_snapshot" where
  "build_policy_snapshot env h bodies engine mode workspace roots rules protected vendor =
     (let tmp = new_policy_engine h (case protected of None \<Rightarrow> load_protected_paths bodies | Some ps \<Rightarrow> ps) rules
            (Some (case vendor of None \<Rightarrow> default_vendor_config_paths h | Some vs \<Rightarrow> vs)) mode workspace roots
      in \<lparr>sn_engine = engine, sn_mode = pe_mode tmp, sn_workspace = pe_workspace tmp, sn_designated = pe_designated tmp,
          sn_rules = map frozen_rule (pe_rules tmp), sn_protected = pe_protected tmp, sn_vendor = pe_vendor tmp,
          sn_mode_version = permission_mode_version, sn_path_version = protected_path_version,
          sn_hash = compute_profile_hash env engine (pe_mode tmp) (pe_workspace tmp) (pe_designated tmp) (pe_rules tmp)\<rparr>)"

text \<open>The engine reads a rule's fields by name; without one of them, or with one of another type, there is no rule.\<close>

definition opt_of :: "pyval \<Rightarrow> string option option" where
  "opt_of v = (case v of PNone \<Rightarrow> Some None | PStr s \<Rightarrow> Some (Some s) | _ \<Rightarrow> None)"

definition rule_of_dict :: "pydict \<Rightarrow> authority_rule option" where
  "rule_of_dict d =
     (case (dget d ''id'', dget d ''rule_type'', dget d ''verb'', dget d ''match_kind'', opt_of (dget d ''pattern''),
            opt_of (dget d ''engine''), dget_default d ''enabled'' (PInt 1)) of
        (PStr i, PStr ty, PStr verb, PStr kind, Some p, Some e, PInt n) \<Rightarrow>
          Some \<lparr>ru_id = i, ru_type = ty, ru_verb = verb, ru_kind = kind, ru_pattern = p, ru_engine = e, ru_enabled = n\<rparr>
      | _ \<Rightarrow> None)"

text \<open>\<open>build_engine\<close> and \<open>from_snapshot\<close>, and \<open>decide\<close> on a fresh engine.\<close>

definition snapshot_engine :: "host \<Rightarrow> policy_snapshot \<Rightarrow> policy_engine option" where
  "snapshot_engine h sn =
     map_option (\<lambda>rules. new_policy_engine h (sn_protected sn) rules (Some (sn_vendor sn)) (sn_mode sn) (sn_workspace sn) (sn_designated sn))
       (those (map rule_of_dict (sn_rules sn)))"

definition snapshot_decide :: "host \<Rightarrow> policy_snapshot \<Rightarrow> action \<Rightarrow> int \<Rightarrow> decision option" where
  "snapshot_decide h sn a epoch = map_option (\<lambda>pe. fst (decide pe a epoch)) (snapshot_engine h sn)"

section \<open>The stored text\<close>

definition snapshot_dict :: "policy_snapshot \<Rightarrow> pydict" where
  "snapshot_dict sn =
     [(''engine'', PStr (sn_engine sn)), (''permission_mode'', PStr (sn_mode sn)), (''workspace_root'', of_opt_str (sn_workspace sn)),
      (''designated_write_roots'', strings (sn_designated sn)), (''rules'', PList (map PDict (sn_rules sn))),
      (''protected_paths'', strings (sn_protected sn)), (''vendor_config_paths'', strings (sn_vendor sn)),
      (''permission_mode_version'', PInt (sn_mode_version sn)), (''protected_path_version'', PInt (sn_path_version sn)),
      (''profile_hash'', PStr (sn_hash sn))]"

definition snapshot_to_json :: "policy_snapshot \<Rightarrow> string" where
  "snapshot_to_json sn = json_dumps (PDict (snapshot_dict sn))"

definition string_list_of :: "pyval \<Rightarrow> string list option" where
  "string_list_of v = (case v of PList xs \<Rightarrow> those (map (\<lambda>x. case x of PStr s \<Rightarrow> Some s | _ \<Rightarrow> None) xs) | _ \<Rightarrow> None)"

definition dict_list_of :: "pyval \<Rightarrow> pydict list option" where
  "dict_list_of v =
     (case v of PList xs \<Rightarrow> those (map (\<lambda>x. case x of PDict d \<Rightarrow> Some (sort_key fst d) | _ \<Rightarrow> None) xs) | _ \<Rightarrow> None)"

text \<open>
  None where the text is not JSON, lacks a field, or has one of another type; the last of these the code
  carries along until the field is used.
\<close>

definition snapshot_from_json :: "string \<Rightarrow> policy_snapshot option" where
  "snapshot_from_json text =
     (case json_loads text of
        Some (PDict d) \<Rightarrow>
          (case (map_of d ''engine'', map_of d ''permission_mode'', map_option opt_of (map_of d ''workspace_root''),
                 map_option string_list_of (map_of d ''designated_write_roots''), map_option dict_list_of (map_of d ''rules'')) of
             (Some e, Some m, Some (Some w), Some (Some roots), Some (Some rules)) \<Rightarrow>
               (case (map_option string_list_of (map_of d ''protected_paths''), map_option string_list_of (map_of d ''vendor_config_paths''),
                      map_option py_int (map_of d ''permission_mode_version''), map_option py_int (map_of d ''protected_path_version''),
                      map_of d ''profile_hash'') of
                  (Some (Some ps), Some (Some vs), Some (Some mv), Some (Some pv), Some hash) \<Rightarrow>
                    Some \<lparr>sn_engine = py_str e, sn_mode = py_str m, sn_workspace = w, sn_designated = roots, sn_rules = rules,
                      sn_protected = ps, sn_vendor = vs, sn_mode_version = mv, sn_path_version = pv, sn_hash = py_str hash\<rparr>
                | _ \<Rightarrow> None)
           | _ \<Rightarrow> None)
      | _ \<Rightarrow> None)"

section \<open>The hash does not depend on order\<close>

text \<open>The profile hash is that of a set of roots and a multiset of rules: rules in another order, and
  designated roots in another order, repeated, empty or spelled differently, give the same hash.\<close>

theorem profile_hash_orderless:
  assumes "mset (map rule_identity rules) = mset (map rule_identity rules')"
    and "set (non_empty (map canonical_path roots)) = set (non_empty (map canonical_path roots'))"
  shows "compute_profile_hash env engine mode workspace roots rules = compute_profile_hash env engine mode workspace roots' rules'"
proof -
  have "sort (map rule_identity rules) = sort (map rule_identity rules')"
    by (rule properties_for_sort) (use assms(1) in simp_all)
  moreover have "sort (remdups (non_empty (map canonical_path roots))) = sort (remdups (non_empty (map canonical_path roots')))"
    by (rule sorted_distinct_set_unique) (simp_all add: assms(2))
  ultimately show ?thesis by (simp add: compute_profile_hash_def)
qed

theorem profile_hash_orderless_witness:
  "compute_profile_hash sample_env ''codex'' ''plan'' None [''/home/u/plans'', ''/home/u/x/../plans/''] [allow_all, allow_all\<lparr>ru_id := ''r0''\<rparr>] =
   compute_profile_hash sample_env ''codex'' ''plan'' None [''/home/u/plans''] [allow_all\<lparr>ru_id := ''r0''\<rparr>, allow_all]"
proof (rule profile_hash_orderless)
  show "mset (map rule_identity [allow_all, allow_all\<lparr>ru_id := ''r0''\<rparr>]) = mset (map rule_identity [allow_all\<lparr>ru_id := ''r0''\<rparr>, allow_all])"
    by simp
  show "set (non_empty (map canonical_path [''/home/u/plans'', ''/home/u/x/../plans/''])) = set (non_empty (map canonical_path [''/home/u/plans'']))"
    by code_simp
qed

section \<open>The stored text reads back\<close>

lemma those_map_Some: "(\<And>x. x \<in> set xs \<Longrightarrow> f x = Some (g x)) \<Longrightarrow> those (map f xs) = Some (map g xs)"
  by (induction xs) auto

lemma string_list_of_strings [simp]: "string_list_of (strings xs) = Some xs"
proof -
  have "those (map ((\<lambda>x. case x of PStr s \<Rightarrow> Some s | _ \<Rightarrow> None) \<circ> PStr) xs) = Some (map (\<lambda>x. x) xs)"
    by (rule those_map_Some) simp
  then show ?thesis by (simp add: string_list_of_def strings_def)
qed

lemma canon_strings [simp]: "canon (strings xs) = strings xs"
  by (simp add: strings_def comp_def)

lemma plain_strings [simp]: "plain (strings xs)"
  by (induction xs) (simp_all add: strings_def)

lemma frozen_rule_plain: "plain (PDict (frozen_rule r))" "canon (PDict (frozen_rule r)) = PDict (frozen_rule r)" "sort_key fst (frozen_rule r) = frozen_rule r"
proof -
  have vals: "map (\<lambda>(k, v). (k, canon v)) (rule_dict r) = rule_dict r"
    by (cases "ru_pattern r"; cases "ru_engine r") (simp_all add: rule_dict_def)
  have sorted: "sort_key fst (frozen_rule r) = frozen_rule r"
    by (simp add: frozen_rule_def sort_key_id_if_sorted)
  show "sort_key fst (frozen_rule r) = frozen_rule r" by (rule sorted)
  have "\<forall>p \<in> set (frozen_rule r). (\<lambda>(k, v). (k, canon v)) p = p"
    using vals by (auto simp: frozen_rule_def rule_dict_def)
  then have "map (\<lambda>(k, v). (k, canon v)) (frozen_rule r) = frozen_rule r" by (simp add: map_idI)
  with sorted show "canon (PDict (frozen_rule r)) = PDict (frozen_rule r)" by simp
  have "distinct (map fst (frozen_rule r))" by (simp add: frozen_rule_def distinct_map rule_dict_def) 
  moreover have "list_all (\<lambda>(k, v). plain v) (frozen_rule r)"
    by (cases "ru_pattern r"; cases "ru_engine r") (auto simp: frozen_rule_def rule_dict_def list_all_iff)
  ultimately show "plain (PDict (frozen_rule r))" by simp
qed

lemma snapshot_dict_canon:
  assumes "\<forall>d \<in> set (sn_rules sn). \<exists>r. d = frozen_rule r"
  shows "map (\<lambda>(k, v). (k, canon v)) (snapshot_dict sn) = snapshot_dict sn" "plain (PDict (snapshot_dict sn))"
proof -
  have "canon (PDict d) = PDict d \<and> plain (PDict d)" if "d \<in> set (sn_rules sn)" for d
  proof -
    from bspec [OF assms that] obtain r where "d = frozen_rule r" ..
    show ?thesis unfolding \<open>d = frozen_rule r\<close> by (intro conjI frozen_rule_plain)
  qed
  then have each: "\<forall>d \<in> set (sn_rules sn). canon (PDict d) = PDict d" "\<forall>d \<in> set (sn_rules sn). plain (PDict d)" by blast+
  have "map canon (map PDict (sn_rules sn)) = map PDict (sn_rules sn)"
    unfolding map_map comp_def by (rule map_cong [OF refl]) (rule bspec [OF each(1)])
  moreover have "list_all plain (map PDict (sn_rules sn))"
    unfolding list_all_iff set_map using each(2) by blast
  ultimately have "canon (PList (map PDict (sn_rules sn))) = PList (map PDict (sn_rules sn))" "plain (PList (map PDict (sn_rules sn)))"
    by (simp_all only: canon.simps plain.simps)
  moreover have "canon (of_opt_str x) = of_opt_str x" "plain (of_opt_str x)" for x by (cases x; simp)+
  ultimately show "map (\<lambda>(k, v). (k, canon v)) (snapshot_dict sn) = snapshot_dict sn" "plain (PDict (snapshot_dict sn))"
    by (simp_all add: snapshot_dict_def)
qed

lemma dict_list_of_frozen:
  assumes "\<forall>d \<in> set ds. \<exists>r. d = frozen_rule r" shows "dict_list_of (PList (map PDict ds)) = Some ds"
proof -
  have "those (map ((\<lambda>x. case x of PDict d \<Rightarrow> Some (sort_key fst d) | _ \<Rightarrow> None) \<circ> PDict) ds) = Some (map (\<lambda>x. x) ds)"
    by (rule those_map_Some) (use assms frozen_rule_plain(3) in auto)
  then show ?thesis by (simp add: dict_list_of_def)
qed

lemma snapshot_reads_back:
  assumes "\<forall>d \<in> set (sn_rules sn). \<exists>r. d = frozen_rule r"
  shows "snapshot_from_json (snapshot_to_json sn) = Some sn"
proof -
  have "json_loads (snapshot_to_json sn) = Some (canon (PDict (snapshot_dict sn)))"
    using read_print [OF separators_program(1) plain_canon [OF snapshot_dict_canon(2) [OF assms]]]
    by (simp add: snapshot_to_json_def json_dumps_def)
  then have "json_loads (snapshot_to_json sn) = Some (PDict (sort_key fst (snapshot_dict sn)))"
    by (simp add: snapshot_dict_canon(1) [OF assms])
  moreover have "opt_of (of_opt_str x) = Some x" for x by (cases x) (simp_all add: opt_of_def)
  ultimately show ?thesis
    by (simp add: snapshot_from_json_def map_of_sort_key_fst snapshot_dict_def dict_list_of_frozen [OF assms])
qed

lemma rule_of_frozen: "rule_of_dict (frozen_rule r) = Some r"
proof -
  have "map_of (frozen_rule r) k = map_of (rule_dict r) k" for k by (simp add: frozen_rule_def map_of_sort_key_fst)
  moreover have "opt_of (of_opt_str x) = Some x" for x by (cases x) (simp_all add: opt_of_def)
  ultimately show ?thesis by (simp add: rule_of_dict_def dget_def dget_default_def rule_dict_def)
qed

lemma remdups_covered: "set xs \<subseteq> set ys \<Longrightarrow> remdups (xs @ ys) = remdups ys"
  by (induction xs) auto

lemma remdups_twice: "remdups (remdups (b @ a) @ a) = remdups (b @ a)"
proof (induction b)
  case Nil
  then show ?case by (simp add: remdups_covered)
qed auto

lemma first_uniq_again: "first_uniq (xs @ first_uniq (xs @ ys)) = first_uniq (xs @ ys)"
  by (simp add: first_uniq_def remdups_twice)

lemma first_uniq_idem: "first_uniq (first_uniq xs) = first_uniq xs"
  by (simp add: first_uniq_def)

lemma set_first_uniq [simp]: "set (first_uniq xs) = set xs"
  by (simp add: first_uniq_def)

text \<open>An engine is settled when canonicalising its paths once more changes nothing.\<close>

definition settled :: "host \<Rightarrow> policy_engine \<Rightarrow> bool" where
  "settled h pe \<longleftrightarrow>
     list_all (\<lambda>p. canonical_path p = p) (pe_protected pe @ pe_designated pe) \<and> list_all (\<lambda>p. canonical_path (ho_expand h p) = p) (pe_vendor pe) \<and>
     (case pe_workspace pe of None \<Rightarrow> True | Some w \<Rightarrow> w \<noteq> [] \<and> canonical_path w = w)"

lemma settled_restores:
  assumes "settled h (new_policy_engine h protected rules (Some vendor) mode workspace roots)"
  defines "tmp \<equiv> new_policy_engine h protected rules (Some vendor) mode workspace roots"
  shows "new_policy_engine h (pe_protected tmp) rules (Some (pe_vendor tmp)) (pe_mode tmp) (pe_workspace tmp) (pe_designated tmp) = tmp"
proof -
  have non: "non_empty (pe_protected tmp) = pe_protected tmp" "non_empty (pe_vendor tmp) = pe_vendor tmp" "non_empty (pe_designated tmp) = pe_designated tmp"
    by (auto simp: tmp_def new_policy_engine_def non_empty_def filter_id_conv)
  have fixed: "map canonical_path (pe_protected tmp) = pe_protected tmp" "map canonical_path (pe_designated tmp) = pe_designated tmp"
      "map (\<lambda>p. canonical_path (ho_expand h p)) (pe_vendor tmp) = pe_vendor tmp"
    using assms(1) by (auto simp: tmp_def [symmetric] settled_def list_all_iff map_idI)
  have app: "non_empty (xs @ ys) = non_empty xs @ non_empty ys" for xs ys by (simp add: non_empty_def)
  have prot: "pe_protected tmp = first_uniq (non_empty (shipped_protected_paths h) @ non_empty (map canonical_path protected))"
    by (simp add: tmp_def new_policy_engine_def app)
  have "first_uniq (non_empty (shipped_protected_paths h @ map canonical_path (pe_protected tmp))) =
      first_uniq (non_empty (shipped_protected_paths h) @ pe_protected tmp)" by (simp only: app fixed non)
  also have "\<dots> = pe_protected tmp" by (simp only: prot first_uniq_again)
  finally have "first_uniq (non_empty (shipped_protected_paths h @ map canonical_path (pe_protected tmp))) = pe_protected tmp" .
  moreover have "first_uniq (non_empty (map canonical_path (pe_designated tmp))) = pe_designated tmp"
    by (simp only: fixed non) (simp add: tmp_def new_policy_engine_def first_uniq_idem)
  moreover have "(if opt_str (pe_workspace tmp) = [] then None else Some (canonical_path (opt_str (pe_workspace tmp)))) = pe_workspace tmp"
    using assms(1) by (cases "pe_workspace tmp") (auto simp: tmp_def [symmetric] settled_def)
  moreover have "pe_mode tmp \<in> fst ` set mode_matrix" by (simp add: tmp_def new_policy_engine_def mode_matrix_def)
  moreover have "pe_rules tmp = rules" "pe_cache tmp = []" by (simp_all add: tmp_def new_policy_engine_def)
  ultimately show ?thesis
    unfolding new_policy_engine_def [of h "pe_protected tmp"] by (simp add: fixed non)
qed

text \<open>C30. A stored snapshot reads back exactly, and the engine rebuilt from it is the engine the session was
  opened with, with its rules, mode, workspace and paths, whatever the database holds by then; provided
  the paths are settled, canonicalising them once more changing nothing.\<close>

theorem snapshot_restores_engine:
  assumes "settled h (new_policy_engine h protected rules (Some vendor) mode workspace roots)"
    and "sn = build_policy_snapshot env h bodies engine mode workspace roots rules (Some protected) (Some vendor)"
  shows "snapshot_from_json (snapshot_to_json sn) = Some sn \<and>
    snapshot_engine h sn = Some (new_policy_engine h protected rules (Some vendor) mode workspace roots)"
proof
  let ?tmp = "new_policy_engine h protected rules (Some vendor) mode workspace roots"
  have rules: "pe_rules ?tmp = rules" by (simp add: new_policy_engine_def)
  have "sn_rules sn = map frozen_rule rules" by (simp add: assms(2) build_policy_snapshot_def Let_def rules)
  then show "snapshot_from_json (snapshot_to_json sn) = Some sn" by (intro snapshot_reads_back) auto
  have "those (map rule_of_dict (sn_rules sn)) = Some rules"
    using those_map_Some [of rules "rule_of_dict \<circ> frozen_rule" "\<lambda>r. r"] \<open>sn_rules sn = map frozen_rule rules\<close> by (simp add: rule_of_frozen)
  with settled_restores [OF assms(1)] show "snapshot_engine h sn = Some ?tmp"
    by (simp add: snapshot_engine_def) (simp add: assms(2) build_policy_snapshot_def Let_def)
qed

theorem snapshot_restores_engine_witness:
  "snapshot_from_json (snapshot_to_json (build_policy_snapshot sample_env linux_host [] ''codex'' ''plan'' (Some ''/home/u/work'') [''/home/u/plans''] [allow_all] (Some [''/srv'']) (Some []))) =
     Some (build_policy_snapshot sample_env linux_host [] ''codex'' ''plan'' (Some ''/home/u/work'') [''/home/u/plans''] [allow_all] (Some [''/srv'']) (Some [])) \<and>
   snapshot_engine linux_host (build_policy_snapshot sample_env linux_host [] ''codex'' ''plan'' (Some ''/home/u/work'') [''/home/u/plans''] [allow_all] (Some [''/srv'']) (Some [])) =
     Some (new_policy_engine linux_host [''/srv''] [allow_all] (Some []) ''plan'' (Some ''/home/u/work'') [''/home/u/plans''])"
  by (rule snapshot_restores_engine [OF _ refl]) code_simp

text \<open>Canonicalising is not idempotent: a quoted path with a space before the closing quote changes twice.\<close>

lemma canonical_again:
  "canonical_path (canonical_path ([CHR 0x22] @ ''D:/x '' @ [CHR 0x22])) \<noteq> canonical_path ([CHR 0x22] @ ''D:/x '' @ [CHR 0x22])"
  by code_simp

end
