(* ===== verification/Handoff_Laws.thy ===== *)
theory Handoff_Laws imports Handoff Dispatch_Theorems begin

text \<open>
  The laws of the shadow handoff. An interface collects what a relation between the states before
  and after must allow, step by step, for the whole handoff to keep it; it is interpreted on the
  relation that pushed means confirmed, and on the invariants of the work tree that reading keeps.
\<close>

section \<open>The interface\<close>

lemma on_store_seq: "on_store (seq m f) = seq (on_store m) (\<lambda>x. on_store (f x))"
  by (rule ext) (auto simp: on_store_def seq_def split: prod.splits sum.splits)

lemma on_run_seq: "on_run (seq m f) = seq (on_run m) (\<lambda>x. on_run (f x))"
  by (rule ext) (auto simp: on_run_def seq_def split: prod.splits sum.splits)

lemma leases_read_clock:
  "current_leases = seq next_clock (\<lambda>t. gets (\<lambda>s. reduce_lease (coord_events s) (Some (now_text t))))"
  by (rule ext) (simp add: current_leases_def now_iso_def seq_def next_clock_def)

locale handoff_relation = state_preorder R for R :: "handoff \<times> store \<times> 'w \<Rightarrow> handoff \<times> store \<times> 'w \<Rightarrow> bool" +
  fixes e :: "'w handoff_engine" and quiesce :: "('w, unit) tree_act option"
  assumes jotting: "(\<And>h. ho_pushed (f h) = ho_pushed h) \<Longrightarrow> keeps R (jot f)"
    and recording: "\<not> (kind = ''handoff'' \<and> marker = ''pushed'') \<Longrightarrow>
      keeps R (on_run (on_store (append_coord_event kind marker summary scope epoch payload project None)))"
    and releasing: "keeps R (on_run (on_store (release_best_effort q)))"
    and clock: "keeps R (on_run (on_store next_clock))"
    and reading: "verb \<in> {''status'', ''rev-parse'', ''diff''} \<Longrightarrow> keeps R (on_run (on_tree (he_git e (verb # args))))"
    and committing: "he_wip e \<Longrightarrow> keeps R (on_run (on_tree (he_git e args)))"
    and files: "keeps R (on_run (on_tree (he_mkdir e p)))" "keeps R (on_run (on_tree (he_write e p text)))"
    and pushing: "keeps R (push_step e q)"
    and quieting: "quiesce = Some m \<Longrightarrow> keeps R (on_run m)"
begin

lemma keeps_run_seq: "keeps R (on_run m) \<Longrightarrow> (\<And>x. keeps R (on_run (f x))) \<Longrightarrow> keeps R (on_run (seq m f))"
  unfolding on_run_seq by (rule keeps_seq)

lemma keeps_run_pure: "keeps R (on_run (ret x))" "keeps R (on_run (on_store (gets g)))" "keeps R (noted k)"
  by (simp_all add: keeps_def on_run_def on_store_def noted_def refl split: prod.split)

lemma keeps_run_if: "keeps R (on_run m) \<Longrightarrow> keeps R (on_run m') \<Longrightarrow> keeps R (on_run (if b then m else m'))"
  by simp

lemma keeps_git_text:
  "verb \<in> {''status'', ''rev-parse'', ''diff''} \<Longrightarrow> keeps R (on_run (git_text e (verb # args)))"
  "he_wip e \<Longrightarrow> keeps R (on_run (git_text e args'))"
  unfolding git_text_def by (rule keeps_run_seq [OF _ keeps_run_pure(1)], simp add: reading committing)+

lemma keeps_leases: "keeps R (on_run (on_store current_leases))"
  unfolding leases_read_clock on_store_seq by (rule keeps_run_seq [OF clock keeps_run_pure(2)])

lemma keeps_event: "marker \<noteq> ''pushed'' \<Longrightarrow> keeps R (on_run (on_store (handoff_event marker x q p)))"
  unfolding handoff_event_def by (rule recording) simp

lemma keeps_marks: "keeps R (entering name)" "keeps R (passed name)"
  unfolding entering_def passed_def by (rule jotting, simp)+

lemma keeps_diverged: "keeps R (diverged_on reason q d)"
  unfolding diverged_on_def record_divergence_def by (intro keeps_seq recording jotting) simp_all

lemma keeps_case: "keeps R m \<Longrightarrow> (\<And>x. keeps R (f x)) \<Longrightarrow> keeps R (case z of None \<Rightarrow> m | Some x \<Rightarrow> f x)"
  by (cases z) simp_all

lemma keeps_pair: "(\<And>x y. keeps R (f x y)) \<Longrightarrow> keeps R (case p of (x, y) \<Rightarrow> f x y)"
  by (cases p) simp

lemmas step_intros = keeps_case keeps_pair keeps_intros keeps_marks keeps_run_pure keeps_leases keeps_diverged releasing

lemma keeps_checks: "keeps R (divergence_checks q dirty head)"
  unfolding divergence_checks_def Let_def
  by (cases head) (auto intro!: step_intros split: option.split)

lemma keeps_artifact: "keeps R (on_run (write_patch_artifact e))"
proof -
  have "on_run (let x = d in f x) = on_run (f d)" for d and f :: "'x \<Rightarrow> ('w, 'y) tree_act" by simp
  then show ?thesis
    unfolding write_patch_artifact_def Let_def
    by (intro keeps_run_if keeps_run_seq keeps_run_pure reading files clock) simp
qed

lemma keeps_each:
  "keeps R (started_step q)" "keeps R (quiesce_step quiesce)" "keeps R (snapshot_step e)" "keeps R (wip_step e q)"
  "keeps R (divergence_step q)" "keeps R (release_step q)" "keeps R (completed_step q)"
proof -
  show "keeps R (started_step q)"
    unfolding started_step_def by (intro step_intros keeps_event jotting) simp_all
  show "keeps R (quiesce_step quiesce)"
    unfolding quiesce_step_def by (cases quiesce) (auto intro!: step_intros quieting)
  show "keeps R (snapshot_step e)"
    unfolding snapshot_step_def by (intro step_intros keeps_git_text jotting) simp_all
  show "keeps R (wip_step e q)"
  proof (cases "he_wip e")
    case True
    then show ?thesis
      unfolding wip_step_def if_P [OF True] by (intro step_intros keeps_git_text jotting) simp_all
  next
    case False
    then show ?thesis
      unfolding wip_step_def if_not_P [OF False] by (intro step_intros keeps_artifact jotting) simp
  qed
  show "keeps R (divergence_step q)"
    unfolding divergence_step_def by (intro step_intros keeps_checks)
  show "keeps R (release_step q)"
    unfolding release_step_def by (intro step_intros keeps_event jotting) simp_all
  show "keeps R (completed_step q)"
    unfolding completed_step_def by (intro step_intros keeps_event jotting) simp_all
qed

lemma keeps_steps: "keeps R (handoff_steps e quiesce q)"
  unfolding handoff_steps_def by (intro keeps_seq keeps_each pushing)

lemma keeps_handoff: "R (new_handoff q, sw) (shadow_handoff e quiesce q sw)"
proof -
  obtain r h s w where run: "handoff_steps e quiesce q (new_handoff q, sw) = (r, (h, s, w))" by (metis prod_cases4)
  have steps: "R (new_handoff q, sw) (h, s, w)" using keeps_steps run by (rule keepsD)
  show ?thesis
  proof (cases r)
    case (Inr u)
    with run steps show ?thesis by (simp add: shadow_handoff_def)
  next
    case (Inl err)
    let ?h = "h\<lparr>ho_status := ''ABORTED'', ho_failed_step := Some (ho_current h), ho_error := Some (exn_str err)\<rparr>"
    define x where "x = ''Shadow handoff aborted at '' @ ho_current h @ '' for '' @ q @ ''.''"
    define p where "p = [(''failed_step'', PStr (ho_current h)), (''reason'', PStr (take 180 (exn_str err)))]"
    obtain a t where a: "handoff_event ''aborted'' x q (Some p) s = (a, t)" by fastforce
    then have step: "on_run (on_store (handoff_event ''aborted'' x q (Some p))) (?h, s, w) = (a, (?h, t, w))"
      by (simp only: on_run_def on_store_def prod.case)
    have "keeps R (on_run (on_store (handoff_event ''aborted'' x q (Some p))))" by (rule keeps_event) simp
    from keepsD [OF this step] have one: "R (?h, s, w) (?h, t, w)" .
    have "R (h, s, w) (?h, s, w)"
      using keepsD [OF jotting [of "\<lambda>h. h\<lparr>ho_status := ''ABORTED'', ho_failed_step := Some (ho_current h), ho_error := Some (exn_str err)\<rparr>"]]
      by (simp add: jot_def)
    with steps one trans have aborted: "R (new_handoff q, sw) (?h, t, w)" by blast
    have "R (?h, t, w) (?h\<lparr>ho_aborted_id := y\<rparr>, t, w)" for y
      using keepsD [OF jotting [of "\<lambda>h. h\<lparr>ho_aborted_id := y\<rparr>"], where s = "(?h, t, w)"] by (simp add: jot_def)
    with aborted trans have noted: "R (new_handoff q, sw) (?h\<lparr>ho_aborted_id := y\<rparr>, t, w)" for y by blast
    have "shadow_handoff e quiesce q sw = (case a of Inl _ \<Rightarrow> (?h, t, w) | Inr b \<Rightarrow> (?h\<lparr>ho_aborted_id := Some (ar_id b)\<rparr>, t, w))"
      unfolding shadow_handoff_def run Inl prod.case sum.case Let_def x_def [symmetric] p_def [symmetric] a
      by (cases a) simp_all
    with aborted noted show ?thesis by (cases a) simp_all
  qed
qed

end

section \<open>What happens to the work tree\<close>

inductive tree_step :: "'w handoff_engine \<Rightarrow> 'w \<Rightarrow> 'w \<Rightarrow> bool" for e where
  by_git: "he_git e args w = (r, w') \<Longrightarrow> tree_step e w w'"
| by_mkdir: "he_mkdir e p w = (r', w') \<Longrightarrow> tree_step e w w'"
| by_write: "he_write e p text w = (r', w') \<Longrightarrow> tree_step e w w'"

text \<open>The push of a commit that the remote then advertises, between two states of the work tree.\<close>

definition confirmed :: "'w handoff_engine \<Rightarrow> 'w \<Rightarrow> 'w \<Rightarrow> string \<Rightarrow> bool" where
  "confirmed e w w' sha \<longleftrightarrow> he_push e \<and> opt_str (he_hub e) \<noteq> [] \<and> sha \<noteq> [] \<and>
     (\<exists>w0 w1 w2 w3 p1 p2 p3. (tree_step e)\<^sup>*\<^sup>* w w0 \<and>
        he_git e [''rev-parse'', ''HEAD''] w0 = (Inr p1, w1) \<and> go_code p1 = 0 \<and> py_strip (opt_str (go_stdout p1)) = sha \<and>
        he_git e [''push'', opt_str (he_hub e), ''HEAD''] w1 = (Inr p2, w2) \<and> go_code p2 = 0 \<and>
        he_git e [''ls-remote'', opt_str (he_hub e)] w2 = (Inr p3, w3) \<and> go_code p3 = 0 \<and>
        sha \<in> set (advertised (py_strip (opt_str (go_stdout p3)))) \<and> (tree_step e)\<^sup>*\<^sup>* w3 w')"

lemma confirmed_before: "(tree_step e)\<^sup>*\<^sup>* w v \<Longrightarrow> confirmed e v w' sha \<Longrightarrow> confirmed e w w' sha"
  unfolding confirmed_def by (elim conjE exE, intro conjI, assumption+, intro exI conjI, rule rtranclp_trans) assumption+

lemma confirmed_after: "confirmed e w v sha \<Longrightarrow> (tree_step e)\<^sup>*\<^sup>* v w' \<Longrightarrow> confirmed e w w' sha"
  unfolding confirmed_def by (elim conjE exE, intro conjI, assumption+, intro exI conjI, assumption+, erule rtranclp_trans)

definition new_pushed :: "store \<Rightarrow> store \<Rightarrow> event set" where
  "new_pushed s s' = {x \<in> set (coord_events s') - set (coord_events s). is_event ''handoff'' ''pushed'' x}"

text \<open>A quiesce callback that records no push and only works on the tree the way the engine does.\<close>

definition calm :: "'w handoff_engine \<Rightarrow> ('w, unit) tree_act \<Rightarrow> bool" where
  "calm e q \<longleftrightarrow> (\<forall>s w r s' w'. q (s, w) = (r, (s', w')) \<longrightarrow> grows s s' \<and> (tree_step e)\<^sup>*\<^sup>* w w' \<and> (ledger_ok s \<longrightarrow> new_pushed s s' = {}))"

definition honest :: "'w handoff_engine \<Rightarrow> ('w, unit) tree_act option \<Rightarrow> handoff \<times> store \<times> 'w \<Rightarrow> handoff \<times> store \<times> 'w \<Rightarrow> bool" where
  "honest e quiesce = (\<lambda>(h, s, w) (h', s', w'). (\<forall>q. quiesce = Some q \<longrightarrow> calm e q) \<longrightarrow>
     grows s s' \<and> (tree_step e)\<^sup>*\<^sup>* w w' \<and>
     (ho_pushed h' = ho_pushed h \<or> (\<exists>sha. ho_pushed h' = Some sha \<and> confirmed e w w' sha)) \<and>
     (ledger_ok s \<longrightarrow> (\<forall>x \<in> new_pushed s s'. \<exists>sha. dget (ev_payload_dict x) ''sha'' = PStr sha \<and> confirmed e w w' sha)))"

lemma honestI:
  assumes "grows s s'" "(tree_step e)\<^sup>*\<^sup>* w w'" "ho_pushed h' = ho_pushed h" "ledger_ok s \<Longrightarrow> new_pushed s s' = {}"
  shows "honest e quiesce (h, s, w) (h', s', w')"
  using assms by (simp add: honest_def)

lemma new_pushed_refl [simp]: "new_pushed s s = {}"
  by (simp add: new_pushed_def)

lemma honest_refl: "honest e quiesce x x"
  by (cases x) (auto intro: honestI growth.refl)

lemma honest_trans:
  assumes one: "honest e quiesce x y" and two: "honest e quiesce y z" shows "honest e quiesce x z"
proof -
  obtain h s w where x: "x = (h, s, w)" by (cases x)
  obtain h' s' w' where y: "y = (h', s', w')" by (cases y)
  obtain h'' s'' w'' where z: "z = (h'', s'', w'')" by (cases z)
  show ?thesis
    unfolding x z honest_def prod.case
  proof (intro impI)
    assume q: "\<forall>q. quiesce = Some q \<longrightarrow> calm e q"
    note a = one [unfolded x y honest_def prod.case, rule_format, OF q [rule_format]]
      and b = two [unfolded y z honest_def prod.case, rule_format, OF q [rule_format]]
    have w: "(tree_step e)\<^sup>*\<^sup>* w w'" "(tree_step e)\<^sup>*\<^sup>* w' w''" and g: "grows s s'" "grows s' s''" using a b q by blast+
    note before = confirmed_before [OF w(1)] and after = confirmed_after [OF _ w(2)]
    have p1: "ho_pushed h' = ho_pushed h \<or> (\<exists>sha. ho_pushed h' = Some sha \<and> confirmed e w w'' sha)"
      using a q after by blast
    have p2: "ho_pushed h'' = ho_pushed h' \<or> (\<exists>sha. ho_pushed h'' = Some sha \<and> confirmed e w w'' sha)"
      using b q before by blast
    have events: "\<exists>sha. dget (ev_payload_dict v) ''sha'' = PStr sha \<and> confirmed e w w'' sha"
      if "ledger_ok s" "v \<in> new_pushed s s''" for v
    proof (cases "v \<in> new_pushed s s'")
      case True
      then show ?thesis using a q that(1) after by blast
    next
      case False
      with that(2) have "v \<in> new_pushed s' s''" by (auto simp: new_pushed_def)
      then show ?thesis using b q growsD(2) [OF g(1) that(1)] before by blast
    qed
    from p1 p2 events growth.trans [OF g] rtranclp_trans [OF w]
    show "grows s s'' \<and> (tree_step e)\<^sup>*\<^sup>* w w'' \<and>
     (ho_pushed h'' = ho_pushed h \<or> (\<exists>sha. ho_pushed h'' = Some sha \<and> confirmed e w w'' sha)) \<and>
     (ledger_ok s \<longrightarrow> (\<forall>x \<in> new_pushed s s''. \<exists>sha. dget (ev_payload_dict x) ''sha'' = PStr sha \<and> confirmed e w w'' sha))"
      by auto
  qed
qed

text \<open>What a store operation or a work on the tree keeps.\<close>

definition unpushed :: "store \<Rightarrow> store \<Rightarrow> bool" where
  "unpushed s s' \<longleftrightarrow> grows s s' \<and> (ledger_ok s \<longrightarrow> new_pushed s s' = {})"

interpretation unpushed: state_preorder unpushed
proof
  show "unpushed s s" for s by (simp add: unpushed_def growth.refl)
  show "unpushed s u" if "unpushed s t" "unpushed t u" for s t u
  proof -
    have g: "grows s t" "grows t u" using that by (simp_all add: unpushed_def)
    have "new_pushed s u \<subseteq> new_pushed s t \<union> new_pushed t u" by (auto simp: new_pushed_def)
    moreover have "ledger_ok s \<Longrightarrow> new_pushed s t = {} \<and> new_pushed t u = {}"
      using that growsD(2) [OF g(1)] by (simp add: unpushed_def)
    ultimately show ?thesis using growth.trans [OF g] by (auto simp: unpushed_def)
  qed
qed

lemma unpushed_append:
  assumes "\<not> (kind = ''handoff'' \<and> marker = ''pushed'')"
  shows "keeps unpushed (append_coord_event kind marker summary scope epoch payload project None)"
proof (rule keepsI)
  fix s
  obtain r s' where run: "append_coord_event kind marker summary scope epoch payload project None s = (r, s')" by fastforce
  have "ledger_ok s \<Longrightarrow> new_pushed s s' = {}"
    using run by (elim append_any) (use assms in \<open>auto simp: new_pushed_def is_event_def\<close>)
  with keepsD [OF append_grows run] run show "unpushed s (snd (append_coord_event kind marker summary scope epoch payload project None s))"
    by (simp add: unpushed_def)
qed

lemma unpushed_clock: "keeps unpushed next_clock"
proof (rule keepsI)
  fix s
  have "grows s (snd (next_clock s))" by (rule keeps_at [where R = grows]) (intro op_intros)
  moreover have "coord_events (snd (next_clock s)) = coord_events s" by (simp add: next_clock_def coord_events_def)
  ultimately show "unpushed s (snd (next_clock s))" by (simp add: unpushed_def new_pushed_def)
qed

lemma unpushed_case:
  "keeps unpushed m \<Longrightarrow> (\<And>l. keeps unpushed (f l)) \<Longrightarrow> keeps unpushed (case x of None \<Rightarrow> m | Some l \<Rightarrow> f l)"
  by (cases x) simp_all

lemma unpushed_release: "keeps unpushed (release_best_effort q)"
proof -
  have leases: "keeps unpushed current_leases"
    unfolding leases_read_clock by (intro unpushed.keeps_intros unpushed_clock)
  have event: "keeps unpushed (lease_event marker x q' n p)" for marker x q' n p
    unfolding lease_event_def by (rule unpushed_append) simp
  have "keeps unpushed (release_lease q x y)" for x y
    unfolding release_lease_def Let_def
    by (intro unpushed_case unpushed.keeps_intros leases event, rule keepsI, rule keeps_at,
        intro unpushed_case unpushed.keeps_intros leases event)
  then show ?thesis unfolding release_best_effort_def by (intro unpushed.keeps_intros)
qed

lemma honest_store:
  assumes "keeps unpushed m" shows "keeps (honest e quiesce) (on_run (on_store m))"
proof (rule keepsI)
  fix x :: "handoff \<times> store \<times> 'b"
  obtain h s w where x: "x = (h, s, w)" by (cases x)
  obtain r s' where m: "m s = (r, s')" by fastforce
  from keepsD [OF assms m] have "honest e quiesce (h, s, w) (h, s', w)" by (intro honestI) (auto simp: unpushed_def)
  with m show "honest e quiesce x (snd (on_run (on_store m) x))" by (simp add: x on_run_def on_store_def)
qed

lemma honest_tree: "(\<And>w r w'. m w = (r, w') \<Longrightarrow> (tree_step e)\<^sup>*\<^sup>* w w') \<Longrightarrow> keeps (honest e quiesce) (on_run (on_tree m))"
  by (auto simp: keeps_def on_run_def on_tree_def growth.refl split: prod.split intro!: honestI)

lemma honest_jot: "(\<And>h. ho_pushed (f h) = ho_pushed h) \<Longrightarrow> keeps (honest e quiesce) (jot f)"
  by (auto simp: keeps_def jot_def growth.refl intro!: honestI)

interpretation honest: state_preorder "honest e quiesce" for e quiesce
  by unfold_locales (rule honest_refl, rule honest_trans)

text \<open>The push itself.\<close>

lemma git_text_at: "git_text e args (s, w) = (case he_git e args w of (Inl x, w') \<Rightarrow> (Inl x, (s, w'))
    | (Inr p, w') \<Rightarrow> (Inr (go_code p, py_strip (opt_str (go_stdout p))), (s, w')))"
  by (simp add: git_text_def seq_def on_tree_def split: prod.split sum.split)

lemma git_trace: "he_git e args w = (r, w') \<Longrightarrow> (tree_step e)\<^sup>*\<^sup>* v w \<Longrightarrow> (tree_step e)\<^sup>*\<^sup>* v w'"
  by (auto intro: rtranclp.rtrancl_into_rtrancl tree_step.by_git)

lemma push_and_confirm_does:
  assumes "push_and_confirm e (s, w) = (r, (s', w'))"
  shows "s' = s" "(tree_step e)\<^sup>*\<^sup>* w w'"
    "r = Inr (Some sha) \<Longrightarrow> he_push e \<Longrightarrow> opt_str (he_hub e) \<noteq> [] \<Longrightarrow> confirmed e w w' sha"
proof -
  obtain r1 w1 where one: "he_git e [''rev-parse'', ''HEAD''] w = (r1, w1)" by fastforce
  obtain r2 w2 where two: "he_git e [''push'', opt_str (he_hub e), ''HEAD''] w1 = (r2, w2)" by fastforce
  obtain r3 w3 where three: "he_git e [''ls-remote'', opt_str (he_hub e)] w2 = (r3, w3)" by fastforce
  note t1 = git_trace [OF one rtranclp.rtrancl_refl] 
  note t2 = git_trace [OF two t1]
  note t3 = git_trace [OF three t2]
  show "s' = s" "(tree_step e)\<^sup>*\<^sup>* w w'"
    using assms one two three t1 t2 t3
    by (auto simp: push_and_confirm_def seq_def git_text_at split: sum.splits if_splits)
  assume r: "r = Inr (Some sha)" and hub: "he_push e" "opt_str (he_hub e) \<noteq> []"
  have "\<exists>p1 p2 p3. r1 = Inr p1 \<and> go_code p1 = 0 \<and> py_strip (opt_str (go_stdout p1)) = sha \<and> sha \<noteq> [] \<and> r2 = Inr p2 \<and> go_code p2 = 0 \<and>
      r3 = Inr p3 \<and> go_code p3 = 0 \<and> sha \<in> set (advertised (py_strip (opt_str (go_stdout p3)))) \<and> w' = w3"
    using assms r one two three
    by (auto simp: push_and_confirm_def seq_def git_text_at split: sum.splits if_splits)
  then show "confirmed e w w' sha"
    unfolding confirmed_def using hub one two three by blast
qed

lemma pushed_event:
  assumes "handoff_event ''pushed'' x q (Some [(''sha'', PStr sha)]) s = (r, t)" "ledger_ok s" "v \<in> new_pushed s t"
  shows "\<not> isl r \<and> dget (ev_payload_dict v) ''sha'' = PStr sha"
proof (cases r)
  case (Inl err)
  with assms have "coord_events t = coord_events s" unfolding handoff_event_def by (auto elim: append_any)
  with assms(3) show ?thesis by (simp add: new_pushed_def)
next
  case (Inr a)
  obtain y where y: "new_event s t a y ''handoff'' ''pushed'' (Some q) None [(''sha'', PStr sha)]"
    using event_new [OF assms(1) [unfolded Inr handoff_event_def] assms(2)] by (auto simp: opt_dict_def)
  with assms(3) have "v = y" by (auto simp: new_pushed_def dest: new_eventD(1))
  with Inr new_eventD(9) [OF y] show ?thesis by simp
qed

lemma honest_push:
  fixes e :: "'w handoff_engine"
  shows "keeps (honest e quiesce) (push_step e q)"
proof -
  have marks: "keeps (honest e quiesce) (entering n)" "keeps (honest e quiesce) (passed n)" for n
    unfolding entering_def passed_def by (rule honest_jot, simp)+
  have diverged: "keeps (honest e quiesce) (diverged_on z q d)" for z d
    unfolding diverged_on_def record_divergence_def
    by (intro honest.keeps_seq honest_store unpushed_append honest_jot) simp_all
  have would: "keeps (honest e quiesce) (jot (\<lambda>h. h\<lparr>ho_would_push := b\<rparr>))" for b by (rule honest_jot) simp
  have push: "keeps (honest e quiesce) (seq (on_run (push_and_confirm e)) (\<lambda>sha.
       case sha of
         Some sha \<Rightarrow>
           seq (on_run (on_store (handoff_event ''pushed'' (''Shadow handoff pushed '' @ q @ '' to hub.'') q
             (Some [(''sha'', PStr sha)])))) (\<lambda>a.
           seq (jot (\<lambda>h. h\<lparr>ho_pushed := Some sha, ho_pushed_id := Some (ar_id a)\<rparr>)) (\<lambda>_. passed ''pushed''))
       | None \<Rightarrow> seq (diverged_on ''PUSH_NOT_CONFIRMED'' q []) (\<lambda>_. passed ''push-unconfirmed'')))" (is "keeps _ ?m")
    if hub: "he_push e" "opt_str (he_hub e) \<noteq> []"
  proof (rule keepsI)
    fix x :: "handoff \<times> store \<times> 'w"
    obtain h s w where x: "x = (h, s, w)" by (cases x)
    obtain r s' w' where run: "push_and_confirm e (s, w) = (r, (s', w'))" by (metis prod.exhaust)
    note p = push_and_confirm_does [OF run]
    have quiet: "honest e quiesce x (h, s, w')" unfolding x by (rule honestI) (use p growth.refl in auto)
    show "honest e quiesce x (snd (?m x))"
    proof (cases "\<exists>sha. r = Inr (Some sha)")
      case False
      have "honest e quiesce (h, s, w') (snd (seq (diverged_on ''PUSH_NOT_CONFIRMED'' q []) (\<lambda>_. passed ''push-unconfirmed'') (h, s, w')))"
        by (rule keeps_at) (intro honest.keeps_seq diverged marks)
      with quiet have diverged': "honest e quiesce x (snd (seq (diverged_on ''PUSH_NOT_CONFIRMED'' q []) (\<lambda>_. passed ''push-unconfirmed'') (h, s, w')))"
        by (rule honest_trans)
      have at: "on_run (push_and_confirm e) x = (r, (h, s, w'))" using run p(1) by (simp add: x on_run_def)
      show ?thesis
      proof (cases r)
        case (Inl err)
        with at quiet show ?thesis by simp
      next
        case (Inr z)
        with False have "z = None" by (cases z) auto
        with Inr at diverged' show ?thesis by simp
      qed
    next
      case True
      then obtain sha where sha: "r = Inr (Some sha)" by blast
      note c = p(3) [OF sha hub]
      define m where "m = handoff_event ''pushed'' (''Shadow handoff pushed '' @ q @ '' to hub.'') q (Some [(''sha'', PStr sha)])"
      obtain a t where a: "m s = (a, t)" by fastforce
      have g: "grows s t" using keepsD [OF append_grows a [unfolded m_def handoff_event_def]] .
      have events: "\<exists>sha. dget (ev_payload_dict v) ''sha'' = PStr sha \<and> confirmed e w w' sha" if "ledger_ok s" "v \<in> new_pushed s t" for v
        using pushed_event [OF a [unfolded m_def] that] c by blast
      have noted: "honest e quiesce x (h', t, w')" if "ho_pushed h' = ho_pushed h \<or> ho_pushed h' = Some sha" for h'
        using that c g p(2) events unfolding x honest_def prod.case by blast
      have at: "on_run (push_and_confirm e) x = (Inr (Some sha), (h, s, w'))" using run sha p(1) by (simp add: x on_run_def)
      have step: "on_run (on_store m) (h, s, w') = (a, (h, t, w'))" using a by (simp add: on_run_def on_store_def)
      have "?m x = seq (on_run (on_store m)) (\<lambda>a. seq (jot (\<lambda>h. h\<lparr>ho_pushed := Some sha, ho_pushed_id := Some (ar_id a)\<rparr>))
          (\<lambda>_. passed ''pushed'')) (h, s, w')"
        unfolding seq_ok [where m = "on_run (push_and_confirm e)" and s = x, OF at] m_def option.case ..
      then have "snd (?m x) = (case a of Inl _ \<Rightarrow> (h, t, w') | Inr b \<Rightarrow>
          (h\<lparr>ho_pushed := Some sha, ho_pushed_id := Some (ar_id b), ho_steps := ho_steps h @ [''pushed'']\<rparr>, t, w'))"
        using step by (cases a) (simp_all add: seq_def jot_def passed_def)
      then show ?thesis using noted by (simp split: sum.split)
    qed
  qed
  show ?thesis
    unfolding push_step_def
  proof (intro honest.keeps_seq marks, cases "he_push e \<and> opt_str (he_hub e) \<noteq> []", goal_cases)
    case 1
    from 1 show ?case unfolding if_P [OF 1] by (elim conjE) (rule push)
  next
    case 2
    then show ?case unfolding if_not_P [OF 2] by (intro honest.keeps_seq would marks)
  qed
qed

interpretation handoff_honest: handoff_relation "honest e quiesce" e quiesce for e :: "'w handoff_engine" and quiesce
proof
  show "\<And>f. (\<And>h. ho_pushed (f h) = ho_pushed h) \<Longrightarrow> keeps (honest e quiesce) (jot f)" by (rule honest_jot)
  show "\<And>kind marker summary scope epoch payload project. \<not> (kind = ''handoff'' \<and> marker = ''pushed'') \<Longrightarrow>
      keeps (honest e quiesce) (on_run (on_store (append_coord_event kind marker summary scope epoch payload project None)))"
    by (intro honest_store unpushed_append)
  show "keeps (honest e quiesce) (on_run (on_store (release_best_effort q)))" for q by (intro honest_store unpushed_release)
  show "keeps (honest e quiesce) (on_run (on_store next_clock))" by (intro honest_store unpushed_clock)
  show "keeps (honest e quiesce) (on_run (on_tree (he_git e (verb # args))))"
    if "verb \<in> {''status'', ''rev-parse'', ''diff''}" for verb args
    by (rule honest_tree) (rule git_trace, auto)
  show "keeps (honest e quiesce) (on_run (on_tree (he_git e args)))" if "he_wip e" for args
    by (rule honest_tree) (rule git_trace, auto)
  show "keeps (honest e quiesce) (on_run (on_tree (he_mkdir e p)))" for p
    by (rule honest_tree) (auto intro: tree_step.by_mkdir)
  show "keeps (honest e quiesce) (on_run (on_tree (he_write e p body)))" for p body
    by (rule honest_tree) (auto intro: tree_step.by_write)
  show "keeps (honest e quiesce) (push_step e q)" for q by (rule honest_push)
  show "keeps (honest e quiesce) (on_run m)" if "quiesce = Some m" for m
  proof (rule keepsI)
    fix x :: "handoff \<times> store \<times> 'w"
    obtain h s w where x: "x = (h, s, w)" by (cases x)
    obtain r s' w' where m: "m (s, w) = (r, (s', w'))" by (metis prod.exhaust)
    have "honest e quiesce (h, s, w) (h, s', w')"
      unfolding honest_def prod.case
    proof (intro impI)
      assume "\<forall>q. quiesce = Some q \<longrightarrow> calm e q"
      with that m show "grows s s' \<and> (tree_step e)\<^sup>*\<^sup>* w w' \<and>
     (ho_pushed h = ho_pushed h \<or> (\<exists>sha. ho_pushed h = Some sha \<and> confirmed e w w' sha)) \<and>
     (ledger_ok s \<longrightarrow> (\<forall>x \<in> new_pushed s s'. \<exists>sha. dget (ev_payload_dict x) ''sha'' = PStr sha \<and> confirmed e w w' sha))"
        unfolding calm_def by blast
    qed
    with m show "honest e quiesce x (snd (on_run m x))" by (simp add: x on_run_def)
  qed
qed

end
