(* ===== verification/Handoff_Theorems.thy ===== *)
theory Handoff_Theorems imports Handoff_Laws begin

text \<open>
  The properties of the shadow handoff: pushed means confirmed, the default engine only reads the
  work tree, and the record it returns tells exactly how far the sequence came.
\<close>

section \<open>Reading only\<close>

definition reads_only :: "'w handoff_engine \<Rightarrow> ('w, unit) tree_act option \<Rightarrow> ('w \<Rightarrow> bool) \<Rightarrow> bool" where
  "reads_only e quiesce P \<longleftrightarrow> \<not> he_wip e \<and> \<not> (he_push e \<and> opt_str (he_hub e) \<noteq> []) \<and>
     (\<forall>verb args w r w'. verb \<in> {''status'', ''rev-parse'', ''diff''} \<and> he_git e (verb # args) w = (r, w') \<and> P w \<longrightarrow> P w') \<and>
     (\<forall>p w r w'. he_mkdir e p w = (r, w') \<and> P w \<longrightarrow> P w') \<and>
     (\<forall>p body w r w'. he_write e p body w = (r, w') \<and> P w \<longrightarrow> P w') \<and>
     (\<forall>q s w r s' w'. quiesce = Some q \<and> q (s, w) = (r, (s', w')) \<and> P w \<longrightarrow> P w')"

definition reading :: "'w handoff_engine \<Rightarrow> ('w, unit) tree_act option \<Rightarrow> ('w \<Rightarrow> bool) \<Rightarrow> handoff \<times> store \<times> 'w \<Rightarrow> handoff \<times> store \<times> 'w \<Rightarrow> bool" where
  "reading e quiesce P = (\<lambda>(h, s, w) (h', s', w'). reads_only e quiesce P \<longrightarrow> P w \<longrightarrow> P w')"

lemma readingI:
  fixes m :: "('w, 'a) hand"
  assumes "\<And>h s w r h' s' w'. m (h, s, w) = (r, (h', s', w')) \<Longrightarrow> reads_only e quiesce P \<Longrightarrow> P w \<Longrightarrow> P w'"
  shows "keeps (reading e quiesce P) m"
proof (rule keepsI)
  fix x :: "handoff \<times> store \<times> 'w"
  obtain h s w where x: "x = (h, s, w)" by (cases x)
  obtain r h' s' w' where m: "m (h, s, w) = (r, (h', s', w'))" by (metis prod_cases4)
  from assms [OF m] m show "reading e quiesce P x (snd (m x))" by (simp add: x reading_def)
qed

lemma reading_store: "keeps (reading e quiesce P) (on_run (on_store m))"
proof (rule readingI)
  fix h s w r h' s' w'
  assume "on_run (on_store m) (h, s, w) = (r, (h', s', w'))" "P w"
  then show "P w'" by (cases "m s") (simp add: on_run_def on_store_def)
qed

lemma reading_tree:
  assumes "\<And>w r w'. reads_only e quiesce P \<Longrightarrow> P w \<Longrightarrow> m w = (r, w') \<Longrightarrow> P w'"
  shows "keeps (reading e quiesce P) (on_run (on_tree m))"
proof (rule readingI)
  fix h s w r h' s' w'
  assume run: "on_run (on_tree m) (h, s, w) = (r, (h', s', w'))" and "reads_only e quiesce P" "P w"
  from run have "m w = (r, w')" by (cases "m w") (simp add: on_run_def on_tree_def)
  with assms \<open>reads_only e quiesce P\<close> \<open>P w\<close> show "P w'" by blast
qed

interpretation handoff_reading: handoff_relation "reading e quiesce P" e quiesce
  for e :: "'w handoff_engine" and quiesce and P
proof
  show "reading e quiesce P x x" for x by (simp add: reading_def split: prod.split)
  show "reading e quiesce P x z" if "reading e quiesce P x y" "reading e quiesce P y z" for x y z
    using that by (auto simp: reading_def split: prod.splits)
  show jot: "keeps (reading e quiesce P) (jot f)" for f
    by (rule readingI) (simp add: jot_def)
  show "keeps (reading e quiesce P) (on_run (on_store (append_coord_event kind marker summary scope epoch payload project None)))"
    for kind marker summary scope epoch payload project by (rule reading_store)
  show "keeps (reading e quiesce P) (on_run (on_store (release_best_effort q)))"
    "keeps (reading e quiesce P) (on_run (on_store next_clock))" for q by (rule reading_store)+
  show "keeps (reading e quiesce P) (on_run (on_tree (he_git e (verb # args))))"
    if "verb \<in> {''status'', ''rev-parse'', ''diff''}" for verb args
    using that by (intro reading_tree) (unfold reads_only_def, blast)
  show "keeps (reading e quiesce P) (on_run (on_tree (he_git e args)))" if "he_wip e" for args
    using that by (intro reading_tree) (simp add: reads_only_def)
  show "keeps (reading e quiesce P) (on_run (on_tree (he_mkdir e p)))" for p
    by (rule reading_tree) (unfold reads_only_def, blast)
  show "keeps (reading e quiesce P) (on_run (on_tree (he_write e p body)))" for p body
    by (rule reading_tree) (unfold reads_only_def, blast)
  show "keeps (reading e quiesce P) (push_step e q)" for q
  proof (rule keepsI)
    fix x :: "handoff \<times> store \<times> 'w"
    obtain h s w where x: "x = (h, s, w)" by (cases x)
    show "reading e quiesce P x (snd (push_step e q x))"
    proof (cases "he_push e \<and> opt_str (he_hub e) \<noteq> []")
      case True
      then show ?thesis by (simp add: reading_def reads_only_def split: prod.split)
    next
      case False
      have "\<exists>h'. snd (push_step e q x) = (h', s, w)"
        unfolding push_step_def if_not_P [OF False] x by (simp add: seq_def entering_def passed_def jot_def)
      then show ?thesis by (auto simp: reading_def x)
    qed
  qed
  show "keeps (reading e quiesce P) (on_run m)" if q: "quiesce = Some m" for m
  proof (rule readingI)
    fix h s w r h' s' w'
    assume run: "on_run m (h, s, w) = (r, (h', s', w'))" and ro: "reads_only e quiesce P" and "P w"
    from run have "m (s, w) = (r, (s', w'))" by (cases "m (s, w)") (simp add: on_run_def)
    with q ro \<open>P w\<close> show "P w'" unfolding reads_only_def by blast
  qed
qed

text \<open>C11. Pushed means pushed: whatever happens during a handoff, the sha its record reports as pushed, and
  the sha of every pushed row it adds to the ledger, is the head that an enabled push to the hub accepted
  and that the hub then advertised. The ledger stays well-kept whether the handoff completes or aborts.\<close>

theorem handoff_pushed_means_confirmed:
  assumes "shadow_handoff e quiesce scope (s, w) = (h, (s', w'))" "ledger_ok s" "\<forall>q. quiesce = Some q \<longrightarrow> calm e q"
  shows "grows s s' \<and> ledger_ok s' \<and> (\<forall>sha. ho_pushed h = Some sha \<longrightarrow> confirmed e w w' sha) \<and>
    (\<forall>x \<in> new_pushed s s'. \<exists>sha. dget (ev_payload_dict x) ''sha'' = PStr sha \<and> confirmed e w w' sha)"
proof -
  have "honest e quiesce (new_handoff scope, s, w) (h, s', w')"
    using handoff_honest.keeps_handoff [of e quiesce scope "(s, w)"] by (simp add: assms(1))
  with assms(2,3) have "grows s s'" and "ho_pushed h = ho_pushed (new_handoff scope) \<or> (\<exists>sha. ho_pushed h = Some sha \<and> confirmed e w w' sha)"
    and "\<forall>x \<in> new_pushed s s'. \<exists>sha. dget (ev_payload_dict x) ''sha'' = PStr sha \<and> confirmed e w w' sha"
    unfolding honest_def by blast+
  with growsD(2) [OF this(1) assms(2)] show ?thesis by (auto simp: new_handoff_def)
qed

text \<open>Without the two opt-ins the handoff never commits and never pushes: any condition on the work tree
  that \<open>git status\<close>, \<open>git rev-parse\<close>, \<open>git diff\<close>, the writing of the artifact and the quiesce callback
  keep, the whole handoff keeps, whether it completes or aborts.\<close>

theorem handoff_reads_only_by_default:
  assumes "shadow_handoff e quiesce scope (s, w) = (h, (s', w'))" "reads_only e quiesce P" "P w"
  shows "P w'"
  using handoff_reading.keeps_handoff [of e quiesce P scope "(s, w)"] assms by (simp add: reading_def)

definition sample_engine :: "bool \<Rightarrow> string list list handoff_engine" where
  "sample_engine pushes = \<lparr>he_git = (\<lambda>args w. (Inr \<lparr>go_code = 0, go_stdout = Some (if take 1 args = [''status''] then [] else ''abc''), go_stderr = None\<rparr>, args # w)),
     he_mkdir = (\<lambda>_. ret ()), he_write = (\<lambda>_ _. ret ()), he_hub = Some ''hub'', he_wip = False, he_push = pushes, he_artifact_dir = None\<rparr>"

theorem handoff_pushed_means_confirmed_witness:
  "\<exists>h s' w'. shadow_handoff (sample_engine True) None ''repo.a'' (sample_store False, []) = (h, (s', w')) \<and> ledger_ok s'"
proof -
  obtain h s' w' where run: "shadow_handoff (sample_engine True) None ''repo.a'' (sample_store False, []) = (h, (s', w'))"
    by (metis prod.exhaust)
  from handoff_pushed_means_confirmed [OF run idealD(1) [OF sample_ideal]] run show ?thesis by simp
qed

theorem handoff_reads_only_by_default_witness:
  "\<exists>h s' w'. shadow_handoff (sample_engine False) None ''repo.a'' (sample_store False, []) = (h, (s', w')) \<and>
     (\<forall>args \<in> set w'. take 1 args \<noteq> [''push''] \<and> take 1 args \<noteq> [''commit''])"
proof -
  obtain h s' w' where run: "shadow_handoff (sample_engine False) None ''repo.a'' (sample_store False, []) = (h, (s', w'))"
    by (metis prod.exhaust)
  have "reads_only (sample_engine False) None (\<lambda>w. \<forall>args \<in> set w. take 1 args \<noteq> [''push''] \<and> take 1 args \<noteq> [''commit''])"
    by (auto simp: reads_only_def sample_engine_def)
  from handoff_reads_only_by_default [OF run this] run show ?thesis by simp
qed

section \<open>How far a handoff came\<close>

definition phases :: "string list" where
  "phases = [''started'', ''quiesce'', ''snapshot'', ''wip'', ''push'', ''divergence'', ''release'', ''completed'']"

definition planned :: "'w handoff_engine \<Rightarrow> string set list" where
  "planned e = [{''started''}, {''quiesce''}, {''snapshot''}, {if he_wip e then ''wip-commit'' else ''wip-artifact''},
     if he_push e \<and> opt_str (he_hub e) \<noteq> [] then {''pushed'', ''push-unconfirmed''} else {''would-push''},
     {''divergence-check''}, {''released''}, {''completed''}]"

text \<open>What the work inside a step leaves alone.\<close>

definition steady :: "handoff \<times> store \<times> 'w \<Rightarrow> handoff \<times> store \<times> 'w \<Rightarrow> bool" where
  "steady = (\<lambda>(h, sw) (h', sw'). ho_steps h' = ho_steps h \<and> ho_current h' = ho_current h \<and> ho_status h' = ho_status h \<and>
     ho_failed_step h' = ho_failed_step h)"

interpretation steady: state_preorder steady
  by unfold_locales (auto simp: steady_def split: prod.splits)

lemma steady_parts [simp, intro]: "keeps steady (on_run m)" "keeps steady (noted k)"
  "(\<And>h. ho_steps (f h) = ho_steps h \<and> ho_current (f h) = ho_current h \<and> ho_status (f h) = ho_status h \<and> ho_failed_step (f h) = ho_failed_step h)
     \<Longrightarrow> keeps steady (jot f)"
  by (simp_all add: keeps_def steady_def on_run_def noted_def jot_def split: prod.split)

lemma steady_diverged [simp, intro]: "keeps steady (diverged_on reason q d)"
  unfolding diverged_on_def by (intro steady.keeps_seq steady_parts) simp

lemma steady_checks [simp, intro]: "keeps steady (divergence_checks q dirty head)"
  unfolding divergence_checks_def Let_def
  by (cases head) (auto intro!: steady.keeps_intros steady_parts steady_diverged split: option.split)

text \<open>The rest of a step in its phase, and the whole step.\<close>

definition outcome :: "string \<Rightarrow> string set \<Rightarrow> handoff \<Rightarrow> exn + unit \<Rightarrow> handoff \<Rightarrow> bool" where
  "outcome p N h r h' \<longleftrightarrow> ho_status h' = ho_status h \<and> ho_failed_step h' = ho_failed_step h \<and>
     (case r of Inl _ \<Rightarrow> ho_steps h' = ho_steps h \<and> ho_current h' = p | Inr _ \<Rightarrow> \<exists>n \<in> N. ho_steps h' = ho_steps h @ [n])"

definition in_phase :: "string \<Rightarrow> string set \<Rightarrow> ('w, unit) hand \<Rightarrow> bool" where
  "in_phase p N m \<longleftrightarrow> (\<forall>h sw r h' sw'. ho_current h = p \<longrightarrow> m (h, sw) = (r, (h', sw')) \<longrightarrow> outcome p N h r h')"

definition staged :: "string \<Rightarrow> string set \<Rightarrow> ('w, unit) hand \<Rightarrow> bool" where
  "staged p N m \<longleftrightarrow> (\<forall>h sw r h' sw'. m (h, sw) = (r, (h', sw')) \<longrightarrow> outcome p N h r h')"

lemma outcome_steady:
  "ho_steps h1 = ho_steps h \<Longrightarrow> ho_status h1 = ho_status h \<Longrightarrow> ho_failed_step h1 = ho_failed_step h \<Longrightarrow>
   outcome p N h1 r h' \<Longrightarrow> outcome p N h r h'"
  by (cases r) (simp_all add: outcome_def)

lemma in_phase_seq:
  fixes m :: "('w, 'a) hand"
  assumes m: "keeps steady m" and f: "\<And>x. in_phase p N (f x)" shows "in_phase p N (seq m f)"
  unfolding in_phase_def
proof (intro allI impI)
  fix h r h' and sw sw' :: "store \<times> 'w"
  assume p: "ho_current h = p" and run: "seq m f (h, sw) = (r, (h', sw'))"
  obtain q h1 sw1 where one: "m (h, sw) = (q, (h1, sw1))" by (metis prod.exhaust)
  have "steady (h, sw) (h1, sw1)" by (rule keepsD [OF m one])
  then have s: "ho_steps h1 = ho_steps h" "ho_status h1 = ho_status h" "ho_failed_step h1 = ho_failed_step h" "ho_current h1 = p"
    using p by (simp_all add: steady_def)
  show "outcome p N h r h'"
  proof (cases q)
    case (Inl x)
    with run one s show ?thesis by (auto simp: seq_def outcome_def)
  next
    case (Inr x)
    with run one have "f x (h1, sw1) = (r, (h', sw'))" by (simp add: seq_def)
    with f [of x] s(4) have "outcome p N h1 r h'" unfolding in_phase_def by blast
    with s(1-3) show ?thesis by (rule outcome_steady)
  qed
qed

lemma in_phase_passed: "n \<in> N \<Longrightarrow> in_phase p N (passed n)"
  by (auto simp: in_phase_def passed_def jot_def outcome_def)

lemma in_phase_split: "(\<And>x y. in_phase p N (f x y)) \<Longrightarrow> in_phase p N (case z of (x, y) \<Rightarrow> f x y)"
  "in_phase p N m \<Longrightarrow> (\<And>x. in_phase p N (g x)) \<Longrightarrow> in_phase p N (case a of None \<Rightarrow> m | Some x \<Rightarrow> g x)"
  by (cases z, simp, cases a, simp_all)

lemma staged_enter: assumes "in_phase p N m" shows "staged p N (seq (entering p) (\<lambda>_. m))"
  unfolding staged_def
proof (intro allI impI)
  fix h r h' and sw sw' :: "store \<times> 'a"
  assume "seq (entering p) (\<lambda>_. m) (h, sw) = (r, (h', sw'))"
  then have "m (h\<lparr>ho_current := p\<rparr>, sw) = (r, (h', sw'))" by (simp add: entering_def jot_def seq_def)
  moreover have "ho_current (h\<lparr>ho_current := p\<rparr>) = p" by simp
  ultimately have "outcome p N (h\<lparr>ho_current := p\<rparr>) r h'" using assms unfolding in_phase_def by blast
  then show "outcome p N h r h'" by (rule outcome_steady [rotated 3]) simp_all
qed

lemmas phase_intros = in_phase_split in_phase_seq in_phase_passed steady_parts steady_diverged steady_checks

lemma staged_steps:
  "in_phase ''started'' {''started''} (started_step q)" "staged ''quiesce'' {''quiesce''} (quiesce_step quiesce)"
  "staged ''snapshot'' {''snapshot''} (snapshot_step e)"
  "staged ''wip'' {if he_wip e then ''wip-commit'' else ''wip-artifact''} (wip_step e q)"
  "staged ''push'' (if he_push e \<and> opt_str (he_hub e) \<noteq> [] then {''pushed'', ''push-unconfirmed''} else {''would-push''}) (push_step e q)"
  "staged ''divergence'' {''divergence-check''} (divergence_step q)"
  "staged ''release'' {''released''} (release_step q)" "staged ''completed'' {''completed''} (completed_step q)"
proof -
  show "in_phase ''started'' {''started''} (started_step q)"
    unfolding started_step_def by (intro phase_intros) simp_all
  have "keeps steady (case quiesce of None \<Rightarrow> ret () | Some q \<Rightarrow> on_run q)"
    by (cases quiesce) (simp_all add: steady.keeps_pure)
  then show "staged ''quiesce'' {''quiesce''} (quiesce_step quiesce)"
    unfolding quiesce_step_def by (intro staged_enter in_phase_seq in_phase_passed) simp_all
  show "staged ''snapshot'' {''snapshot''} (snapshot_step e)"
    unfolding snapshot_step_def by (rule staged_enter, intro phase_intros) simp_all
  show "staged ''wip'' {if he_wip e then ''wip-commit'' else ''wip-artifact''} (wip_step e q)"
    unfolding wip_step_def
  proof (rule staged_enter, cases "he_wip e", goal_cases)
    case 1
    then show ?case unfolding if_P [OF 1] by (intro phase_intros) simp_all
  next
    case 2
    then show ?case unfolding if_not_P [OF 2] by (intro phase_intros) simp_all
  qed
  show "staged ''push'' (if he_push e \<and> opt_str (he_hub e) \<noteq> [] then {''pushed'', ''push-unconfirmed''} else {''would-push''}) (push_step e q)"
    unfolding push_step_def
  proof (rule staged_enter, cases "he_push e \<and> opt_str (he_hub e) \<noteq> []", goal_cases)
    case 1
    then show ?case unfolding if_P [OF 1] by (intro phase_intros) simp_all
  next
    case 2
    then show ?case unfolding if_not_P [OF 2] by (intro phase_intros) simp_all
  qed
  show "staged ''divergence'' {''divergence-check''} (divergence_step q)"
    unfolding divergence_step_def by (rule staged_enter, intro phase_intros) simp_all
  show "staged ''release'' {''released''} (release_step q)"
    unfolding release_step_def by (rule staged_enter, intro phase_intros) simp_all
  show "staged ''completed'' {''completed''} (completed_step q)"
    unfolding completed_step_def by (rule staged_enter, intro phase_intros) simp_all
qed

text \<open>A sequence of steps: the record after it lists the steps passed, and a failure names the next one.\<close>

definition extends :: "(string \<times> string set) list \<Rightarrow> handoff \<Rightarrow> exn + unit \<Rightarrow> handoff \<Rightarrow> bool" where
  "extends ps h r h' \<longleftrightarrow> ho_status h' = ho_status h \<and> ho_failed_step h' = ho_failed_step h \<and>
     (\<exists>ns. ho_steps h' = ho_steps h @ ns \<and> list_all2 (\<lambda>n pn. n \<in> snd pn) ns (take (length ns) ps) \<and>
       (case r of Inl _ \<Rightarrow> length ns < length ps \<and> ho_current h' = fst (ps ! length ns) | Inr _ \<Rightarrow> length ns = length ps))"

definition sequence :: "(string \<times> string set) list \<Rightarrow> ('w, unit) hand \<Rightarrow> bool" where
  "sequence ps m \<longleftrightarrow> (\<forall>h sw r h' sw'. m (h, sw) = (r, (h', sw')) \<longrightarrow> extends ps h r h')"

lemma outcome_stop: "outcome p N h (Inl x) h' \<Longrightarrow> extends ((p, N) # ps) h (Inl x) h'"
  by (auto simp: outcome_def extends_def)

lemma outcome_on: "outcome p N h (Inr x) h1 \<Longrightarrow> extends ps h1 r h' \<Longrightarrow> extends ((p, N) # ps) h r h'"
proof -
  assume one: "outcome p N h (Inr x) h1" and two: "extends ps h1 r h'"
  from one obtain n where n: "n \<in> N" "ho_steps h1 = ho_steps h @ [n]" "ho_status h1 = ho_status h" "ho_failed_step h1 = ho_failed_step h"
    by (auto simp: outcome_def)
  from two obtain ns where ns: "ho_steps h' = ho_steps h1 @ ns" "list_all2 (\<lambda>n pn. n \<in> snd pn) ns (take (length ns) ps)"
    "case r of Inl _ \<Rightarrow> length ns < length ps \<and> ho_current h' = fst (ps ! length ns) | Inr _ \<Rightarrow> length ns = length ps"
    "ho_status h' = ho_status h1" "ho_failed_step h' = ho_failed_step h1" by (auto simp: extends_def)
  show "extends ((p, N) # ps) h r h'"
    unfolding extends_def using n ns by (intro conjI exI [of _ "n # ns"]) (auto split: sum.splits)
qed

lemma sequence_last: "staged p N m \<Longrightarrow> sequence [(p, N)] m"
  unfolding sequence_def
proof (intro allI impI)
  fix h r h' and sw sw' :: "store \<times> 'a"
  assume "staged p N m" "m (h, sw) = (r, (h', sw'))"
  then have o: "outcome p N h r h'" unfolding staged_def by blast
  show "extends [(p, N)] h r h'"
  proof (cases r)
    case (Inl x)
    with o show ?thesis by (simp add: outcome_stop)
  next
    case (Inr x)
    have "extends [] h' r h'" by (simp add: extends_def Inr)
    with o Inr show ?thesis by (blast intro: outcome_on)
  qed
qed

lemma sequence_step:
  assumes "staged p N m" "sequence ps k" shows "sequence ((p, N) # ps) (seq m (\<lambda>_. k))"
  unfolding sequence_def
proof (intro allI impI)
  fix h r h' and sw sw' :: "store \<times> 'a"
  assume run: "seq m (\<lambda>_. k) (h, sw) = (r, (h', sw'))"
  obtain q h1 sw1 where one: "m (h, sw) = (q, (h1, sw1))" by (metis prod.exhaust)
  have o: "outcome p N h q h1" using assms(1) one unfolding staged_def by blast
  show "extends ((p, N) # ps) h r h'"
  proof (cases q)
    case (Inl x)
    with run one o show ?thesis by (auto simp: seq_def intro: outcome_stop)
  next
    case (Inr x)
    with run one have "k (h1, sw1) = (r, (h', sw'))" by (simp add: seq_def)
    with assms(2) have "extends ps h1 r h'" unfolding sequence_def by blast
    with o Inr show ?thesis by (blast intro: outcome_on)
  qed
qed

lemma handoff_steps_staged: "sequence (zip phases (planned e)) (seq (entering ''started'') (\<lambda>_. handoff_steps e quiesce q))"
proof -
  have "seq (entering ''started'') (\<lambda>_. handoff_steps e quiesce q) =
      seq (seq (entering ''started'') (\<lambda>_. started_step q)) (\<lambda>_. seq (quiesce_step quiesce) (\<lambda>_. seq (snapshot_step e) (\<lambda>_. seq (wip_step e q) (\<lambda>_.
     seq (push_step e q) (\<lambda>_. seq (divergence_step q) (\<lambda>_. seq (release_step q) (\<lambda>_. completed_step q)))))))"
    by (simp only: handoff_steps_def seq_assoc)
  then show ?thesis
    unfolding phases_def planned_def
    by (simp only: zip_Cons_Cons zip_Nil) (intro sequence_step sequence_last staged_steps staged_enter)
qed

text \<open>The record of a handoff is truthful about how far it came: it is either completed, with every one
  of the eight steps listed in order, or aborted, with the steps that were passed and, as the failing
  step, the one that comes right after them. No error escapes, whatever git, the file system, the
  quiesce callback or the store raise.\<close>

theorem handoff_record_is_truthful:
  assumes "shadow_handoff e quiesce scope sw = (h, sw')"
  shows "list_all2 (\<in>) (ho_steps h) (take (length (ho_steps h)) (planned e)) \<and>
    (ho_status h = ''OK'' \<and> length (ho_steps h) = 8 \<and> ho_failed_step h = None \<or>
     ho_status h = ''ABORTED'' \<and> length (ho_steps h) < 8 \<and> ho_failed_step h = Some (phases ! length (ho_steps h)))"
proof -
  obtain r h1 s w where run: "handoff_steps e quiesce scope (new_handoff scope, sw) = (r, (h1, s, w))" by (metis prod_cases4)
  have "seq (entering ''started'') (\<lambda>_. handoff_steps e quiesce scope) (new_handoff scope, sw) = (r, (h1, s, w))"
    using run by (simp add: entering_def jot_def seq_def new_handoff_def)
  with handoff_steps_staged have x: "extends (zip phases (planned e)) (new_handoff scope) r h1" unfolding sequence_def by blast
  have len: "length phases = 8" "length (planned e) = 8" by (simp_all add: phases_def planned_def)
  have steps: "list_all2 (\<in>) (ho_steps h1) (take (length (ho_steps h1)) (planned e))"
    using x len by (auto simp: extends_def new_handoff_def list_all2_conv_all_nth take_zip)
  have same: "ho_steps h = ho_steps h1" "r = Inr () \<Longrightarrow> h = h1"
    "isl r \<Longrightarrow> ho_status h = ''ABORTED'' \<and> ho_failed_step h = Some (ho_current h1)"
    using assms run by (auto simp: shadow_handoff_def Let_def split: sum.splits prod.splits)
  show ?thesis
  proof (cases r)
    case (Inl y)
    with x len same steps show ?thesis by (auto simp: extends_def new_handoff_def)
  next
    case (Inr y)
    with x len same steps show ?thesis by (auto simp: extends_def new_handoff_def)
  qed
qed

theorem handoff_record_is_truthful_witness:
  "\<exists>h sw'. shadow_handoff (sample_engine False) (Some (raise (PyError ''OSError'' ''busy''))) ''repo.a'' (sample_store False, []) = (h, sw') \<and>
     (ho_status h = ''OK'' \<or> ho_failed_step h = Some (phases ! length (ho_steps h)))"
proof -
  obtain h sw' where run: "shadow_handoff (sample_engine False) (Some (raise (PyError ''OSError'' ''busy''))) ''repo.a'' (sample_store False, []) = (h, sw')"
    by (metis prod.exhaust)
  from handoff_record_is_truthful [OF run] run show ?thesis by blast
qed

end
