(* ===== verification/Mirror_Theorems.thy ===== *)
theory Mirror_Theorems imports Mirror Handoff_Theorems begin

text \<open>
  The properties of mirroring: the only move the module makes by itself is a counted fast-forward,
  a scope is acquired only on a verified tree, an unsafe remote is never contacted, and only the
  holder merges, with an aborted conflict left as an open span.
\<close>

section \<open>Commands that read\<close>

definition reads :: "'w git \<Rightarrow> ('w \<Rightarrow> bool) \<Rightarrow> bool" where
  "reads git P \<longleftrightarrow> (\<forall>verb args w r w'. verb \<in> {''status'', ''rev-parse'', ''rev-list''} \<longrightarrow> git (verb # args) w = (r, w') \<longrightarrow> P w \<longrightarrow> P w')"

lemma mirror_git_at: "mirror_git git args (s, w) = (case git args w of (Inl x, w') \<Rightarrow> (Inl x, (s, w'))
    | (Inr p, w') \<Rightarrow> (Inr (go_code p, py_strip (opt_str (go_stdout p))), (s, w')))"
  by (simp add: mirror_git_def seq_def on_tree_def split: prod.split sum.split)

lemma mirror_git_run:
  assumes "mirror_git git args (s, w) = (r, (s', w'))"
  obtains (raised) e where "git args w = (Inl e, w')" "r = Inl e" "s' = s"
  | (ran) p where "git args w = (Inr p, w')" "r = Inr (go_code p, py_strip (opt_str (go_stdout p)))" "s' = s"
  using assms by (cases "git args w") (auto simp: mirror_git_at split: sum.splits)

lemma readsD: "reads git P \<Longrightarrow> verb \<in> {''status'', ''rev-parse'', ''rev-list''} \<Longrightarrow> git (verb # args) w = (r, w') \<Longrightarrow> P w \<Longrightarrow> P w'"
  unfolding reads_def by blast

text \<open>A sequence that starts with a git command.\<close>

lemma git_then:
  assumes "seq (mirror_git git args) f (s, w) = (r, (s', w'))"
  obtains (raised) e where "git args w = (Inl e, w')" "r = Inl e" "s' = s"
  | (went) p w1 where "git args w = (Inr p, w1)" "f (go_code p, py_strip (opt_str (go_stdout p))) (s, w1) = (r, (s', w'))"
proof -
  obtain q s1 w1 where one: "mirror_git git args (s, w) = (q, (s1, w1))" by (metis prod.exhaust)
  then show thesis
  proof (cases rule: mirror_git_run)
    case (raised e)
    with one assms that(1) show thesis by (simp add: seq_def)
  next
    case (ran p)
    with one assms that(2) show thesis by (simp add: seq_def)
  qed
qed

section \<open>Moving the tree\<close>

text \<open>The fast-forward of a tree that \<open>rev-list\<close> just counted as behind and not ahead.\<close>

definition counted_forward :: "'w git \<Rightarrow> string \<Rightarrow> ('w \<Rightarrow> bool) \<Rightarrow> 'w \<Rightarrow> bool" where
  "counted_forward git mark P w' \<longleftrightarrow> (\<exists>v v' out n x u.
     P v \<and> git [''rev-list'', ''--left-right'', ''--count'', mark @ ''...HEAD''] v = (Inr out, v') \<and>
     parse_counts (go_code out) (py_strip (opt_str (go_stdout out))) = (0, n, True) \<and> 0 < n \<and>
     P v' \<and> git [''merge'', ''--ff-only'', mark] v' = (x, u) \<and>
     (w' = u \<or> (\<exists>y. git [''rev-parse'', ''HEAD''] u = (y, w'))))"

lemma on_store_tree: "on_store m (s, w) = (r, (s', w')) \<Longrightarrow> w' = w \<and> m s = (r, s')"
  by (cases "m s") (simp add: on_store_def)

lemma counts_computed: "parse_counts rc out = (a, b, c) \<Longrightarrow> 0 < b \<Longrightarrow> c"
  by (auto simp: parse_counts_def split: if_splits list.splits option.splits)

lemma ahead_behind_then:
  "seq (ahead_behind git mark right) f =
     seq (mirror_git git [''rev-list'', ''--left-right'', ''--count'', mark @ ''...'' @ right])
       (\<lambda>x. case parse_counts (fst x) (snd x) of (ahead, behind, computed) \<Rightarrow> f (ahead, behind))"
  unfolding ahead_behind_def counted_def seq_assoc
  by (rule arg_cong [where f = "seq _"]) (auto simp: fun_eq_iff seq_def split: prod.split)

lemma fast_forward_moves:
  assumes "fast_forward git scope mark ahead behind (s, w) = (r, (s', w'))"
  shows "s' = s \<and> (w' = w \<or> ahead = 0 \<and> 0 < behind \<and> (\<exists>x u. git [''merge'', ''--ff-only'', mark] w = (x, u) \<and>
      (w' = u \<or> (\<exists>y. git [''rev-parse'', ''HEAD''] u = (y, w')))))"
proof (cases "behind > 0 \<and> ahead = 0")
  case True
  from assms have run: "seq (mirror_git git [''merge'', ''--ff-only'', mark]) (\<lambda>(ff_rc, _).
        if ff_rc = 0 then
          seq (mirror_git git [''rev-parse'', ''HEAD'']) (\<lambda>(new_rc, new_head).
          ret (Some (acquired scope ''ff-moved'' (Some (if new_rc = 0 then new_head else mark)) @
            [(''watermark_sha'', PStr mark), (''head_read_failed'', PBool (new_rc \<noteq> 0))])))
        else ret None) (s, w) = (r, (s', w'))" unfolding fast_forward_def if_P [OF True] .
  then show ?thesis
  proof (cases rule: git_then)
    case (raised e)
    with True show ?thesis by blast
  next
    case (went p u)
    show ?thesis
    proof (cases "go_code p = 0")
      case False
      with went True show ?thesis by auto
    next
      case zero: True
      from went(2) have "seq (mirror_git git [''rev-parse'', ''HEAD'']) (\<lambda>(new_rc, new_head).
          ret (Some (acquired scope ''ff-moved'' (Some (if new_rc = 0 then new_head else mark)) @
            [(''watermark_sha'', PStr mark), (''head_read_failed'', PBool (new_rc \<noteq> 0))]))) (s, u) = (r, (s', w'))"
        unfolding prod.case if_P [OF zero] .
      then have "s' = s \<and> (\<exists>y. git [''rev-parse'', ''HEAD''] u = (y, w'))" by (cases rule: git_then) auto
      with went(1) True show ?thesis by blast
    qed
  qed
next
  case False
  with assms show ?thesis by (auto simp: fast_forward_def)
qed

lemma verify_tree_moves:
  assumes run: "verify_tree git scope mark enforce prior (s, w) = (r, (s', w'))" and P: "reads git P" "P w"
  shows "P w' \<or> counted_forward git (opt_str mark) P w'"
  using run unfolding verify_tree_def
proof (cases rule: git_then)
  case (raised e)
  with P show ?thesis using readsD [OF P(1), of "''status''"] by blast
next
  case one: (went p w1)
  have P1: "P w1" by (rule readsD [OF P(1) _ one(1) P(2)]) simp
  from one(2) show ?thesis
    unfolding prod.case
  proof (cases rule: git_then)
    case (raised e)
    with P(1) P1 show ?thesis using readsD [OF P(1), of "''rev-parse''"] by blast
  next
    case two: (went p2 w2)
    have P2: "P w2" by (rule readsD [OF P(1) _ two(1) P1]) simp
    define head where "head = (if go_code p2 = 0 then Some (py_strip (opt_str (go_stdout p2))) else None)"
    define dirty where "dirty = (if go_code p = 0 then Some (py_strip (opt_str (go_stdout p)) \<noteq> []) else None)"
    consider "w' = w2" | "seq (ahead_behind git (opt_str mark) ''HEAD'') (\<lambda>(ahead, behind).
          seq (fast_forward git scope (opt_str mark) ahead behind) (\<lambda>moved.
          case moved of
            Some r \<Rightarrow> ret r
          | None \<Rightarrow> on_store (surface_fork scope enforce
              [(''ahead'', PInt ahead), (''behind'', PInt behind), (''head_sha'', of_opt_str head),
               (''watermark_sha'', PStr (opt_str mark))]))) (s, w2) = (r, (s', w'))"
      using two(2) unfolding prod.case Let_def head_def [symmetric] dirty_def [symmetric]
      by (auto split: if_splits dest: on_store_tree)
    then show ?thesis
    proof cases
      case 1
      with P2 show ?thesis by simp
    next
      case 2
      from 2 [unfolded ahead_behind_then] show ?thesis
      proof (cases rule: git_then)
        case (raised e)
        with P2 show ?thesis using readsD [OF P(1), of "''rev-list''"] by blast
      next
        case three: (went p3 w3)
        have P3: "P w3" by (rule readsD [OF P(1) _ three(1) P2]) simp
        obtain a b c where counts: "parse_counts (go_code p3) (py_strip (opt_str (go_stdout p3))) = (a, b, c)" by (metis prod_cases3)
        obtain q s4 w4 where ff: "fast_forward git scope (opt_str mark) a b (s, w3) = (q, (s4, w4))" by (metis prod.exhaust)
        have "w' = w4" using three(2) unfolding fst_conv snd_conv counts prod.case
          by (auto simp: seq_def ff dest: on_store_tree split: sum.splits option.splits)
        with fast_forward_moves [OF ff] have "w' = w3 \<or> a = 0 \<and> 0 < b \<and> (\<exists>x u. git [''merge'', ''--ff-only'', opt_str mark] w3 = (x, u) \<and>
            (w' = u \<or> (\<exists>y. git [''rev-parse'', ''HEAD''] u = (y, w'))))" by simp
        then show ?thesis
        proof
          assume move: "a = 0 \<and> 0 < b \<and> (\<exists>x u. git [''merge'', ''--ff-only'', opt_str mark] w3 = (x, u) \<and>
            (w' = u \<or> (\<exists>y. git [''rev-parse'', ''HEAD''] u = (y, w'))))"
          have "git [''rev-list'', ''--left-right'', ''--count'', opt_str mark @ ''...HEAD''] w2 = (Inr p3, w3)" using three(1) by simp
          moreover have "parse_counts (go_code p3) (py_strip (opt_str (go_stdout p3))) = (0, b, True)"
            using counts counts_computed [OF counts] move by simp
          ultimately have "counted_forward git (opt_str mark) P w'"
            unfolding counted_forward_def using P2 P3 move by blast
          then show ?thesis ..
        qed (use P3 in simp)
      qed
    qed
  qed
qed

text \<open>C12. The fast-forward is the only automatic move: whatever \<open>git status\<close>, \<open>git rev-parse\<close> and
  \<open>git rev-list\<close> leave true of the work tree still holds after an acquisition, however it ends, unless
  \<open>rev-list\<close> had just counted the tree as strictly behind its watermark and not ahead of it, and
  \<open>git merge --ff-only\<close> to that watermark was the command that followed.\<close>

theorem acquire_moves_only_forward:
  assumes "acquire_scope default_for runner root scope mark enforce prior (s, w) = (r, (s', w'))"
    and "runner_for default_for runner root = Inr git" "reads git P" "P w"
  shows "P w' \<or> counted_forward git (opt_str mark) P w'"
proof -
  obtain q s1 where stale: "stale_replica_epoch s = (q, s1)" by fastforce
  have "on_store stale_replica_epoch (s, w) = (q, (s1, w))" using stale by (simp add: on_store_def)
  then have run: "(case q of Inl e \<Rightarrow> (Inl e, (s1, w)) | Inr stale \<Rightarrow> (case stale of
       Some (ledger, n) \<Rightarrow>
         on_store (surface_divergence scope enforce [''STALE_REPLICA_EPOCH''] [(''ledger_epoch'', PInt ledger), (''watermark'', PInt n)]
           ''pull the coord ledger (turso.sync) before acquiring this scope'')
     | None \<Rightarrow> verify_tree git scope mark enforce prior) (s1, w)) = (r, (s', w'))"
    using assms(1) unfolding acquire_scope_def by (simp add: assms(2) seq_def split: sum.splits)
  show ?thesis
  proof (cases "\<exists>x. q = Inr None")
    case True
    with run have "verify_tree git scope mark enforce prior (s1, w) = (r, (s', w'))" by auto
    then show ?thesis by (rule verify_tree_moves [OF _ assms(3,4)])
  next
    case False
    with run have "w' = w" by (auto dest: on_store_tree split: sum.splits option.splits)
    with assms(4) show ?thesis by simp
  qed
qed

definition echo_git :: "string \<Rightarrow> string list list git" where
  "echo_git out = (\<lambda>args w. (Inr \<lparr>go_code = 0, go_stdout = Some (if take 1 args = [''status''] then [] else out), go_stderr = None\<rparr>, args # w))"

theorem acquire_moves_only_forward_witness:
  "\<exists>r s' w'. acquire_scope (\<lambda>_. echo_git ''abc'') None (Some ''.'') ''repo.a'' (Some ''abc'') True False (sample_store False, []) = (r, (s', w')) \<and>
     (w' = [] \<or> list_all (\<lambda>args. take 1 args \<noteq> [''merge'']) w' \<or> counted_forward (echo_git ''abc'') ''abc'' (\<lambda>w. list_all (\<lambda>args. take 1 args \<noteq> [''merge'']) w) w')"
proof -
  obtain r s' w' where run: "acquire_scope (\<lambda>_. echo_git ''abc'') None (Some ''.'') ''repo.a'' (Some ''abc'') True False (sample_store False, []) = (r, (s', w'))"
    by (metis prod.exhaust)
  have "reads (echo_git ''abc'') (\<lambda>w. list_all (\<lambda>args. take 1 args \<noteq> [''merge'']) w)"
    by (auto simp: reads_def echo_git_def)
  from acquire_moves_only_forward [OF run _ this] run show ?thesis by (simp add: runner_for_def)
qed

section \<open>Surfacing\<close>

lemma surfaced:
  assumes run: "surface_divergence scope enforce reasons detail action s = (r, s')" and ok: "ledger_ok s"
  shows "grows s s'" "coord_events s' = coord_events s \<and> isl r \<or>
    (\<exists>x. set (coord_events s') = insert x (set (coord_events s)) \<and> is_event ''divergence'' ''detected'' x \<and> ev_scope x = Some scope)"
    "r = Inr v \<Longrightarrow> \<not> enforce \<and> dget v ''status'' = PStr ''RECORDED''"
proof -
  obtain q t where a: "record_scope_divergence scope reasons enforce detail s = (q, t)" by fastforce
  have st: "s' = t" "r = (case q of Inl e \<Rightarrow> Inl e | Inr ev \<Rightarrow> if enforce then Inl (coord_diverged scope reasons ''divergence_event_id'' (ar_id ev) detail action)
      else Inr [(''status'', PStr ''RECORDED''), (''scope_key'', PStr scope), (''action'', PStr ''diverged''),
               (''reasons'', PList (map PStr reasons)), (''divergence_event_id'', PStr (ar_id ev))])"
    using run a by (auto simp: surface_divergence_def seq_def split: sum.splits if_splits)
  show "grows s s'" using keepsD [OF append_grows a [unfolded record_scope_divergence_def]] st(1) by simp
  show "coord_events s' = coord_events s \<and> isl r \<or>
    (\<exists>x. set (coord_events s') = insert x (set (coord_events s)) \<and> is_event ''divergence'' ''detected'' x \<and> ev_scope x = Some scope)"
    using a [unfolded record_scope_divergence_def] ok
  proof (rule append_any)
    assume "coord_events t = coord_events s" "isl q"
    then show ?thesis using st by (auto split: sum.splits)
  next
    fix x assume "set (coord_events t) = insert x (set (coord_events s))" "ev_kind x = Some ''divergence''" "ev_marker x = Some ''detected''"
      "ev_scope x = Some scope"
    then have "set (coord_events s') = insert x (set (coord_events s)) \<and> is_event ''divergence'' ''detected'' x \<and> ev_scope x = Some scope"
      using st(1) by (simp add: is_event_def)
    then show ?thesis by blast
  qed
  show "r = Inr v \<Longrightarrow> \<not> enforce \<and> dget v ''status'' = PStr ''RECORDED''"
    using st(2) by (cases q) (auto simp: dget_def split: if_splits)
qed

lemma fork_surfaced:
  assumes run: "surface_fork scope enforce detail s = (r, s')" and ok: "ledger_ok s" and r: "r = Inr v"
  shows "\<not> enforce \<and> dget v ''status'' = PStr ''RECORDED''"
    "\<exists>x \<in> set (coord_events s') - set (coord_events s). is_event ''conflict'' ''detected'' x \<and> ev_scope x = Some scope"
proof -
  obtain a t where a: "record_fork_decision scope detail s = (Inr a, t)"
    and rest: "seq (record_scope_divergence scope [''DIVERGED_FORK''] enforce ((''conflict_event_id'', PStr (ar_id a)) # detail)) (\<lambda>_.
     if enforce then
       raise (coord_diverged scope [''DIVERGED_FORK''] ''conflict_event_id'' (ar_id a) detail
         (''resolve the fork: '' @ join ''/'' fork_options @ '' (recommend '' @ fork_recommendation @ '')''))
     else ret ([(''status'', PStr ''RECORDED''), (''scope_key'', PStr scope), (''action'', PStr ''fork''),
                (''reasons'', PList [PStr ''DIVERGED_FORK'']), (''conflict_event_id'', PStr (ar_id a))] @ detail)) t = (Inr v, s')"
    using run [unfolded r surface_fork_def] by (rule seq_InrE)
  obtain b u where b: "record_scope_divergence scope [''DIVERGED_FORK''] enforce ((''conflict_event_id'', PStr (ar_id a)) # detail) t = (Inr b, u)"
    and last: "(if enforce then
       raise (coord_diverged scope [''DIVERGED_FORK''] ''conflict_event_id'' (ar_id a) detail
         (''resolve the fork: '' @ join ''/'' fork_options @ '' (recommend '' @ fork_recommendation @ '')''))
     else ret ([(''status'', PStr ''RECORDED''), (''scope_key'', PStr scope), (''action'', PStr ''fork''),
                (''reasons'', PList [PStr ''DIVERGED_FORK'']), (''conflict_event_id'', PStr (ar_id a))] @ detail)) u = (Inr v, s')"
    using rest by (rule seq_InrE)
  have v: "\<not> enforce" "s' = u" "v = [(''status'', PStr ''RECORDED''), (''scope_key'', PStr scope), (''action'', PStr ''fork''),
                (''reasons'', PList [PStr ''DIVERGED_FORK'']), (''conflict_event_id'', PStr (ar_id a))] @ detail"
    using last by (auto split: if_splits)
  from v show "\<not> enforce \<and> dget v ''status'' = PStr ''RECORDED''" by (simp add: dget_def)
  have g: "grows t u" using keepsD [OF append_grows b [unfolded record_scope_divergence_def]] .
  obtain row where row: "fresh_row s ''conflict'' ''detected'' (Some scope) None (Some (dict_merge [(''decision'', PStr (''fork on '' @ scope)), (''options'', PList (map PStr fork_options)),
           (''recommendation'', PStr fork_recommendation), (''confirmation'', PStr ''pending'')] detail)) None None row"
      "set (coord_events t) = insert (row_event row) (set (coord_events s))" "ledger_ok t"
      "fd_events (st_db t) = fd_events (st_db s) @ [row]"
    using append_new [OF a [unfolded record_fork_decision_def] ok] by metis
  have "row_event row \<notin> set (coord_events s)"
    using row(3,4) by (force simp: set_coord_events ledger_ok_def rows_ok_def dest: arg_cong [of _ _ ev_id])
  moreover have "row_event row \<in> set (coord_events s')" using row(2) growsD(3) [OF g row(3)] v(2) by auto
  ultimately show "\<exists>x \<in> set (coord_events s') - set (coord_events s). is_event ''conflict'' ''detected'' x \<and> ev_scope x = Some scope"
    using row(1) by (intro bexI [of _ "row_event row"]) (auto simp: fresh_row_def is_event_def)
qed

text \<open>A recorded divergence is a new row of the scope.\<close>

definition recorded_since :: "string \<Rightarrow> store \<Rightarrow> store \<Rightarrow> bool" where
  "recorded_since scope s s' \<longleftrightarrow> (\<exists>x \<in> set (coord_events s') - set (coord_events s).
     (is_event ''divergence'' ''detected'' x \<or> is_event ''conflict'' ''detected'' x) \<and> ev_scope x = Some scope)"

lemma append_is_new:
  assumes run: "append_coord_event kind marker summary scope epoch payload project None s = (Inr a, s')" and ok: "ledger_ok s"
  shows "\<exists>x \<in> set (coord_events s') - set (coord_events s). ev_kind x = Some kind \<and> ev_marker x = Some marker \<and> ev_scope x = scope \<and>
    ev_id x = Some (ar_id a)"
proof -
  obtain row where row: "fresh_row s kind marker scope epoch payload project None row"
      "set (coord_events s') = insert (row_event row) (set (coord_events s))" "ledger_ok s'"
      "fd_events (st_db s') = fd_events (st_db s) @ [row]" "ar_id a = cr_id row"
    using append_new [OF run ok] by metis
  have "row_event row \<notin> set (coord_events s)"
    using row(3,4) by (force simp: set_coord_events ledger_ok_def rows_ok_def dest: arg_cong [of _ _ ev_id])
  with row(1,2,5) show ?thesis by (intro bexI [of _ "row_event row"]) (auto simp: fresh_row_def)
qed

lemma divergence_surfaced:
  assumes run: "surface_divergence scope enforce reasons detail action s = (Inr v, s')" and ok: "ledger_ok s"
  shows "\<not> enforce \<and> dget v ''status'' = PStr ''RECORDED'' \<and> recorded_since scope s s'"
proof -
  obtain a t where a: "record_scope_divergence scope reasons enforce detail s = (Inr a, t)"
    and rest: "(if enforce then raise (coord_diverged scope reasons ''divergence_event_id'' (ar_id a) detail action)
     else ret [(''status'', PStr ''RECORDED''), (''scope_key'', PStr scope), (''action'', PStr ''diverged''),
               (''reasons'', PList (map PStr reasons)), (''divergence_event_id'', PStr (ar_id a))]) t = (Inr v, s')"
    using run [unfolded surface_divergence_def] by (rule seq_InrE)
  have "t = s'" using rest by (auto split: if_splits)
  with append_is_new [OF a [unfolded record_scope_divergence_def] ok] have "recorded_since scope s s'"
    by (auto simp: recorded_since_def is_event_def)
  with surfaced(3) [OF run ok refl] show ?thesis by simp
qed

lemma fork_recorded:
  "surface_fork scope enforce detail s = (Inr v, s') \<Longrightarrow> ledger_ok s \<Longrightarrow>
     \<not> enforce \<and> dget v ''status'' = PStr ''RECORDED'' \<and> recorded_since scope s s'"
  using fork_surfaced [OF _ _ refl, of scope enforce detail s v s'] by (auto simp: recorded_since_def)

section \<open>Verifying a tree\<close>

text \<open>What an accepted acquisition read of the tree it started from.\<close>

definition tree_verified :: "'w git \<Rightarrow> bool \<Rightarrow> string option \<Rightarrow> 'w \<Rightarrow> pydict \<Rightarrow> bool" where
  "tree_verified git prior mark w v \<longleftrightarrow> (\<exists>p w1 q w2.
     git [''status'', ''--porcelain''] w = (Inr p, w1) \<and> git [''rev-parse'', ''HEAD''] w1 = (Inr q, w2) \<and>
     (prior \<or> go_code p \<noteq> 0 \<or> py_strip (opt_str (go_stdout p)) = []) \<and>
     (opt_str mark = [] \<or> go_code q = 0 \<and> mark = Some (py_strip (opt_str (go_stdout q))) \<or> dget v ''action'' = PStr ''ff-moved''))"

lemma stale_steps: "stale_replica_epoch s = (q, s1) \<Longrightarrow> s1 = s\<lparr>st_settings_ops := Suc (st_settings_ops s)\<rparr>"
  by (auto simp: stale_replica_epoch_def watermark_def get_setting_def settings_fault_def seq_def handle_def gets_def Let_def
      split: sum.splits option.splits prod.splits if_splits exn.splits)

lemma stale_reads:
  assumes "stale_replica_epoch s = (q, s1)"
  shows "coord_events s1 = coord_events s" "ledger_ok s \<Longrightarrow> ledger_ok s1"
  using stale_steps [OF assms] by (simp_all add: coord_events_def, elim ledger_ok_goes_on) simp_all

lemma fast_forward_ok:
  "fast_forward git scope mark ahead behind (s, w) = (Inr (Some v), (s', w')) \<Longrightarrow>
     dget v ''status'' = PStr ''OK'' \<and> dget v ''action'' = PStr ''ff-moved''"
  unfolding fast_forward_def
  by (auto elim!: seq_InrE split: if_splits prod.splits simp: acquired_def dget_def)

lemma verify_tree_ok:
  assumes run: "verify_tree git scope mark enforce prior (s, w) = (Inr v, (s', w'))" and ok: "ledger_ok s"
  shows "dget v ''status'' = PStr ''OK'' \<and> s' = s \<and> tree_verified git prior mark w v \<or>
    \<not> enforce \<and> dget v ''status'' = PStr ''RECORDED'' \<and> recorded_since scope s s'"
  using run unfolding verify_tree_def
proof (cases rule: git_then)
  case one: (went p w1)
  from one(2) show ?thesis
    unfolding prod.case
  proof (cases rule: git_then)
    case two: (went q w2)
    define head where "head = (if go_code q = 0 then Some (py_strip (opt_str (go_stdout q))) else None)"
    define dirty where "dirty = (if go_code p = 0 then Some (py_strip (opt_str (go_stdout p)) \<noteq> []) else None)"
    note rest = two(2) [unfolded prod.case Let_def, folded head_def, folded dirty_def]
    have seen: "tree_verified git prior mark w v"
      if "''DIRTY_NON_HOLDER'' \<notin> set (classify dirty 0 0 prior)" "opt_str mark = [] \<or> head = mark \<or> dget v ''action'' = PStr ''ff-moved''"
      using that one(1) two(1)
      by (fastforce simp: tree_verified_def classify_def dirty_def head_def split: if_splits)
    show ?thesis
    proof (cases "''DIRTY_NON_HOLDER'' \<in> set (classify dirty 0 0 prior)")
      case True
      with rest show ?thesis by (auto simp: on_store_def dest: divergence_surfaced [OF _ ok] split: prod.splits)
    next
      case clean: False
      show ?thesis
      proof (cases "opt_str mark = [] \<or> head = mark")
        case True
        with rest clean seen show ?thesis by (auto simp: acquired_def dget_def split: if_splits)
      next
        case False
        with clean rest have "seq (ahead_behind git (opt_str mark) ''HEAD'') (\<lambda>(ahead, behind).
          seq (fast_forward git scope (opt_str mark) ahead behind) (\<lambda>moved.
          case moved of
            Some r \<Rightarrow> ret r
          | None \<Rightarrow> on_store (surface_fork scope enforce
              [(''ahead'', PInt ahead), (''behind'', PInt behind), (''head_sha'', of_opt_str head),
               (''watermark_sha'', PStr (opt_str mark))]))) (s, w2) = (Inr v, (s', w'))" by simp
        then show ?thesis unfolding ahead_behind_then
        proof (cases rule: git_then)
          case (went c w3)
          obtain a b x where counts: "parse_counts (go_code c) (py_strip (opt_str (go_stdout c))) = (a, b, x)" by (metis prod_cases3)
          obtain y s4 w4 where ff: "fast_forward git scope (opt_str mark) a b (s, w3) = (y, (s4, w4))" by (metis prod.exhaust)
          have s4: "s4 = s" using fast_forward_moves [OF ff] by simp
          show ?thesis
          proof (cases "\<exists>z. y = Inr (Some z)")
            case True
            with went(2) ff counts s4 have "y = Inr (Some v)" "s' = s" by (auto simp: seq_def)
            from fast_forward_ok [OF ff [unfolded this(1)]] this(2) seen [OF clean] show ?thesis by simp
          next
            case False
            with went(2) ff counts s4 fork_recorded [OF _ ok] show ?thesis
              by (fastforce simp: seq_def on_store_def split: prod.splits sum.splits option.splits)
          qed
        qed simp
      qed
    qed
  qed simp
qed simp

text \<open>A scope is acquired only on a verified tree: an acquisition that returns either reports
  \<open>OK\<close> and added no ledger row, in which case \<open>git status\<close> showed no change for a node that did not
  hold the scope before, and the tree either has no watermark to match, stands on it, or was moved to it
  by the fast-forward; or enforcement is off, it reports \<open>RECORDED\<close> and has added a
  divergence or conflict row of the scope. With enforcement on, only the first is possible.\<close>

theorem acquire_verifies:
  assumes "acquire_scope default_for runner root scope mark enforce prior (s, w) = (Inr v, (s', w'))"
    and "runner_for default_for runner root = Inr git" "ledger_ok s"
  shows "dget v ''status'' = PStr ''OK'' \<and> coord_events s' = coord_events s \<and> tree_verified git prior mark w v \<or>
    \<not> enforce \<and> dget v ''status'' = PStr ''RECORDED'' \<and> recorded_since scope s s'"
proof -
  obtain q s1 where stale: "stale_replica_epoch s = (q, s1)" by fastforce
  note reads = stale_reads [OF stale]
  have "on_store stale_replica_epoch (s, w) = (q, (s1, w))" using stale by (simp add: on_store_def)
  then have run: "(case q of Inl e \<Rightarrow> (Inl e, (s1, w)) | Inr stale \<Rightarrow> (case stale of
       Some (ledger, n) \<Rightarrow>
         on_store (surface_divergence scope enforce [''STALE_REPLICA_EPOCH''] [(''ledger_epoch'', PInt ledger), (''watermark'', PInt n)]
           ''pull the coord ledger (turso.sync) before acquiring this scope'')
     | None \<Rightarrow> verify_tree git scope mark enforce prior) (s1, w)) = (Inr v, (s', w'))"
    using assms(1) unfolding acquire_scope_def by (simp add: assms(2) seq_def split: sum.splits)
  show ?thesis
  proof (cases "q = Inr None")
    case True
    with run have "verify_tree git scope mark enforce prior (s1, w) = (Inr v, (s', w'))" by simp
    from verify_tree_ok [OF this reads(2) [OF assms(3)]] reads(1) show ?thesis by (auto simp: recorded_since_def)
  next
    case False
    with run obtain n where "surface_divergence scope enforce [''STALE_REPLICA_EPOCH''] [(''ledger_epoch'', PInt (fst n)), (''watermark'', PInt (snd n))]
           ''pull the coord ledger (turso.sync) before acquiring this scope'' s1 = (Inr v, s')"
      by (auto simp: on_store_def split: sum.splits option.splits prod.splits)
    from divergence_surfaced [OF this reads(2) [OF assms(3)]] reads(1) show ?thesis by (simp add: recorded_since_def)
  qed
qed

theorem acquire_verifies_witness:
  "\<exists>v s' w'. acquire_scope (\<lambda>_. echo_git ''abc'') None (Some ''.'') ''repo.a'' (Some ''abc'') True False (sample_store False, []) = (Inr v, (s', w')) \<and>
     dget v ''status'' = PStr ''OK'' \<and> tree_verified (echo_git ''abc'') False (Some ''abc'') [] v"
proof -
  have ran: "runner_for (\<lambda>_. echo_git ''abc'') None (Some ''.'') = Inr (echo_git ''abc'')" by (simp add: runner_for_def)
  have ok: "ledger_ok (sample_store False)" using sample_ideal [of False] by (auto simp: ideal_def)
  have "\<not> isl (fst (acquire_scope (\<lambda>_. echo_git ''abc'') None (Some ''.'') ''repo.a'' (Some ''abc'') True False (sample_store False, [])))"
    by code_simp
  then obtain v s' w' where run: "acquire_scope (\<lambda>_. echo_git ''abc'') None (Some ''.'') ''repo.a'' (Some ''abc'') True False (sample_store False, []) = (Inr v, (s', w'))"
    by (metis prod.exhaust fst_conv sum.collapse(2))
  from acquire_verifies [OF run ran ok] run show ?thesis by blast
qed

section \<open>Remotes\<close>

definition http_remote :: "string \<Rightarrow> bool" where
  "http_remote remote \<longleftrightarrow> starts_with ''http://'' (lower (py_strip remote)) \<or> starts_with ''https://'' (lower (py_strip remote))"

definition over_tailnet :: "git_net \<Rightarrow> string \<Rightarrow> bool" where
  "over_tailnet net remote \<longleftrightarrow> gn_on_tailnet net \<and>
     ends_with (lower (tailnet_suffix (gn_env net))) (url_host (gn_bracket_ok net) (py_strip remote))"

lemma lower_char_fixes:
  assumes "(of_char d :: nat) < 65" shows "lower_char c = d \<longleftrightarrow> c = d"
proof (cases "65 \<le> (of_char c :: nat) \<and> (of_char c :: nat) \<le> 90")
  case True
  then have "(of_char (lower_char c) :: nat) = of_char c + 32" by (simp add: lower_char_def)
  with True assms have "lower_char c \<noteq> d" "c \<noteq> d" by auto
  then show ?thesis by simp
next
  case False
  then show ?thesis by (auto simp: lower_char_def Let_def)
qed

lemma lower_punct: "lower_char c = CHR '':'' \<longleftrightarrow> c = CHR '':''" "lower_char c = CHR ''/'' \<longleftrightarrow> c = CHR ''/''"
  "CHR '':'' = lower_char c \<longleftrightarrow> c = CHR '':''" "CHR ''/'' = lower_char c \<longleftrightarrow> c = CHR ''/''"
  using lower_char_fixes [of "CHR '':''" c] lower_char_fixes [of "CHR ''/''" c] by auto

lemma http_scheme:
  assumes "starts_with ''http://'' (lower t) \<or> starts_with ''https://'' (lower t)"
  obtains p u where "t = p @ ''://'' @ u" "lower p = ''http'' \<or> lower p = ''https''"
proof -
  have cut: "map lower_char t = q @ ''://'' @ drop (Suc (Suc (Suc (length q)))) (map lower_char t)" if "starts_with (q @ ''://'') (lower t)" for q
    using that append_take_drop_id [of "length (q @ ''://'')" "map lower_char t"] unfolding starts_with_def lower_def by (simp add: eq_commute)
  obtain q v where q: "q \<in> {''http'', ''https''}" and cut_t: "map lower_char t = q @ ''://'' @ v"
  proof -
    have "\<exists>q \<in> {''http'', ''https''}. starts_with (q @ ''://'') (lower t)" using assms by simp
    with cut that show thesis by blast
  qed
  obtain p x where px: "t = p @ x" "q = map lower_char p" "''://'' @ v = map lower_char x"
    using cut_t unfolding map_eq_append_conv by blast
  have "\<exists>a b c u. x = a # b # c # u \<and> CHR '':'' = lower_char a \<and> CHR ''/'' = lower_char b \<and> CHR ''/'' = lower_char c"
    using px(3) unfolding append.simps Cons_eq_map_conv by blast
  then obtain u where u: "x = ''://'' @ u" unfolding lower_punct append.simps by blast
  show thesis
  proof (rule that [of p u])
    show "t = p @ ''://'' @ u" unfolding px(1) u ..
    show "lower p = ''http'' \<or> lower p = ''https''" using q unfolding lower_def px(2) by blast
  qed
qed

lemma http_not_local:
  assumes "starts_with ''http://'' (lower t) \<or> starts_with ''https://'' (lower t)" and "py_strip t = t"
  shows "\<not> looks_local_path t" "\<not> scp_ssh_remote t" "\<not> starts_with ''ssh://'' (lower t)" "t \<noteq> []"
proof -
  obtain p u where t: "t = p @ ''://'' @ u" and p: "lower p = ''http'' \<or> lower p = ''https''"
    using assms(1) by (rule http_scheme)
  have letters: "CHR ''@'' \<notin> set p" "CHR '':'' \<notin> set p" "CHR ''/'' \<notin> set p"
  proof -
    have "c \<notin> set p" if "lower_char c \<notin> set ''https''" for c
      using p that by (auto simp: lower_def dest: imageI [of c "set p" lower_char] simp flip: list.set_map)
    from this [of "CHR ''@''"] this [of "CHR '':''"] this [of "CHR ''/''"]
    show "CHR ''@'' \<notin> set p" "CHR '':'' \<notin> set p" "CHR ''/'' \<notin> set p" by (simp_all add: lower_char_def)
  qed
  show "t \<noteq> []" using t by simp
  have low: "lower t = lower p @ ''://'' @ lower u" by (simp add: t lower_def lower_char_def)
  show "\<not> starts_with ''ssh://'' (lower t)" using p by (auto simp: starts_with_def low)
  have "takeWhile (\<lambda>x. x \<noteq> CHR ''@'') t = p @ ''://'' @ takeWhile (\<lambda>x. x \<noteq> CHR ''@'') u"
    unfolding t using letters(1) by (subst takeWhile_append2) auto
  then have "\<not> list_all ref_char (takeWhile (\<lambda>x. x \<noteq> CHR ''@'') t)"
    by (simp add: ref_char_def is_alnum_def is_alpha_def is_upper_def is_lower_def is_digit_def)
  then show "\<not> scp_ssh_remote t" by (simp add: scp_ssh_remote_def partition_at_def)
  have "contains ''://'' t" using contains_mid [of "''://''" p u] t by simp
  moreover have "\<not> starts_with ''file://'' (lower t)" using p by (auto simp: starts_with_def low)
  moreover have "p \<noteq> []" "t ! 1 \<noteq> CHR '':''" using p letters t by (auto simp: lower_def Cons_eq_map_conv map_eq_Cons_conv)
  moreover have "\<not> starts_with ''/'' t" using letters t \<open>p \<noteq> []\<close> by (cases p) (auto simp: starts_with_def)
  ultimately show "\<not> looks_local_path t" by (simp add: looks_local_path_def assms(2))
qed

lemma py_strip_idem: "py_strip (py_strip t) = py_strip t"
proof (cases "dropWhile is_space t")
  case (Cons c cs)
  then have c: "\<not> is_space c" using hd_dropWhile [of is_space t] by simp
  then have "py_strip t = rev (dropWhile is_space (rev cs @ [c]))" by (simp add: py_strip_def Cons)
  also have "dropWhile is_space (rev cs @ [c]) = dropWhile is_space (rev cs) @ [c]" by (simp add: c dropWhile_append3)
  finally have t: "py_strip t = c # rev (dropWhile is_space (rev cs))" by simp
  have "py_strip (c # xs) = rev (dropWhile is_space (rev xs @ [c]))" for xs by (simp add: py_strip_def c)
  then have "py_strip (c # xs) = c # rev (dropWhile is_space (rev xs))" for xs by (simp add: c dropWhile_append3)
  from this [of "rev (dropWhile is_space (rev cs))"] t show ?thesis by simp
next
  case Nil
  have "py_strip t = rev (dropWhile is_space (rev []))" unfolding py_strip_def Nil ..
  then have empty: "py_strip t = []" by simp
  show ?thesis unfolding empty by (simp add: py_strip_def)
qed

lemma unsafe_refused:
  assumes "http_remote remote" "\<not> over_tailnet net remote"
  shows "\<exists>e. assert_remote_transport_safe net remote = Inl e \<and> exn_code e = ''DENIED_MIRROR_TRANSPORT''"
proof -
  have "py_strip (py_strip remote) = py_strip remote" by (rule py_strip_idem)
  note web = http_not_local [OF assms(1) [unfolded http_remote_def] this]
  with assms show ?thesis
    by (auto simp: assert_remote_transport_safe_def Let_def http_remote_def over_tailnet_def)
qed

lemma transport_code: "assert_remote_transport_safe net r = Inl e \<Longrightarrow> exn_code e = ''DENIED_MIRROR_TRANSPORT''"
  by (auto simp: assert_remote_transport_safe_def transport_denied_def Let_def split: if_splits)

lemma check_remotes_refuses:
  "r \<in> set rs \<Longrightarrow> assert_remote_transport_safe net r = Inl e \<Longrightarrow>
     \<exists>e'. check_remotes net rs = Inl e' \<and> exn_code e' = ''DENIED_MIRROR_TRANSPORT''"
  by (induction rs) (auto split: sum.split dest: transport_code)

text \<open>C13. Git never talks plain http(s) outside the tailnet: when the hub or any peer is an http(s) remote
  and this machine is not on the tailnet, or the host does not end in the tailnet suffix, a fetch is
  refused with \<open>DENIED_MIRROR_TRANSPORT\<close> and no git command has run and nothing was recorded, whatever
  remotes come before the unsafe one.\<close>

theorem unsafe_remote_never_contacted:
  assumes "remote \<in> set (hub # peers)" "http_remote remote" "\<not> over_tailnet net remote"
  shows "\<exists>e. fetch_with_fallback default_for runner root net hub peers (s, w) = (Inl e, (s, w)) \<and>
    exn_code e = ''DENIED_MIRROR_TRANSPORT''"
proof (cases "runner_for default_for runner root")
  case (Inl e)
  then have "exn_code e = ''DENIED_MIRROR_TRANSPORT''" by (auto simp: runner_for_def split: option.splits)
  with Inl show ?thesis by (simp add: fetch_with_fallback_def)
next
  case (Inr git)
  obtain e where "check_remotes net (hub # peers) = Inl e" "exn_code e = ''DENIED_MIRROR_TRANSPORT''"
    using unsafe_refused [OF assms(2,3)] check_remotes_refuses [OF assms(1)] by blast
  with Inr show ?thesis by (simp add: fetch_with_fallback_def)
qed

theorem unsafe_remote_never_contacted_witness:
  "\<exists>e. fetch_with_fallback (\<lambda>_. echo_git ''abc'') None (Some ''.'') \<lparr>gn_env = [], gn_on_tailnet = True, gn_bracket_ok = (\<lambda>_. True)\<rparr>
     ''/srv/hub.git'' [''HTTP://evil.example/x.git''] (sample_store False, []) = (Inl e, (sample_store False, [])) \<and> exn_code e = ''DENIED_MIRROR_TRANSPORT''"
proof -
  have "http_remote ''HTTP://evil.example/x.git''"
    "\<not> over_tailnet \<lparr>gn_env = [], gn_on_tailnet = True, gn_bracket_ok = (\<lambda>_. True)\<rparr> ''HTTP://evil.example/x.git''"
    by code_simp+
  from unsafe_remote_never_contacted [OF _ this, of "''/srv/hub.git''" "[''HTTP://evil.example/x.git'']"] show ?thesis by simp
qed

section \<open>Merging\<close>

lemma holder_read:
  "is_active_holder scope s = (Inr (has_lease s scope (st_node s)), s\<lparr>st_clock := Suc (st_clock s)\<rparr>)"
  by (simp add: is_active_holder_def leases_read gets_def has_lease_def split: option.split)

text \<open>Only the holder merges: without an unexpired lease of the scope in the node's own ledger a checked
  merge is refused with \<open>DENIED_MIRROR_NOT_HOLDER\<close>, no git command runs and nothing is recorded.\<close>

theorem only_holder_merges:
  assumes "\<not> has_lease s scope (st_node s)" "runner_for default_for runner root = Inr git"
  shows "attempt_holder_merge default_for runner root scope other True (s, w) =
    (Inl (not_merge_holder scope (st_node s)), (s\<lparr>st_clock := Suc (st_clock s)\<rparr>, w))"
  using assms by (simp add: attempt_holder_merge_def seq_def on_store_def holder_read gets_def guard_def raise_def)

theorem only_holder_merges_witness:
  "attempt_holder_merge (\<lambda>_. echo_git ''abc'') None (Some ''.'') ''repo.a'' ''kz/t/n1'' True (sample_store False, []) =
    (Inl (not_merge_holder ''repo.a'' ''n1''), ((sample_store False)\<lparr>st_clock := 1\<rparr>, []))"
proof -
  have "canonical [] = []" by code_simp
  then have "reduce_lease [] t = []" for t by (simp add: reduce_lease_def)
  then have "\<not> has_lease (sample_store False) ''repo.a'' (st_node (sample_store False))"
    by (simp add: has_lease_def sample_store_def coord_events_def db_events_def)
  from only_holder_merges [OF this, of _ None "Some ''.''" "echo_git ''abc''"] show ?thesis
    by (simp add: runner_for_def sample_store_def)
qed

text \<open>A conflicting merge leaves a restored tree and an open span: when git reports conflict markers
  after a failed merge, the last git command is \<open>merge --abort\<close> and the call does not return; it
  raises \<open>DENIED_MIRROR_MERGE_CONFLICT\<close> with the id of a new conflict row of the scope, unless the
  ledger itself refused that row, in which case the refusal is the error and nothing was recorded.\<close>

theorem conflict_aborts_and_opens_span:
  assumes "attempt_holder_merge default_for runner root scope other check (s, w) = (r, (s', w'))"
    and "runner_for default_for runner root = Inr git" "ledger_ok s" "check \<longrightarrow> has_lease s scope (st_node s)"
    and "git [''merge'', ''--no-ff'', ''--no-edit'', other] w = (Inr m, w1)" "go_code m \<noteq> 0"
    and "git [''status'', ''--porcelain''] w1 = (Inr p, w2)" "has_conflict_markers (py_strip (opt_str (go_stdout p)))"
    and "git [''merge'', ''--abort''] w2 = (Inr x, w3)"
  shows "w' = w3 \<and> ((\<exists>e \<in> set (coord_events s') - set (coord_events s). is_event ''conflict'' ''detected'' e \<and>
       ev_scope e = Some scope \<and> r = Inl (merge_failed scope other True (ev_id e))) \<or>
     isl r \<and> coord_events s' = coord_events s)"
proof -
  define t where "t = (if check then s\<lparr>st_clock := Suc (st_clock s)\<rparr> else s)"
  have t: "coord_events t = coord_events s" "ledger_ok t"
    using assms(3) clock_step by (auto simp: t_def)
  obtain q u where span: "merge_span scope other t = (q, u)" by fastforce
  have run: "w' = w3" "s' = u" "r = (case q of Inl e \<Rightarrow> Inl e | Inr a \<Rightarrow> Inl (merge_failed scope other True (Some (ar_id a))))"
    using assms(1,2,4-) span
    by (auto simp: attempt_holder_merge_def seq_def on_store_def holder_read gets_def guard_def raise_def ret_def mirror_git_at t_def
        split: sum.splits if_splits)
  show ?thesis
  proof (cases q)
    case (Inl e)
    from span [unfolded merge_span_def Inl] t(2) have "coord_events u = coord_events t" by (rule append_any) simp_all
    with run Inl t show ?thesis by simp
  next
    case (Inr a)
    from append_is_new [OF span [unfolded merge_span_def Inr] t(2)] run Inr t show ?thesis by (auto simp: is_event_def)
  qed
qed

definition conflict_git :: "string list list git" where
  "conflict_git = (\<lambda>args w. (Inr \<lparr>go_code = if take 2 args = [''merge'', ''--no-ff''] then 1 else 0,
     go_stdout = Some (if take 1 args = [''status''] then ''UU a.py'' else []), go_stderr = None\<rparr>, args # w))"

theorem conflict_aborts_and_opens_span_witness:
  "\<exists>r s' w'. attempt_holder_merge (\<lambda>_. conflict_git) None (Some ''.'') ''repo.a'' ''kz/t/n1'' False (sample_store False, []) = (r, (s', w')) \<and>
     hd w' = [''merge'', ''--abort''] \<and> isl r"
proof -
  obtain r s' w' where run: "attempt_holder_merge (\<lambda>_. conflict_git) None (Some ''.'') ''repo.a'' ''kz/t/n1'' False (sample_store False, []) = (r, (s', w'))"
    by (metis prod.exhaust)
  have markers: "has_conflict_markers (py_strip (opt_str (Some ''UU a.py'')))" by code_simp
  have "w' = [[''merge'', ''--abort''], [''status'', ''--porcelain''], [''merge'', ''--no-ff'', ''--no-edit'', ''kz/t/n1'']] \<and> isl r"
    using conflict_aborts_and_opens_span [OF run _ idealD(1) [OF sample_ideal], where git = conflict_git
        and m = "\<lparr>go_code = 1, go_stdout = Some [], go_stderr = None\<rparr>"
        and p = "\<lparr>go_code = 0, go_stdout = Some ''UU a.py'', go_stderr = None\<rparr>"
        and x = "\<lparr>go_code = 0, go_stdout = Some [], go_stderr = None\<rparr>" and ?w1.0 = "[[''merge'', ''--no-ff'', ''--no-edit'', ''kz/t/n1'']]"
        and ?w2.0 = "[[''status'', ''--porcelain''], [''merge'', ''--no-ff'', ''--no-edit'', ''kz/t/n1'']]"] markers
    by (auto simp: runner_for_def conflict_git_def)
  with run show ?thesis by simp
qed

end
