(* ===== verification/Reconcile_Theorems.thy ===== *)
theory Reconcile_Theorems imports Sample_Ledgers Mirror_Theorems begin

text \<open>
  The properties of reconnection and orphan recovery: the sweep touches only what heartbeat-stale nodes
  hold and never the coordinator role, reconcile refuses overlapping work and adopts each scope once,
  and a branch counts as published only when the hub lists its sha.
\<close>

section \<open>What a sequence of operations adds to the ledger\<close>

definition adds :: "(event \<Rightarrow> bool) \<Rightarrow> store \<Rightarrow> store \<Rightarrow> bool" where
  "adds P s s' \<longleftrightarrow> goes_on s s' \<and> fd_nodes (st_db s') = fd_nodes (st_db s) \<and>
     (ledger_ok s \<longrightarrow> ledger_ok s' \<and> set (coord_events s) \<subseteq> set (coord_events s') \<and>
        (\<forall>e \<in> set (coord_events s') - set (coord_events s). P e))"

interpretation added: state_preorder "adds P" for P
  by unfold_locales (auto simp: adds_def intro: goes_on_trans)

lemmas added_intros = added.keeps_intros

lemma append_fd_nodes:
  "append_coord_event kind marker summary scope epoch payload project source s = (r, s') \<Longrightarrow> fd_nodes (st_db s') = fd_nodes (st_db s)"
  by (erule append_coord_event_cases) simp_all

lemma adds_append:
  assumes "\<And>e. ev_kind e = Some kind \<Longrightarrow> ev_marker e = Some marker \<Longrightarrow> ev_scope e = scope \<Longrightarrow>
    event_epoch e = (case epoch of None \<Rightarrow> - 1 | Some n \<Rightarrow> n) \<Longrightarrow> P e"
  shows "keeps (adds P) (append_coord_event kind marker summary scope epoch payload project None)"
proof (rule keepsI)
  fix s
  obtain r s' where run: "append_coord_event kind marker summary scope epoch payload project None s = (r, s')" by fastforce
  have g: "goes_on s s'" using run by (rule append_coord_event_cases) simp_all
  have "ledger_ok s' \<and> set (coord_events s) \<subseteq> set (coord_events s') \<and> (\<forall>e \<in> set (coord_events s') - set (coord_events s). P e)" if "ledger_ok s"
    using run that by (rule append_any) (use assms in auto)
  with g append_fd_nodes [OF run] show "adds P s (snd (append_coord_event kind marker summary scope epoch payload project None s))"
    by (simp add: run adds_def)
qed

lemma adds_quiet:
  assumes "\<And>s r s'. m s = (r, s') \<Longrightarrow> goes_on s s' \<and> fd_nodes (st_db s') = fd_nodes (st_db s) \<and> coord_events s' = coord_events s \<and> fd_events (st_db s') = fd_events (st_db s)"
  shows "keeps (adds P) m"
proof (rule keepsI)
  fix s
  obtain r s' where run: "m s = (r, s')" by fastforce
  have "ledger_ok s \<longrightarrow> ledger_ok s'" using assms [OF run] by (auto elim: ledger_ok_goes_on)
  with assms [OF run] show "adds P s (snd (m s))" by (simp add: run adds_def)
qed

lemma adds_weaken: "keeps (adds P) m \<Longrightarrow> (\<And>e. P e \<Longrightarrow> Q e) \<Longrightarrow> keeps (adds Q) m"
  unfolding keeps_def adds_def by blast

lemma adds_status: "keeps (adds P) (fleet_write (set_dispatch_status i marker))"
proof (rule adds_quiet)
  fix s r s' assume run: "fleet_write (set_dispatch_status i marker) s = (r, s')"
  have "goes_on u (snd (set_dispatch_status i marker u))" for u by (simp add: set_dispatch_status_def goes_on_def)
  with run show "goes_on s s' \<and> fd_nodes (st_db s') = fd_nodes (st_db s) \<and> coord_events s' = coord_events s \<and> fd_events (st_db s') = fd_events (st_db s)"
    by (cases rule: fleet_write_cases) (auto simp: set_dispatch_status_def coord_events_def db_events_def)
qed

lemma adds_in_scope:
  assumes "\<And>e. is_event ''dispatch'' marker e \<Longrightarrow> P e"
  shows "keeps (adds P) (append_in_scope marker summary v p)"
proof -
  have a: "keeps (adds P) (append_coord_event ''dispatch'' marker summary q None (Some p) None None)" for q
    by (rule adds_append) (use assms in \<open>simp add: is_event_def\<close>)
  show ?thesis by (cases v) (auto simp: append_in_scope_def keeps_def added.refl lift_result_def a [unfolded keeps_def] split: sum.split)
qed

lemma adds_cancel:
  assumes "\<And>e. is_event ''dispatch'' ''canceled'' e \<Longrightarrow> P e"
  shows "keeps (adds P) (cancel_dispatch i reason summary)"
proof -
  have adv: "keeps (adds P) (advance i row ''canceled'' sm extra True)" for row sm extra
    unfolding advance_def Let_def by (rule keepsI, rule keeps_at) (intro added_intros adds_in_scope adds_status assms)
  have row: "keeps (adds P) (require_row i)" by (auto simp: require_row_def keeps_def added.refl split: option.split)
  show ?thesis unfolding cancel_dispatch_def Let_def
    by (intro added.keeps_seq row, rule keepsI, rule keeps_at) (intro added_intros adv)
qed

section \<open>The sweep\<close>

text \<open>One step of the sweep: what it adds, and the dispatches it may cancel.\<close>

definition sweeps :: "(event \<Rightarrow> bool) \<Rightarrow> string set \<Rightarrow> store \<Rightarrow> store \<Rightarrow> bool" where
  "sweeps P D s s' \<longleftrightarrow> adds P s s' \<and>
     (ledger_ok s \<longrightarrow> (\<forall>j. state_of_dispatch s' j = state_of_dispatch s j \<or> j \<in> D \<and> state_of_dispatch s' j = Some ''canceled''))"

interpretation sweeping: state_preorder "sweeps P D" for P D
proof
  fix s t u assume st: "sweeps P D s t" and tu: "sweeps P D t u"
  have t: "ledger_ok t" if "ledger_ok s" using st that by (simp add: sweeps_def adds_def)
  have a: "adds P s t" "adds P t u" using st tu by (simp_all add: sweeps_def)
  have "state_of_dispatch u j = state_of_dispatch s j \<or> j \<in> D \<and> state_of_dispatch u j = Some ''canceled''" if "ledger_ok s" for j
  proof -
    have "state_of_dispatch t j = state_of_dispatch s j \<or> j \<in> D \<and> state_of_dispatch t j = Some ''canceled''"
      "state_of_dispatch u j = state_of_dispatch t j \<or> j \<in> D \<and> state_of_dispatch u j = Some ''canceled''"
      using st tu that t [OF that] unfolding sweeps_def by blast+
    then show ?thesis by auto
  qed
  with added.trans [OF a] show "sweeps P D s u" unfolding sweeps_def by blast
qed (simp add: sweeps_def added.refl)

lemma sweeps_append:
  assumes "\<And>e. ev_kind e = Some kind \<Longrightarrow> ev_marker e = Some marker \<Longrightarrow> ev_scope e = scope \<Longrightarrow>
      event_epoch e = (case epoch of None \<Rightarrow> - 1 | Some n \<Rightarrow> n) \<Longrightarrow> P e" and "kind \<noteq> ''dispatch''"
  shows "keeps (sweeps P D) (append_coord_event kind marker summary scope epoch payload project None)"
proof (rule keepsI)
  fix s
  obtain r s' where run: "append_coord_event kind marker summary scope epoch payload project None s = (r, s')" by fastforce
  have "state_of_dispatch s' j = state_of_dispatch s j" if "ledger_ok s" for j
    using run that
  proof (rule append_any)
    fix e assume e: "set (coord_events s') = insert e (set (coord_events s))" "ev_kind e = Some kind" "ledger_ok s'"
    have "\<not> for_dispatch j e" using e(2) assms(2) by (simp add: for_dispatch_def dispatch_of_def)
    from other_state [OF wf_coord_events [OF e(3)] e(1) this] show ?thesis by (simp add: state_of_dispatch_proj)
  qed (simp add: state_of_dispatch_proj)
  with keepsD [OF adds_append run, of P] assms(1)
  show "sweeps P D s (snd (append_coord_event kind marker summary scope epoch payload project None s))"
    by (simp add: run sweeps_def)
qed

lemma sweeps_cancel:
  assumes "\<And>e. is_event ''dispatch'' ''canceled'' e \<Longrightarrow> P e" and "i \<in> D"
  shows "keeps (sweeps P D) (cancel_dispatch i reason summary)"
proof (rule keepsI)
  fix s
  obtain r s' where run: "cancel_dispatch i reason summary s = (r, s')" by fastforce
  have "state_of_dispatch s' = state_of_dispatch s \<or> state_of_dispatch s' = (state_of_dispatch s)(i := Some ''canceled'')" if ok: "ledger_ok s"
  proof -
    from dispatch_op_shape [OF dispatch_op.cancel, of i reason summary s] show ?thesis
    proof
      assume "advances i ''canceled'' (cancel_dispatch i reason summary) s"
      then obtain row sm extra any where "advance i row ''canceled'' sm extra any s = (r, s')"
        "list_all (\<lambda>(k, v). plain v) extra" "distinct (map fst extra)" "''dispatch_id'' \<notin> fst ` set extra"
        unfolding advances_def run [symmetric] by auto
      from advance_outcome [OF this(1) ok _ this(2-)] show ?thesis by blast
    qed (use run in auto)
  qed
  then have "state_of_dispatch s' j = state_of_dispatch s j \<or> j \<in> D \<and> state_of_dispatch s' j = Some ''canceled''" if "ledger_ok s" for j
    using that assms(2) by (cases "j = i") auto
  with keepsD [OF adds_cancel run, of P] assms(1) show "sweeps P D s (snd (cancel_dispatch i reason summary s))"
    by (simp add: run sweeps_def)
qed

text \<open>The rows a sweep may add, for the projections it starts from and the nodes it judges stale.\<close>

definition swept :: "coord_proj \<Rightarrow> (string \<times> lease_proj) list \<Rightarrow> (string \<Rightarrow> bool) \<Rightarrow> event \<Rightarrow> bool" where
  "swept c leases stale e \<longleftrightarrow>
     is_event ''lease'' ''expired'' e \<and> (\<exists>scope l node. (scope, l) \<in> set leases \<and> lp_state l = Held \<and> lp_holder l = PStr node \<and>
       stale node \<and> ev_scope e = Some scope \<and> event_epoch e = lp_epoch l) \<or>
     is_event ''dispatch'' ''canceled'' e \<or>
     is_event ''divergence'' ''detected'' e \<and> (\<exists>node. cp_holder c = PStr node \<and> stale node)"

definition stale_targets :: "(string \<times> dispatch_proj) list \<Rightarrow> (string \<Rightarrow> bool) \<Rightarrow> string set" where
  "stale_targets dispatches stale = {i. \<exists>d node. (i, d) \<in> set dispatches \<and> dp_target_node d = PStr node \<and> stale node}"

lemma sweeps_each: "(\<And>x. x \<in> set xs \<Longrightarrow> keeps (sweeps P D) (f x)) \<Longrightarrow> keeps (sweeps P D) (for_each f xs)"
  by (induction xs) (auto intro!: sweeping.keeps_intros)

lemma sweeps_parts:
  assumes "stale node"
  shows "keeps (sweeps (swept c leases stale) D) (reclaim_leases node leases age)"
    and "keeps (sweeps (swept c leases stale) (stale_targets dispatches stale)) (cancel_targeted_dispatches node dispatches)"
    and "keeps (sweeps (swept c leases stale) D) (record_stale_coordinator node c age)"
proof -
  show "keeps (sweeps (swept c leases stale) D) (reclaim_leases node leases age)"
    unfolding reclaim_leases_def
  proof (rule sweeps_each, clarify)
    fix scope l assume "(scope, l) \<in> set (filter (\<lambda>(scope, l). lp_state l = Held \<and> lp_holder l = PStr node) (sort_key fst leases))"
    then have "(scope, l) \<in> set leases" "lp_state l = Held" "lp_holder l = PStr node" by auto
    with assms show "keeps (sweeps (swept c leases stale) D) (reclaim_one node age (scope, l))"
      unfolding reclaim_one_def prod.case
      by (intro sweeping.keeps_seq sweeping.keeps_pure sweeps_append) (auto simp: swept_def is_event_def)
  qed
  show "keeps (sweeps (swept c leases stale) (stale_targets dispatches stale)) (cancel_targeted_dispatches node dispatches)"
    unfolding cancel_targeted_dispatches_def
  proof (rule sweeps_each, clarify)
    fix i d assume "(i, d) \<in> set (filter (\<lambda>(i, d). dp_target_node d = PStr node \<and> dp_state d \<in> {Some ''requested'', Some ''accepted'', Some ''started''})
          (sort_key fst dispatches))"
    with assms have "i \<in> stale_targets dispatches stale" by (auto simp: stale_targets_def)
    then show "keeps (sweeps (swept c leases stale) (stale_targets dispatches stale)) (seq (cancel_dispatch i (Some ''target heartbeat-stale'') None) (\<lambda>_. ret i))"
      by (intro sweeping.keeps_seq sweeping.keeps_pure sweeps_cancel) (simp_all add: swept_def)
  qed
  show "keeps (sweeps (swept c leases stale) D) (record_stale_coordinator node c age)"
    unfolding record_stale_coordinator_def
    by (cases "cp_holder c = PStr node") (use assms in \<open>auto intro!: sweeping.keeps_intros sweeps_append simp: swept_def is_event_def\<close>)
qed

lemma sweeps_node:
  "stale node \<Longrightarrow> keeps (sweeps (swept c leases stale) (stale_targets dispatches stale)) (sweep_node c leases dispatches node raw)"
  unfolding sweep_node_def Let_def by (intro sweeping.keeps_intros sweeps_parts)

lemma stale_age_cong:
  "st_node t = st_node s \<Longrightarrow> fd_nodes (st_db t) = fd_nodes (st_db s) \<Longrightarrow> stale_age t limit self now np = stale_age s limit self now np"
  by (cases np) (simp add: stale_age_def node_last_heartbeat_def cong: option.case_cong)

lemma stale_age_sweeps: "sweeps P D s t \<Longrightarrow> stale_age t = stale_age s"
  by (intro ext stale_age_cong) (simp_all add: sweeps_def adds_def goes_on_def)

lemma sweeps_nodes:
  assumes "\<And>node p a. (node, p) \<in> set nps \<Longrightarrow> stale_age s limit self now (node, p) = Some a \<Longrightarrow> stale node"
  shows "sweeps (swept c leases stale) (stale_targets dispatches stale) s (snd (sweep_nodes c leases dispatches limit self now nps s))"
  using assms
proof (induction nps arbitrary: s)
  case Nil
  then show ?case by (simp add: sweeping.refl ret_def)
next
  case (Cons np nps)
  let ?R = "sweeps (swept c leases stale) (stale_targets dispatches stale)"
  have rest: "?R t (snd (sweep_nodes c leases dispatches limit self now nps t))" if "?R s t" for t
    by (rule Cons.IH) (use Cons.prems in \<open>auto simp: stale_age_sweeps [OF that]\<close>)
  show ?case
  proof (cases "stale_age s limit self now np")
    case None
    with rest [OF sweeping.refl] show ?thesis by (auto simp: seq_def gets_def ret_def split: prod.split sum.split)
  next
    case (Some a)
    then have "stale (fst np)" using Cons.prems [of "fst np" "snd np" a] by simp
    then have node: "keeps ?R (sweep_node c leases dispatches (fst np) a)" by (rule sweeps_node)
    obtain x t where one: "sweep_node c leases dispatches (fst np) a s = (x, t)" by fastforce
    have "?R s t" using node one by (rule keepsD)
    with sweeping.trans [OF this rest [OF this]] Some one show ?thesis
      by (auto simp: seq_def gets_def ret_def split: prod.splits sum.splits)
  qed
qed

section \<open>The sweep touches only what stale nodes hold\<close>

text \<open>
  A node is judged stale when it is projected and not retired, is not this node unless included, and its
  last heartbeat, the later of the node table and the ledger, reads as an instant more than the limit ago.
\<close>

definition judged_stale :: "store \<Rightarrow> pyfloat \<Rightarrow> bool \<Rightarrow> string \<Rightarrow> string \<Rightarrow> bool" where
  "judged_stale s limit self now node \<longleftrightarrow>
     (\<exists>p seen then_at now_at. (node, p) \<in> set (reduce_nodes (coord_events s)) \<and> \<not> np_retired p \<and> (self \<or> node \<noteq> st_node s) \<and>
       node_last_heartbeat s node p = Some seen \<and> parse_iso (Some seen) = Some then_at \<and> parse_iso (Some now) = Some now_at \<and>
       \<not> float_le (double_of_frac (instant now_at - instant then_at) 1000000) limit)"

lemma judged_stale_age:
  "judged_stale s limit self now node \<longleftrightarrow>
     (\<exists>p a. (node, p) \<in> set (reduce_nodes (coord_events s)) \<and> stale_age s limit self now (node, p) = Some a)"
proof -
  have "(\<exists>a. stale_age s limit self now (node, p) = Some a) \<longleftrightarrow> \<not> np_retired p \<and> (self \<or> node \<noteq> st_node s) \<and>
      (\<exists>seen then_at now_at. node_last_heartbeat s node p = Some seen \<and> parse_iso (Some seen) = Some then_at \<and>
         parse_iso (Some now) = Some now_at \<and> \<not> float_le (double_of_frac (instant now_at - instant then_at) 1000000) limit)" for p
  proof (cases "node_last_heartbeat s node p")
    case (Some seen)
    then show ?thesis
      by (cases "parse_iso (Some seen)"; cases "parse_iso (Some now)")
        (auto simp: stale_age_def age_s_def)
  qed (simp add: stale_age_def)
  then show ?thesis unfolding judged_stale_def by blast
qed

definition sweep_time :: "store \<Rightarrow> string option \<Rightarrow> string" where
  "sweep_time s now = (case now of None \<Rightarrow> now_text (env_clock (st_env s) (st_clock s)) | Some t \<Rightarrow> t)"

lemma sweep_begins:
  obtains t where "only_clock s t" "sweep_stale_nodes now after skew self s =
    sweep_nodes (reduce_coordinator (coord_events s)) (reduce_lease (coord_events s) (Some (sweep_time s now))) (current_dispatches s)
      (float_add after skew) self (sweep_time s now) (sort_key fst (reduce_nodes (coord_events s))) t"
proof (cases now)
  case None
  show thesis
    by (rule that [of "s\<lparr>st_clock := Suc (st_clock s)\<rparr>"])
      (simp_all add: None only_clock_Suc sweep_stale_nodes_def now_iso_def next_clock_def seq_def ret_def gets_def leases_on_def sweep_time_def
        coord_events_def current_dispatches_def)
next
  case (Some t)
  show thesis
    by (rule that [of s]) (simp_all add: Some sweep_stale_nodes_def seq_def ret_def gets_def leases_on_def sweep_time_def)
qed

lemma swept_neutral: "swept c leases stale e \<Longrightarrow> role_neutral es e"
  by (auto simp: role_neutral_def swept_def is_event_def)

text \<open>C14. An orphan sweep touches only what heartbeat-stale nodes hold, however it ends: each row it adds
  is the expiry of a lease that a node judged stale held when the sweep began, at that lease's epoch, a
  cancellation, or the note that the stale node is the coordinator; only dispatches targeting a stale
  node change state, and only to canceled; and the coordinator role is never seized.\<close>

theorem sweep_touches_only_stale:
  assumes "sweep_stale_nodes now after skew self s = (r, s')" "ledger_ok s"
  defines "stale \<equiv> judged_stale s (float_add after skew) self (sweep_time s now)"
    and "leases \<equiv> reduce_lease (coord_events s) (Some (sweep_time s now))"
  shows "reduce_coordinator (coord_events s') = reduce_coordinator (coord_events s) \<and> set (coord_events s) \<subseteq> set (coord_events s') \<and>
    set (coord_events s') \<subseteq> set (coord_events s) \<union> {e. swept (reduce_coordinator (coord_events s)) leases stale e} \<and>
    (\<forall>j. state_of_dispatch s' j = state_of_dispatch s j \<or>
      j \<in> stale_targets (current_dispatches s) stale \<and> state_of_dispatch s' j = Some ''canceled'')"
proof -
  let ?c = "reduce_coordinator (coord_events s)"
  obtain t where t: "only_clock s t" and run: "sweep_stale_nodes now after skew self s =
    sweep_nodes ?c leases (current_dispatches s) (float_add after skew) self (sweep_time s now) (sort_key fst (reduce_nodes (coord_events s))) t"
    unfolding leases_def by (rule sweep_begins)
  have age: "stale_age t = stale_age s" using t by (intro ext stale_age_cong) (auto simp: only_clock_def)
  have "sweeps (swept ?c leases stale) (stale_targets (current_dispatches s) stale) t s'"
    using sweeps_nodes [where s = t and nps = "sort_key fst (reduce_nodes (coord_events s))" and c = ?c and leases = leases and stale = stale and
        limit = "float_add after skew" and self = self and now = "sweep_time s now" and dispatches = "current_dispatches s"]
    by (auto simp: run [symmetric] assms(1) age stale_def judged_stale_age)
  with only_clockD [OF t] assms(2) have fin: "ledger_ok s'" "set (coord_events s) \<subseteq> set (coord_events s')"
    "\<forall>e \<in> set (coord_events s') - set (coord_events s). swept ?c leases stale e"
    "\<forall>j. state_of_dispatch s' j = state_of_dispatch s j \<or> j \<in> stale_targets (current_dispatches s) stale \<and> state_of_dispatch s' j = Some ''canceled''"
    by (simp_all add: sweeps_def adds_def state_of_dispatch_proj)
  have "reduce_coordinator (coord_events s') = ?c"
    by (rule coordinator_unchanged [OF wf_coord_events [OF fin(1)] fin(2)])
      (rule swept_neutral, use fin(3) in blast)
  with fin show ?thesis by blast
qed

text \<open>On the sample ledger the sweep judges the node \<open>n2\<close> stale, whose lease it holds.\<close>

lemma sample_stale:
  "judged_stale (store_of [theirs]) (float_add default_stale_after_s default_skew_margin_s) False later_time ''n2''"
proof -
  have "stale_age (store_of [theirs]) (float_add default_stale_after_s default_skew_margin_s) False later_time
      (hd (reduce_nodes (coord_events (store_of [theirs])))) \<noteq> None"
    "fst (hd (reduce_nodes (coord_events (store_of [theirs])))) = ''n2''" "reduce_nodes (coord_events (store_of [theirs])) \<noteq> []"
    by code_simp+
  then show ?thesis unfolding judged_stale_age by (metis list.set_sel(1) option.exhaust prod.collapse)
qed

lemma sample_theirs: "ideal 1000 (store_of [theirs])"
  by (rule store_of_ideal [of "[theirs]"]) (simp_all add: store_of_def sample_store_def)

theorem sweep_touches_only_stale_witness:
  "\<exists>r s'. sweep_stale_nodes (Some later_time) default_stale_after_s default_skew_margin_s False (store_of [theirs]) = (r, s') \<and>
     reduce_coordinator (coord_events s') = reduce_coordinator (coord_events (store_of [theirs]))"
proof -
  obtain r s' where run: "sweep_stale_nodes (Some later_time) default_stale_after_s default_skew_margin_s False (store_of [theirs]) = (r, s')"
    by fastforce
  from sweep_touches_only_stale [OF run idealD(1) [OF sample_theirs]] run show ?thesis by blast
qed

section \<open>The sweep reclaims every lease of a stale node\<close>

definition expired_row :: "string \<Rightarrow> lease_proj \<Rightarrow> store \<Rightarrow> store \<Rightarrow> bool" where
  "expired_row scope l s s' \<longleftrightarrow> (\<exists>e \<in> set (coord_events s') - set (coord_events s).
     is_event ''lease'' ''expired'' e \<and> ev_scope e = Some scope \<and> event_epoch e = lp_epoch l)"

lemma expired_row_wider:
  "expired_row scope l t u \<Longrightarrow> set (coord_events s) \<subseteq> set (coord_events t) \<Longrightarrow> set (coord_events u) \<subseteq> set (coord_events s') \<Longrightarrow>
     expired_row scope l s s'"
  unfolding expired_row_def by blast

lemma sweeps_ledger:
  "sweeps P D s s' \<Longrightarrow> ledger_ok s \<Longrightarrow> ledger_ok s'" "sweeps P D s s' \<Longrightarrow> ledger_ok s \<Longrightarrow> set (coord_events s) \<subseteq> set (coord_events s')"
  by (simp_all add: sweeps_def adds_def)

lemma reclaim_one_expires:
  assumes "reclaim_one node age (scope, l) s = (Inr x, s')" "ledger_ok s"
  shows "expired_row scope l s s'"
proof -
  obtain a where "append_coord_event ''lease'' ''expired'' (''Lease reclaimed for '' @ scope @ '' at epoch '' @ int_str (lp_epoch l) @ '' (holder heartbeat-stale).'')
      (Some scope) (Some (lp_epoch l))
      (Some [(''grant_seq'', PInt (lp_grant_seq l)), (''reclaimed_from'', PStr node), (''reason'', PStr ''heartbeat-stale''),
        (''age_s'', PFloat (fst age) (snd age))]) None None s = (Inr a, s')"
    using assms(1) by (auto simp: reclaim_one_def elim!: seq_InrE)
  then obtain row where "fresh_row s ''lease'' ''expired'' (Some scope) (Some (lp_epoch l)) (Some [(''grant_seq'', PInt (lp_grant_seq l)),
        (''reclaimed_from'', PStr node), (''reason'', PStr ''heartbeat-stale''), (''age_s'', PFloat (fst age) (snd age))]) None None row"
      "set (coord_events s') = insert (row_event row) (set (coord_events s))" "ledger_ok s'" "fd_events (st_db s') = fd_events (st_db s) @ [row]"
    using append_new [OF _ assms(2)] by metis
  moreover from this(3,4) have "row_event row \<notin> set (coord_events s)"
    by (force simp: set_coord_events ledger_ok_def rows_ok_def dest: arg_cong [of _ _ ev_id])
  ultimately show ?thesis
    unfolding expired_row_def by (intro bexI [of _ "row_event row"]) (auto simp: fresh_row_def is_event_def event_epoch_def of_opt_int_def)
qed

lemma each_expires:
  assumes "for_each (reclaim_one node age) ls s = (Inr xs, s')" "ledger_ok s" "(scope, l) \<in> set ls"
  shows "expired_row scope l s s'"
  using assms
proof (induction ls arbitrary: s xs)
  case (Cons sl ls)
  obtain y t where one: "reclaim_one node age sl s = (Inr y, t)" and rest: "\<exists>ys. for_each (reclaim_one node age) ls t = (Inr ys, s')"
    using Cons.prems(1) by (auto elim!: seq_InrE)
  have r: "keeps (sweeps (\<lambda>_. True) {}) (reclaim_one node age x)" for x
    by (cases x) (auto simp: reclaim_one_def intro!: sweeping.keeps_intros sweeps_append)
  note t = sweeps_ledger [OF keepsD [OF r one] Cons.prems(2)]
  obtain ys where ys: "for_each (reclaim_one node age) ls t = (Inr ys, s')" using rest ..
  note u = sweeps_ledger(2) [OF keepsD [OF sweeps_each ys] t(1), OF r]
  show ?case
  proof (cases "(scope, l) = sl")
    case True
    with reclaim_one_expires [of node age scope l s y t] one Cons.prems(2) have "expired_row scope l s t" by simp
    then show ?thesis by (rule expired_row_wider) (simp_all add: u)
  next
    case False
    with Cons.IH [OF ys t(1)] Cons.prems(3) have "expired_row scope l t s'" by simp
    then show ?thesis using t(2) by (rule expired_row_wider) simp
  qed
qed simp

lemma node_expires:
  assumes run: "sweep_node c leases dispatches node raw s = (Inr x, s')" and ok: "ledger_ok s"
    and held: "(scope, l) \<in> set leases" "lp_state l = Held" "lp_holder l = PStr node"
  shows "expired_row scope l s s'"
proof -
  obtain ls t where one: "reclaim_leases node leases (round3 raw) s = (Inr ls, t)"
    and rest: "seq (cancel_targeted_dispatches node dispatches) (\<lambda>canceled.
      seq (record_stale_coordinator node c (round3 raw)) (\<lambda>was.
      ret \<lparr>ss_node = node, ss_age = round3 raw, ss_leases = ls, ss_dispatches = canceled, ss_coordinator = was\<rparr>)) t = (Inr x, s')"
    using run [unfolded sweep_node_def Let_def] by (rule seq_InrE)
  have e: "expired_row scope l s t"
    using each_expires [OF one [unfolded reclaim_leases_def] ok] held by simp
  let ?R = "sweeps (swept c leases (\<lambda>_. True)) (stale_targets dispatches (\<lambda>_. True))"
  have "ledger_ok t" by (rule sweeps_ledger(1) [OF keepsD [OF sweeps_parts(1) [where stale = "\<lambda>_. True" and c = c and D = "{}"] one] ok]) simp
  moreover have "?R t s'"
    by (rule keepsD [where m = "seq (cancel_targeted_dispatches node dispatches) _", OF _ rest]) (intro sweeping.keeps_intros sweeps_parts TrueI)
  ultimately have "set (coord_events t) \<subseteq> set (coord_events s')" by (rule sweeps_ledger(2) [rotated])
  from e _ this show ?thesis by (rule expired_row_wider) simp
qed

lemma nodes_expire:
  assumes "sweep_nodes c leases dispatches limit self now nps s = (Inr v, s')" "ledger_ok s"
    and "(node, p) \<in> set nps" "stale_age s limit self now (node, p) = Some a"
    and "(scope, l) \<in> set leases" "lp_state l = Held" "lp_holder l = PStr node"
  shows "expired_row scope l s s'"
  using assms(1-4)
proof (induction nps arbitrary: s v)
  case (Cons np nps)
  let ?R = "sweeps (swept c leases (\<lambda>_. True)) (stale_targets dispatches (\<lambda>_. True))"
  obtain t w where rest: "sweep_nodes c leases dispatches limit self now nps t = (Inr w, s')"
    and step: "stale_age s limit self now np = None \<and> t = s \<or>
      (\<exists>b x. stale_age s limit self now np = Some b \<and> sweep_node c leases dispatches (fst np) b s = (Inr x, t))"
    using Cons.prems(1) by (auto simp: gets_def seq_def [of "\<lambda>s. (Inr _, s)"] elim!: seq_InrE split: option.splits prod.splits)
  have st: "?R s t" using step keepsD [OF sweeps_node [where stale = "\<lambda>_. True"]] sweeping.refl by blast
  note t = sweeps_ledger [OF st Cons.prems(2)]
  have "?R t s'" using sweeps_nodes [of nps t limit self now "\<lambda>_. True" c leases dispatches] rest by simp
  note u = sweeps_ledger(2) [OF this t(1)]
  show ?case
  proof (cases "(node, p) = np")
    case True
    with step Cons.prems(4) obtain b x where "sweep_node c leases dispatches node b s = (Inr x, t)" by (metis fst_conv option.distinct(1))
    from node_expires [OF this Cons.prems(2) assms(5-7)] have "expired_row scope l s t" .
    from this _ u show ?thesis by (rule expired_row_wider) simp
  next
    case False
    have "expired_row scope l t s'"
      by (rule Cons.IH [OF rest t(1)]) (use False Cons.prems(3,4) in \<open>simp_all add: stale_age_sweeps [OF st]\<close>)
    then show ?thesis using t(2) by (rule expired_row_wider) simp
  qed
qed simp

text \<open>A sweep that returns reclaimed every lease of every stale node: for each lease that a node judged
  stale held when the sweep began the ledger has a new expiry of that scope at the lease's epoch.\<close>

theorem sweep_reclaims_all:
  assumes "sweep_stale_nodes now after skew self s = (Inr v, s')" "ledger_ok s"
    and "judged_stale s (float_add after skew) self (sweep_time s now) node"
    and "map_of (reduce_lease (coord_events s) (Some (sweep_time s now))) scope = Some l" "lp_state l = Held" "lp_holder l = PStr node"
  shows "\<exists>e \<in> set (coord_events s') - set (coord_events s).
    is_event ''lease'' ''expired'' e \<and> ev_scope e = Some scope \<and> event_epoch e = lp_epoch l"
proof -
  obtain t where t: "only_clock s t" and run: "sweep_stale_nodes now after skew self s =
    sweep_nodes (reduce_coordinator (coord_events s)) (reduce_lease (coord_events s) (Some (sweep_time s now))) (current_dispatches s)
      (float_add after skew) self (sweep_time s now) (sort_key fst (reduce_nodes (coord_events s))) t"
    by (rule sweep_begins)
  obtain p a where p: "(node, p) \<in> set (reduce_nodes (coord_events s))" "stale_age s (float_add after skew) self (sweep_time s now) (node, p) = Some a"
    using assms(3) by (auto simp: judged_stale_age)
  have "stale_age t = stale_age s" using t by (intro ext stale_age_cong) (auto simp: only_clock_def)
  with p nodes_expire [OF assms(1) [unfolded run] only_clockD(3) [OF t assms(2)] _ _ map_of_SomeD [OF assms(4)] assms(5,6), of p a]
  have "expired_row scope l t s'" by simp
  then show ?thesis by (simp add: expired_row_def only_clockD(1) [OF t])
qed

text \<open>The sample sweep: what the sample ledger projects to, the texts of its one reclaim, and the run.\<close>

definition stale_node :: "string \<times> node_proj" where
  "stale_node = (''n2'', \<lparr>np_node_id = ''n2'', np_role = PNone, np_tailnet_name = PNone, np_last_registered_at = None,
     np_last_heartbeat = None, np_retired = False\<rparr>)"

definition their_lease :: lease_proj where
  "their_lease = \<lparr>lp_scope_key = ''repo.a'', lp_holder = PStr ''n2'', lp_epoch = 2, lp_grant_seq = 1, lp_state = Held,
     lp_expires_at = PNone, lp_id = Some ''b'', lp_mode = ''advisory''\<rparr>"

lemma sample_projections:
  "sort_key fst (reduce_nodes (coord_events (store_of [theirs]))) = [stale_node]"
  "reduce_lease (coord_events (store_of [theirs])) (Some later_time) = [(''repo.a'', their_lease)]"
  "current_dispatches (store_of [theirs]) = []"
  "cp_holder (reduce_coordinator (coord_events (store_of [theirs]))) = PNone"
  by code_simp+

lemma sample_age:
  "stale_age (store_of [theirs]) (float_add default_stale_after_s default_skew_margin_s) False later_time stale_node = Some (675, 7)"
  by code_simp

definition reclaim_payload :: pydict where
  "reclaim_payload = [(''grant_seq'', PInt 1), (''reclaimed_from'', PStr ''n2''), (''reason'', PStr ''heartbeat-stale''), (''age_s'', PFloat 675 7)]"

definition reclaim_summary :: string where
  "reclaim_summary = ''Lease reclaimed for repo.a at epoch 2 (holder heartbeat-stale).''"

lemma reclaim_fields:
  "map snd (redaction_fields reclaim_summary (Some ''repo.a'') (Some reclaim_payload)) =
   map PStr [reclaim_summary, ''repo.a'', ''1'', ''grant_seq: 1'', ''n2'', ''reclaimed_from: n2'', ''heartbeat-stale'',
     ''reason: heartbeat-stale'', ''86400.0'', ''age_s: 86400.0'']"
  by code_simp

lemma reclaim_tame_1: "tame_text reclaim_summary" by code_simp
lemma reclaim_tame_2: "list_all tame_text [''1'', ''grant_seq: 1'', ''n2'', ''reclaimed_from: n2'']" by code_simp
lemma reclaim_tame_3: "list_all tame_text [''heartbeat-stale'', ''reason: heartbeat-stale'', ''86400.0'', ''age_s: 86400.0'']" by code_simp

lemma reclaim_texts:
  "texts_fit ''n1'' reclaim_summary (Some ''repo.a'') None" "kind_marker_ok ''lease'' ''expired''"
  by code_simp+

lemma reclaim_sample:
  "reclaim_one ''n2'' (round3 (675, 7)) (''repo.a'', their_lease) =
   seq (append_coord_event ''lease'' ''expired'' reclaim_summary (Some ''repo.a'') (Some 2) (Some reclaim_payload) None None) (\<lambda>_. ret ''repo.a'')"
proof -
  have "''Lease reclaimed for '' @ ''repo.a'' @ '' at epoch '' @ int_str (lp_epoch their_lease) @ '' (holder heartbeat-stale).'' = reclaim_summary"
    "lp_epoch their_lease = 2"
    "[(''grant_seq'', PInt (lp_grant_seq their_lease)), (''reclaimed_from'', PStr ''n2''), (''reason'', PStr ''heartbeat-stale''),
      (''age_s'', PFloat (fst (round3 (675, 7))) (snd (round3 (675, 7))))] = reclaim_payload"
    by code_simp+
  then show ?thesis unfolding reclaim_one_def prod.case by (simp only:)
qed

lemma sample_sweep_runs:
  obtains v s' where "sweep_stale_nodes (Some later_time) default_stale_after_s default_skew_margin_s False (store_of [theirs]) = (Inr v, s')"
proof -
  have fields: "list_all plain_field (redaction_fields reclaim_summary (Some ''repo.a'') (Some reclaim_payload))"
    by (rule tame_fields [OF reclaim_fields]) (use reclaim_tame_1 tame_texts(2) reclaim_tame_2 reclaim_tame_3 in simp)
  obtain a u where one: "append_coord_event ''lease'' ''expired'' reclaim_summary (Some ''repo.a'') (Some 2) (Some reclaim_payload) None None
      (store_of [theirs]) = (Inr a, u)"
    by (rule sample_appends [where n = 998 and t = "store_of [theirs]" and kind = "''lease''" and marker = "''expired''" and x = reclaim_summary
        and scope = "Some ''repo.a''" and project = None and epoch = "Some 2" and payload = "Some reclaim_payload"])
      (use sample_theirs reclaim_texts fields in \<open>simp_all add: store_of_def sample_store_def\<close>)
  have "filter (\<lambda>(scope, l). lp_state l = Held \<and> lp_holder l = PStr ''n2'') (sort_key fst [(''repo.a'', their_lease)]) = [(''repo.a'', their_lease)]"
    by (simp add: their_lease_def)
  then have leases: "reclaim_leases ''n2'' [(''repo.a'', their_lease)] (round3 (675, 7)) (store_of [theirs]) = (Inr [''repo.a''], u)"
    by (simp add: reclaim_leases_def reclaim_sample one seq_def ret_def)
  have "\<exists>x. sweep_node (reduce_coordinator (coord_events (store_of [theirs]))) [(''repo.a'', their_lease)] [] ''n2'' (675, 7) (store_of [theirs]) = (Inr x, u)"
    by (simp add: sweep_node_def Let_def seq_def leases cancel_targeted_dispatches_def record_stale_coordinator_def sample_projections(4) ret_def)
  then obtain x where "sweep_node (reduce_coordinator (coord_events (store_of [theirs]))) [(''repo.a'', their_lease)] [] ''n2'' (675, 7)
      (store_of [theirs]) = (Inr x, u)" ..
  moreover have "fst stale_node = ''n2''" by (simp add: stale_node_def)
  ultimately have "sweep_stale_nodes (Some later_time) default_stale_after_s default_skew_margin_s False (store_of [theirs]) = (Inr ([x], 0), u)"
    by (simp add: sweep_stale_nodes_def seq_def ret_def gets_def leases_on_def sample_projections sample_age)
  then show thesis by (rule that)
qed

theorem sweep_reclaims_all_witness:
  "\<exists>v s'. sweep_stale_nodes (Some later_time) default_stale_after_s default_skew_margin_s False (store_of [theirs]) = (Inr v, s') \<and>
     (\<exists>e \<in> set (coord_events s') - set (coord_events (store_of [theirs])).
       is_event ''lease'' ''expired'' e \<and> ev_scope e = Some ''repo.a'' \<and> event_epoch e = 2)"
proof -
  obtain v s' where run: "sweep_stale_nodes (Some later_time) default_stale_after_s default_skew_margin_s False (store_of [theirs]) = (Inr v, s')"
    by (rule sample_sweep_runs)
  have "sweep_time (store_of [theirs]) (Some later_time) = later_time" by (simp add: sweep_time_def)
  with sweep_reclaims_all [OF run idealD(1) [OF sample_theirs], where node = "''n2''" and scope = "''repo.a''" and l = their_lease] sample_stale
  have "\<exists>e \<in> set (coord_events s') - set (coord_events (store_of [theirs])).
       is_event ''lease'' ''expired'' e \<and> ev_scope e = Some ''repo.a'' \<and> event_epoch e = lp_epoch their_lease"
    by (simp add: sample_projections(2)) (simp add: their_lease_def)
  with run show ?thesis by (auto simp: their_lease_def)
qed

end
