(* ===== verification/Reconcile_Adoption.thy ===== *)
theory Reconcile_Adoption imports Reconcile_Theorems begin

text \<open>
  Adoption and publication: reconcile adopts each isolated scope once, refuses to adopt anything when
  one scope overlaps, with git untouched beyond the fetch, and reports a branch as published only when
  the hub lists the sha that was pushed.
\<close>

section \<open>Isolated and adopted scopes as sets\<close>

lemma sorted_set_cong: "set xs = set ys \<Longrightarrow> sorted_set xs = sorted_set ys"
  unfolding sorted_set_def by (rule sorted_distinct_set_unique) simp_all

lemma set_iso_scopes: "x \<in> set (my_iso_scopes s) \<longleftrightarrow> x \<noteq> [] \<and> (\<exists>e \<in> set (coord_events s). iso_event s e \<and> ev_scope e = Some x)"
  by (auto simp: my_iso_scopes_def sorted_set_def image_iff split: option.splits) (metis option.exhaust opt_str_simps)

lemma find_holds: "find P xs = Some v \<Longrightarrow> v \<in> set xs \<and> P v"
  by (induction xs) (auto split: if_splits)

lemma adopted_scopes_at:
  "adopted_scopes s = (Inr vs, t) \<longleftrightarrow> t = s \<and> vs = map (\<lambda>e. dget (ev_payload_dict e) ''scope_key'') (filter (adoption s) (coord_events s)) \<and>
     (\<forall>v \<in> set vs. \<not> unhashable v)"
  by (auto simp: adopted_scopes_def Let_def find_None_iff dest!: find_holds split: option.splits)

lemma same_node: "st_node t = st_node s \<Longrightarrow> iso_event t = iso_event s \<and> adoption t = adoption s"
  by (simp add: fun_eq_iff iso_event_def adoption_def my_iso_sentinel_def)

text \<open>What adopting the scopes \<open>xs\<close> adds.\<close>

definition adopts :: "string list \<Rightarrow> store \<Rightarrow> store \<Rightarrow> bool" where
  "adopts xs s s' \<longleftrightarrow> ledger_ok s' \<and> st_node s' = st_node s \<and> (\<exists>N. set (coord_events s') = set (coord_events s) \<union> N \<and>
     (\<forall>e \<in> N. iso_event s e \<longrightarrow> (\<exists>x \<in> set xs. ev_scope e = Some x)) \<and>
     (\<forall>e \<in> N. adoption s e \<longrightarrow> (\<exists>x \<in> set xs. dget (ev_payload_dict e) ''scope_key'' = PStr x)) \<and>
     (\<forall>x \<in> set xs. \<exists>e \<in> N. adoption s e \<and> dget (ev_payload_dict e) ''scope_key'' = PStr x))"

lemma adopt_one:
  assumes run: "adopt_scope scope s = (Inr x, s')" and ok: "ledger_ok s" and scope: "scope \<noteq> []"
  shows "x = scope \<and> adopts [scope] s s'"
proof -
  obtain r t where req: "request_lease scope ''advisory'' default_ttl (Some ''iso adoption request'') None s = (Inr r, t)"
    and rest: "seq (gets my_iso_sentinel) (\<lambda>mine.
     seq (append_coord_event ''resolution'' ''recorded'' (''Iso scope '' @ scope @ '' adopted after reconcile.'') (Some scope) None
        (Some [(''iso_adopted'', PBool True), (''scope_key'', PStr scope), (''iso_sentinel'', mine)]) None None) (\<lambda>_.
     ret scope)) t = (Inr x, s')"
    using run [unfolded adopt_scope_def] by (rule seq_InrE)
  obtain a where a: "append_coord_event ''lease'' ''requested'' (str_or (Some ''iso adoption request'')
      (''Lease requested for '' @ scope @ '' ('' @ normalize_lease_mode ''advisory'' @ '').'')) (Some scope) None
      (Some ([(''mode'', PStr (normalize_lease_mode ''advisory'')), (''ttl_s'', PInt default_ttl)] @ origin_entry None)) None None s = (Inr a, t)"
    using req by (auto simp: request_lease_def lease_event_def Let_def elim!: seq_InrE)
  obtain e where e: "new_event s t a e ''lease'' ''requested'' (Some scope) None
      ([(''mode'', PStr (normalize_lease_mode ''advisory'')), (''ttl_s'', PInt default_ttl)] @ origin_entry None)"
    using event_new [OF a ok] by (auto simp: opt_dict_def origin_entry_def)
  note n = new_eventD [OF e]
  have nodes: "st_node t = st_node s" by (rule n(12))
  obtain b where b: "append_coord_event ''resolution'' ''recorded'' (''Iso scope '' @ scope @ '' adopted after reconcile.'') (Some scope) None
      (Some [(''iso_adopted'', PBool True), (''scope_key'', PStr scope), (''iso_sentinel'', my_iso_sentinel t)]) None None t = (Inr b, s')"
    and x: "x = scope"
    using rest by (auto simp: gets_def elim!: seq_InrE)
  obtain d where d: "new_event t s' b d ''resolution'' ''recorded'' (Some scope) None
      [(''iso_adopted'', PBool True), (''scope_key'', PStr scope), (''iso_sentinel'', my_iso_sentinel t)]"
    using event_new [OF b n(11)] by (auto simp: opt_dict_def my_iso_sentinel_def)
  note m = new_eventD [OF d]
  have mine: "my_iso_sentinel t = my_iso_sentinel s" by (simp add: my_iso_sentinel_def nodes)
  have no: "\<not> iso_event s e" by (simp add: iso_event_def n(9) my_iso_sentinel_def origin_entry_def)
  have yes: "adoption s d" "dget (ev_payload_dict d) ''scope_key'' = PStr scope"
    by (simp_all add: adoption_def is_event_def m(3,4,9) iso_event_def mine my_iso_sentinel_def scope nodes)
  show ?thesis
    using m(1,11,12) n(1) nodes m(5) no yes x
    by (auto simp: adopts_def adoption_def intro!: exI [of _ "{e, d}"])
qed

lemma adopts_nil: "ledger_ok s \<Longrightarrow> adopts [] s s"
  by (auto simp: adopts_def intro: exI [of _ "{}"])

lemma adopts_append:
  assumes "adopts xs s t" "adopts ys t u" shows "adopts (xs @ ys) s u"
proof -
  obtain N where N: "set (coord_events t) = set (coord_events s) \<union> N"
     "\<forall>e \<in> N. iso_event s e \<longrightarrow> (\<exists>x \<in> set xs. ev_scope e = Some x)"
     "\<forall>e \<in> N. adoption s e \<longrightarrow> (\<exists>x \<in> set xs. dget (ev_payload_dict e) ''scope_key'' = PStr x)"
     "\<forall>x \<in> set xs. \<exists>e \<in> N. adoption s e \<and> dget (ev_payload_dict e) ''scope_key'' = PStr x" "st_node t = st_node s"
    using assms(1) by (auto simp: adopts_def)
  obtain M where M: "set (coord_events u) = set (coord_events t) \<union> M"
     "\<forall>e \<in> M. iso_event t e \<longrightarrow> (\<exists>x \<in> set ys. ev_scope e = Some x)"
     "\<forall>e \<in> M. adoption t e \<longrightarrow> (\<exists>x \<in> set ys. dget (ev_payload_dict e) ''scope_key'' = PStr x)"
     "\<forall>x \<in> set ys. \<exists>e \<in> M. adoption t e \<and> dget (ev_payload_dict e) ''scope_key'' = PStr x" "st_node u = st_node t" "ledger_ok u"
    using assms(2) by (auto simp: adopts_def)
  note same = same_node [OF N(5)]
  have "set (coord_events u) = set (coord_events s) \<union> (N \<union> M)" using N(1) M(1) by blast
  moreover have "st_node u = st_node s" using N(5) M(5) by simp
  ultimately show ?thesis
    unfolding adopts_def using N(2-4) M(2-4,6) same by (intro conjI exI [of _ "N \<union> M"]) auto
qed

lemma adopt_each:
  "for_each adopt_scope xs s = (Inr ys, s') \<Longrightarrow> ledger_ok s \<Longrightarrow> [] \<notin> set xs \<Longrightarrow> ys = xs \<and> adopts xs s s'"
proof (induction xs arbitrary: s ys)
  case Nil
  then show ?case by (simp add: adopts_nil ret_def)
next
  case (Cons x xs)
  obtain y t zs where one: "adopt_scope x s = (Inr y, t)" and rest: "for_each adopt_scope xs t = (Inr zs, s')" and ys: "ys = y # zs"
    using Cons.prems(1) by (auto elim!: seq_InrE)
  have a: "y = x \<and> adopts [x] s t" using adopt_one [OF one Cons.prems(2)] Cons.prems(3) by auto
  then have "ledger_ok t" by (simp add: adopts_def)
  from Cons.IH [OF rest this] Cons.prems(3) have b: "zs = xs \<and> adopts xs t s'" by simp
  from a b ys adopts_append [of "[x]" s t xs s'] show ?case by simp
qed

text \<open>After an adoption nothing awaits adoption.\<close>

lemma nothing_awaits:
  assumes adopts: "adopts xs s s'" and taken: "adopted_scopes s = (Inr vs, s)" and xs: "xs = awaiting s vs"
  shows "\<exists>ws. adopted_scopes s' = (Inr ws, s') \<and> awaiting s' ws = []"
proof -
  obtain N where N: "set (coord_events s') = set (coord_events s) \<union> N"
     "\<forall>e \<in> N. iso_event s e \<longrightarrow> (\<exists>x \<in> set xs. ev_scope e = Some x)"
     "\<forall>e \<in> N. adoption s e \<longrightarrow> (\<exists>x \<in> set xs. dget (ev_payload_dict e) ''scope_key'' = PStr x)"
     "\<forall>x \<in> set xs. \<exists>e \<in> N. adoption s e \<and> dget (ev_payload_dict e) ''scope_key'' = PStr x" "st_node s' = st_node s"
    using adopts by (auto simp: adopts_def)
  note same = same_node [OF N(5)]
  define ws where "ws = map (\<lambda>e. dget (ev_payload_dict e) ''scope_key'') (filter (adoption s') (coord_events s'))"
  have vs: "set vs = (\<lambda>e. dget (ev_payload_dict e) ''scope_key'') ` {e \<in> set (coord_events s). adoption s e}" "\<forall>v \<in> set vs. \<not> unhashable v"
    using taken by (auto simp: adopted_scopes_at)
  have ws_set: "set ws = (\<lambda>e. dget (ev_payload_dict e) ''scope_key'') ` {e \<in> set (coord_events s) \<union> N. adoption s e}"
    by (auto simp: ws_def same N(1))
  have more: "set vs \<union> PStr ` set xs \<subseteq> set ws" using N(4) by (force simp: vs ws_set)
  have less: "set ws \<subseteq> set vs \<union> PStr ` set xs" using N(3) by (auto simp: vs ws_set)
  have "\<forall>w \<in> set ws. \<not> unhashable w" using less vs(2) by (auto simp: unhashable_def)
  then have look: "adopted_scopes s' = (Inr ws, s')" by (simp add: adopted_scopes_at ws_def)
  have "PStr x \<in> set ws" if "x \<in> set (my_iso_scopes s')" for x
  proof -
    have "x \<in> set (my_iso_scopes s) \<or> x \<in> set xs"
      using that N(1,2) by (auto simp: set_iso_scopes same)
    then show ?thesis using more xs by (auto simp: awaiting_def)
  qed
  then have "awaiting s' ws = []" by (simp add: awaiting_def)
  with look show ?thesis by blast
qed

section \<open>The parts of a reconcile\<close>

lemma detect_one_clock: "detect_overlap now scope s = (r, t) \<Longrightarrow> only_clock s t"
  by (cases now) (auto simp: detect_overlap_def leases_on_def leases_read gets_def intro: only_clock_Suc)

lemma only_clock_trans: "only_clock s t \<Longrightarrow> only_clock t u \<Longrightarrow> only_clock s u"
  by (auto simp: only_clock_def add.assoc intro: exI [of _ "_ + _ :: nat"])

lemma detect_clock: "detect_all now scopes s = (r, t) \<Longrightarrow> only_clock s t"
proof (induction scopes arbitrary: s r t)
  case (Cons q qs)
  obtain x u where one: "detect_overlap now q s = (x, u)" by fastforce
  obtain y v where two: "detect_all now qs u = (y, v)" by fastforce
  from Cons.prems one two have "t = u \<or> t = v" by (auto simp: seq_def ret_def split: sum.splits)
  with detect_one_clock [OF one] Cons.IH [OF two] show ?case by (auto intro: only_clock_trans)
qed (simp add: ret_def)

lemma detect_at: "detect_all (Some now) scopes s =
    (Inr (List.map_filter (overlap_in s (reduce_lease (coord_events s) (Some now))) scopes), s)"
  by (induction scopes) (simp_all add: detect_overlap_def leases_on_def gets_def seq_def ret_def map_filter_simps split: option.split)

lemma record_overlaps_adds:
  "keeps (adds (is_event ''conflict'' ''detected'')) (record_overlaps known ovs)"
  by (induction ovs arbitrary: known)
    (auto simp: record_fork_decision_def Let_def is_event_def intro!: added_intros adds_append split: option.split)

text \<open>What \<open>adopt_or_refuse\<close> establishes.\<close>

lemma adopt_ok:
  assumes run: "adopt_or_refuse now s = (Inr xs, s')" and ok: "ledger_ok s"
  obtains vs where "adopted_scopes s = (Inr vs, s)" "xs = awaiting s vs" "adopts xs s s'"
    "\<exists>ws. adopted_scopes s' = (Inr ws, s') \<and> awaiting s' ws = []"
proof -
  obtain vs where taken: "adopted_scopes s = (Inr vs, s)"
    and rest: "seq (gets (\<lambda>s. awaiting s vs)) (\<lambda>scopes.
     seq (detect_all now scopes) (\<lambda>overlaps.
     if overlaps \<noteq> [] then
       seq (gets (\<lambda>s. open_iso_conflicts (coord_events s))) (\<lambda>known.
       seq (record_overlaps known overlaps) (\<lambda>is. raise (iso_conflict_denied overlaps is)))
     else for_each adopt_scope scopes)) s = (Inr xs, s')"
    using run [unfolded adopt_or_refuse_def] by (rule seq_InrE) (auto simp: adopted_scopes_at)
  obtain t where t: "only_clock s t" and adopt: "for_each adopt_scope (awaiting s vs) t = (Inr xs, s')"
  proof -
    obtain ovs u where "detect_all now (awaiting s vs) s = (Inr ovs, u)" "for_each adopt_scope (awaiting s vs) u = (Inr xs, s')"
      using rest by (auto simp: gets_def elim!: seq_InrE split: if_splits)
    then show thesis using that detect_clock by blast
  qed
  note same = only_clockD [OF t]
  have "[] \<notin> set (awaiting s vs)" by (simp add: awaiting_def set_iso_scopes)
  from adopt_each [OF adopt same(3) [OF ok] this] have a: "xs = awaiting s vs" "adopts xs t s'" by simp_all
  have "adopts xs s s'" using a(2) same_node [OF same(2)] by (simp add: adopts_def same(1,2))
  with nothing_awaits [OF this taken a(1)] taken a(1) show thesis by (intro that) simp_all
qed

lemma reconcile_pulled:
  assumes "pull_and_reduce None s = (Inr p, t)"
  obtains pulled where "reconcile net runner hub peers allow now (s, w) = reconcile_fresh net (remote_given runner hub) peers allow now pulled (t, w)"
  using assms that by (simp add: reconcile_def seq_def on_store_def handle_def gets_def ret_def)

text \<open>A fetch leaves the store alone, and the work tree as the command \<open>git fetch\<close> leaves it.\<close>

definition fetches :: "'w git \<Rightarrow> ('w \<Rightarrow> bool) \<Rightarrow> bool" where
  "fetches git P \<longleftrightarrow> (\<forall>remote w r w'. git [''fetch'', remote] w = (r, w') \<longrightarrow> P w \<longrightarrow> P w')"

definition fetched_only :: "('w \<Rightarrow> bool) \<Rightarrow> store \<times> 'w \<Rightarrow> store \<times> 'w \<Rightarrow> bool" where
  "fetched_only P x x' \<longleftrightarrow> fst x' = fst x \<and> (P (snd x) \<longrightarrow> P (snd x'))"

interpretation fetching: state_preorder "fetched_only P" for P :: "'w \<Rightarrow> bool"
  by unfold_locales (auto simp: fetched_only_def)

lemma fetching_git: "fetches git P \<Longrightarrow> keeps (fetched_only P) (mirror_git git [''fetch'', remote])"
proof (rule keepsI)
  fix x :: "store \<times> 'a" assume P: "fetches git P"
  obtain s w where x: "x = (s, w)" by (cases x)
  obtain r s' w' where run: "mirror_git git [''fetch'', remote] (s, w) = (r, (s', w'))" by (metis prod.exhaust)
  then show "fetched_only P x (snd (mirror_git git [''fetch'', remote] x))"
    by (cases rule: mirror_git_run) (use P run x in \<open>auto simp: fetched_only_def fetches_def\<close>)
qed

lemma fetching_peers: "fetches git P \<Longrightarrow> keeps (fetched_only P) (fetch_peers git n k peers)"
  by (induction peers arbitrary: k) (auto intro!: fetching.keeps_intros fetching_git)

lemma fetching_step:
  assumes "\<And>git hub. remote = Some (git, hub) \<Longrightarrow> fetches git P"
  shows "keeps (fetched_only P) (fetch_step net peers remote)"
proof (cases remote)
  case (Some gh)
  obtain git hub where gh: "gh = (git, hub)" by (cases gh)
  with Some assms have "fetches git P" by simp
  have runner: "seq (lift_result (runner_for (\<lambda>_. git) (Some git) None)) f = f git" for f :: "'a git \<Rightarrow> ('a, pydict) tree_act"
    by (simp add: runner_for_def lift_result_def seq_def)
  show ?thesis
    unfolding Some gh fetch_step_def option.case prod.case fetch_with_fallback_def runner
    using \<open>fetches git P\<close> by (auto intro!: fetching.keeps_intros fetching_git fetching_peers split: prod.split)
qed (simp add: fetch_step_def fetching.keeps_intros)

section \<open>Reconcile adopts once\<close>

lemma seq_tree:
  assumes "seq m f x = (Inr y, (s', w'))"
  obtains a s w where "m x = (Inr a, (s, w))" "f a (s, w) = (Inr y, (s', w'))"
  using assms by (auto elim!: seq_InrE)


text \<open>The sample store with one isolated scope.\<close>

lemma sample_scopes:
  "my_iso_scopes (store_of [mine]) = [''repo.a'']" "filter (adoption (store_of [mine])) (coord_events (store_of [mine])) = []"
  "my_iso_scopes (store_of [mine, theirs]) = [''repo.a'']" "filter (adoption (store_of [mine, theirs])) (coord_events (store_of [mine, theirs])) = []"
  "overlap_in (store_of [mine]) (reduce_lease (coord_events (store_of [mine])) (Some later_time)) ''repo.a'' = None"
  "overlap_in (store_of [mine, theirs]) (reduce_lease (coord_events (store_of [mine, theirs])) (Some later_time)) ''repo.a'' \<noteq> None"
  by code_simp+

lemma same_tables:
  assumes "st_db t = st_db s" "st_node t = st_node s"
  shows "coord_events t = coord_events s" "my_iso_scopes t = my_iso_scopes s" "adoption t = adoption s" "overlap_in t = overlap_in s"
proof -
  show e: "coord_events t = coord_events s" using assms(1) by (simp add: coord_events_def)
  note n = same_node [OF assms(2)]
  show "my_iso_scopes t = my_iso_scopes s" "adoption t = adoption s" by (simp_all add: my_iso_scopes_def n e)
  show "overlap_in t = overlap_in s"
  proof (intro ext)
    fix leases scope
    have m: "not_mine t = not_mine s" by (simp add: fun_eq_iff not_mine_def assms(2))
    have "event_overlap t = event_overlap s" "lease_overlap t = lease_overlap s" "iso_claim_info t = iso_claim_info s"
      unfolding event_overlap_def [abs_def] lease_overlap_def [abs_def] iso_claim_info_def [abs_def] m n [THEN conjunct1] e by (rule refl)+
    then show "overlap_in t leases scope = overlap_in s leases scope" by (simp add: overlap_in_def e cong: option.case_cong)
  qed
qed

lemma pulled_sample:
  assumes "rows \<in> {[mine], [theirs], [mine, theirs], [forged]}"
  obtains x t where "pull_and_reduce None (store_of rows) = (Inr x, t)" "ideal 1000 t" "st_db t = st_db (store_of rows)" "st_node t = ''n1''"
    "\<not> st_synced t" "\<not> st_in_tx t" "st_env t = sample_env"
proof -
  have s: "\<not> st_synced (store_of rows)" "\<not> st_in_tx (store_of rows)" "env_settings_fault (st_env (store_of rows)) k = None" for k
    by (simp_all add: store_of_def sample_store_def sample_env_def)
  show thesis
  proof (rule local_pull [OF s])
    fix x t
    assume t: "pull_and_reduce None (store_of rows) = (Inr x, t)" "st_db t = st_db (store_of rows)" "st_node t = st_node (store_of rows)"
      "st_env t = st_env (store_of rows)" "st_uuid t = st_uuid (store_of rows)" "st_synced t = st_synced (store_of rows)"
      "st_in_tx t = st_in_tx (store_of rows)" "st_clock t = Suc (Suc (st_clock (store_of rows)))"
    have f: "st_env t = sample_env" "st_node t = ''n1''" "\<not> st_synced t" "st_uuid t = 0" "st_clock t = 3" "\<not> st_in_tx t"
      using t by (simp_all add: store_of_def sample_store_def)
    have "ideal 1000 t" by (rule store_of_ideal [OF assms f(1) t(2) f(2,3,4)]) (simp_all add: f)
    with t f show thesis by (intro that)
  qed
qed

lemma adopt_sample:
  assumes "ideal (n + 4) t" "st_node t = ''n1''"
  obtains u where "adopt_scope ''repo.a'' t = (Inr ''repo.a'', u)" "ideal n u"
proof -
  have id: "ideal (n + 2 + 2) t" using assms(1) by (simp add: numeral_eq_Suc)
  have req: "list_all plain_field (redaction_fields ''iso adoption request'' (Some ''repo.a'')
      (Some ([(''mode'', PStr (normalize_lease_mode ''advisory'')), (''ttl_s'', PInt default_ttl)] @ origin_entry None)))"
    using adopting_texts(3) by (simp add: origin_entry_def normalize_lease_mode_def default_ttl_def)
  have so: "str_or (Some ''iso adoption request'') x = ''iso adoption request''" for x by (simp add: str_or_def)
  obtain a u where a: "append_coord_event ''lease'' ''requested'' ''iso adoption request'' (Some ''repo.a'') None
      (Some ([(''mode'', PStr (normalize_lease_mode ''advisory'')), (''ttl_s'', PInt default_ttl)] @ origin_entry None)) None None t = (Inr a, u)"
      "ideal (n + 2) u" "st_node u = ''n1''"
    by (rule sample_appends [OF id assms(2) role_pairs(8) adopting_texts(1) _ req, where epoch = None]) simp
  have mine: "my_iso_sentinel u = PStr ''iso:n1''" by (simp add: my_iso_sentinel_def a(3) iso_sentinel_def last_chars_def)
  obtain b z where b: "append_coord_event ''resolution'' ''recorded'' ''Iso scope repo.a adopted after reconcile.'' (Some ''repo.a'') None
      (Some [(''iso_adopted'', PBool True), (''scope_key'', PStr ''repo.a''), (''iso_sentinel'', PStr ''iso:n1'')]) None None u = (Inr b, z)"
      "ideal n z"
    by (rule sample_appends [OF a(2,3) adopting_texts(5,2) _ adopting_texts(4), where epoch = None]) simp
  have "adopt_scope ''repo.a'' t = (Inr ''repo.a'', z)"
    using a(1) b(1) by (simp add: adopt_scope_def request_lease_def lease_event_def Let_def so seq_def gets_def ret_def mine)
  then show thesis using b(2) by (rule that)
qed


section \<open>Reconcile refuses overlapping work\<close>

text \<open>C16. Overlapping isolated work is never adopted, published or merged: when one awaiting scope overlaps on the
  pulled ledger, reconcile does not return, whatever the other scopes are; the only rows it adds are
  detected conflicts, and whatever \<open>git fetch\<close> leaves true of the work tree still holds.\<close>

theorem reconcile_refuses_overlap:
  assumes "pull_and_reduce None s = (Inr p, t)" "ledger_ok t" "adopted_scopes t = (Inr vs, t)" "scope \<in> set (awaiting t vs)"
    and "overlap_in t (reduce_lease (coord_events t) (Some now)) scope \<noteq> None"
    and "reconcile net runner hub peers allow (Some now) (s, w) = (r, (s', w'))"
    and "\<forall>git. runner = Some git \<longrightarrow> fetches git P" "P w"
  shows "isl r \<and> P w' \<and> set (coord_events t) \<subseteq> set (coord_events s') \<and>
    (\<forall>e \<in> set (coord_events s') - set (coord_events t). is_event ''conflict'' ''detected'' e)"
proof -
  let ?remote = "remote_given runner hub"
  obtain pulled where run: "reconcile_fresh net ?remote peers allow (Some now) pulled (t, w) = (r, (s', w'))"
    using reconcile_pulled [OF assms(1)] assms(6) by metis
  have remote: "fetches git P" if "?remote = Some (git, h)" for git h
    using that assms(7) by (auto simp: remote_given_def split: option.splits if_splits)
  obtain f t1 w1 where f: "fetch_step net peers ?remote (t, w) = (f, (t1, w1))" by (metis prod.exhaust)
  have t1: "t1 = t" "P w1" using keepsD [OF fetching_step f, OF remote] assms(8) by (auto simp: fetched_only_def)
  define ovs where "ovs = List.map_filter (overlap_in t (reduce_lease (coord_events t) (Some now))) (awaiting t vs)"
  have "ovs \<noteq> []" using assms(4,5) by (auto simp: ovs_def List.map_filter_def filter_empty_conv)
  then have refuse: "adopt_or_refuse (Some now) t = seq (record_overlaps (open_iso_conflicts (coord_events t)) ovs) (\<lambda>is. raise (iso_conflict_denied ovs is)) t"
    using assms(3) detect_at [of now "awaiting t vs" t]
    by (simp add: adopt_or_refuse_def seq_def [of adopted_scopes] seq_def [of "gets _"] seq_def [of "detect_all _ _"] gets_def ovs_def)
  show ?thesis
  proof (cases f)
    case (Inl e)
    with f run t1 show ?thesis by (auto simp: reconcile_fresh_def seq_def)
  next
    case (Inr v)
    obtain q u where q: "record_overlaps (open_iso_conflicts (coord_events t)) ovs t = (q, u)" by fastforce
    have "\<exists>e. adopt_or_refuse (Some now) t = (Inl e, u)"
      unfolding refuse using q by (cases q) (simp_all add: seq_def raise_def)
    then have "isl r \<and> s' = u \<and> w' = w1"
      using run f Inr t1 by (auto simp: reconcile_fresh_def seq_def on_store_def)
    with keepsD [OF record_overlaps_adds q] assms(2) t1 show ?thesis by (auto simp: adds_def)
  qed
qed

theorem reconcile_refuses_overlap_witness:
  "\<exists>r s' w'. reconcile \<lparr>gn_env = [], gn_on_tailnet = False, gn_bracket_ok = (\<lambda>_. True)\<rparr> (Some (echo_git ''abc'')) (Some ''/srv/hub.git'') [] True
       (Some later_time) (store_of [mine, theirs], []) = (r, (s', w')) \<and> isl r \<and> list_all (\<lambda>args. take 1 args = [''fetch'']) w'"
proof -
  define net where "net = \<lparr>gn_env = [], gn_on_tailnet = False, gn_bracket_ok = (\<lambda>_. True)\<rparr>"
  obtain p t where pull: "pull_and_reduce None (store_of [mine, theirs]) = (Inr p, t)" and t: "ideal 1000 t" "st_db t = st_db (store_of [mine, theirs])" "st_node t = ''n1''"
    by (rule pulled_sample [of "[mine, theirs]"]) simp
  have n: "st_node t = st_node (store_of [mine, theirs])" by (simp add: t(3) store_of_def sample_store_def)
  note view = same_tables [OF t(2) n]
  have await: "adopted_scopes t = (Inr [], t)" "''repo.a'' \<in> set (awaiting t [])"
    by (simp_all add: adopted_scopes_at view sample_scopes awaiting_def)
  have over: "overlap_in t (reduce_lease (coord_events t) (Some later_time)) ''repo.a'' \<noteq> None"
    unfolding view by (rule sample_scopes(6))
  obtain r s' w' where run: "reconcile net (Some (echo_git ''abc'')) (Some ''/srv/hub.git'') [] True (Some later_time) (store_of [mine, theirs], []) = (r, (s', w'))"
    by (metis prod.exhaust)
  have P: "fetches (echo_git ''abc'') (\<lambda>w. list_all (\<lambda>args. take 1 args = [''fetch'']) w)"
    by (auto simp: fetches_def echo_git_def)
  have "isl r \<and> list_all (\<lambda>args. take 1 args = [''fetch'']) w'"
    using reconcile_refuses_overlap [OF pull idealD(1) [OF t(1)] await over run, where P = "\<lambda>w. list_all (\<lambda>args. take 1 args = [''fetch'']) w"] P
    by simp
  with run show ?thesis unfolding net_def by blast
qed

section \<open>Published means listed\<close>

definition pushed_and_listed :: "'w git \<Rightarrow> string \<Rightarrow> string \<Rightarrow> bool" where
  "pushed_and_listed git hub branch \<longleftrightarrow> (\<exists>w0 rev w1 pushed w2 ls w3. git [''rev-parse'', branch] w0 = (Inr rev, w1) \<and>
     git [''push'', hub, branch] w1 = (Inr pushed, w2) \<and> git [''ls-remote'', hub] w2 = (Inr ls, w3) \<and>
     go_code rev = 0 \<and> go_code pushed = 0 \<and> go_code ls = 0 \<and> listed_sha (py_strip (opt_str (go_stdout rev))) (opt_str (go_stdout ls)))"

lemma push_confirmed:
  assumes "iso_push_and_confirm git hub branch w = (Inr (Some sha), w')"
  shows "pushed_and_listed git hub branch"
proof -
  obtain rev w1 where rev: "git [''rev-parse'', branch] w = (Inr rev, w1)"
    and r1: "(let sha = py_strip (opt_str (go_stdout rev)) in
     if go_code rev \<noteq> 0 \<or> sha = [] then ret None
     else seq (git [''push'', hub, branch]) (\<lambda>pushed.
       if go_code pushed \<noteq> 0 then ret None
       else seq (git [''ls-remote'', hub]) (\<lambda>ls.
         if go_code ls \<noteq> 0 then ret None
         else ret (if listed_sha sha (opt_str (go_stdout ls)) then Some sha else None)))) w1 = (Inr (Some sha), w')"
    using assms [unfolded iso_push_and_confirm_def] by (rule seq_InrE)
  from r1 have code: "go_code rev = 0" by (auto simp: Let_def split: if_splits)
  with r1 obtain pushed w2 where push: "git [''push'', hub, branch] w1 = (Inr pushed, w2)" "go_code pushed = 0"
    and r2: "seq (git [''ls-remote'', hub]) (\<lambda>ls. if go_code ls \<noteq> 0 then ret None
         else ret (if listed_sha (py_strip (opt_str (go_stdout rev))) (opt_str (go_stdout ls)) then Some (py_strip (opt_str (go_stdout rev))) else None)) w2 =
      (Inr (Some sha), w')"
    by (auto simp: Let_def split: if_splits elim!: seq_InrE)
  obtain ls where "git [''ls-remote'', hub] w2 = (Inr ls, w')" "go_code ls = 0"
      "listed_sha (py_strip (opt_str (go_stdout rev))) (opt_str (go_stdout ls))"
    using r2 by (auto split: if_splits elim!: seq_InrE)
  with rev push code show ?thesis unfolding pushed_and_listed_def by blast
qed

text \<open>A branch is reported as published only with publication enabled, and only when a push of that branch
  to the hub succeeded and the hub's listing that followed names the sha the branch had before the push.\<close>

theorem published_means_listed:
  assumes "publish_iso_branches git hub allow scopes w = (Inr (published, would), w')" "branch \<in> set published"
  shows "allow \<and> pushed_and_listed git hub branch"
  using assms
proof (induction scopes arbitrary: w published would)
  case (Cons scope scopes)
  obtain found w1 where "first_local git (branch_candidates scope) w = (Inr found, w1)"
    and rest: "(case found of
       None \<Rightarrow> publish_iso_branches git hub allow scopes
     | Some branch \<Rightarrow>
         seq (if allow then seq (iso_push_and_confirm git hub branch) (\<lambda>sha.
                  ret (if sha \<noteq> None then ([branch], []) else ([], [[(''branch'', PStr branch), (''push_failed'', PBool True)]])))
              else ret ([], [[(''branch'', PStr branch), (''reason'', PStr ''publish not enabled (owner-gated)'')]])) (\<lambda>(p, w).
         seq (publish_iso_branches git hub allow scopes) (\<lambda>(ps, ws). ret (p @ ps, w @ ws)))) w1 = (Inr (published, would), w')"
    using Cons.prems(1) [unfolded publish_iso_branches.simps] by (rule seq_InrE)
  show ?case
  proof (cases found)
    case None
    then have "publish_iso_branches git hub allow scopes w1 = (Inr (published, would), w')" using rest by simp
    from Cons.IH [OF this Cons.prems(2)] show ?thesis .
  next
    case (Some b)
    obtain x xs w2 where one: "(if allow then seq (iso_push_and_confirm git hub b) (\<lambda>sha.
                  ret (if sha \<noteq> None then ([b], []) else ([], [[(''branch'', PStr b), (''push_failed'', PBool True)]])))
              else ret ([], [[(''branch'', PStr b), (''reason'', PStr ''publish not enabled (owner-gated)'')]])) w1 = (Inr (x, xs), w2)"
      and two: "seq (publish_iso_branches git hub allow scopes) (\<lambda>(ps, ws). ret (x @ ps, xs @ ws)) w2 = (Inr (published, would), w')"
      using rest [unfolded Some option.case] by (rule seq_InrE) auto
    obtain ps ws where three: "publish_iso_branches git hub allow scopes w2 = (Inr (ps, ws), w')" and pub: "published = x @ ps"
      using two by (auto elim!: seq_InrE)
    show ?thesis
    proof (cases "branch \<in> set ps")
      case True
      then show ?thesis by (rule Cons.IH [OF three])
    next
      case False
      with Cons.prems(2) pub have "branch \<in> set x" by simp
      with one have "allow" "branch = b" "\<exists>sha w3. iso_push_and_confirm git hub b w1 = (Inr (Some sha), w3)"
        by (auto split: if_splits elim!: seq_InrE)
      then obtain sha w3 where "iso_push_and_confirm git hub b w1 = (Inr (Some sha), w3)" by blast
      from push_confirmed [OF this] \<open>allow\<close> \<open>branch = b\<close> show ?thesis by simp
    qed
  qed
qed simp

text \<open>A git whose only branch is pushed and listed under the sha \<open>abc\<close>.\<close>

theorem published_means_listed_witness:
  "\<exists>w'. publish_iso_branches (echo_git ''abc'') ''/srv/hub.git'' True [''repo/a''] [] = (Inr ([''repo/a''], []), w') \<and>
     pushed_and_listed (echo_git ''abc'') ''/srv/hub.git'' ''repo/a''"
proof -
  have "fst (publish_iso_branches (echo_git ''abc'') ''/srv/hub.git'' True [''repo/a''] []) = Inr ([''repo/a''], [])" by code_simp
  then obtain w' where run: "publish_iso_branches (echo_git ''abc'') ''/srv/hub.git'' True [''repo/a''] [] = (Inr ([''repo/a''], []), w')"
    by (metis prod.collapse)
  with published_means_listed [OF run] show ?thesis by simp
qed

end
