(* ===== verification/Coord_Steps.thy ===== *)
theory Coord_Steps imports Coord_Theorems begin

text \<open>
  Runs of a node: any sequence of coordination operations, whether each returns or raises, as a
  step relation with its reachable states. The invariants of every run are here: the ledger stays
  well-kept and loses no row, and off the hub no two grants of the role ever bear the same epoch.
\<close>

inductive coord_step :: "store \<Rightarrow> store \<Rightarrow> bool" where
  claim: "claim_coordinator mode isolated summary s = (r, s') \<Longrightarrow> coord_step s s'"
| transfer: "transfer_coordinator to_node isolated summary assumed s = (r, s') \<Longrightarrow> coord_step s s'"
| release_role: "release_coordinator summary s = (r, s') \<Longrightarrow> coord_step s s'"
| request: "request_lease scope mode ttl summary origin s = (r, s') \<Longrightarrow> coord_step s s'"
| grant: "grant_lease scope holder mode ttl summary assumed s = (r, s') \<Longrightarrow> coord_step s s'"
| renew: "renew_lease scope mode ttl summary assumed s = (r, s') \<Longrightarrow> coord_step s s'"
| release: "release_lease scope summary origin s = (r, s') \<Longrightarrow> coord_step s s'"
| revoke: "revoke_lease scope summary assumed s = (r, s') \<Longrightarrow> coord_step s s'"
| sweep: "sweep_expired now s = (rs, s') \<Longrightarrow> coord_step s s'"

inductive_cases coord_stepE: "coord_step s s'"

inductive coord_run :: "store \<Rightarrow> store \<Rightarrow> bool" where
  start: "coord_run s s"
| step: "coord_run s t \<Longrightarrow> coord_step t u \<Longrightarrow> coord_run s u"

lemma step_grows: "coord_step s s' \<Longrightarrow> grows s s'"
  by (erule coord_stepE)
    (auto intro: claim.step transfer.step release_role.step request.step grant.step renew.step release.step revoke.step sweep.step)

lemma run_grows: "coord_run s s' \<Longrightarrow> grows s s'"
  by (induction rule: coord_run.induct) (auto intro: growth.refl growth.trans step_grows)



section \<open>Fencing epochs are unique\<close>

definition role_grants :: "store \<Rightarrow> event set" where
  "role_grants s = {e \<in> set (coord_events s). is_event ''coordinator'' ''granted'' e}"

text \<open>\<open>no_grant s s'\<close>: off the hub, the ledger stays well-kept and gains no grant of the role.\<close>

definition no_grant :: "store \<Rightarrow> store \<Rightarrow> bool" where
  "no_grant s s' \<longleftrightarrow> (ledger_ok s \<and> \<not> st_synced s \<longrightarrow> ledger_ok s' \<and> \<not> st_synced s' \<and> role_grants s' = role_grants s)"

interpretation bare: state_preorder no_grant
  by unfold_locales (auto simp: no_grant_def)

lemma bare_append:
  assumes "\<not> (kind = ''coordinator'' \<and> marker = ''granted'')"
  shows "keeps no_grant (append_coord_event kind marker summary scope epoch payload project None)"
  unfolding keeps_def
proof
  fix s
  obtain r s' where run: "append_coord_event kind marker summary scope epoch payload project None s = (r, s')" by fastforce
  have "no_grant s s'"
    unfolding no_grant_def
  proof (intro impI, elim conjE)
    assume "ledger_ok s" "\<not> st_synced s"
    with run assms show "ledger_ok s' \<and> \<not> st_synced s' \<and> role_grants s' = role_grants s"
      by (elim append_any) (auto simp: role_grants_def goes_on_def is_event_def)
  qed
  with run show "no_grant s (snd (append_coord_event kind marker summary scope epoch payload project None s))" by simp
qed

lemma bare_parts [simp, intro]:
  "marker \<noteq> ''granted'' \<Longrightarrow> keeps no_grant (coordinator_event marker summary epoch payload)"
  "keeps no_grant (lease_event lm ls scope le lp)" "keeps no_grant (contested_conflict cs b c n)"
  "keeps no_grant (fence_check assumed m fs)" "keeps no_grant require_coordinator" "keeps no_grant now_iso"
  "keeps no_grant next_clock"
proof -
  show "marker \<noteq> ''granted'' \<Longrightarrow> keeps no_grant (coordinator_event marker summary epoch payload)"
      "keeps no_grant (lease_event lm ls scope le lp)" "keeps no_grant (contested_conflict cs b c n)"
    unfolding coordinator_event_def lease_event_def contested_conflict_def by (rule bare_append, simp)+
  show "keeps no_grant (fence_check assumed m fs)"
    unfolding fence_check_def by (auto intro!: bare.keeps_intros bare_append split: option.split)
  show "keeps no_grant require_coordinator" by (simp add: keeps_def require_coordinator_def Let_def bare.refl)
  show clock: "keeps no_grant next_clock"
    by (auto simp: keeps_def no_grant_def role_grants_def coord_events_def intro: ledger_ok_goes_on)
  show "keeps no_grant now_iso" unfolding now_iso_def by (intro bare.keeps_intros clock)
qed

lemma bare_reads [simp, intro]:
  "keeps no_grant current_leases" "keeps no_grant (expires_at now ttl)" "keeps no_grant (assert_authoritative_free scope allowed)"
proof -
  show leases: "keeps no_grant current_leases" unfolding current_leases_def by (intro bare.keeps_intros bare_parts)
  show "keeps no_grant (expires_at now ttl)"
    unfolding expires_at_def by (auto intro!: bare.keeps_intros split: option.split)
  show "keeps no_grant (assert_authoritative_free scope allowed)"
    unfolding assert_authoritative_free_def by (auto intro!: bare.keeps_intros leases split: option.split)
qed

lemma bare_probe [simp, intro]: "keeps no_grant (authoritative_freshness scope)" "keeps no_grant assert_isolated"
proof -
  have synced: "no_grant s t" if "st_synced s" for s t using that by (simp add: no_grant_def)
  show "keeps no_grant (authoritative_freshness scope)"
  proof (rule keepsI)
    fix s show "no_grant s (snd (authoritative_freshness scope s))"
      by (cases "st_synced s") (simp_all add: synced, simp add: authoritative_freshness_def bare.refl)
  qed
  show "keeps no_grant assert_isolated"
  proof (rule keepsI)
    fix s show "no_grant s (snd (assert_isolated s))"
      by (cases "st_synced s") (simp_all add: synced, simp add: assert_isolated_def bare.refl)
  qed
qed

lemma bare_case:
  "keeps no_grant m \<Longrightarrow> (\<And>l. keeps no_grant (f l)) \<Longrightarrow> keeps no_grant (case x of None \<Rightarrow> m | Some l \<Rightarrow> f l)"
  by (cases x) simp_all

lemmas bare_intros = bare_case bare.keeps_intros bare_parts bare_reads bare_probe

lemma bare_append_grant: "keeps no_grant (append_grant c scope holder mode ttl summary)"
  unfolding append_grant_def by (intro bare_intros, rule keepsI, rule keeps_at, intro bare_intros)

lemma bare_leases:
  "keeps no_grant (request_lease scope mode ttl summary origin)" "keeps no_grant (grant_lease scope holder mode ttl summary assumed)"
  "keeps no_grant (renew_lease scope mode ttl summary assumed)" "keeps no_grant (release_lease scope summary origin)"
  "keeps no_grant (revoke_lease scope summary assumed)" "keeps no_grant (sweep_expired now)"
proof -
  show "keeps no_grant (request_lease scope mode ttl summary origin)"
    unfolding request_lease_def Let_def by (intro bare_intros)
  show "keeps no_grant (grant_lease scope holder mode ttl summary assumed)"
    unfolding grant_lease_def Let_def by (intro bare_intros bare_append_grant)
  show "keeps no_grant (renew_lease scope mode ttl summary assumed)"
    unfolding renew_lease_def Let_def by (intro bare_intros, rule keepsI, rule keeps_at, intro bare_intros bare_append_grant)
  show "keeps no_grant (release_lease scope summary origin)"
    unfolding release_lease_def Let_def by (intro bare_intros, rule keepsI, rule keeps_at, intro bare_intros)
  show "keeps no_grant (revoke_lease scope summary assumed)"
    unfolding revoke_lease_def by (intro bare_intros)
  have one: "keeps no_grant (sweep_one sl)" for sl
    by (cases sl) (simp add: sweep_one_def, intro bare_intros)
  show "keeps no_grant (sweep_expired now)"
    unfolding sweep_expired_def by (intro bare_intros, rule keepsI, rule keeps_at, intro bare_intros one)
qed

lemma bare_release_role: "keeps no_grant (release_coordinator summary)"
  unfolding release_coordinator_def Let_def by (intro bare_intros, rule keepsI, rule keeps_at, intro bare_intros) simp

text \<open>\<open>one_grant s s'\<close>: it gains at most one grant of the role, above all the others.\<close>

definition one_grant :: "store \<Rightarrow> store \<Rightarrow> bool" where
  "one_grant s s' \<longleftrightarrow> (ledger_ok s \<and> \<not> st_synced s \<longrightarrow> ledger_ok s' \<and> \<not> st_synced s' \<and>
     (role_grants s' = role_grants s \<or>
      (\<exists>g. role_grants s' = insert g (role_grants s) \<and> (\<forall>e \<in> role_grants s. event_epoch e < event_epoch g))))"

lemma no_grant_one: "no_grant s s' \<Longrightarrow> one_grant s s'"
  by (auto simp: no_grant_def one_grant_def)

lemma grant_between:
  assumes before: "keeps no_grant m" and after: "\<And>a b. keeps no_grant (k a b)"
    and high: "\<And>e. e \<in> role_grants s \<Longrightarrow> event_epoch e < n"
  shows "one_grant s (snd (seq m (\<lambda>a. seq (coordinator_event ''granted'' x n p) (k a)) s))"
  unfolding one_grant_def
proof (intro impI, elim conjE)
  assume ok: "ledger_ok s" "\<not> st_synced s"
  obtain q t where m: "m s = (q, t)" by fastforce
  have t: "ledger_ok t" "\<not> st_synced t" "role_grants t = role_grants s"
    using keepsD [OF before m] ok by (simp_all add: no_grant_def)
  show "ledger_ok (snd (seq m (\<lambda>a. seq (coordinator_event ''granted'' x n p) (k a)) s)) \<and>
      \<not> st_synced (snd (seq m (\<lambda>a. seq (coordinator_event ''granted'' x n p) (k a)) s)) \<and>
      (role_grants (snd (seq m (\<lambda>a. seq (coordinator_event ''granted'' x n p) (k a)) s)) = role_grants s \<or>
       (\<exists>g. role_grants (snd (seq m (\<lambda>a. seq (coordinator_event ''granted'' x n p) (k a)) s)) = insert g (role_grants s) \<and>
         (\<forall>e \<in> role_grants s. event_epoch e < event_epoch g)))" (is "?P (snd (seq m _ s))")
  proof (cases q)
    case (Inl e)
    with m t show ?thesis by (simp add: seq_def)
  next
    case (Inr a)
    obtain y u where e: "coordinator_event ''granted'' x n p t = (y, u)" by fastforce
    from e [unfolded coordinator_event_def] t(1)
    have u: "ledger_ok u \<and> \<not> st_synced u \<and> (role_grants u = role_grants s \<or>
        (\<exists>g. role_grants u = insert g (role_grants s) \<and> event_epoch g = n))"
    proof (rule append_any)
      assume "coord_events u = coord_events t" "ledger_ok u" "goes_on t u"
      then show ?thesis using t by (simp add: role_grants_def goes_on_def)
    next
      fix g assume g: "set (coord_events u) = insert g (set (coord_events t))" "ev_kind g = Some ''coordinator''"
        "ev_marker g = Some ''granted''" "event_epoch g = (case Some n of None \<Rightarrow> - 1 | Some n \<Rightarrow> n)" "ledger_ok u" "goes_on t u"
      then have "role_grants u = insert g (role_grants s)"
        unfolding t(3) [symmetric] by (auto simp: role_grants_def is_event_def)
      with g t(2) show ?thesis by (auto simp: goes_on_def)
    qed
    show ?thesis
    proof (cases y)
      case (Inl z)
      with m Inr e u high show ?thesis by (auto simp: seq_def)
    next
      case y: (Inr b)
      obtain w v where k: "k a b u = (w, v)" by fastforce
      have "ledger_ok v" "\<not> st_synced v" "role_grants v = role_grants u"
        using keepsD [OF after k] u by (simp_all add: no_grant_def)
      with m Inr e y k u high show ?thesis by (auto simp: seq_def)
    qed
  qed
qed

lemma grant_epochs_below: "e \<in> role_grants s \<Longrightarrow> event_epoch e \<le> store_max_epoch s"
  by (simp add: role_grants_def store_max_epoch_def max_epoch_ge)

lemma one_claim: "one_grant s (snd (claim_coordinator mode isolated summary s))"
proof -
  let ?n = "max 1 (store_max_epoch s + 1)"
  have high: "event_epoch e < ?n" if "e \<in> role_grants s" for e using grant_epochs_below [OF that] by simp
  have role: "one_grant s (snd (claim_role mode isolated summary s))"
  proof -
    have "keeps no_grant (claim_contested summary node mode' iso c n)" for node mode' iso c n
      unfolding claim_contested_def by (intro bare_intros) simp
    from no_grant_one [OF keeps_at [where R = no_grant, OF this]]
    have contested: "one_grant s (snd (claim_contested summary node mode' iso c n s))" for node mode' iso c n .
    have vacant: "one_grant s (snd (claim_vacant summary node mode' isolated ?n s))" for node mode'
      unfolding claim_vacant_def Let_def by (rule grant_between [OF _ _ high]) (simp_all add: bare.keeps_pure)
    have "one_grant s (snd (claim_assume summary node mode' c ?n s))" for node mode' c
      unfolding claim_assume_def Let_def
      by (rule grant_between [OF _ _ high]) (simp, intro bare_intros)
    with contested vacant show ?thesis by (simp add: claim_role_def Let_def no_grant_one bare.refl)
  qed
  show ?thesis
  proof (cases "isolated \<and> st_synced s")
    case True
    then show ?thesis by (simp add: one_grant_def)
  next
    case False
    then show ?thesis using role by (simp add: claim_runs)
  qed
qed

lemma one_transfer: "one_grant s (snd (transfer_coordinator to_node isolated summary assumed s))"
proof -
  have rest: "one_grant s (snd (seq (coordinator_event ''released'' x m p) (\<lambda>a. seq (coordinator_event ''granted'' y n q) (\<lambda>b. ret (f a b))) s))"
    if "\<And>e. e \<in> role_grants s \<Longrightarrow> event_epoch e < n" for x m p y n q f
    by (rule grant_between [OF _ _ that]) (simp_all add: bare.keeps_pure)
  have high: "event_epoch e < max c (store_max_epoch s) + 1" if "e \<in> role_grants s" for e c
    using grant_epochs_below [OF that] by simp
  obtain q t where r: "require_coordinator s = (q, t)" by fastforce
  show ?thesis
  proof (cases q)
    case (Inl e)
    with r show ?thesis
      by (auto simp: transfer_coordinator_def seq_def [of require_coordinator] require_coordinator_def Let_def
          intro!: no_grant_one bare.refl split: if_splits)
  next
    case (Inr c)
    note c = require_ok [OF r [unfolded Inr]]
    let ?k = "\<lambda>_. \<lambda>s. let cur = cp_epoch c; epoch = max cur (store_max_epoch s) + 1; node = st_node s; mode = cp_mode c in
     seq (coordinator_event ''released'' (str_or summary (''Coordinator role released at epoch '' @ int_str cur @ '' for transfer.'')) cur
       (Some [(''to_node'', PStr to_node)])) (\<lambda>released.
     seq (coordinator_event ''granted'' (str_or summary (''Coordinator role transferred to '' @ to_node @ '' at epoch '' @ int_str epoch @ ''.'')) epoch
       (Some (coordinator_payload node mode isolated (Some to_node)))) (\<lambda>granted.
     ret ([(''status'', PStr ''OK''), (''from_node'', PStr node), (''to_node'', PStr to_node), (''epoch'', PInt epoch),
           (''mode'', PStr mode), (''released_id'', PStr (ar_id released)), (''granted_id'', PStr (ar_id granted))]
          @ iso_result node isolated))) s"
    have split: "transfer_coordinator to_node isolated summary assumed s = seq (fence_check assumed (cp_epoch c) None) ?k s"
      using r Inr c by (simp add: transfer_coordinator_def)
    obtain y u where f: "fence_check assumed (cp_epoch c) None s = (y, u)" by fastforce
    show ?thesis
    proof (cases y)
      case (Inl e)
      have "no_grant s u" using bare_parts(4) f by (rule keepsD)
      with Inl f split show ?thesis by (simp add: no_grant_one)
    next
      case (Inr v)
      with fence_ok [of assumed "cp_epoch c" None s v u] f have "u = s" by simp
      with Inr f split rest [OF high] show ?thesis by (simp add: Let_def)
    qed
  qed
qed

text \<open>C2. Off the hub, no run of coordination operations, whatever they return or raise, ever gives two
  grants of the coordinator role the same epoch: the epoch is a fencing token of its grant.\<close>

theorem fencing_epochs_unique:
  assumes "ledger_ok s" "\<not> st_synced s" "inj_on event_epoch (role_grants s)" "coord_run s s'"
  shows "inj_on event_epoch (role_grants s')"
proof -
  have one: "one_grant t u" if "coord_step t u" for t u
    using that
  proof (rule coord_stepE)
    show "claim_coordinator mode isolated summary t = (r, u) \<Longrightarrow> one_grant t u" for mode isolated summary r
      using one_claim by (metis snd_conv)
    show "transfer_coordinator to_node isolated summary assumed t = (r, u) \<Longrightarrow> one_grant t u" for to_node isolated summary assumed r
      using one_transfer by (metis snd_conv)
  qed (rule no_grant_one, erule keepsD [rotated], rule bare_release_role bare_leases)+
  from assms(4,1-3) have "ledger_ok s' \<and> \<not> st_synced s' \<and> inj_on event_epoch (role_grants s')"
  proof (induction rule: coord_run.induct)
    case (step s t u)
    then have t: "ledger_ok t" "\<not> st_synced t" "inj_on event_epoch (role_grants t)" by simp_all
    then consider "ledger_ok u" "\<not> st_synced u" "role_grants u = role_grants t"
      | g where "ledger_ok u" "\<not> st_synced u" "role_grants u = insert g (role_grants t)"
          "\<forall>e \<in> role_grants t. event_epoch e < event_epoch g"
      using one [OF step(2)] unfolding one_grant_def by blast
    then show ?case
    proof cases
      case 1
      with t show ?thesis by simp
    next
      case 2
      then have "event_epoch g \<notin> event_epoch ` role_grants t" by auto
      with 2 t show ?thesis by (auto simp: inj_on_insert)
    qed
  qed simp
  then show ?thesis by blast
qed

theorem fencing_epochs_unique_witness:
  "\<exists>r s s' q. claim_coordinator ''pinned'' False (Some ''ok'') (sample_store False) = (Inr r, s) \<and>
     claim_coordinator ''roaming'' False None s = (q, s') \<and> inj_on event_epoch (role_grants s')"
proof -
  have "ideal (996 + 4) (sample_store False)" using sample_ideal by simp
  then obtain r s where run: "claim_coordinator ''pinned'' False (Some ''ok'') (sample_store False) = (Inr r, s)"
    by (rule claim_returns [where x = "''ok''" and mode = "''pinned''"]) (simp_all add: sample_start)
  obtain q s' where again: "claim_coordinator ''roaming'' False None s = (q, s')" by fastforce
  have "coord_run (sample_store False) s'"
    by (rule coord_run.step [OF coord_run.step [OF coord_run.start coord_step.claim [OF run]] coord_step.claim [OF again]])
  moreover have "inj_on event_epoch (role_grants (sample_store False))" by (simp add: role_grants_def)
  ultimately have "inj_on event_epoch (role_grants s')"
    using fencing_epochs_unique [OF idealD(1) [OF sample_ideal], of False s'] by simp
  with run again show ?thesis by blast
qed

end
