(* ===== verification/Store_Theorems.thy ===== *)
theory Store_Theorems imports Ideal_Store Sync_Laws begin

text \<open>
  The properties of the store: the append, its replay and its gates, the atomicity of the write
  transaction, the epoch watermark, and the guard of the sync engine.
\<close>

section \<open>Appending\<close>

text \<open>C35. Appending to a well-kept ledger either raises, and then the ledger is as it was, or adds
  exactly one row at its end: a new id, a timestamp later than every row of the node, the content
  hash of the row and its signature; in both cases no transaction is left open.\<close>

theorem append_adds_one_row:
  assumes "ledger_ok s" "\<not> st_in_tx s"
    and "append_coord_event kind marker summary scope epoch payload project None s = (r, s')"
  shows "\<not> st_in_tx s' \<and> ledger_ok s' \<and>
    (case r of
       Inl e \<Rightarrow> st_db s' = st_db s
     | Inr a \<Rightarrow> \<exists>row. fd_events (st_db s') = fd_events (st_db s) @ [row] \<and> cr_id row = ar_id a \<and>
         cr_kind row = kind \<and> cr_marker row = marker \<and> cr_scope row = scope \<and> cr_epoch row = epoch \<and>
         (\<forall>q \<in> set (fd_events (st_db s)). cr_id q \<noteq> cr_id row \<and>
            (cr_node q = st_node s \<longrightarrow> cr_created q < cr_created row)) \<and>
         cr_hash row = utc_text_hash (st_env s) (row_core row) \<and> cr_sig row = env_sign (st_env s) (cr_hash row))"
proof -
  have g: "grows s s'" using append_grows assms(3) by (rule keepsD)
  show ?thesis
    using assms(3)
  proof (cases rule: append_coord_event_cases)
    case (raised e)
    with growsD [OF g] assms show ?thesis by simp
  next
    case (added a row)
    from fresh_row_ok(2,3) [OF assms(1) added(2,10,11)] added growsD(2) [OF g assms(1)] show ?thesis
      by (auto simp: fresh_row_def)
  next
    case (replayed a q)
    then obtain x where "cr_id q = x @ env_uuid (st_env s) (st_uuid s)" using ends_id by auto
    with assms(1) replayed(4) show ?thesis unfolding ledger_ok_def rows_ok_def by blast
  qed
qed

lemma sample_append:
  obtains a s' where "append_coord_event ''lease'' ''requested'' ''ok'' None None None None None (sample_store False) = (Inr a, s')"
proof -
  have "kind_marker_ok ''lease'' ''requested''" "texts_fit ''n1'' ''ok'' None None" "plain_text ''ok''" by code_simp+
  then have "append_gate (st_env (sample_store False)) (st_node (sample_store False)) ''lease'' ''requested'' ''ok'' None None None None = Inr ()"
    by (subst append_gate_iff) (simp_all add: redaction_fields_def dict_merge_def clean_def plain_text_clean)
  moreover have "ideal (Suc (Suc 998)) (sample_store False)" using sample_ideal by simp
  ultimately show thesis using that by (rule_tac append_returns)
qed

theorem append_adds_one_row_witness:
  "\<exists>a s' row. append_coord_event ''lease'' ''requested'' ''ok'' None None None None None (sample_store False) = (Inr a, s') \<and>
     fd_events (st_db s') = [row] \<and> cr_id row = ar_id a \<and> \<not> st_in_tx s'"
proof -
  obtain a s' where run: "append_coord_event ''lease'' ''requested'' ''ok'' None None None None None (sample_store False) = (Inr a, s')"
    by (rule sample_append)
  have "\<not> st_in_tx (sample_store False)" by (simp add: sample_store_def)
  from append_adds_one_row [OF idealD(1) [OF sample_ideal] this run] run show ?thesis by auto
qed

text \<open>An append that carries a source reference already in the ledger changes no table: it raises,
  or reports the row that bears the reference.\<close>

theorem append_replays:
  assumes "q \<in> set (fd_events (st_db s))" "cr_source q = Some source" "source \<noteq> []"
    and "append_coord_event kind marker summary scope epoch payload project (Some source) s = (r, s')"
  shows "st_db s' = st_db s \<and> (\<forall>a. r = Inr a \<longrightarrow> ar_deduped a)"
  using assms(4)
proof (cases rule: append_coord_event_cases)
  case (added a row)
  with assms(1-3) show ?thesis by (auto simp: fresh_row_def row_conflicts_def list_ex_iff)
qed simp_all

theorem append_replays_witness:
  "\<exists>s r s'. append_coord_event ''lease'' ''requested'' ''ok'' None None None None (Some ''ref'') s = (r, s') \<and>
     length (fd_events (st_db s)) = 1 \<and> st_db s' = st_db s"
proof -
  let ?q = "\<lparr>cr_id = ''a'', cr_created = ''t'', cr_node = ''n2'', cr_project = None, cr_kind = ''lease'', cr_marker = ''requested'',
      cr_scope = None, cr_epoch = None, cr_payload_json = None, cr_source = Some ''ref'', cr_hash = ''h'', cr_sig = None\<rparr>"
  define s where "s = sample_store False\<lparr>st_db := \<lparr>fd_events = [?q], fd_nodes = [], fd_dispatches = []\<rparr>\<rparr>"
  obtain r s' where run: "append_coord_event ''lease'' ''requested'' ''ok'' None None None None (Some ''ref'') s = (r, s')" by fastforce
  have "st_db s' = st_db s" using append_replays [OF _ _ _ run, of ?q] by (simp add: s_def)
  moreover have "length (fd_events (st_db s)) = 1" by (simp add: s_def)
  ultimately show ?thesis using run by blast
qed

text \<open>With no accelerator installed, the gates of an append accept exactly the registered pairs of
  kind and marker whose texts are present and within their limits, whose epoch is not negative,
  and none of whose payload texts, at any depth, matches a secret pattern.\<close>

theorem append_accepts_iff:
  assumes "env_jsonschema env = None"
  shows "append_gate env node kind marker summary scope epoch payload project = Inr () \<longleftrightarrow>
    kind_marker_ok kind marker \<and> texts_fit node summary scope project \<and>
    (case epoch of None \<Rightarrow> True | Some n \<Rightarrow> 0 \<le> n) \<and>
    list_all (\<lambda>(name, v). clean v) (redaction_fields summary scope payload)"
  by (rule append_gate_iff [OF assms])

theorem append_accepts_iff_witness:
  "\<exists>e. append_gate sample_env ''n1'' ''lease'' ''nosuch'' ''ok'' None None None None = Inl e"
proof -
  have "\<not> kind_marker_ok ''lease'' ''nosuch''" by code_simp
  then have "append_gate sample_env ''n1'' ''lease'' ''nosuch'' ''ok'' None None None None \<noteq> Inr ()"
    using append_accepts_iff [of sample_env "''n1''" "''lease''" "''nosuch''" "''ok''" None None None None] by simp
  then show ?thesis by (cases "append_gate sample_env ''n1'' ''lease'' ''nosuch'' ''ok'' None None None None") auto
qed

section \<open>The write transaction\<close>



section \<open>The sync engine\<close>

text \<open>While a local transaction is open, a pull, a push and a checkpoint are refused with
  \<open>DENIED_SYNC_IN_TX\<close> before the engine is called, and the store is as it was.\<close>

theorem sync_refused_in_tx:
  assumes "st_in_tx s" "op \<in> {pull, push, checkpoint}"
  shows "\<exists>e. op s = (Inl e, s) \<and> exn_code e = ''DENIED_SYNC_IN_TX'' \<and> exn_exit e = 2"
  using assms
  by (auto simp: pull_def push_def checkpoint_def sync_op_def sync_guard_def seq_def)

theorem sync_refused_in_tx_witness:
  "\<exists>e. pull (sample_store True\<lparr>st_in_tx := True\<rparr>) = (Inl e, sample_store True\<lparr>st_in_tx := True\<rparr>) \<and>
     exn_code e = ''DENIED_SYNC_IN_TX''"
  using sync_refused_in_tx [of "sample_store True\<lparr>st_in_tx := True\<rparr>" pull] by auto

section \<open>The watermark\<close>

lemma digits_us_val:
  "list_all is_digit cs \<Longrightarrow> after \<or> cs \<noteq> [] \<Longrightarrow> digits_us after cs n = Some (foldl (\<lambda>n c. 10 * n + digit_val c) n cs)"
  by (induction cs arbitrary: after n) auto

lemma strip_digits: "list_all is_digit cs \<Longrightarrow> py_strip cs = cs"
proof -
  assume d: "list_all is_digit cs"
  have "\<not> is_space c" if "is_digit c" for c using that by (auto simp: is_space_def is_digit_def Let_def)
  then have keep: "list_all is_digit xs \<Longrightarrow> dropWhile is_space xs = xs" for xs by (cases xs) auto
  have "list_all is_digit (rev cs)" using d by (simp add: list_all_iff)
  with keep d show ?thesis by (simp add: py_strip_def)
qed

lemma int_of_int_str:
  assumes "0 \<le> n" shows "int_of_str (int_str n) = Some n"
proof -
  note d = pos_str_digits [OF assms]
  obtain c cs where c: "pos_str n = c # cs" using pos_str_not_Nil [of n] by (cases "pos_str n") auto
  with d have "c \<noteq> CHR ''-''" "c \<noteq> CHR ''+''" by (auto simp: is_digit_def)
  moreover have "digits_us False (pos_str n) 0 = Some n"
    using digits_us_val [OF d, of False 0] digits_val_pos_str [OF assms] by (simp add: digits_val_def)
  ultimately show ?thesis
    using assms strip_digits [OF d] c by (simp add: int_of_str_def int_str_def)
qed

lemma parse_watermark_str: "0 \<le> n \<Longrightarrow> parse_watermark (Some (int_str n)) = n"
  by (simp add: parse_watermark_def int_of_int_str) (simp add: int_str_def)

definition stored_watermark :: "store \<Rightarrow> string \<Rightarrow> int" where
  "stored_watermark s project = parse_watermark (map_of (st_settings s) (watermark_key project))"

lemma watermark_at:
  "\<forall>k. env_settings_fault (st_env s) k = None \<Longrightarrow>
     watermark project s = (Inr (stored_watermark s project), s\<lparr>st_settings_ops := Suc (st_settings_ops s)\<rparr>)"
  by (simp add: watermark_def get_setting_def settings_fault_def seq_def gets_def stored_watermark_def parse_watermark_def some_if_def)

lemma stored_watermark_clock [simp]: "stored_watermark (s\<lparr>st_clock := k\<rparr>) p = stored_watermark s p"
  by (simp add: stored_watermark_def)

text \<open>Recording an epoch only raises the watermark of the project: when it returns the watermark
  is the larger of the stored one and the epoch, and the watermarks of other projects stay.\<close>

theorem watermark_only_rises:
  assumes "record_watermark project n s = (Inr u, s')" "\<forall>k. env_settings_fault (st_env s) k = None"
  shows "stored_watermark s' project = (if n < 0 then stored_watermark s project else max n (stored_watermark s project)) \<and>
    (\<forall>p. p \<noteq> project \<longrightarrow> stored_watermark s' p = stored_watermark s p)"
proof (cases "n < 0")
  case True
  with assms(1) show ?thesis by (simp add: record_watermark_def)
next
  case False
  have read: "watermark project s = (Inr (stored_watermark s project), s\<lparr>st_settings_ops := Suc (st_settings_ops s)\<rparr>)"
    by (rule watermark_at [OF assms(2)])
  show ?thesis
  proof (cases "stored_watermark s project < n")
    case True
    have "st_settings s' = AList.update (watermark_key project) (int_str n) (st_settings s)"
      using assms False True
      by (auto simp: record_watermark_def handle_def seq_def read set_setting_def settings_fault_def)
    moreover have "watermark_key p = watermark_key project \<longleftrightarrow> p = project" for p by (simp add: watermark_key_def)
    ultimately show ?thesis
      using True False by (simp add: stored_watermark_def update_conv' parse_watermark_str)
  next
    case nochange: False
    then have "st_settings s' = st_settings s"
      using assms(1) False by (auto simp: record_watermark_def handle_def seq_def read)
    with nochange False show ?thesis by (simp add: stored_watermark_def)
  qed
qed

theorem watermark_only_rises_witness:
  "\<exists>s'. record_watermark ''p'' 3 (sample_store False) = (Inr (), s') \<and> stored_watermark s' ''p'' = 3"
proof -
  have "\<forall>k. env_settings_fault (st_env (sample_store False)) k = None" by (simp add: sample_env_def)
  moreover have "stored_watermark (sample_store False) ''p'' = - 1"
    by (simp add: stored_watermark_def sample_store_def parse_watermark_def)
  moreover have "\<exists>s'. record_watermark ''p'' 3 (sample_store False) = (Inr (), s')"
    by (simp add: record_watermark_def handle_def seq_def watermark_def get_setting_def settings_fault_def gets_def set_setting_def
        sample_store_def sample_env_def parse_watermark_def some_if_def)
  ultimately show ?thesis using watermark_only_rises [of "''p''" 3 "sample_store False" "()"] by auto
qed

text \<open>A synced node never reduces a rewound ledger in silence: when the ledger's epoch is below the
  stored watermark and no operator accepts it, the digest is refused with
  \<open>DENIED_EPOCH_REGRESSION\<close> and the watermark stays.\<close>

theorem rewound_ledger_refused:
  assumes "st_synced s" "\<not> env_accept_regression (st_env s)" "\<forall>k. env_settings_fault (st_env s) k = None"
    and "max_epoch (coord_events s) < stored_watermark s (env_project_id (st_env s))" "0 \<le> stored_watermark s (env_project_id (st_env s))"
  shows "\<exists>s'. digest limit s =
      (Inl (regression_denial (stored_watermark s (env_project_id (st_env s))) (max_epoch (coord_events s)) (env_project_id (st_env s))), s') \<and>
    st_settings s' = st_settings s \<and> st_db s' = st_db s"
  using assms
  by (simp add: digest_def gets_def seq_def Let_def check_epoch_regression_def watermark_at coord_events_def)

theorem rewound_ledger_refused_witness:
  "\<exists>s e s'. st_synced s \<and> stored_watermark s ''p'' = 5 \<and> digest None s = (Inl e, s') \<and> exn_code e = ''DENIED_EPOCH_REGRESSION''"
proof -
  define s where "s = sample_store True\<lparr>st_settings := [(watermark_key ''p'', int_str 5)]\<rparr>"
  have s: "st_synced s" "\<not> env_accept_regression (st_env s)" "\<forall>k. env_settings_fault (st_env s) k = None"
      "env_project_id (st_env s) = ''p''" "max_epoch (coord_events s) = - 1"
    by (simp_all add: s_def sample_store_def sample_env_def coord_events_def db_events_def)
  have five: "stored_watermark s ''p'' = 5"
    using parse_watermark_str [of 5] by (simp add: s_def stored_watermark_def)
  with rewound_ledger_refused [OF s(1-3), of None] s
  obtain s' where "digest None s = (Inl (regression_denial 5 (- 1) ''p''), s')" by auto
  with s(1) five show ?thesis by (auto simp: regression_denial_def)
qed

section \<open>Opening a store\<close>

lemma connect_attempts_outcome:
  "connect_attempts oc p n k =
     (case find (\<lambda>j. case oc j of Inr _ \<Rightarrow> True | Inl e \<Rightarrow> \<not> is_retryable e) [k..<k + n] of
        Some j \<Rightarrow> (case oc j of Inr c \<Rightarrow> Inr c | Inl e \<Rightarrow> Inl (connect_denial p e))
      | None \<Rightarrow> (case oc (k + n) of Inr c \<Rightarrow> Inr c | Inl e \<Rightarrow> Inl (connect_denial p e)))"
proof (induction n arbitrary: k)
  case 0
  then show ?case by (subst connect_attempts.simps) (auto split: sum.split)
next
  case (Suc n)
  have "[k..<k + Suc n] = k # [Suc k..<Suc k + n]" by (simp add: upt_conv_Cons)
  with Suc [of "Suc k"] show ?case by (subst connect_attempts.simps) (auto split: sum.split)
qed

text \<open>C39. Opening a store tries at most six times: the outcome is that of the first attempt, among the
  six, that connects or fails for good, and otherwise that of the sixth; a failure is reported as
  \<open>DENIED_FLEET_DB_CONNECT_RETRY_EXHAUSTED\<close> whichever attempt it was.\<close>

theorem connect_bounded:
  "fleet_connect oc p =
     (let last = (case find (\<lambda>j. case oc j of Inr _ \<Rightarrow> True | Inl e \<Rightarrow> \<not> is_retryable e) [1..<6] of Some j \<Rightarrow> j | None \<Rightarrow> 6)
      in case oc last of Inr c \<Rightarrow> Inr c | Inl e \<Rightarrow> Inl (connect_denial p e))"
proof -
  have "attempts = 6" by code_simp
  then show ?thesis
    by (simp add: fleet_connect_def connect_attempts_outcome Let_def del: upt.simps split: option.split)
qed

end
