(* ===== verification/Spec2Isabelle.thy ===== *)
theory Spec2Isabelle imports Writer_Apply Ledger_Verify Policy_Snapshot Reconcile_Adoption Mirror_Theorems Handoff_Theorems Dispatch_Theorems Lease_Laws Coord_Steps Store_Theorems Redaction_Clean Modes begin

text \<open>
  A verification development for Kaizen, the data plane and agent supervisor under
  \<open>src/kaizen_components\<close>. Modelled are the parts that decide something: the fleet ledger and what is
  computed from it (\<open>fleet/\<close>), the policy engine and the workspace-writer lease of the supervisor
  (\<open>orchestration/policy.py\<close>, \<open>orchestration/writer_lease.py\<close>), and the gates every durable write
  passes (\<open>schemas/\<close>, \<open>redaction.py\<close>, \<open>hashing.py\<close>, \<open>denials.py\<close>, \<open>db_retry.py\<close>). Definitions keep
  the names of the source, without a leading underscore.

  \<^bold>\<open>How the parts interact.\<close> Each node of a fleet has a store: an append-only table of coordination
  events, replicated through a hub by a sync engine, and a few local tables. Nothing else is shared.
  Who coordinates, who holds which lease, which conflict is open and in which state a dispatch is are
  \<^emph>\<open>projections\<close> of the event table that every node computes for itself. The operations of the engine
  read projections, decide, and append events through one write path, which validates and redacts the
  record, stamps it with a later time than any before, hashes and signs it, and writes it in one
  transaction under bounded retry. Handoff, dispatch, mirroring and reconciliation combine these
  operations with git. The supervisor asks the policy engine about every action of an agent, and lets
  one agent at a time write to a workspace, under a lease whose marker survives a crash in a file of
  the workspace.

  \<^bold>\<open>Theories and sources.\<close>

  \<^item> \<open>Kaizen_Prelude\<close>, \<open>Py_Value\<close>, \<open>Py_Text\<close>, \<open>Regex\<close>, \<open>Json\<close>, \<open>Iso_Time\<close>: what the source uses of Python.
    Values of payloads, text and path operations, the regular expressions its patterns are made of, the
    JSON text with the reader of it, and the date texts of the ledger (\<open>db.now\<close>, \<open>_parse_iso\<close>).
  \<^item> \<open>Denials\<close> (\<open>denials.py\<close>): the denial record, and programs as functions from a state to a result or
    an exception with the state after it. Its interface \<open>state_preorder\<close> proves once for all
    combinators that a reflexive and transitive relation between states survives a program.
  \<^item> \<open>Text_Limits\<close> (\<open>hashing.py\<close>), \<open>Schema_Validator\<close> and \<open>Schema_Registry\<close> (\<open>schemas/\<close>), \<open>Modes\<close>
    (\<open>orchestration/modes.py\<close>), \<open>Redaction\<close> and \<open>Redaction_Clean\<close> (\<open>redaction.py\<close>), \<open>Db_Retry\<close>
    (\<open>db_retry.py\<close>): the gates and the retry loop. What they accept is characterised, not only what
    they refuse.
  \<^item> \<open>Reducers\<close> and \<open>Reducer_Laws\<close> (\<open>fleet/reducers.py\<close>): the projections, and the interface
    \<open>ledger_projection\<close>, interpreted on each of them: order and duplication of rows do not matter.
  \<^item> \<open>Fleet_Store\<close>, \<open>Store_Laws\<close>, \<open>Gate_Laws\<close>, \<open>Ideal_Store\<close>, \<open>Fleet_Sync\<close>, \<open>Sync_Laws\<close>, \<open>Store_Theorems\<close>
    (\<open>fleet/store.py\<close>, \<open>fleet/sync.py\<close>, \<open>fleet/identity.py\<close>): the tables, the append with its three gates,
    the write transaction, the watermark and the sync guard. An append adds one later row or changes
    nothing; a transaction is atomic and never stays open; on a store without faults an append returns.
  \<^item> \<open>Coordination\<close>, \<open>Coord_Growth\<close>, \<open>Coord_Laws\<close>, \<open>Coord_Theorems\<close>, \<open>Coord_Steps\<close>, \<open>Lease_Laws\<close>
    (\<open>fleet/coordination.py\<close>): the coordinator role and the leases. \<open>Coord_Growth\<close> states the contract
    of an operation as the interface \<open>ledger_operation\<close>, interpreted on all of them; \<open>Coord_Steps\<close> has runs
    of operations as a step relation, with the invariants of every run, among them that fencing epochs
    are unique off the hub.
  \<^item> \<open>Git_Runner\<close>, \<open>Dispatch_Remote\<close>, \<open>Dispatch_Laws\<close>, \<open>Dispatch_Theorems\<close> (\<open>fleet/dispatch_remote.py\<close>): the
    dispatch operations refine a lifecycle with one state per dispatch.
  \<^item> \<open>Handoff\<close>, \<open>Handoff_Laws\<close>, \<open>Handoff_Theorems\<close> (\<open>HandoffEngine\<close> of \<open>fleet/coordination.py\<close>): the
    interface \<open>handoff_relation\<close> lists what each step must keep for the whole handoff to keep it.
  \<^item> \<open>Git_Transport\<close>, \<open>Mirror\<close>, \<open>Mirror_Theorems\<close> (\<open>fleet/mirror.py\<close>): remotes that are never contacted,
    and the only move an acquisition makes.
  \<^item> \<open>Reconcile\<close>, \<open>Sample_Ledgers\<close>, \<open>Reconcile_Theorems\<close>, \<open>Reconcile_Adoption\<close> (\<open>fleet/reconcile.py\<close>):
    the orphan sweep and the adoption of isolated work.
  \<^item> \<open>Ledger_Verify\<close> (\<open>fleet/ledger_verify.py\<close>): the audit of hashes and signatures.
  \<^item> \<open>Policy_Paths\<close>, \<open>Policy\<close>, \<open>Policy_Theorems\<close>, \<open>Policy_Snapshot\<close> (\<open>orchestration/policy.py\<close>): canonical
    paths, the shell scan, the invariants, modes, rules and the cache of decisions, and the snapshots a
    session is pinned to. \<open>decide\<close> is characterised in full on a fresh engine; a theorem shows where
    the cache departs from that.
  \<^item> \<open>Workspace_Files\<close> (the lexical part of \<open>orchestration/workspace_path_authority.py\<close>), \<open>Owned_Runs\<close>,
    \<open>Writer_Lease\<close>, \<open>Writer_Recovery\<close> (\<open>orchestration/writer_lease.py\<close>): the registry, the claim and
    its marker, the journal of an apply, and reconciliation. \<open>Writer_Theorems\<close> has the invariants of
    runs, \<open>Writer_Files\<close> what happens to files, \<open>Writer_Restart\<close> that a marker written is the marker read
    by the next daemon, \<open>Writer_Safety\<close> and \<open>Writer_Apply\<close> the properties.

  \<^bold>\<open>State.\<close> A store is a record of its tables, the settings, the identity of the node, the clock and the
  faults still to come; an operation is a function of it that also returns the state it leaves when it
  raises. Operations that use git act on a pair of the store and a world. The lease is a record of the
  fields of the object with the workspace its registry lies in. Locks make operations of threads
  interleave as wholes, so a run is a list of operations.

  \<^bold>\<open>Parameters.\<close> Not in the repository, and therefore arguments or fields of a state: SHA-256 and
  Ed25519, the sync engine, the git runner, the tailnet probe, the optional jsonschema package, the
  process table, the clock and the random tokens. Failing transactions and the files of a workspace
  follow a script of faults and disturbances, which theorems quantify over: a disturbance may rewrite any
  file before any access and may make the access fail. A theorem that needs more says so: \<open>quiet\<close> is a
  workspace in which nobody else writes, while accesses may still fail.

  \<^bold>\<open>Conventions and bounds.\<close> Integers are those of Python, without a bound. Texts of the program are byte
  strings in UTF-8, so a limit on characters counts the bytes that begin one; case folding and the
  character classes of patterns are those of ASCII. Paths of the writer lease are those of a POSIX host,
  while the policy engine handles both kinds, as its code does. The retry loop makes six attempts, the
  number in the source. Loops that are not structural are \<open>function\<close>s that terminate by the length of
  their input; searching for a pattern uses as fuel the length of the text, and iterating one drops
  matches that consume nothing, so that each round shortens what is left and the fuel cannot run out.

  \<^bold>\<open>Not modelled.\<close> The supervisor's processes, sockets and threads, the adapters of vendors, the tool gateway
  and the approvals broker, the application of proposals apart from its durable journal, the session
  tables, hooks and telemetry, and the command line: they move data between the modelled parts, the
  database and other programs. Windows forms of the paths of the writer lease, the directory handles
  of the path authority, and the DDL of tables the fleet does not use are left out too, as are the
  scripts beside the program (prompt builders, setup, support scripts).
\<close>

end
